(* ===== verification/Prelude.thy ===== *)
theory Prelude
  imports Main "HOL-Library.Word" "HOL-Library.Char_ord" "HOL-Library.List_Lexorder"
begin

text \<open>
  Shared vocabulary of the development: the machine integers, strings and ordered maps of the
  Rust sources, the fallible state-passing actions every stateful component is written in, and
  the weakest-precondition calculus the component proofs run on.

  \<^item> A Rust \<^verbatim>\<open>String\<close> is the list of its UTF-8 bytes, one \<^typ>\<open>char\<close> per byte, so
    \<^const>\<open>length\<close> is Rust's \<^verbatim>\<open>len()\<close> and the order on strings is the bytewise one.
  \<^item> A \<^verbatim>\<open>BTreeMap\<close> is its association list in key order.
  \<^item> A method that can fail is an \<^emph>\<open>action\<close>: a function from the state to an error or
    a value, together with the state after the call.
\<close>

named_theorems wp_simps \<open>weakest preconditions of the action combinators\<close>
named_theorems act_simps \<open>running the action combinators\<close>


section \<open>Machine integers\<close>

type_synonym u8 = "8 word"
type_synonym u16 = "16 word"
type_synonym u32 = "32 word"
type_synonym u64 = "64 word"

text \<open>A \<^verbatim>\<open>Uuid\<close> is 128 bits; its derived order is the numeric one.\<close>

type_synonym uuid = "128 word"
type_synonym bytes = "u8 list"

definition u64_max :: u64 where
  "u64_max = 0xFFFFFFFFFFFFFFFF"

definition saturating_add :: "u64 \<Rightarrow> u64 \<Rightarrow> u64" where
  "saturating_add a b = (if unat a + unat b < 2 ^ 64 then a + b else u64_max)"

lemma unat_u64_less: "unat (x :: u64) < 18446744073709551616"
  using unsigned_less [of x] by simp

lemma unat_u64_max: "unat u64_max = 18446744073709551615"
  by (simp add: u64_max_def)

lemma le_u64_max: "x \<le> u64_max"
  using unat_u64_less [of x] by (simp add: word_le_nat_alt unat_u64_max)

lemma unat_saturating_add:
  "unat (saturating_add a b) = min (unat a + unat b) 18446744073709551615"
proof (cases "unat a + unat b < 2 ^ 64")
  case True
  then have "unat (a + b) = unat a + unat b"
    by (simp add: unat_word_ariths)
  with True show ?thesis by (simp add: saturating_add_def)
next
  case False
  then show ?thesis by (simp add: saturating_add_def unat_u64_max)
qed

lemma saturating_add_one_le: "x \<le> saturating_add x 1"
  using unat_u64_less [of x] by (simp add: word_le_nat_alt unat_saturating_add)

lemma saturating_add_one_less:
  assumes "x \<noteq> u64_max"
  shows "x < saturating_add x 1"
proof -
  have "unat x \<noteq> 18446744073709551615"
    using assms unat_u64_max by (metis word_unat_eq_iff)
  with unat_u64_less [of x] show ?thesis
    by (simp add: word_less_nat_alt unat_saturating_add)
qed


section \<open>Strings and UTF-8\<close>

text \<open>\<^verbatim>\<open>as_bytes\<close> and its inverse on byte lists.\<close>

definition byte_of_char :: "char \<Rightarrow> u8" where
  "byte_of_char c = of_nat (of_char c)"

definition char_of_byte :: "u8 \<Rightarrow> char" where
  "char_of_byte b = char_of (unat b)"

definition as_bytes :: "string \<Rightarrow> bytes" where
  "as_bytes s = map byte_of_char s"

definition bytes_to_str :: "bytes \<Rightarrow> string" where
  "bytes_to_str bs = map char_of_byte bs"

lemma unat_byte_of_char: "unat (byte_of_char c) = of_char c"
  using nat_of_char_less_256 [of c] by (simp add: byte_of_char_def unat_of_nat)

lemma unat_u8_less: "unat (b :: u8) < 256"
  using unsigned_less [of b] by simp

lemma char_of_byte_of_char [simp]: "char_of_byte (byte_of_char c) = c"
  by (simp add: char_of_byte_def unat_byte_of_char)

lemma byte_of_char_of_byte [simp]: "byte_of_char (char_of_byte b) = b"
  using unat_u8_less [of b] by (simp add: byte_of_char_def char_of_byte_def)

lemma bytes_to_str_as_bytes [simp]: "bytes_to_str (as_bytes s) = s"
  by (simp add: bytes_to_str_def as_bytes_def comp_def)

lemma as_bytes_bytes_to_str [simp]: "as_bytes (bytes_to_str bs) = bs"
  by (simp add: bytes_to_str_def as_bytes_def comp_def)

lemma as_bytes_inj [simp]: "as_bytes s = as_bytes t \<longleftrightarrow> s = t"
  by (metis bytes_to_str_as_bytes)

lemma length_as_bytes [simp]: "length (as_bytes s) = length s"
  by (simp add: as_bytes_def)

lemma length_bytes_to_str [simp]: "length (bytes_to_str bs) = length bs"
  by (simp add: bytes_to_str_def)

text \<open>
  \<^verbatim>\<open>String::from_utf8\<close>: well-formed UTF-8 (no overlong forms, no surrogates, at most
  U+10FFFF), read off the lead byte and its continuation bytes.
\<close>

definition utf8_cont :: "u8 \<Rightarrow> bool" where
  "utf8_cont b \<longleftrightarrow> 0x80 \<le> b \<and> b \<le> 0xBF"

definition utf8_second3 :: "u8 \<Rightarrow> u8 \<Rightarrow> bool" where
  "utf8_second3 b c \<longleftrightarrow>
     (if b = 0xE0 then 0xA0 \<le> c \<and> c \<le> 0xBF
      else if b = 0xED then 0x80 \<le> c \<and> c \<le> 0x9F
      else utf8_cont c)"

definition utf8_second4 :: "u8 \<Rightarrow> u8 \<Rightarrow> bool" where
  "utf8_second4 b c \<longleftrightarrow>
     (if b = 0xF0 then 0x90 \<le> c \<and> c \<le> 0xBF
      else if b = 0xF4 then 0x80 \<le> c \<and> c \<le> 0x8F
      else utf8_cont c)"

fun utf8_valid :: "bytes \<Rightarrow> bool" where
  "utf8_valid [] = True"
| "utf8_valid (b # bs) =
     (if b < 0x80 then utf8_valid bs
      else if 0xC2 \<le> b \<and> b \<le> 0xDF then
        (case bs of c # r \<Rightarrow> utf8_cont c \<and> utf8_valid r | _ \<Rightarrow> False)
      else if 0xE0 \<le> b \<and> b \<le> 0xEF then
        (case bs of c # d # r \<Rightarrow> utf8_second3 b c \<and> utf8_cont d \<and> utf8_valid r | _ \<Rightarrow> False)
      else if 0xF0 \<le> b \<and> b \<le> 0xF4 then
        (case bs of c # d # e # r \<Rightarrow>
           utf8_second4 b c \<and> utf8_cont d \<and> utf8_cont e \<and> utf8_valid r | _ \<Rightarrow> False)
      else False)"

definition from_utf8 :: "bytes \<Rightarrow> string option" where
  "from_utf8 bs = (if utf8_valid bs then Some (bytes_to_str bs) else None)"

text \<open>The values a Rust \<^verbatim>\<open>String\<close> can take.\<close>

definition is_utf8 :: "string \<Rightarrow> bool" where
  "is_utf8 s = utf8_valid (as_bytes s)"

lemma from_utf8_as_bytes: "from_utf8 (as_bytes s) = (if is_utf8 s then Some s else None)"
  by (simp add: from_utf8_def is_utf8_def)

lemma from_utf8_SomeD: "from_utf8 bs = Some s \<Longrightarrow> is_utf8 s \<and> as_bytes s = bs"
  by (auto simp: from_utf8_def is_utf8_def split: if_splits)


subsection \<open>The string functions the sources call\<close>

definition strip_prefix :: "'a list \<Rightarrow> 'a list \<Rightarrow> 'a list option" where
  "strip_prefix p s = (if take (length p) s = p then Some (drop (length p) s) else None)"

definition starts_with :: "'a list \<Rightarrow> 'a list \<Rightarrow> bool" where
  "starts_with p s = (take (length p) s = p)"

fun split_char :: "char \<Rightarrow> string \<Rightarrow> string list" where
  "split_char c [] = [[]]"
| "split_char c (x # xs) =
     (if x = c then [] # split_char c xs
      else (case split_char c xs of [] \<Rightarrow> [[x]] | p # ps \<Rightarrow> (x # p) # ps))"

fun contains_str :: "string \<Rightarrow> string \<Rightarrow> bool" where
  "contains_str p [] = (p = [])"
| "contains_str p (x # xs) = (starts_with p (x # xs) \<or> contains_str p xs)"

definition is_ascii_digit :: "char \<Rightarrow> bool" where
  "is_ascii_digit c = (CHR ''0'' \<le> c \<and> c \<le> CHR ''9'')"

definition to_ascii_lower :: "char \<Rightarrow> char" where
  "to_ascii_lower c = (if CHR ''A'' \<le> c \<and> c \<le> CHR ''Z'' then char_of (of_char c + 32 :: nat) else c)"

text \<open>Decimal rendering of a \<^verbatim>\<open>usize\<close>.\<close>

fun show_nat :: "nat \<Rightarrow> string" where
  "show_nat n =
     (if n < 10 then [char_of (48 + n)] else show_nat (n div 10) @ [char_of (48 + n mod 10)])"

declare show_nat.simps [simp del]

lemma strip_prefix_append [simp]: "strip_prefix p (p @ s) = Some s"
  by (simp add: strip_prefix_def)

lemma strip_prefix_Some: "strip_prefix p s = Some r \<longleftrightarrow> s = p @ r"
  by (auto simp: strip_prefix_def) (metis append_take_drop_id)

lemma starts_with_append [simp]: "starts_with p (p @ s)"
  by (simp add: starts_with_def)

lemma starts_with_iff: "starts_with p s \<longleftrightarrow> (\<exists>r. s = p @ r)"
  by (auto simp: starts_with_def) (metis append_take_drop_id)

lemma split_char_no_sep: "c \<notin> set s \<Longrightarrow> split_char c s = [s]"
  by (induction s) auto

lemma split_char_append:
  "c \<notin> set s \<Longrightarrow> split_char c (s @ c # r) = s # split_char c r"
  by (induction s) auto

lemma split_char_ne [simp]: "split_char c s \<noteq> []"
  by (induction s) (auto split: list.splits)

text \<open>Substring search across a run of characters the pattern does not contain.\<close>

lemma starts_with_cut:
  assumes "x \<notin> set p"
  shows "starts_with p (a @ x # b) \<longleftrightarrow> starts_with p a"
proof
  assume "starts_with p (a @ x # b)"
  then obtain r where "a @ x # b = p @ r" by (auto simp: starts_with_iff)
  with assms show "starts_with p a"
    by (auto simp: append_eq_append_conv2 starts_with_iff Cons_eq_append_conv)
next
  assume "starts_with p a"
  then show "starts_with p (a @ x # b)" by (auto simp: starts_with_iff)
qed

lemma contains_str_cut:
  assumes "p \<noteq> []" and "x \<notin> set p"
  shows "contains_str p (a @ x # b) \<longleftrightarrow> contains_str p a \<or> contains_str p b"
proof (induction a)
  case Nil
  have "\<not> starts_with p (x # b)"
    using starts_with_cut [OF assms(2), of "[]" b] assms(1) by (auto simp: starts_with_def)
  with assms show ?case by simp
next
  case (Cons y a)
  with starts_with_cut [OF assms(2), of "y # a" b] show ?case by auto
qed

lemma contains_str_skip:
  "p \<noteq> [] \<Longrightarrow> set d \<inter> set p = {} \<Longrightarrow> contains_str p (d @ b) \<longleftrightarrow> contains_str p b"
proof (induction d)
  case Nil
  then show ?case by simp
next
  case (Cons x d)
  then show ?case using contains_str_cut [of p x "[]" "d @ b"] by simp
qed

lemma contains_str_middle:
  assumes "p \<noteq> []" and "d \<noteq> []" and "set d \<inter> set p = {}"
  shows "contains_str p (a @ d @ b) \<longleftrightarrow> contains_str p a \<or> contains_str p b"
proof -
  obtain x d' where d: "d = x # d'" using assms(2) by (cases d) auto
  then show ?thesis
    using contains_str_cut [of p x a "d' @ b"] contains_str_skip [of p d' b] assms by simp
qed

lemma show_nat_ne [simp]: "show_nat n \<noteq> []"
  by (subst show_nat.simps) simp

lemma show_nat_digits: "set (show_nat n) \<subseteq> {char_of (48 + d) |d. d < (10::nat)}"
proof (induction n rule: show_nat.induct)
  case (1 n)
  show ?case
  proof (cases "n < 10")
    case True
    then show ?thesis by (subst show_nat.simps) (auto intro!: exI [of _ n])
  next
    case False
    with "1.IH" have "set (show_nat (n div 10)) \<subseteq> {char_of (48 + d) |d. d < (10::nat)}" by simp
    moreover have "n mod 10 < 10" by simp
    ultimately show ?thesis
      using False by (subst show_nat.simps) (auto intro!: exI [of _ "n mod 10"])
  qed
qed

lemma show_nat_no_letter:
  assumes "57 < (of_char c :: nat)"
  shows "c \<notin> set (show_nat n)"
proof
  assume "c \<in> set (show_nat n)"
  then obtain d where "d < (10::nat)" and "c = char_of (48 + d)" using show_nat_digits by blast
  then have "of_char c = 48 + d" by simp
  with assms \<open>d < 10\<close> show False by simp
qed

text \<open>Joining the parts with the separator gives the string back, so splitting is injective.\<close>

fun join_char :: "char \<Rightarrow> string list \<Rightarrow> string" where
  "join_char c [] = []"
| "join_char c [p] = p"
| "join_char c (p # ps) = p @ c # join_char c ps"

lemma join_char_Cons: "ps \<noteq> [] \<Longrightarrow> join_char c (p # ps) = p @ c # join_char c ps"
  by (cases ps) auto

lemma join_split_char: "join_char c (split_char c s) = s"
proof (induction s)
  case Nil
  then show ?case by simp
next
  case (Cons x xs)
  then show ?case
    by (cases "split_char c xs"; cases "tl (split_char c xs)") (auto simp: join_char_Cons)
qed


section \<open>Ordered maps\<close>

text \<open>
  \<^verbatim>\<open>BTreeMap<K, V>\<close> as its entries in key order: \<open>get\<close> is \<^const>\<open>map_of\<close>, iteration is
  the list itself, and the representation invariant says the keys strictly increase.
\<close>

type_synonym ('k, 'v) btree = "('k \<times> 'v) list"

fun bt_insert :: "'k::linorder \<Rightarrow> 'v \<Rightarrow> ('k, 'v) btree \<Rightarrow> ('k, 'v) btree" where
  "bt_insert k v [] = [(k, v)]"
| "bt_insert k v ((a, b) # m) =
     (if k < a then (k, v) # (a, b) # m
      else if k = a then (k, v) # m
      else (a, b) # bt_insert k v m)"

definition bt_remove :: "'k \<Rightarrow> ('k, 'v) btree \<Rightarrow> ('k, 'v) btree" where
  "bt_remove k m = filter (\<lambda>(a, _). a \<noteq> k) m"

definition bt_retain :: "('k \<Rightarrow> 'v \<Rightarrow> bool) \<Rightarrow> ('k, 'v) btree \<Rightarrow> ('k, 'v) btree" where
  "bt_retain p m = filter (\<lambda>(k, v). p k v) m"

definition bt_keys_sorted :: "('k::linorder, 'v) btree \<Rightarrow> bool" where
  "bt_keys_sorted m = sorted_wrt (<) (map fst m)"

lemma map_of_bt_insert [simp]: "map_of (bt_insert k v m) = (map_of m)(k \<mapsto> v)"
  by (induction k v m rule: bt_insert.induct) auto

lemma map_of_bt_remove [simp]: "map_of (bt_remove k m) = (map_of m)(k := None)"
  by (induction m) (auto simp: bt_remove_def)

lemma set_bt_insert_keys: "fst ` set (bt_insert k v m) = insert k (fst ` set m)"
  by (induction k v m rule: bt_insert.induct) auto

lemma bt_keys_sorted_Nil [simp]: "bt_keys_sorted []"
  by (simp add: bt_keys_sorted_def)

lemma bt_keys_sorted_Cons:
  "bt_keys_sorted (p # m) \<longleftrightarrow> (\<forall>k \<in> fst ` set m. fst p < k) \<and> bt_keys_sorted m"
  by (auto simp: bt_keys_sorted_def)

lemma bt_keys_sorted_insert [simp]: "bt_keys_sorted m \<Longrightarrow> bt_keys_sorted (bt_insert k v m)"
proof (induction k v m rule: bt_insert.induct)
  case (1 k v)
  then show ?case by (simp add: bt_keys_sorted_def)
next
  case (2 k v a b m)
  then show ?case by (auto simp: bt_keys_sorted_Cons set_bt_insert_keys)
qed

lemma bt_keys_sorted_filter: "bt_keys_sorted m \<Longrightarrow> bt_keys_sorted (filter p m)"
  by (induction m) (auto simp: bt_keys_sorted_Cons)

lemma bt_keys_sorted_remove [simp]: "bt_keys_sorted m \<Longrightarrow> bt_keys_sorted (bt_remove k m)"
  by (simp add: bt_remove_def bt_keys_sorted_filter)

lemma bt_keys_sorted_retain [simp]: "bt_keys_sorted m \<Longrightarrow> bt_keys_sorted (bt_retain p m)"
  by (simp add: bt_retain_def bt_keys_sorted_filter)

lemma bt_keys_distinct: "bt_keys_sorted m \<Longrightarrow> distinct (map fst m)"
  by (simp add: bt_keys_sorted_def strict_sorted_iff)

lemma bt_mem_iff: "bt_keys_sorted m \<Longrightarrow> (k, v) \<in> set m \<longleftrightarrow> map_of m k = Some v"
  by (simp add: bt_keys_distinct)

lemma bt_get_retain:
  "bt_keys_sorted m \<Longrightarrow>
   map_of (bt_retain p m) k = (case map_of m k of Some v \<Rightarrow> if p k v then Some v else None | None \<Rightarrow> None)"
proof (induction m)
  case Nil
  then show ?case by (simp add: bt_retain_def)
next
  case (Cons q m)
  obtain a b where q: "q = (a, b)" by force
  have "map_of m a = None"
    using Cons.prems q by (force simp: bt_keys_sorted_Cons map_of_eq_None_iff)
  moreover have "map_of (bt_retain p m) k =
      (case map_of m k of Some v \<Rightarrow> if p k v then Some v else None | None \<Rightarrow> None)"
    using Cons by (simp add: bt_keys_sorted_Cons)
  ultimately show ?case using q by (auto simp: bt_retain_def)
qed


section \<open>Results\<close>

text \<open>\<^verbatim>\<open>Result<T, E>\<close> is the sum with the error on the left; these are its combinators.\<close>

definition res_bind :: "'e + 'a \<Rightarrow> ('a \<Rightarrow> 'e + 'b) \<Rightarrow> 'e + 'b" where
  "res_bind r f = (case r of Inl e \<Rightarrow> Inl e | Inr x \<Rightarrow> f x)"

definition map_err :: "('e \<Rightarrow> 'f) \<Rightarrow> 'e + 'a \<Rightarrow> 'f + 'a" where
  "map_err f r = (case r of Inl e \<Rightarrow> Inl (f e) | Inr x \<Rightarrow> Inr x)"

definition ok_or :: "'e \<Rightarrow> 'a option \<Rightarrow> 'e + 'a" where
  "ok_or e v = (case v of None \<Rightarrow> Inl e | Some x \<Rightarrow> Inr x)"

definition is_ok :: "'e + 'a \<Rightarrow> bool" where
  "is_ok r = (case r of Inl _ \<Rightarrow> False | Inr _ \<Rightarrow> True)"

lemma res_bind_simps [simp]: "res_bind (Inl e) f = Inl e" "res_bind (Inr x) f = f x"
  by (simp_all add: res_bind_def)

lemma res_bind_Inr: "res_bind r f = Inr y \<longleftrightarrow> (\<exists>x. r = Inr x \<and> f x = Inr y)"
  by (cases r) auto

lemma map_err_simps [simp]: "map_err f (Inl e) = Inl (f e)" "map_err f (Inr x) = Inr x"
  by (simp_all add: map_err_def)

lemma map_err_Inr [simp]: "map_err f r = Inr x \<longleftrightarrow> r = Inr x"
  by (cases r) auto

lemma ok_or_simps [simp]: "ok_or e None = Inl e" "ok_or e (Some x) = Inr x"
  by (simp_all add: ok_or_def)

lemma ok_or_Inr [simp]: "ok_or e v = Inr x \<longleftrightarrow> v = Some x"
  by (cases v) auto

lemma is_ok_simps [simp]: "\<not> is_ok (Inl e)" "is_ok (Inr x)"
  by (simp_all add: is_ok_def)

lemma is_ok_iff: "is_ok r \<longleftrightarrow> (\<exists>x. r = Inr x)"
  by (cases r) auto

lemma is_ok_map_err [simp]: "is_ok (map_err f r) = is_ok r"
  by (cases r) auto

lemma is_ok_bind: "is_ok (res_bind r f) \<longleftrightarrow> (\<exists>x. r = Inr x \<and> is_ok (f x))"
  by (cases r) auto

lemma is_ok_bind_unit [simp]: "is_ok (res_bind r (\<lambda>_. t)) \<longleftrightarrow> is_ok r \<and> is_ok t"
  by (cases r) auto

lemma unit_result_ok: "is_ok r \<longleftrightarrow> r = Inr ()"
  by (cases r) auto


section \<open>Actions\<close>

text \<open>
  A method with a receiver it may change and a \<^verbatim>\<open>Result\<close> it returns. \<open>act_bind\<close> is the
  \<^verbatim>\<open>?\<close> operator, \<open>act_try\<close> inspects a result instead of propagating its error, and
  \<open>act_iter\<close> is a \<^verbatim>\<open>for\<close> loop whose body may leave early with an error.
\<close>

type_synonym ('s, 'e, 'a) act = "'s \<Rightarrow> ('e + 'a) \<times> 's"

definition act_return :: "'a \<Rightarrow> ('s, 'e, 'a) act" where
  "act_return x = (\<lambda>s. (Inr x, s))"

definition act_throw :: "'e \<Rightarrow> ('s, 'e, 'a) act" where
  "act_throw e = (\<lambda>s. (Inl e, s))"

definition act_lift :: "'e + 'a \<Rightarrow> ('s, 'e, 'a) act" where
  "act_lift r = (\<lambda>s. (r, s))"

definition act_bind :: "('s, 'e, 'a) act \<Rightarrow> ('a \<Rightarrow> ('s, 'e, 'b) act) \<Rightarrow> ('s, 'e, 'b) act" where
  "act_bind m f = (\<lambda>s. case m s of (Inl e, s') \<Rightarrow> (Inl e, s') | (Inr x, s') \<Rightarrow> f x s')"

definition act_try :: "('s, 'e, 'a) act \<Rightarrow> ('s, 'f, 'e + 'a) act" where
  "act_try m = (\<lambda>s. case m s of (r, s') \<Rightarrow> (Inr r, s'))"

definition act_map_err :: "('e \<Rightarrow> 'f) \<Rightarrow> ('s, 'e, 'a) act \<Rightarrow> ('s, 'f, 'a) act" where
  "act_map_err f m = (\<lambda>s. case m s of (r, s') \<Rightarrow> (map_err f r, s'))"

text \<open>Calls that only look at the state, that cannot fail, or both.\<close>

definition look :: "('s \<Rightarrow> 'e + 'a) \<Rightarrow> ('s, 'e, 'a) act" where
  "look f s = (f s, s)"

definition effect :: "('w \<Rightarrow> 'a \<times> 'w) \<Rightarrow> ('w, 'e, 'a) act" where
  "effect f w = (case f w of (x, w') \<Rightarrow> (Inr x, w'))"

definition peek :: "('s \<Rightarrow> 'a) \<Rightarrow> ('s, 'e, 'a) act" where
  "peek f s = (Inr (f s), s)"

fun act_iter :: "('x \<Rightarrow> ('s, 'e, unit) act) \<Rightarrow> 'x list \<Rightarrow> ('s, 'e, unit) act" where
  "act_iter f [] = act_return ()"
| "act_iter f (x # xs) = act_bind (f x) (\<lambda>_. act_iter f xs)"

fun act_collect :: "('x \<Rightarrow> ('s, 'e, 'y list) act) \<Rightarrow> 'x list \<Rightarrow> ('s, 'e, 'y list) act" where
  "act_collect f [] = act_return []"
| "act_collect f (x # xs) =
     act_bind (f x) (\<lambda>ys. act_bind (act_collect f xs) (\<lambda>zs. act_return (ys @ zs)))"

lemma act_return_run [act_simps]: "act_return x s = (Inr x, s)"
  by (simp add: act_return_def)

lemma act_throw_run [act_simps]: "act_throw e s = (Inl e, s)"
  by (simp add: act_throw_def)

lemma act_lift_run [act_simps]: "act_lift r s = (r, s)"
  by (simp add: act_lift_def)

lemma act_bind_run [act_simps]:
  "act_bind m f s = (case m s of (Inl e, s') \<Rightarrow> (Inl e, s') | (Inr x, s') \<Rightarrow> f x s')"
  by (simp add: act_bind_def)

lemma act_try_run [act_simps]: "act_try m s = (Inr (fst (m s)), snd (m s))"
  by (simp add: act_try_def split: prod.splits)

lemma act_map_err_run [act_simps]: "act_map_err f m s = (map_err f (fst (m s)), snd (m s))"
  by (simp add: act_map_err_def split: prod.splits)


subsection \<open>Weakest preconditions\<close>

definition wp :: "('s, 'e, 'a) act \<Rightarrow> ('e + 'a \<Rightarrow> 's \<Rightarrow> bool) \<Rightarrow> 's \<Rightarrow> bool" where
  "wp m Q s = Q (fst (m s)) (snd (m s))"

lemma wp_return [wp_simps]: "wp (act_return x) Q s = Q (Inr x) s"
  by (simp add: wp_def act_simps)

lemma wp_throw [wp_simps]: "wp (act_throw e) Q s = Q (Inl e) s"
  by (simp add: wp_def act_simps)

lemma wp_lift [wp_simps]: "wp (act_lift r) Q s = Q r s"
  by (simp add: wp_def act_simps)

lemma wp_bind [wp_simps]:
  "wp (act_bind m f) Q s =
   wp m (\<lambda>r s'. case r of Inl e \<Rightarrow> Q (Inl e) s' | Inr x \<Rightarrow> wp (f x) Q s') s"
  by (simp add: wp_def act_simps split: prod.splits sum.splits)

lemma wp_try [wp_simps]: "wp (act_try m) Q s = wp m (\<lambda>r s'. Q (Inr r) s') s"
  by (simp add: wp_def act_simps)

lemma wp_map_err [wp_simps]: "wp (act_map_err f m) Q s = wp m (\<lambda>r s'. Q (map_err f r) s') s"
  by (simp add: wp_def act_simps)

lemma wp_look [wp_simps]: "wp (look f) Q s = Q (f s) s"
  by (simp add: wp_def look_def)

lemma wp_peek [wp_simps]: "wp (peek f) Q s = Q (Inr (f s)) s"
  by (simp add: wp_def peek_def)

lemma wp_mono: "wp m Q s \<Longrightarrow> (\<And>r s'. Q r s' \<Longrightarrow> R r s') \<Longrightarrow> wp m R s"
  by (simp add: wp_def)

lemma wp_conj: "wp m Q s \<Longrightarrow> wp m R s \<Longrightarrow> wp m (\<lambda>r s'. Q r s' \<and> R r s') s"
  by (simp add: wp_def)

lemma wpD: "wp m Q s \<Longrightarrow> m s = (r, s') \<Longrightarrow> Q r s'"
  by (simp add: wp_def)

lemma wpI: "(\<And>r s'. m s = (r, s') \<Longrightarrow> Q r s') \<Longrightarrow> wp m Q s"
  by (simp add: wp_def)

lemma wp_bindI:
  assumes "wp m P s" and "\<And>e t. P (Inl e) t \<Longrightarrow> Q (Inl e) t"
    and "\<And>x t. P (Inr x) t \<Longrightarrow> wp (f x) Q t"
  shows "wp (act_bind m f) Q s"
  using assms by (auto simp: wp_def act_simps split: prod.splits sum.splits)

lemma wp_case_sum [wp_simps]:
  "wp (case r of Inl e \<Rightarrow> f e | Inr x \<Rightarrow> g x) Q s =
   (case r of Inl e \<Rightarrow> wp (f e) Q s | Inr x \<Rightarrow> wp (g x) Q s)"
  by (simp split: sum.splits)

lemma wp_case_option [wp_simps]:
  "wp (case v of None \<Rightarrow> f | Some x \<Rightarrow> g x) Q s =
   (case v of None \<Rightarrow> wp f Q s | Some x \<Rightarrow> wp (g x) Q s)"
  by (simp split: option.splits)

lemma wp_if [wp_simps]: "wp (if c then f else g) Q s = (if c then wp f Q s else wp g Q s)"
  by simp

text \<open>A loop keeps whatever its body keeps.\<close>

lemma wp_iter_inv:
  assumes "\<And>x s. x \<in> set xs \<Longrightarrow> I s \<Longrightarrow> wp (f x) (\<lambda>_. I) s" and "I s"
  shows "wp (act_iter f xs) (\<lambda>_. I) s"
  using assms
proof (induction xs arbitrary: s)
  case Nil
  then show ?case by (simp add: wp_simps)
next
  case (Cons x xs)
  have IH: "wp (act_iter f xs) (\<lambda>_. I) t" if "I t" for t
    using Cons that by simp
  have "wp (f x) (\<lambda>_. I) s" using Cons.prems by simp
  then show ?case
    by (simp add: wp_simps) (erule wp_mono, auto split: sum.splits intro: IH)
qed

text \<open>A loop whose body establishes \<open>P\<close> for its element and keeps what earlier rounds established.\<close>

lemma wp_iter_all:
  assumes "\<And>x t. x \<in> set xs \<Longrightarrow> I t \<Longrightarrow>
      wp (f x) (\<lambda>r t'. I t' \<and> (\<forall>y. P y t \<longrightarrow> P y t') \<and> (is_ok r \<longrightarrow> P x t') \<and> (c \<longrightarrow> is_ok r)) t"
    and "I s"
  shows "wp (act_iter f xs)
    (\<lambda>r t'. I t' \<and> (\<forall>y. P y s \<longrightarrow> P y t') \<and> (is_ok r \<longrightarrow> (\<forall>x \<in> set xs. P x t')) \<and> (c \<longrightarrow> is_ok r)) s"
  using assms
proof (induction xs arbitrary: s)
  case Nil
  then show ?case by (simp add: wp_simps)
next
  case (Cons x xs)
  have "wp (f x) (\<lambda>r t'. I t' \<and> (\<forall>y. P y s \<longrightarrow> P y t') \<and> (is_ok r \<longrightarrow> P x t') \<and> (c \<longrightarrow> is_ok r)) s"
    using Cons.prems by simp
  then show ?case
    unfolding act_iter.simps
  proof (rule wp_bindI, goal_cases err ok)
    case (ok v t)
    have "wp (act_iter f xs) (\<lambda>r t'. I t' \<and> (\<forall>y. P y t \<longrightarrow> P y t') \<and>
        (is_ok r \<longrightarrow> (\<forall>x \<in> set xs. P x t')) \<and> (c \<longrightarrow> is_ok r)) t"
      by (rule Cons.IH) (use ok Cons.prems in auto)
    then show ?case by (rule wp_mono) (use ok in auto)
  qed auto
qed

lemma act_bind_lift: "act_bind (act_lift (Inr x)) f = f x"
  by (rule ext) (simp add: act_simps)

lemma wp_collect:
  assumes "\<And>x t. I t \<Longrightarrow> wp (f x) (\<lambda>r t'. I t' \<and> (\<exists>ys. r = Inr ys \<and> P x ys)) t" and "I s"
  shows "wp (act_collect f xs) (\<lambda>r t. I t \<and> (\<exists>yss. r = Inr (concat yss) \<and> list_all2 P xs yss)) s"
  using assms(2)
proof (induction xs arbitrary: s)
  case Nil
  then show ?case by (simp add: wp_simps)
next
  case (Cons x xs)
  show ?case
    unfolding act_collect.simps
  proof (rule wp_bindI [OF assms(1) [OF Cons.prems]])
    fix ys t
    assume "I t \<and> (\<exists>ys'. Inr ys = Inr ys' \<and> P x ys')"
    then have "I t" and P: "P x ys" by auto
    then show "wp (act_bind (act_collect f xs) (\<lambda>zs. act_return (ys @ zs)))
        (\<lambda>r t. I t \<and> (\<exists>yss. r = Inr (concat yss) \<and> list_all2 P (x # xs) yss)) t"
      by (intro wp_bindI [OF Cons.IH])
         (auto simp: wp_simps intro: exI [of _ "ys # yss" for yss])
  qed auto
qed


section \<open>Lists\<close>

lemma set_map_filter: "set (List.map_filter f xs) = {y. \<exists>x \<in> set xs. f x = Some y}"
  by (force simp: List.map_filter_def)

lemma distinct_map_filter:
  assumes "distinct (map k xs)" and "\<And>x y. f x = Some y \<Longrightarrow> k x = h (g y)"
  shows "distinct (map g (List.map_filter f xs))"
  using assms(1)
proof (induction xs)
  case Nil
  then show ?case by (simp add: List.map_filter_simps)
next
  case (Cons x xs)
  show ?case
  proof (cases "f x")
    case None
    with Cons show ?thesis by (simp add: List.map_filter_simps)
  next
    case (Some y)
    have "g y \<noteq> g z" if z: "z \<in> set (List.map_filter f xs)" for z
    proof -
      obtain x' where "x' \<in> set xs" and "f x' = Some z"
        using z by (auto simp: set_map_filter)
      moreover from this Cons.prems have "k x \<noteq> k x'" by auto
      ultimately show ?thesis using assms(2) Some by metis
    qed
    with Cons Some show ?thesis by (auto simp: List.map_filter_simps)
  qed
qed

lemma strict_sort_key:
  "distinct (map f xs) \<Longrightarrow> sorted_wrt (<) (map f (sort_key f xs))"
  by (simp add: strict_sorted_iff distinct_map)

lemma distinct_map_filter_filter: "distinct (map f xs) \<Longrightarrow> distinct (map f (filter p xs))"
  by (induction xs) auto

lemma strict_filter: "sorted_wrt (<) (map f xs) \<Longrightarrow> sorted_wrt (<) (map f (filter p xs))"
  by (simp add: sorted_wrt_map sorted_wrt_filter)

lemma list_all2_eq_map: "list_all2 (\<lambda>x y. y = f x) xs ys \<longleftrightarrow> ys = map f xs"
  by (induction xs arbitrary: ys) (auto simp: list_all2_Cons1)

lemma concat_map_filter:
  "concat (map (\<lambda>x. case f x of None \<Rightarrow> [] | Some y \<Rightarrow> if p y then [y] else []) xs) =
     filter p (List.map_filter f xs)"
  by (induction xs) (auto simp: List.map_filter_simps split: option.splits)

lemma map_filter_append: "List.map_filter f (xs @ ys) = List.map_filter f xs @ List.map_filter f ys"
  by (simp add: List.map_filter_def)

end
