(* ===== verification/Protocol_Model.thy ===== *)
theory Protocol_Model
  imports Prelude
begin

text \<open>
  The error types and the persistent data model shared by broker and provider
  (\<^verbatim>\<open>crates/protocol/src/error.rs\<close> and \<^verbatim>\<open>crates/protocol/src/model.rs\<close>): the error
  codes sent over the wire, the metadata records, the secret wrapper with its size limit, and
  the validators every write goes through.
\<close>

section \<open>Errors\<close>

datatype ErrorCode =
    InvalidRequest | UnsupportedVersion | NotFound | AlreadyExists | InvalidCollection
  | SecretTooLarge | MetadataTooLarge | PermissionDenied | BackendUnavailable | Conflict
  | CorruptState | Internal

record BrokerError =
  be_code :: ErrorCode
  be_message :: string

definition BrokerError_new :: "ErrorCode \<Rightarrow> string \<Rightarrow> BrokerError" where
  "BrokerError_new code message = \<lparr>be_code = code, be_message = message\<rparr>"

lemma be_code_new [simp]: "be_code (BrokerError_new c m) = c"
  by (simp add: BrokerError_new_def)

lemma be_message_new [simp]: "be_message (BrokerError_new c m) = m"
  by (simp add: BrokerError_new_def)

text \<open>A \<^verbatim>\<open>std::io::Error\<close>: its kind, as far as the sources look at it, and its text.\<close>

datatype io_kind = UnexpectedEof | NotFoundIo | OtherIo

datatype io_error = IoError (io_kind: io_kind) (io_text: string)

datatype ProtocolError =
    Io io_error
  | FrameTooLarge nat nat
  | EmptyFrame
  | Encode string
  | Decode string
  | TrailingBytes nat
  | UnsupportedVersion u16
  | NoCommonVersion
  | InvalidMetadata string

text \<open>The \<^verbatim>\<open>#[error(...)]\<close> texts.\<close>

fun protocol_error_to_string :: "ProtocolError \<Rightarrow> string" where
  "protocol_error_to_string (Io e) = ''I/O error: '' @ io_text e"
| "protocol_error_to_string (FrameTooLarge actual maximum) =
     ''frame length '' @ show_nat actual @ '' exceeds the maximum '' @ show_nat maximum"
| "protocol_error_to_string EmptyFrame = ''zero-length frames are invalid''"
| "protocol_error_to_string (Encode m) = ''CBOR encoding failed: '' @ m"
| "protocol_error_to_string (Decode m) = ''CBOR decoding failed: '' @ m"
| "protocol_error_to_string (TrailingBytes n) =
     ''frame contains '' @ show_nat n @ '' trailing bytes''"
| "protocol_error_to_string (ProtocolError.UnsupportedVersion v) =
     ''unsupported protocol version '' @ show_nat (unat v)"
| "protocol_error_to_string NoCommonVersion = ''no mutually supported protocol version''"
| "protocol_error_to_string (InvalidMetadata m) = ''invalid metadata: '' @ m"


section \<open>Limits\<close>

definition MAX_SECRET_BYTES :: nat where "MAX_SECRET_BYTES = 5 * 512"
definition MAX_METADATA_BYTES :: nat where "MAX_METADATA_BYTES = MAX_SECRET_BYTES"
definition MAX_LABEL_BYTES :: nat where "MAX_LABEL_BYTES = 1024"
definition MAX_ALIAS_BYTES :: nat where "MAX_ALIAS_BYTES = 255"
definition MAX_ATTRIBUTE_COUNT :: nat where "MAX_ATTRIBUTE_COUNT = 64"
definition MAX_ATTRIBUTE_KEY_BYTES :: nat where "MAX_ATTRIBUTE_KEY_BYTES = 255"
definition MAX_ATTRIBUTE_VALUE_BYTES :: nat where "MAX_ATTRIBUTE_VALUE_BYTES = 1024"
definition MAX_CONTENT_TYPE_BYTES :: nat where "MAX_CONTENT_TYPE_BYTES = 255"

lemmas limit_defs =
  MAX_SECRET_BYTES_def MAX_METADATA_BYTES_def MAX_LABEL_BYTES_def MAX_ALIAS_BYTES_def
  MAX_ATTRIBUTE_COUNT_def MAX_ATTRIBUTE_KEY_BYTES_def MAX_ATTRIBUTE_VALUE_BYTES_def
  MAX_CONTENT_TYPE_BYTES_def


section \<open>Secrets\<close>

datatype SecretBytes = SecretBytes (expose: bytes)

definition SecretBytes_new :: "bytes \<Rightarrow> ProtocolError + SecretBytes" where
  "SecretBytes_new value =
     (if MAX_SECRET_BYTES < length value then
        Inl (InvalidMetadata
          (''secret is '' @ show_nat (length value) @ '' bytes; maximum is '' @
           show_nat MAX_SECRET_BYTES))
      else Inr (SecretBytes value))"

definition into_inner :: "SecretBytes \<Rightarrow> bytes" where
  "into_inner s = expose s"

text \<open>
  The field is private and every constructor, the deserializer included, goes through
  \<open>SecretBytes_new\<close>: the limit is the type's invariant.
\<close>

definition secret_wf :: "SecretBytes \<Rightarrow> bool" where
  "secret_wf s \<longleftrightarrow> length (expose s) \<le> MAX_SECRET_BYTES"

lemma SecretBytes_new_wf: "SecretBytes_new b = Inr s \<Longrightarrow> secret_wf s \<and> expose s = b"
  by (auto simp: SecretBytes_new_def secret_wf_def split: if_splits)

lemma SecretBytes_new_expose: "secret_wf s \<Longrightarrow> SecretBytes_new (expose s) = Inr s"
  by (auto simp: SecretBytes_new_def secret_wf_def)


section \<open>Metadata records\<close>

record CollectionMetadata =
  c_schema_version :: u16
  c_id :: uuid
  c_label :: string
  c_created :: u64
  c_modified :: u64

record ItemMetadata =
  i_schema_version :: u16
  i_id :: uuid
  i_collection_id :: uuid
  i_label :: string
  i_attributes :: "(string, string) btree"
  i_content_type :: string
  i_created :: u64
  i_modified :: u64
  i_current_generation :: uuid

record AliasMetadata =
  a_schema_version :: u16
  a_name :: string
  a_collection_id :: uuid


section \<open>Validators\<close>

definition validate_text :: "string \<Rightarrow> string \<Rightarrow> nat \<Rightarrow> bool \<Rightarrow> ProtocolError + unit" where
  "validate_text field value maximum allow_empty =
     (if \<not> allow_empty \<and> value = [] then
        Inl (InvalidMetadata (field @ '' cannot be empty''))
      else if maximum < length value then
        Inl (InvalidMetadata
          (field @ '' is '' @ show_nat (length value) @ '' bytes; maximum is '' @ show_nat maximum))
      else if CHR 0x00 \<in> set value then
        Inl (InvalidMetadata (field @ '' contains a NUL byte''))
      else Inr ())"

definition validate_label :: "string \<Rightarrow> ProtocolError + unit" where
  "validate_label label = validate_text ''label'' label MAX_LABEL_BYTES False"

definition validate_alias_name :: "string \<Rightarrow> ProtocolError + unit" where
  "validate_alias_name name = validate_text ''alias name'' name MAX_ALIAS_BYTES False"

definition validate_content_type :: "string \<Rightarrow> ProtocolError + unit" where
  "validate_content_type content_type =
     validate_text ''content type'' content_type MAX_CONTENT_TYPE_BYTES False"

fun validate_attribute_entries :: "(string \<times> string) list \<Rightarrow> ProtocolError + unit" where
  "validate_attribute_entries [] = Inr ()"
| "validate_attribute_entries ((key, value) # rest) =
     res_bind (validate_text ''attribute key'' key MAX_ATTRIBUTE_KEY_BYTES False) (\<lambda>_.
     res_bind (validate_text ''attribute value'' value MAX_ATTRIBUTE_VALUE_BYTES True) (\<lambda>_.
     validate_attribute_entries rest))"

definition validate_attributes :: "(string, string) btree \<Rightarrow> ProtocolError + unit" where
  "validate_attributes attributes =
     (if MAX_ATTRIBUTE_COUNT < length attributes then
        Inl (InvalidMetadata
          (''attribute count '' @ show_nat (length attributes) @ '' exceeds '' @
           show_nat MAX_ATTRIBUTE_COUNT))
      else validate_attribute_entries attributes)"


subsection \<open>What the validators accept\<close>

definition text_ok :: "nat \<Rightarrow> bool \<Rightarrow> string \<Rightarrow> bool" where
  "text_ok maximum allow_empty s \<longleftrightarrow>
     (allow_empty \<or> s \<noteq> []) \<and> length s \<le> maximum \<and> CHR 0x00 \<notin> set s"

lemma validate_text_ok: "is_ok (validate_text f v n e) \<longleftrightarrow> text_ok n e v"
  by (auto simp: validate_text_def text_ok_def)

lemma validate_attribute_entries_ok:
  "is_ok (validate_attribute_entries xs) \<longleftrightarrow>
   (\<forall>(k, v) \<in> set xs. text_ok MAX_ATTRIBUTE_KEY_BYTES False k \<and>
                      text_ok MAX_ATTRIBUTE_VALUE_BYTES True v)"
proof (induction xs rule: validate_attribute_entries.induct)
  case 1
  then show ?case by simp
next
  case (2 k v rest)
  then show ?case by (auto simp: validate_text_ok)
qed

lemma validators_ok:
  "is_ok (validate_label s) \<longleftrightarrow> text_ok MAX_LABEL_BYTES False s"
  "is_ok (validate_alias_name s) \<longleftrightarrow> text_ok MAX_ALIAS_BYTES False s"
  "is_ok (validate_content_type s) \<longleftrightarrow> text_ok MAX_CONTENT_TYPE_BYTES False s"
  by (simp_all add: validate_label_def validate_alias_name_def validate_content_type_def
      validate_text_ok)

lemma validate_attributes_ok:
  "is_ok (validate_attributes m) \<longleftrightarrow>
   length m \<le> MAX_ATTRIBUTE_COUNT \<and>
   (\<forall>(k, v) \<in> set m. text_ok MAX_ATTRIBUTE_KEY_BYTES False k \<and>
                      text_ok MAX_ATTRIBUTE_VALUE_BYTES True v)"
  by (auto simp: validate_attributes_def validate_attribute_entries_ok)


subsection \<open>How the broker tells an oversized secret apart\<close>

text \<open>
  The broker classifies an \<^const>\<open>InvalidMetadata\<close> error as an oversized secret exactly when
  its text contains the word \<^verbatim>\<open>secret\<close>. No validator's text does, whatever sizes it
  reports, and the text of \<^const>\<open>SecretBytes_new\<close> always does.
\<close>

definition mentions_secret :: "ProtocolError \<Rightarrow> bool" where
  "mentions_secret e = contains_str ''secret'' (protocol_error_to_string e)"

lemma contains_secret_show_nat:
  "contains_str ''secret'' (a @ show_nat n @ b) \<longleftrightarrow>
   contains_str ''secret'' a \<or> contains_str ''secret'' b"
proof (rule contains_str_middle)
  have "c \<notin> set (show_nat n)" if "c \<in> set ''secret''" for c
    using that by (intro show_nat_no_letter) auto
  then show "set (show_nat n) \<inter> set ''secret'' = {}" by blast
qed simp_all

lemma contains_secret_show_nat2:
  "contains_str ''secret'' (a @ show_nat n @ b @ show_nat k) \<longleftrightarrow>
   contains_str ''secret'' a \<or> contains_str ''secret'' b"
  using contains_secret_show_nat [of a n "b @ show_nat k @ []"]
    contains_secret_show_nat [of b k "[]"] by simp

lemma SecretBytes_new_mentions: "SecretBytes_new b = Inl e \<Longrightarrow> mentions_secret e"
  by (auto simp: SecretBytes_new_def mentions_secret_def starts_with_def split: if_splits)

lemma validate_text_mentions:
  assumes "validate_text f v n a = Inl e"
    and "f \<in> {''label'', ''alias name'', ''content type'', ''attribute key'', ''attribute value''}"
  shows "\<not> mentions_secret e"
  using assms
    contains_secret_show_nat2 [of "''invalid metadata: '' @ f @ '' is ''" "length v"
      "'' bytes; maximum is ''" n]
  by (auto simp: validate_text_def mentions_secret_def starts_with_def split: if_splits)

end
