(* ===== verification/Target_Name.thy ===== *)
theory Target_Name
  imports Protocol_Model
begin

text \<open>
  Typed credential target names (\<^verbatim>\<open>crates/protocol/src/target.rs\<close>): how a target is
  printed into the flat Credential Manager namespace and parsed back. The text forms of UUIDs and
  of base64url come from the crates \<^verbatim>\<open>uuid\<close> and \<^verbatim>\<open>base64\<close>, so they are parameters
  (the record \<open>text_lib\<close>); the locale \<open>target_lib\<close> states what their documentation promises,
  and the printer and the parser are shown to be inverse to each other under it.
\<close>

section \<open>The text codecs of the third-party crates\<close>

record text_lib =
  uuid_parse_str :: "string \<Rightarrow> uuid option"  \<comment> \<open>\<^verbatim>\<open>Uuid::parse_str\<close>\<close>
  uuid_to_string :: "uuid \<Rightarrow> string"  \<comment> \<open>\<^verbatim>\<open>Display\<close>, the hyphenated form\<close>
  uuid_simple :: "uuid \<Rightarrow> string"  \<comment> \<open>\<^verbatim>\<open>Uuid::simple\<close>, 32 hexadecimal digits\<close>
  b64_encode :: "bytes \<Rightarrow> string"  \<comment> \<open>\<^verbatim>\<open>URL_SAFE_NO_PAD.encode\<close>\<close>
  b64_decode :: "string \<Rightarrow> bytes option"  \<comment> \<open>\<^verbatim>\<open>URL_SAFE_NO_PAD.decode\<close>\<close>


section \<open>Targets\<close>

definition CREDENTIAL_PREFIX :: string where
  "CREDENTIAL_PREFIX = ''WinCredLibSecret/v1/''"

datatype TargetName =
    Collection uuid
  | Alias string
  | ItemMetadata uuid
  | ItemSecret (ts_item_id: uuid) (ts_generation: uuid)

datatype TargetParseError =
    ForeignPrefix | InvalidShape | InvalidUuid | NonCanonicalUuid | InvalidAliasEncoding
  | AliasTooLong

fun target_to_string :: "'x text_lib_scheme \<Rightarrow> TargetName \<Rightarrow> string" where
  "target_to_string L (TargetName.Collection uid) =
     CREDENTIAL_PREFIX @ ''collection/'' @ uuid_to_string L uid"
| "target_to_string L (TargetName.Alias alias) =
     CREDENTIAL_PREFIX @ ''alias/'' @ b64_encode L (as_bytes alias)"
| "target_to_string L (TargetName.ItemMetadata uid) =
     CREDENTIAL_PREFIX @ ''item/'' @ uuid_to_string L uid @ ''/meta''"
| "target_to_string L (TargetName.ItemSecret item_id generation) =
     CREDENTIAL_PREFIX @ ''item/'' @ uuid_to_string L item_id @ ''/secret/'' @
     uuid_to_string L generation"

definition parse_uuid :: "'x text_lib_scheme \<Rightarrow> string \<Rightarrow> TargetParseError + uuid" where
  "parse_uuid L s =
     (case uuid_parse_str L s of
        None \<Rightarrow> Inl InvalidUuid
      | Some uid \<Rightarrow> if uuid_to_string L uid \<noteq> s then Inl NonCanonicalUuid else Inr uid)"

definition parse_alias :: "'x text_lib_scheme \<Rightarrow> string \<Rightarrow> TargetParseError + TargetName" where
  "parse_alias L encoded =
     (case b64_decode L encoded of
        None \<Rightarrow> Inl InvalidAliasEncoding
      | Some bs \<Rightarrow>
          if MAX_ALIAS_BYTES < length bs then Inl AliasTooLong
          else (case from_utf8 bs of
                  None \<Rightarrow> Inl InvalidAliasEncoding
                | Some alias \<Rightarrow>
                    if alias = [] \<or> CHR 0x00 \<in> set alias then Inl InvalidAliasEncoding
                    else Inr (TargetName.Alias alias)))"

fun target_from_parts :: "'x text_lib_scheme \<Rightarrow> string list \<Rightarrow> TargetParseError + TargetName" where
  "target_from_parts L [k, x] =
     (if k = ''collection'' then map_sum id TargetName.Collection (parse_uuid L x)
      else if k = ''alias'' then parse_alias L x
      else Inl InvalidShape)"
| "target_from_parts L [k, x, l] =
     (if k = ''item'' \<and> l = ''meta'' then map_sum id TargetName.ItemMetadata (parse_uuid L x)
      else Inl InvalidShape)"
| "target_from_parts L [k, x, l, g] =
     (if k = ''item'' \<and> l = ''secret'' then
        res_bind (parse_uuid L x) (\<lambda>item_id.
        res_bind (parse_uuid L g) (\<lambda>generation.
        Inr (TargetName.ItemSecret item_id generation)))
      else Inl InvalidShape)"
| "target_from_parts L _ = Inl InvalidShape"

definition target_from_str :: "'x text_lib_scheme \<Rightarrow> string \<Rightarrow> TargetParseError + TargetName" where
  "target_from_str L s =
     (case strip_prefix CREDENTIAL_PREFIX s of
        None \<Rightarrow> Inl ForeignPrefix
      | Some suffix \<Rightarrow> target_from_parts L (split_char (CHR ''/'') suffix))"

text \<open>The targets the broker ever builds: an alias has passed the alias validator.\<close>

fun target_wf :: "TargetName \<Rightarrow> bool" where
  "target_wf (TargetName.Alias a) =
     (is_utf8 a \<and> a \<noteq> [] \<and> length a \<le> MAX_ALIAS_BYTES \<and> CHR 0x00 \<notin> set a)"
| "target_wf _ = True"


section \<open>Printing and parsing are inverse\<close>

lemma target_in_namespace: "starts_with CREDENTIAL_PREFIX (target_to_string L t)"
  by (cases t) simp_all

lemma parse_uuid_Inr: "parse_uuid L s = Inr u \<Longrightarrow> uuid_to_string L u = s"
  by (auto simp: parse_uuid_def split: option.splits if_splits)

lemma target_from_parts_not_foreign: "target_from_parts L ps \<noteq> Inl ForeignPrefix"
  by (cases "(L, ps)" rule: target_from_parts.cases)
     (auto simp: parse_uuid_def parse_alias_def map_sum_def res_bind_def
       split: option.splits sum.splits)

lemma target_from_str_foreign:
  "target_from_str L s = Inl ForeignPrefix \<longleftrightarrow> \<not> starts_with CREDENTIAL_PREFIX s"
  by (auto simp: target_from_str_def strip_prefix_def starts_with_def
      target_from_parts_not_foreign)

text \<open>
  What the crates document: formatting a UUID and parsing it gives it back, base64url decoding
  inverts encoding and accepts only the canonical encoding, and neither text form contains the
  path separator.
\<close>

locale target_lib =
  fixes L :: "'x text_lib_scheme"
  assumes uuid_parse_to_string: "uuid_parse_str L (uuid_to_string L u) = Some u"
    and uuid_no_slash: "CHR ''/'' \<notin> set (uuid_to_string L u)"
    and b64_decode_encode: "b64_decode L (b64_encode L bs) = Some bs"
    and b64_decode_canonical: "b64_decode L s = Some bs \<Longrightarrow> b64_encode L bs = s"
    and b64_no_slash: "CHR ''/'' \<notin> set (b64_encode L bs)"
begin

lemma parse_uuid_to_string [simp]: "parse_uuid L (uuid_to_string L u) = Inr u"
  by (simp add: parse_uuid_def uuid_parse_to_string)

lemma split_suffix:
  "split_char (CHR ''/'') (''collection/'' @ uuid_to_string L u) = [''collection'', uuid_to_string L u]"
  "split_char (CHR ''/'') (''alias/'' @ b64_encode L bs) = [''alias'', b64_encode L bs]"
  "split_char (CHR ''/'') (''item/'' @ uuid_to_string L u @ ''/meta'') =
     [''item'', uuid_to_string L u, ''meta'']"
  "split_char (CHR ''/'') (''item/'' @ uuid_to_string L u @ ''/secret/'' @ uuid_to_string L g) =
     [''item'', uuid_to_string L u, ''secret'', uuid_to_string L g]"
  using uuid_no_slash b64_no_slash
  by (simp_all add: split_char_no_sep split_char_append)

lemma from_str_to_string:
  assumes "target_wf t"
  shows "target_from_str L (target_to_string L t) = Inr t"
  using assms
  by (cases t)
     (simp_all add: target_from_str_def split_suffix parse_alias_def b64_decode_encode
       from_utf8_as_bytes del: append_Cons)

lemma uuid_to_string_inj [simp]: "uuid_to_string L u = uuid_to_string L v \<longleftrightarrow> u = v"
  by (metis option.inject uuid_parse_to_string)

lemma b64_encode_inj [simp]: "b64_encode L a = b64_encode L b \<longleftrightarrow> a = b"
  by (metis option.inject b64_decode_encode)

lemma to_string_inj [simp]: "target_to_string L t = target_to_string L t' \<longleftrightarrow> t = t'"
proof
  assume "target_to_string L t = target_to_string L t'"
  then have "split_char (CHR ''/'') (drop (length CREDENTIAL_PREFIX) (target_to_string L t)) =
    split_char (CHR ''/'') (drop (length CREDENTIAL_PREFIX) (target_to_string L t'))"
    by simp
  then show "t = t'"
    by (cases t; cases t') (simp_all add: split_suffix del: append_Cons)
qed simp

lemma parse_alias_Inr:
  assumes "parse_alias L x = Inr t"
  shows "\<exists>a. t = TargetName.Alias a \<and> b64_encode L (as_bytes a) = x \<and> target_wf t"
  using assms
  by (auto simp: parse_alias_def dest!: b64_decode_canonical from_utf8_SomeD
      split: option.splits if_splits)

lemma from_parts_Inr:
  assumes "target_from_parts L ps = Inr t"
  shows "target_to_string L t = CREDENTIAL_PREFIX @ join_char (CHR ''/'') ps \<and> target_wf t"
  using assms
  by (cases "(L, ps)" rule: target_from_parts.cases)
     (auto simp: res_bind_Inr map_sum_def dest!: parse_uuid_Inr parse_alias_Inr
       split: if_splits sum.splits)

lemma from_str_Inr:
  assumes "target_from_str L s = Inr t"
  shows "target_to_string L t = s \<and> target_wf t"
proof -
  obtain suffix where "s = CREDENTIAL_PREFIX @ suffix"
    and "target_from_parts L (split_char (CHR ''/'') suffix) = Inr t"
    using assms by (auto simp: target_from_str_def strip_prefix_Some split: option.splits)
  then show ?thesis
    using from_parts_Inr join_split_char by metis
qed

lemma from_str_iff: "target_from_str L s = Inr t \<longleftrightarrow> s = target_to_string L t \<and> target_wf t"
  using from_str_Inr from_str_to_string by metis

end

declare target_to_string.simps [simp del]

end
