(* ===== verification/Reference_Text.thy ===== *)
theory Reference_Text
  imports Target_Name
begin

text \<open>
  A reference implementation of the text formats the third-party crates provide: hyphenated
  UUIDs and base64url without padding. The model never uses it; it shows that the laws of
  \<open>target_lib\<close> are those of the real formats, and it lets every theorem be instantiated.
\<close>

section \<open>Digits\<close>

text \<open>Big-endian digits of a number, with a fixed count, and back.\<close>

fun digits :: "nat \<Rightarrow> nat \<Rightarrow> nat \<Rightarrow> nat list" where
  "digits base 0 n = []"
| "digits base (Suc k) n = digits base k (n div base) @ [n mod base]"

definition from_digits :: "nat \<Rightarrow> nat list \<Rightarrow> nat" where
  "from_digits base ds = fold (\<lambda>d n. n * base + d) ds 0"

lemma length_digits [simp]: "length (digits base k n) = k"
  by (induction k arbitrary: n) auto

lemma digits_less: "0 < base \<Longrightarrow> d \<in> set (digits base k n) \<Longrightarrow> d < base"
  by (induction k arbitrary: n) auto

lemma from_digits_snoc: "from_digits base (ds @ [d]) = from_digits base ds * base + d"
  by (simp add: from_digits_def)

lemma from_to_digits: "n < base ^ k \<Longrightarrow> from_digits base (digits base k n) = n"
proof (induction k arbitrary: n)
  case 0
  then show ?case by (simp add: from_digits_def)
next
  case (Suc k)
  then have "n div base < base ^ k" by (simp add: less_mult_imp_div_less mult.commute)
  with Suc show ?case by (simp add: from_digits_snoc)
qed


section \<open>UUIDs\<close>

definition hex_chars :: string where
  "hex_chars = ''0123456789abcdef''"

definition hex_char :: "nat \<Rightarrow> char" where
  "hex_char d = hex_chars ! d"

definition hex_value :: "char \<Rightarrow> nat option" where
  "hex_value c = map_of (zip hex_chars [0..<16] @ zip ''ABCDEF'' [10..<16]) c"

definition uuid_hex :: "uuid \<Rightarrow> string" where
  "uuid_hex u = map hex_char (digits 16 32 (unat u))"

definition hyphenate :: "string \<Rightarrow> string" where
  "hyphenate s =
     take 8 s @ ''-'' @ take 4 (drop 8 s) @ ''-'' @ take 4 (drop 12 s) @ ''-'' @
     take 4 (drop 16 s) @ ''-'' @ drop 20 s"

definition unhyphenate :: "string \<Rightarrow> string" where
  "unhyphenate s =
     take 8 s @ take 4 (drop 9 s) @ take 4 (drop 14 s) @ take 4 (drop 19 s) @ drop 24 s"

fun all_values :: "char list \<Rightarrow> nat list option" where
  "all_values [] = Some []"
| "all_values (c # cs) =
     (case hex_value c of
        None \<Rightarrow> None
      | Some d \<Rightarrow> map_option (Cons d) (all_values cs))"

definition uuid_from_hex :: "string \<Rightarrow> uuid option" where
  "uuid_from_hex s = map_option (\<lambda>ds. of_nat (from_digits 16 ds)) (all_values s)"

definition uuid_parse :: "string \<Rightarrow> uuid option" where
  "uuid_parse s =
     (if length s = 32 then uuid_from_hex s
      else if length s = 36 \<and> hyphenate (unhyphenate s) = s then uuid_from_hex (unhyphenate s)
      else None)"

lemma hex_chars_props: "length hex_chars = 16" "distinct hex_chars" "CHR ''/'' \<notin> set hex_chars"
  by (simp_all add: hex_chars_def)

lemma hex_value_char: "d < 16 \<Longrightarrow> hex_value (hex_char d) = Some d"
  unfolding hex_value_def hex_char_def map_of_append
  by (rule map_add_find_right, subst map_of_zip_nth) (simp_all add: hex_chars_props)

lemma all_values_hex: "\<forall>d \<in> set ds. d < 16 \<Longrightarrow> all_values (map hex_char ds) = Some ds"
  by (induction ds) (auto simp: hex_value_char)

lemma uuid_from_hex_hex: "uuid_from_hex (uuid_hex u) = Some u"
proof -
  have "unat u < 16 ^ 32" using unsigned_less [of u] by simp
  then show ?thesis
    by (simp add: uuid_from_hex_def uuid_hex_def all_values_hex digits_less from_to_digits)
qed

lemma unhyphenate_hyphenate: "length s = 32 \<Longrightarrow> unhyphenate (hyphenate s) = s"
proof -
  assume "length s = 32"
  moreover have "take 4 (drop 16 s) @ drop 20 s = drop 16 s" "take 4 (drop 12 s) @ drop 16 s = drop 12 s"
    "take 4 (drop 8 s) @ drop 12 s = drop 8 s" "take 8 s @ drop 8 s = s"
    using append_take_drop_id [of 4 "drop 16 s"] append_take_drop_id [of 4 "drop 12 s"]
      append_take_drop_id [of 4 "drop 8 s"] append_take_drop_id [of 8 s]
    by (simp_all del: append_take_drop_id)
  ultimately show ?thesis by (simp add: unhyphenate_def hyphenate_def)
qed

lemma length_uuid_hex [simp]: "length (uuid_hex u) = 32"
  by (simp add: uuid_hex_def)

lemma uuid_parse_hyphenate: "uuid_parse (hyphenate (uuid_hex u)) = Some u"
proof -
  have "length (hyphenate (uuid_hex u)) = 36" by (simp add: hyphenate_def)
  then show ?thesis
    by (simp add: uuid_parse_def unhyphenate_hyphenate uuid_from_hex_hex)
qed

lemma hex_chars_no_slash: "d < 16 \<Longrightarrow> hex_char d \<noteq> CHR ''/''"
  using hex_chars_props(1,3) nth_mem [of d hex_chars] by (metis hex_char_def)

lemma uuid_text_no_slash: "CHR ''/'' \<notin> set (hyphenate (uuid_hex u))"
proof -
  have "CHR ''/'' \<notin> set (uuid_hex u)"
  proof
    assume "CHR ''/'' \<in> set (uuid_hex u)"
    then obtain d where "d \<in> set (digits 16 32 (unat u))" and "hex_char d = CHR ''/''"
      by (auto simp: uuid_hex_def)
    with digits_less [of 16 d] hex_chars_no_slash [of d] show False by auto
  qed
  then show ?thesis by (auto simp: hyphenate_def dest: in_set_takeD in_set_dropD)
qed


section \<open>Base64url\<close>

definition b64_chars :: string where
  "b64_chars = ''ABCDEFGHIJKLMNOPQRSTUVWXYZabcdefghijklmnopqrstuvwxyz0123456789-_''"

definition b64_char :: "nat \<Rightarrow> char" where
  "b64_char d = b64_chars ! d"

definition b64_value :: "char \<Rightarrow> nat option" where
  "b64_value c = map_of (zip b64_chars [0..<64]) c"

fun b64_enc :: "nat list \<Rightarrow> nat list" where
  "b64_enc (a # b # c # r) =
     (a div 4) # (a mod 4 * 16 + b div 16) # (b mod 16 * 4 + c div 64) # (c mod 64) # b64_enc r"
| "b64_enc [a, b] = [a div 4, a mod 4 * 16 + b div 16, b mod 16 * 4]"
| "b64_enc [a] = [a div 4, a mod 4 * 16]"
| "b64_enc [] = []"

fun b64_dec :: "nat list \<Rightarrow> nat list option" where
  "b64_dec (v # w # x # y # r) =
     map_option (\<lambda>bs. (v * 4 + w div 16) # (w mod 16 * 16 + x div 4) # (x mod 4 * 64 + y) # bs) (b64_dec r)"
| "b64_dec [v, w, x] =
     (if x mod 4 = 0 then Some [v * 4 + w div 16, w mod 16 * 16 + x div 4] else None)"
| "b64_dec [v, w] = (if w mod 16 = 0 then Some [v * 4 + w div 16] else None)"
| "b64_dec [v] = None"
| "b64_dec [] = Some []"

definition those_values :: "string \<Rightarrow> nat list option" where
  "those_values s = those (map b64_value s)"

definition base64_encode :: "bytes \<Rightarrow> string" where
  "base64_encode bs = map b64_char (b64_enc (map unat bs))"

definition base64_decode :: "string \<Rightarrow> bytes option" where
  "base64_decode s =
     Option.bind (those_values s) (\<lambda>vs. map_option (map of_nat) (b64_dec vs))"

lemma b64_enc_less: "\<forall>b \<in> set bs. b < 256 \<Longrightarrow> v \<in> set (b64_enc bs) \<Longrightarrow> v < 64"
  by (induction bs rule: b64_enc.induct) auto

lemma b64_dec_enc: "\<forall>b \<in> set bs. b < 256 \<Longrightarrow> b64_dec (b64_enc bs) = Some bs"
  by (induction bs rule: b64_enc.induct) (auto simp: mult.commute)

lemma b64_enc_dec:
  "\<forall>v \<in> set vs. v < 64 \<Longrightarrow> b64_dec vs = Some bs \<Longrightarrow> b64_enc bs = vs \<and> (\<forall>b \<in> set bs. b < 256)"
proof (induction vs arbitrary: bs rule: b64_dec.induct)
  case (1 v w x y r)
  then show ?case by auto
qed (auto split: if_splits)

lemma b64_chars_props: "length b64_chars = 64" "distinct b64_chars" "CHR ''/'' \<notin> set b64_chars"
  by (simp_all add: b64_chars_def)

lemma b64_value_char: "d < 64 \<Longrightarrow> b64_value (b64_char d) = Some d"
  unfolding b64_value_def b64_char_def
  by (subst map_of_zip_nth) (simp_all add: b64_chars_props)

lemma b64_char_value: "b64_value c = Some d \<Longrightarrow> d < 64 \<and> b64_char d = c"
  by (auto simp: b64_value_def b64_char_def in_set_zip b64_chars_props dest!: map_of_SomeD)

lemma those_values_chars: "\<forall>v \<in> set vs. v < 64 \<Longrightarrow> those_values (map b64_char vs) = Some vs"
  by (induction vs) (auto simp: those_values_def b64_value_char)

lemma those_values_Some:
  "those_values s = Some vs \<Longrightarrow> (\<forall>v \<in> set vs. v < 64) \<and> map b64_char vs = s"
  by (induction s arbitrary: vs)
     (auto simp: those_values_def dest: b64_char_value split: option.splits)

lemma base64_decode_encode: "base64_decode (base64_encode bs) = Some bs"
proof -
  have small: "\<forall>b \<in> set (map unat bs). b < 256" using unat_u8_less by auto
  then have "\<forall>v \<in> set (b64_enc (map unat bs)). v < 64" using b64_enc_less by blast
  then show ?thesis
    by (simp add: base64_decode_def base64_encode_def those_values_chars b64_dec_enc [OF small] comp_def)
qed

lemma base64_canonical: "base64_decode s = Some bs \<Longrightarrow> base64_encode bs = s"
proof -
  assume "base64_decode s = Some bs"
  then obtain vs ns where vs: "those_values s = Some vs" "b64_dec vs = Some ns" and bs: "bs = map of_nat ns"
    by (auto simp: base64_decode_def bind_eq_Some_conv)
  with those_values_Some b64_enc_dec have enc: "b64_enc ns = vs" "\<forall>b \<in> set ns. b < 256" by blast+
  then have "map unat bs = ns" by (auto simp: bs unat_of_nat intro!: map_idI)
  with enc vs those_values_Some show ?thesis by (simp add: base64_encode_def)
qed

lemma base64_no_slash: "CHR ''/'' \<notin> set (base64_encode bs)"
proof -
  have "b64_char v \<in> set b64_chars" if "v \<in> set (b64_enc (map unat bs))" for v
    using b64_enc_less [OF _ that] unat_u8_less
    by (auto simp: b64_char_def b64_chars_props intro!: nth_mem)
  then show ?thesis using b64_chars_props(3) by (auto simp: base64_encode_def)
qed


section \<open>The formats keep the laws\<close>

definition reference_text :: text_lib where
  "reference_text =
     \<lparr>uuid_parse_str = uuid_parse, uuid_to_string = \<lambda>u. hyphenate (uuid_hex u), uuid_simple = uuid_hex,
      b64_encode = base64_encode, b64_decode = base64_decode\<rparr>"

interpretation ref_text: target_lib reference_text
  by unfold_locales
     (simp_all add: reference_text_def uuid_parse_hyphenate uuid_text_no_slash base64_decode_encode
       base64_canonical base64_no_slash)

end
