(* ===== verification/Backend.thy ===== *)
theory Backend
  imports Target_Name
begin

text \<open>
  The storage interface of the broker and the in-memory implementation of it
  (\<^verbatim>\<open>crates/broker/src/backend.rs\<close>). The locale \<open>vault_backend\<close> is the contract the
  broker is verified against: a flat store of named blobs whose operations may fail at any call,
  but then leave the store as it was.
\<close>

section \<open>The interface\<close>

text \<open>
  \<^verbatim>\<open>acquire_lock\<close> waits while another holder has the lock: a call that is still waiting is
  \<^const>\<open>None\<close>. Dropping the guard is \<open>release_lock\<close>.
\<close>

record 's backend =
  acquire_lock :: "'s \<Rightarrow> ((BrokerError + unit) \<times> 's) option"
  release_lock :: "'s \<Rightarrow> 's"
  b_read :: "TargetName \<Rightarrow> ('s, BrokerError, bytes option) act"
  b_write :: "TargetName \<Rightarrow> bytes \<Rightarrow> ('s, BrokerError, unit) act"
  b_delete :: "TargetName \<Rightarrow> ('s, BrokerError, unit) act"
  b_enumerate :: "('s, BrokerError, (string \<times> bytes) list) act"


section \<open>The in-memory backend\<close>

text \<open>A mutex is its content and whether a panic poisoned it.\<close>

record MemoryData =
  credentials :: "(string, bytes) btree"
  credentials_poisoned :: bool
  locked :: bool
  locked_poisoned :: bool

definition internal_error :: "string \<Rightarrow> BrokerError" where
  "internal_error message = BrokerError_new Internal message"

definition MemoryData_default :: MemoryData where
  "MemoryData_default =
     \<lparr>credentials = [], credentials_poisoned = False, locked = False, locked_poisoned = False\<rparr>"

definition insert_raw :: "string \<Rightarrow> bytes \<Rightarrow> MemoryData \<Rightarrow> MemoryData" where
  "insert_raw target blob s =
     (if credentials_poisoned s then s
      else s\<lparr>credentials := bt_insert target blob (credentials s)\<rparr>)"

definition MemoryLock_drop :: "MemoryData \<Rightarrow> MemoryData" where
  "MemoryLock_drop s = (if locked_poisoned s then s else s\<lparr>locked := False\<rparr>)"

definition memory_acquire_lock :: "MemoryData \<Rightarrow> ((BrokerError + unit) \<times> MemoryData) option" where
  "memory_acquire_lock s =
     (if locked_poisoned s then
        Some (Inl (internal_error ''memory operation lock is poisoned''), s)
      else if locked s then None
      else Some (Inr (), s\<lparr>locked := True\<rparr>))"

text \<open>\<^verbatim>\<open>self.data.credentials.lock()\<close> with its error, as every method starts.\<close>

definition memory_credentials :: "(MemoryData, BrokerError, (string, bytes) btree) act" where
  "memory_credentials s =
     (if credentials_poisoned s then
        (Inl (internal_error ''memory credential store is poisoned''), s)
      else (Inr (credentials s), s))"

definition set_credentials :: "(string, bytes) btree \<Rightarrow> (MemoryData, BrokerError, unit) act" where
  "set_credentials m s = (Inr (), s\<lparr>credentials := m\<rparr>)"

definition memory_read ::
  "'x text_lib_scheme \<Rightarrow> TargetName \<Rightarrow> (MemoryData, BrokerError, bytes option) act" where
  "memory_read L target =
     act_bind memory_credentials (\<lambda>m. act_return (map_of m (target_to_string L target)))"

definition memory_write ::
  "'x text_lib_scheme \<Rightarrow> TargetName \<Rightarrow> bytes \<Rightarrow> (MemoryData, BrokerError, unit) act" where
  "memory_write L target blob =
     act_bind memory_credentials (\<lambda>m. set_credentials (bt_insert (target_to_string L target) blob m))"

definition memory_delete ::
  "'x text_lib_scheme \<Rightarrow> TargetName \<Rightarrow> (MemoryData, BrokerError, unit) act" where
  "memory_delete L target =
     act_bind memory_credentials (\<lambda>m. set_credentials (bt_remove (target_to_string L target) m))"

definition hide_secret_blob :: "'x text_lib_scheme \<Rightarrow> string \<times> bytes \<Rightarrow> string \<times> bytes" where
  "hide_secret_blob L = (\<lambda>(target, blob).
     (target, case target_from_str L target of Inr (ItemSecret _ _) \<Rightarrow> [] | _ \<Rightarrow> blob))"

definition memory_enumerate ::
  "'x text_lib_scheme \<Rightarrow> (MemoryData, BrokerError, (string \<times> bytes) list) act" where
  "memory_enumerate L =
     act_bind memory_credentials (\<lambda>m.
     act_return (map (hide_secret_blob L)
       (filter (\<lambda>(target, _). starts_with CREDENTIAL_PREFIX target) m)))"

definition InMemoryBackend :: "'x text_lib_scheme \<Rightarrow> MemoryData backend" where
  "InMemoryBackend L =
     \<lparr>acquire_lock = memory_acquire_lock, release_lock = MemoryLock_drop,
      b_read = memory_read L, b_write = memory_write L, b_delete = memory_delete L,
      b_enumerate = memory_enumerate L\<rparr>"


section \<open>The contract\<close>

text \<open>
  \<open>store\<close> is the content, \<open>up\<close> the states from which the backend serves without faults, and
  \<open>held\<close> how many guards of the operation lock are alive in this process (a lock that is not
  re-entrant never has more than one). Faults are unrestricted outside \<open>up\<close>, but a call that
  reports an error has not changed the content.
\<close>

locale vault_backend =
  fixes L :: "'x text_lib_scheme" and B :: "'s backend"
    and store :: "'s \<Rightarrow> string \<rightharpoonup> bytes" and invar :: "'s \<Rightarrow> bool"
    and up :: "'s \<Rightarrow> bool" and held :: "'s \<Rightarrow> nat"
  assumes read_law: "invar s \<Longrightarrow>
      wp (b_read B t)
        (\<lambda>r s'. invar s' \<and> held s' = held s \<and> store s' = store s \<and> (up s \<longrightarrow> up s' \<and> is_ok r) \<and>
           (\<forall>v. r = Inr v \<longrightarrow> v = store s (target_to_string L t))) s"
    and write_law: "invar s \<Longrightarrow>
      wp (b_write B t b)
        (\<lambda>r s'. invar s' \<and> held s' = held s \<and>
           (up s \<longrightarrow> up s' \<and> (length b \<le> MAX_SECRET_BYTES \<longrightarrow> is_ok r)) \<and>
           store s' = (if is_ok r then (store s)(target_to_string L t \<mapsto> b) else store s)) s"
    and delete_law: "invar s \<Longrightarrow>
      wp (b_delete B t)
        (\<lambda>r s'. invar s' \<and> held s' = held s \<and> (up s \<longrightarrow> up s' \<and> is_ok r) \<and>
           store s' = (if is_ok r then (store s)(target_to_string L t := None) else store s)) s"
    and enumerate_law: "invar s \<Longrightarrow>
      wp (b_enumerate B)
        (\<lambda>r s'. invar s' \<and> held s' = held s \<and> store s' = store s \<and> (up s \<longrightarrow> up s' \<and> is_ok r) \<and>
           (\<forall>es. r = Inr es \<longrightarrow> distinct (map fst es) \<and>
              set es = hide_secret_blob L `
                {(n, b). store s n = Some b \<and> starts_with CREDENTIAL_PREFIX n})) s"
    and acquire_law: "invar s \<Longrightarrow> acquire_lock B s = Some (r, s') \<Longrightarrow>
      invar s' \<and> store s' = store s \<and> (up s \<longrightarrow> up s' \<and> is_ok r) \<and>
      held s' = (if is_ok r then Suc (held s) else held s)"
    and acquire_free: "invar s \<Longrightarrow> held s = 0 \<Longrightarrow> acquire_lock B s \<noteq> None"
    and release_law: "invar s \<Longrightarrow> invar (release_lock B s) \<and> store (release_lock B s) = store s \<and>
      (up s \<longrightarrow> up (release_lock B s) \<and> held (release_lock B s) = held s - 1)"

definition memory_invar :: "MemoryData \<Rightarrow> bool" where
  "memory_invar s = bt_keys_sorted (credentials s)"

definition memory_up :: "MemoryData \<Rightarrow> bool" where
  "memory_up s \<longleftrightarrow> \<not> credentials_poisoned s \<and> \<not> locked_poisoned s"

definition guards :: "MemoryData \<Rightarrow> nat" where
  "guards s = (if locked s then 1 else 0)"

lemma memory_vault_backend:
  "vault_backend L (InMemoryBackend L) (\<lambda>s. map_of (credentials s)) memory_invar memory_up guards"
proof unfold_locales
  fix s
  assume inv: "memory_invar s"
  show "wp (b_enumerate (InMemoryBackend L))
        (\<lambda>r s'. memory_invar s' \<and> guards s' = guards s \<and> map_of (credentials s') = map_of (credentials s) \<and>
           (memory_up s \<longrightarrow> memory_up s' \<and> is_ok r) \<and>
           (\<forall>es. r = Inr es \<longrightarrow> distinct (map fst es) \<and>
              set es = hide_secret_blob L `
                {(n, b). map_of (credentials s) n = Some b \<and> starts_with CREDENTIAL_PREFIX n})) s"
  proof -
    let ?es = "filter (\<lambda>(target, _). starts_with CREDENTIAL_PREFIX target) (credentials s)"
    have "distinct (map fst ?es)"
      using inv by (simp add: memory_invar_def bt_keys_distinct bt_keys_sorted_filter)
    then have "distinct (map fst (map (hide_secret_blob L) ?es))"
      by (simp add: comp_def hide_secret_blob_def case_prod_beta)
    moreover have "set ?es = {(n, b). map_of (credentials s) n = Some b \<and> starts_with CREDENTIAL_PREFIX n}"
      using inv by (auto simp: memory_invar_def bt_mem_iff)
    ultimately show ?thesis
      using inv by (simp add: InMemoryBackend_def memory_enumerate_def memory_credentials_def
          memory_up_def wp_def act_simps)
  qed
qed (auto simp: InMemoryBackend_def memory_read_def memory_write_def memory_delete_def
      memory_credentials_def set_credentials_def memory_acquire_lock_def MemoryLock_drop_def
      memory_invar_def memory_up_def guards_def wp_def act_simps split: if_splits)

interpretation memory: vault_backend L "InMemoryBackend L" "\<lambda>s. map_of (credentials s)" memory_invar
    memory_up guards
  for L :: "'x text_lib_scheme"
  by (rule memory_vault_backend)

end
