(* ===== verification/Messages.thy ===== *)
theory Messages
  imports Protocol_Model
begin

text \<open>
  The wire messages (\<^verbatim>\<open>crates/protocol/src/message.rs\<close>): version and capability
  negotiation, the versioned envelope, and the request and response types of the broker API.
\<close>

section \<open>Negotiation\<close>

definition PROTOCOL_VERSION :: u16 where
  "PROTOCOL_VERSION = 1"

record VersionRange =
  vr_minimum :: u16
  vr_maximum :: u16

definition VersionRange_current :: VersionRange where
  "VersionRange_current = \<lparr>vr_minimum = PROTOCOL_VERSION, vr_maximum = PROTOCOL_VERSION\<rparr>"

definition VersionRange_contains :: "VersionRange \<Rightarrow> u16 \<Rightarrow> bool" where
  "VersionRange_contains vr version \<longleftrightarrow> vr_minimum vr \<le> version \<and> version \<le> vr_maximum vr"

datatype Capability =
    BinarySecrets | Collections | Aliases | GenerationCommits | Reconciliation
  | AtomicItemMutations

type_synonym CapabilitySet = "Capability set"

record Hello =
  h_versions :: VersionRange
  h_capabilities :: CapabilitySet

record HelloAck =
  ack_version :: u16
  ack_capabilities :: CapabilitySet

definition negotiate ::
  "Hello \<Rightarrow> VersionRange \<Rightarrow> CapabilitySet \<Rightarrow> ProtocolError + HelloAck" where
  "negotiate client server_versions server_capabilities =
     (let minimum = max (vr_minimum (h_versions client)) (vr_minimum server_versions);
          maximum = min (vr_maximum (h_versions client)) (vr_maximum server_versions)
      in if maximum < minimum then Inl NoCommonVersion
         else Inr \<lparr>ack_version = maximum,
                   ack_capabilities = h_capabilities client \<inter> server_capabilities\<rparr>)"


section \<open>Envelopes\<close>

record 'a Envelope =
  env_version :: u16
  env_payload :: 'a

definition Envelope_current :: "'a \<Rightarrow> 'a Envelope" where
  "Envelope_current payload = \<lparr>env_version = PROTOCOL_VERSION, env_payload = payload\<rparr>"

definition validate_version :: "'a Envelope \<Rightarrow> ProtocolError + unit" where
  "validate_version e =
     (if env_version e = PROTOCOL_VERSION then Inr ()
      else Inl (ProtocolError.UnsupportedVersion (env_version e)))"


section \<open>Requests and responses\<close>

datatype Operation =
    Ping
  | ListCollections
  | GetCollection uuid
  | CreateCollection CollectionMetadata
  | UpdateCollection CollectionMetadata
  | DeleteCollection uuid
  | ListAliases
  | ResolveAlias string
  | SetAlias AliasMetadata
  | RemoveAlias string
  | SearchItems "(string, string) btree"
  | ListItems uuid
  | GetItem uuid bool
  | CreateItem ItemMetadata SecretBytes
  | CreateOrReplaceItem ItemMetadata SecretBytes bool
  | UpdateItem ItemMetadata "SecretBytes option"
  | UpdateItemCas ItemMetadata "SecretBytes option" u64
  | DeleteItem uuid
  | Reconcile

record Request =
  req_request_id :: u64
  req_operation :: Operation

datatype ResponseBody =
    Pong
  | Empty
  | Collection CollectionMetadata
  | Collections "CollectionMetadata list"
  | Aliases "AliasMetadata list"
  | Alias "AliasMetadata option"
  | Item ItemMetadata "SecretBytes option"
  | ReplacedItem ItemMetadata "uuid list" "uuid list"
  | Items "ItemMetadata list"
  | Reconciled nat "uuid list"

record Response =
  resp_request_id :: u64
  resp_result :: "BrokerError + ResponseBody"


section \<open>Properties\<close>

lemma negotiate_Inr:
  assumes "negotiate client versions caps = Inr ack"
  shows "VersionRange_contains (h_versions client) (ack_version ack)"
    and "VersionRange_contains versions (ack_version ack)"
    and "VersionRange_contains (h_versions client) v \<Longrightarrow> VersionRange_contains versions v \<Longrightarrow>
      v \<le> ack_version ack"
    and "ack_capabilities ack = h_capabilities client \<inter> caps"
  using assms
  by (auto simp: negotiate_def VersionRange_contains_def Let_def not_less split: if_splits)

lemma negotiate_Inl:
  "negotiate client versions caps = Inl e \<longleftrightarrow>
   e = NoCommonVersion \<and>
   (\<forall>v. \<not> (VersionRange_contains (h_versions client) v \<and> VersionRange_contains versions v))"
proof -
  let ?lo = "max (vr_minimum (h_versions client)) (vr_minimum versions)"
  let ?hi = "min (vr_maximum (h_versions client)) (vr_maximum versions)"
  have "?hi < ?lo \<longleftrightarrow>
    (\<forall>v. \<not> (VersionRange_contains (h_versions client) v \<and> VersionRange_contains versions v))"
  proof
    assume "?hi < ?lo"
    moreover have "?lo \<le> ?hi"
      if "VersionRange_contains (h_versions client) v" "VersionRange_contains versions v" for v
    proof -
      have "?lo \<le> v" and "v \<le> ?hi" using that by (simp_all add: VersionRange_contains_def)
      then show ?thesis by (rule order_trans)
    qed
    ultimately show "\<forall>v. \<not> (VersionRange_contains (h_versions client) v \<and> VersionRange_contains versions v)"
      by (auto simp: not_le [symmetric])
  next
    assume none: "\<forall>v. \<not> (VersionRange_contains (h_versions client) v \<and> VersionRange_contains versions v)"
    show "?hi < ?lo"
      using none [rule_format, of ?hi]
      by (auto simp: VersionRange_contains_def not_le min_less_iff_disj less_max_iff_disj)
  qed
  then show ?thesis by (auto simp: negotiate_def Let_def)
qed

end
