(* ===== verification/Vault_Plan.thy ===== *)
theory Vault_Plan
  imports Target_Name "HOL-Library.Product_Lexorder"
begin

text \<open>
  Generation commits and startup recovery (\<^verbatim>\<open>crates/protocol/src/vault.rs\<close>): an item's
  secret lives under a generation of its own and the item's metadata names the current one, so
  writing the metadata is what commits an update. Recovery compares the generations the metadata
  names with those that are stored.
\<close>

datatype CommitStep =
    WriteSecret TargetName
  | WriteMetadata TargetName
  | DeleteSecret TargetName

record GenerationCommit =
  gc_item_id :: uuid
  gc_new_generation :: uuid
  gc_previous_generation :: "uuid option"

definition commit_steps :: "GenerationCommit \<Rightarrow> CommitStep list" where
  "commit_steps c =
     [WriteSecret (ItemSecret (gc_item_id c) (gc_new_generation c)),
      WriteMetadata (TargetName.ItemMetadata (gc_item_id c))] @
     (case gc_previous_generation c of
        Some previous \<Rightarrow>
          if previous \<noteq> gc_new_generation c
          then [DeleteSecret (ItemSecret (gc_item_id c) previous)] else []
      | None \<Rightarrow> [])"

text \<open>A \<^verbatim>\<open>BTreeSet\<close> is its elements in order, without repetitions.\<close>

record RecoveryInventory =
  committed_generations :: "(uuid, uuid) btree"
  stored_generations :: "(uuid \<times> uuid) list"

datatype RecoveryAction =
    DeleteAbandonedGeneration uuid uuid
  | ReportMissingCommittedGeneration uuid uuid

definition plan_recovery :: "RecoveryInventory \<Rightarrow> RecoveryAction list" where
  "plan_recovery inventory =
     map (\<lambda>(item_id, generation). DeleteAbandonedGeneration item_id generation)
       (filter (\<lambda>(item_id, generation).
          map_of (committed_generations inventory) item_id \<noteq> Some generation)
         (stored_generations inventory)) @
     map (\<lambda>(item_id, generation). ReportMissingCommittedGeneration item_id generation)
       (filter (\<lambda>p. p \<notin> set (stored_generations inventory)) (committed_generations inventory))"


section \<open>What the plan contains\<close>

definition inventory_wf :: "RecoveryInventory \<Rightarrow> bool" where
  "inventory_wf v \<longleftrightarrow>
     bt_keys_sorted (committed_generations v) \<and>
     sorted (stored_generations v) \<and> distinct (stored_generations v)"

lemma plan_deletes:
  "DeleteAbandonedGeneration i g \<in> set (plan_recovery v) \<longleftrightarrow>
   (i, g) \<in> set (stored_generations v) \<and> map_of (committed_generations v) i \<noteq> Some g"
  by (auto simp: plan_recovery_def)

lemma plan_reports:
  assumes "inventory_wf v"
  shows "ReportMissingCommittedGeneration i g \<in> set (plan_recovery v) \<longleftrightarrow>
    map_of (committed_generations v) i = Some g \<and> (i, g) \<notin> set (stored_generations v)"
  using assms by (auto simp: plan_recovery_def inventory_wf_def bt_mem_iff)

lemma plan_distinct:
  assumes "inventory_wf v"
  shows "distinct (plan_recovery v)"
  using assms
  by (auto simp: plan_recovery_def inventory_wf_def distinct_map inj_on_def
      dest: bt_keys_distinct)

text \<open>
  The state of one item's generations, and what a prefix of the commit steps makes of it: the
  generation the metadata names is stored after every prefix.
\<close>

type_synonym generations = "uuid option \<times> uuid set"
  \<comment> \<open>the generation the metadata names, the generations stored\<close>

fun run_step :: "GenerationCommit \<Rightarrow> CommitStep \<Rightarrow> generations \<Rightarrow> generations" where
  "run_step c (WriteSecret (ItemSecret _ g)) (cur, stored) = (cur, insert g stored)"
| "run_step c (WriteMetadata _) (cur, stored) = (Some (gc_new_generation c), stored)"
| "run_step c (DeleteSecret (ItemSecret _ g)) (cur, stored) = (cur, stored - {g})"
| "run_step c _ s = s"

fun generation_committed :: "generations \<Rightarrow> bool" where
  "generation_committed (None, stored) = True"
| "generation_committed (Some g, stored) = (g \<in> stored)"

lemma commit_prefix_safe:
  assumes "generation_committed (gc_previous_generation c, stored)"
  shows "generation_committed
    (fold (run_step c) (take n (commit_steps c)) (gc_previous_generation c, stored))"
proof -
  obtain k where k: "n = k \<and> k < 3 \<or> n = k + 3" by (metis add.commute less_or_eq_imp_le not_less le_add_diff_inverse)
  have "k = 0 \<or> k = 1 \<or> k = 2" if "k < 3" using that by auto
  with k assms show ?thesis
    by (cases "gc_previous_generation c")
       (auto simp: commit_steps_def numeral_2_eq_2 numeral_3_eq_3)
qed

end
