(* ===== verification/Cbor.thy ===== *)
theory Cbor
  imports Protocol_Model
begin

text \<open>
  The CBOR serializer of the crates \<^verbatim>\<open>ciborium\<close> and \<^verbatim>\<open>serde\<close>, as a parameter: a
  record of the two functions the sources call, per serialized type, and the locale
  \<open>cbor_codec\<close> with what their documentation promises.
\<close>

record 'a cbor =
  cbor_ser :: "'a \<Rightarrow> string + bytes"  \<comment> \<open>\<^verbatim>\<open>ciborium::ser::into_writer\<close> into an empty \<^verbatim>\<open>Vec\<close>\<close>
  cbor_de :: "bytes \<Rightarrow> string + 'a \<times> nat"
    \<comment> \<open>\<^verbatim>\<open>ciborium::de::from_reader\<close>: the value and how many bytes it took\<close>

text \<open>
  Deserializing reads back what serializing wrote and leaves the input after it alone, for the
  values the Rust type can hold (\<open>ok\<close>: valid UTF-8, maps in key order, secrets within their
  limit); it never takes more bytes than there are, and no value has an empty encoding.
\<close>

locale cbor_codec =
  fixes C :: "'a cbor" and ok :: "'a \<Rightarrow> bool"
  assumes de_ser: "ok x \<Longrightarrow> cbor_ser C x = Inr p \<Longrightarrow> cbor_de C (p @ r) = Inr (x, length p)"
    and de_bound: "cbor_de C b = Inr (x, n) \<Longrightarrow> n \<le> length b"
    and ser_ne: "cbor_ser C x = Inr p \<Longrightarrow> p \<noteq> []"
begin

lemma de_ser_exact: "ok x \<Longrightarrow> cbor_ser C x = Inr p \<Longrightarrow> cbor_de C p = Inr (x, length p)"
  using de_ser [of x p "[]"] by simp

lemma ser_inj: "ok x \<Longrightarrow> ok y \<Longrightarrow> cbor_ser C x = Inr p \<Longrightarrow> cbor_ser C y = Inr p \<Longrightarrow> x = y"
  using de_ser_exact [of x p] de_ser_exact [of y p] by simp

end

end
