(* ===== verification/Broker_Service.thy ===== *)
theory Broker_Service
  imports Backend Messages Vault_Plan Cbor
begin

text \<open>
  The broker's vault operations (\<^verbatim>\<open>crates/broker/src/service.rs\<close>), one definition per
  method, in the order of the source. \<^verbatim>\<open>self.backend\<close> is the argument \<open>B\<close>, the crates
  \<^verbatim>\<open>uuid\<close>, \<^verbatim>\<open>base64\<close> and \<^verbatim>\<open>ciborium\<close> the argument \<open>L\<close>; the state is the
  backend's. Log output and the zeroing of freed buffers have no counterpart.
\<close>

section \<open>Helpers\<close>

record broker_lib = text_lib +
  collection_cbor :: "CollectionMetadata cbor"
  alias_cbor :: "AliasMetadata cbor"
  item_cbor :: "ItemMetadata cbor"

definition METADATA_SCHEMA_VERSION :: u16 where
  "METADATA_SCHEMA_VERSION = 1"

datatype EntryKind =
    Collection uuid
  | Alias string
  | ItemMetadata uuid
  | ItemSecret uuid uuid

record Entry =
  e_kind :: EntryKind
  e_blob :: bytes

definition not_found :: "string \<Rightarrow> BrokerError" where
  "not_found message = BrokerError_new NotFound message"

definition already_exists :: "string \<Rightarrow> BrokerError" where
  "already_exists message = BrokerError_new AlreadyExists message"

definition corrupt_state :: "string \<Rightarrow> BrokerError" where
  "corrupt_state message = BrokerError_new CorruptState message"

definition invalid_request :: "ProtocolError \<Rightarrow> BrokerError" where
  "invalid_request error =
     BrokerError_new
       (if contains_str ''secret'' (protocol_error_to_string error) then SecretTooLarge
        else InvalidRequest)
       ''request metadata is invalid''"

definition encode_metadata :: "'a cbor \<Rightarrow> 'a \<Rightarrow> BrokerError + bytes" where
  "encode_metadata C metadata =
     res_bind
       (map_err (\<lambda>_. BrokerError_new InvalidRequest ''metadata cannot be encoded'')
         (cbor_ser C metadata)) (\<lambda>encoded.
     if MAX_METADATA_BYTES < length encoded then
       Inl (BrokerError_new MetadataTooLarge ''metadata exceeds the credential blob limit'')
     else Inr encoded)"

definition decode_metadata :: "'a cbor \<Rightarrow> bytes \<Rightarrow> BrokerError + 'a" where
  "decode_metadata C blob =
     (if MAX_METADATA_BYTES < length blob then
        Inl (corrupt_state ''metadata exceeds the credential blob limit'')
      else
        res_bind (map_err (\<lambda>_. corrupt_state ''metadata is malformed'') (cbor_de C blob))
          (\<lambda>(decoded, consumed).
        if drop consumed blob \<noteq> [] then Inl (corrupt_state ''metadata has trailing data'')
        else Inr decoded))"

definition validate_schema_version :: "u16 \<Rightarrow> BrokerError + unit" where
  "validate_schema_version schema_version =
     (if schema_version = METADATA_SCHEMA_VERSION then Inr ()
      else Inl (BrokerError_new InvalidRequest ''metadata schema version is unsupported''))"

definition broker_validate_alias_name :: "string \<Rightarrow> BrokerError + unit" where
  "broker_validate_alias_name name =
     map_err (\<lambda>_. BrokerError_new InvalidRequest ''alias name is invalid'') (validate_alias_name name)"

definition validate_collection :: "CollectionMetadata \<Rightarrow> BrokerError + unit" where
  "validate_collection collection =
     res_bind (validate_schema_version (c_schema_version collection)) (\<lambda>_.
     if c_id collection = 0 then
       Inl (BrokerError_new InvalidRequest ''collection identifier cannot be nil'')
     else map_err invalid_request (validate_label (c_label collection)))"

definition validate_item :: "ItemMetadata \<Rightarrow> BrokerError + unit" where
  "validate_item item =
     res_bind (validate_schema_version (i_schema_version item)) (\<lambda>_.
     if i_id item = 0 \<or> i_collection_id item = 0 \<or> i_current_generation item = 0 then
       Inl (BrokerError_new InvalidRequest ''metadata identifiers cannot be nil'')
     else
       res_bind (map_err invalid_request (validate_label (i_label item))) (\<lambda>_.
       res_bind (map_err invalid_request (validate_attributes (i_attributes item))) (\<lambda>_.
       map_err invalid_request (validate_content_type (i_content_type item)))))"

definition validate_alias :: "AliasMetadata \<Rightarrow> BrokerError + unit" where
  "validate_alias alias =
     res_bind (validate_schema_version (a_schema_version alias)) (\<lambda>_.
     res_bind (broker_validate_alias_name (a_name alias)) (\<lambda>_.
     if a_collection_id alias = 0 then
       Inl (BrokerError_new InvalidRequest ''alias collection identifier cannot be nil'')
     else Inr ()))"


section \<open>Reading\<close>

definition entry_of :: "'x text_lib_scheme \<Rightarrow> string \<times> bytes \<Rightarrow> Entry list" where
  "entry_of L = (\<lambda>(name, blob).
     case target_from_str L name of
       Inr (TargetName.Collection uid) \<Rightarrow> [\<lparr>e_kind = EntryKind.Collection uid, e_blob = blob\<rparr>]
     | Inr (TargetName.Alias alias) \<Rightarrow> [\<lparr>e_kind = EntryKind.Alias alias, e_blob = blob\<rparr>]
     | Inr (TargetName.ItemMetadata uid) \<Rightarrow> [\<lparr>e_kind = EntryKind.ItemMetadata uid, e_blob = blob\<rparr>]
     | Inr (TargetName.ItemSecret item_id generation) \<Rightarrow>
         [\<lparr>e_kind = EntryKind.ItemSecret item_id generation, e_blob = []\<rparr>]
     | Inl _ \<Rightarrow> [])"

definition entries :: "'x text_lib_scheme \<Rightarrow> 's backend \<Rightarrow> ('s, BrokerError, Entry list) act" where
  "entries L B =
     act_bind (b_enumerate B) (\<lambda>listing. act_return (concat (map (entry_of L) listing)))"

text \<open>\<^verbatim>\<open>decode_metadata(..).ok()\<close> with the identity and validity guard every scan uses.\<close>

definition entry_collection :: "'x broker_lib_scheme \<Rightarrow> Entry \<Rightarrow> CollectionMetadata option" where
  "entry_collection L e =
     (case e_kind e of
        EntryKind.Collection uid \<Rightarrow>
          (case decode_metadata (collection_cbor L) (e_blob e) of
             Inr c \<Rightarrow> if c_id c = uid \<and> is_ok (validate_collection c) then Some c else None
           | Inl _ \<Rightarrow> None)
      | _ \<Rightarrow> None)"

definition entry_alias :: "'x broker_lib_scheme \<Rightarrow> Entry \<Rightarrow> AliasMetadata option" where
  "entry_alias L e =
     (case e_kind e of
        EntryKind.Alias name \<Rightarrow>
          (case decode_metadata (alias_cbor L) (e_blob e) of
             Inr a \<Rightarrow> if a_name a = name \<and> is_ok (validate_alias a) then Some a else None
           | Inl _ \<Rightarrow> None)
      | _ \<Rightarrow> None)"

definition entry_item :: "'x broker_lib_scheme \<Rightarrow> Entry \<Rightarrow> ItemMetadata option" where
  "entry_item L e =
     (case e_kind e of
        EntryKind.ItemMetadata uid \<Rightarrow>
          (case decode_metadata (item_cbor L) (e_blob e) of
             Inr i \<Rightarrow> if i_id i = uid \<and> is_ok (validate_item i) then Some i else None
           | Inl _ \<Rightarrow> None)
      | _ \<Rightarrow> None)"

definition list_collections ::
  "'x broker_lib_scheme \<Rightarrow> 's backend \<Rightarrow> ('s, BrokerError, ResponseBody) act" where
  "list_collections L B =
     act_bind (entries L B) (\<lambda>es.
     act_return (ResponseBody.Collections (sort_key c_id (List.map_filter (entry_collection L) es))))"

definition get_collection ::
  "'x broker_lib_scheme \<Rightarrow> 's backend \<Rightarrow> uuid \<Rightarrow> ('s, BrokerError, CollectionMetadata) act" where
  "get_collection L B uid =
     act_bind (b_read B (TargetName.Collection uid)) (\<lambda>found.
     act_lift
       (res_bind (ok_or (not_found ''collection does not exist'') found) (\<lambda>blob.
        res_bind (decode_metadata (collection_cbor L) blob) (\<lambda>collection.
        if c_id collection \<noteq> uid then
          Inl (corrupt_state ''collection metadata identity does not match target'')
        else res_bind (validate_collection collection) (\<lambda>_. Inr collection)))))"

definition require_collection ::
  "'x broker_lib_scheme \<Rightarrow> 's backend \<Rightarrow> uuid \<Rightarrow> ('s, BrokerError, CollectionMetadata) act" where
  "require_collection L B uid =
     act_map_err (\<lambda>error.
       if be_code error = NotFound then
         BrokerError_new InvalidCollection ''referenced collection does not exist''
       else error)
     (get_collection L B uid)"

definition get_item_metadata ::
  "'x broker_lib_scheme \<Rightarrow> 's backend \<Rightarrow> uuid \<Rightarrow> ('s, BrokerError, ItemMetadata) act" where
  "get_item_metadata L B uid =
     act_bind (b_read B (TargetName.ItemMetadata uid)) (\<lambda>found.
     act_lift
       (res_bind (ok_or (not_found ''item does not exist'') found) (\<lambda>blob.
        res_bind (decode_metadata (item_cbor L) blob) (\<lambda>item.
        if i_id item \<noteq> uid then
          Inl (corrupt_state ''item metadata identity does not match target'')
        else res_bind (validate_item item) (\<lambda>_. Inr item)))))"

definition valid_items ::
  "'x broker_lib_scheme \<Rightarrow> 's backend \<Rightarrow> ('s, BrokerError, ItemMetadata list) act" where
  "valid_items L B =
     act_bind (entries L B) (\<lambda>es.
     act_return (sort_key i_id (List.map_filter (entry_item L) es)))"

definition resolve_alias ::
  "'x broker_lib_scheme \<Rightarrow> 's backend \<Rightarrow> string \<Rightarrow> ('s, BrokerError, ResponseBody) act" where
  "resolve_alias L B name =
     act_bind (act_lift (broker_validate_alias_name name)) (\<lambda>_.
     act_bind (b_read B (TargetName.Alias name)) (\<lambda>found.
     case found of
       None \<Rightarrow> act_return (ResponseBody.Alias None)
     | Some blob \<Rightarrow>
         act_bind (act_lift (decode_metadata (alias_cbor L) blob)) (\<lambda>alias.
         if a_name alias \<noteq> name then
           act_throw (corrupt_state ''alias metadata identity does not match target'')
         else
           act_bind (act_lift (validate_alias alias)) (\<lambda>_.
           act_bind (act_try (get_collection L B (a_collection_id alias))) (\<lambda>collection.
           if \<not> is_ok collection then
             act_throw (corrupt_state ''alias references a missing collection'')
           else act_return (ResponseBody.Alias (Some alias)))))))"

definition list_aliases ::
  "'x broker_lib_scheme \<Rightarrow> 's backend \<Rightarrow> ('s, BrokerError, ResponseBody) act" where
  "list_aliases L B =
     act_bind (entries L B) (\<lambda>es.
     act_bind
       (act_collect (\<lambda>e.
          case entry_alias L e of
            None \<Rightarrow> act_return []
          | Some alias \<Rightarrow>
              act_bind (act_try (get_collection L B (a_collection_id alias))) (\<lambda>collection.
              act_return (if is_ok collection then [alias] else []))) es) (\<lambda>aliases.
     act_return (ResponseBody.Aliases (sort_key a_name aliases))))"

definition attributes_match :: "(string, string) btree \<Rightarrow> ItemMetadata \<Rightarrow> bool" where
  "attributes_match attributes item \<longleftrightarrow>
     list_all (\<lambda>(key, v). map_of (i_attributes item) key = Some v) attributes"

definition search_items ::
  "'x broker_lib_scheme \<Rightarrow> 's backend \<Rightarrow> (string, string) btree \<Rightarrow> ('s, BrokerError, ResponseBody) act" where
  "search_items L B attributes =
     act_bind (act_lift (map_err invalid_request (validate_attributes attributes))) (\<lambda>_.
     act_bind (valid_items L B) (\<lambda>items.
     act_return (ResponseBody.Items (filter (attributes_match attributes) items))))"

definition list_items ::
  "'x broker_lib_scheme \<Rightarrow> 's backend \<Rightarrow> uuid \<Rightarrow> ('s, BrokerError, ResponseBody) act" where
  "list_items L B collection_id =
     act_bind (get_collection L B collection_id) (\<lambda>_.
     act_bind (valid_items L B) (\<lambda>items.
     act_return (ResponseBody.Items (filter (\<lambda>item. i_collection_id item = collection_id) items))))"

definition get_item ::
  "'x broker_lib_scheme \<Rightarrow> 's backend \<Rightarrow> uuid \<Rightarrow> bool \<Rightarrow> ('s, BrokerError, ResponseBody) act" where
  "get_item L B uid include_secret =
     act_bind (get_item_metadata L B uid) (\<lambda>item.
     if include_secret then
       act_bind (b_read B (TargetName.ItemSecret uid (i_current_generation item))) (\<lambda>found.
       act_lift
         (res_bind (ok_or (corrupt_state ''item metadata references a missing secret'') found) (\<lambda>blob.
          res_bind (map_err invalid_request (SecretBytes_new blob)) (\<lambda>secret.
          Inr (ResponseBody.Item item (Some secret))))))
     else act_return (ResponseBody.Item item None))"


section \<open>Collections and aliases\<close>

definition write_metadata ::
  "'s backend \<Rightarrow> 'a cbor \<Rightarrow> TargetName \<Rightarrow> 'a \<Rightarrow> ('s, BrokerError, unit) act" where
  "write_metadata B C target metadata =
     act_bind (act_lift (encode_metadata C metadata)) (\<lambda>encoded. b_write B target encoded)"

definition create_collection ::
  "'x broker_lib_scheme \<Rightarrow> 's backend \<Rightarrow> CollectionMetadata \<Rightarrow> ('s, BrokerError, ResponseBody) act" where
  "create_collection L B collection =
     act_bind (act_lift (validate_collection collection)) (\<lambda>_.
     act_bind (b_read B (TargetName.Collection (c_id collection))) (\<lambda>found.
     if found \<noteq> None then act_throw (already_exists ''collection already exists'')
     else
       act_bind (write_metadata B (collection_cbor L) (TargetName.Collection (c_id collection)) collection) (\<lambda>_.
       act_return (ResponseBody.Collection collection))))"

definition update_collection ::
  "'x broker_lib_scheme \<Rightarrow> 's backend \<Rightarrow> CollectionMetadata \<Rightarrow> ('s, BrokerError, ResponseBody) act" where
  "update_collection L B collection =
     act_bind (get_collection L B (c_id collection)) (\<lambda>existing.
     act_bind (act_lift (validate_collection collection)) (\<lambda>_.
     let collection = collection\<lparr>c_created := c_created existing\<rparr> in
     act_bind (write_metadata B (collection_cbor L) (TargetName.Collection (c_id collection)) collection) (\<lambda>_.
     act_return (ResponseBody.Collection collection))))"

definition set_alias ::
  "'x broker_lib_scheme \<Rightarrow> 's backend \<Rightarrow> AliasMetadata \<Rightarrow> ('s, BrokerError, ResponseBody) act" where
  "set_alias L B alias =
     act_bind (act_lift (validate_alias alias)) (\<lambda>_.
     act_bind (require_collection L B (a_collection_id alias)) (\<lambda>_.
     act_bind (write_metadata B (alias_cbor L) (TargetName.Alias (a_name alias)) alias) (\<lambda>_.
     act_return (ResponseBody.Alias (Some alias)))))"

definition remove_alias :: "'s backend \<Rightarrow> string \<Rightarrow> ('s, BrokerError, ResponseBody) act" where
  "remove_alias B name =
     act_bind (act_lift (broker_validate_alias_name name)) (\<lambda>_.
     act_bind (b_read B (TargetName.Alias name)) (\<lambda>found.
     if found = None then act_throw (not_found ''alias does not exist'')
     else
       act_bind (b_delete B (TargetName.Alias name)) (\<lambda>_.
       act_return ResponseBody.Empty)))"


section \<open>Items\<close>

definition cleanup_generation :: "'s backend \<Rightarrow> CommitStep \<Rightarrow> ('s, BrokerError, unit) act" where
  "cleanup_generation B step =
     (case step of
        DeleteSecret target \<Rightarrow> act_bind (act_try (b_delete B target)) (\<lambda>_. act_return ())
      | _ \<Rightarrow> act_return ())"

definition commit_new_generation ::
  "'x broker_lib_scheme \<Rightarrow> 's backend \<Rightarrow> ItemMetadata \<Rightarrow> uuid option \<Rightarrow> SecretBytes \<Rightarrow>
   ('s, BrokerError, unit) act" where
  "commit_new_generation L B item previous_generation secret =
     (let commit = \<lparr>gc_item_id = i_id item, gc_new_generation = i_current_generation item,
                    gc_previous_generation = previous_generation\<rparr>;
          secret_target = TargetName.ItemSecret (i_id item) (i_current_generation item);
          metadata_target = TargetName.ItemMetadata (i_id item)
      in
      act_bind (act_lift (encode_metadata (item_cbor L) item)) (\<lambda>metadata.
      act_bind (b_write B secret_target (into_inner secret)) (\<lambda>_.
      act_bind (act_try (b_write B metadata_target metadata)) (\<lambda>metadata_write.
      case metadata_write of
        Inl error \<Rightarrow>
          act_bind (act_try (b_delete B secret_target)) (\<lambda>_. act_throw error)
      | Inr _ \<Rightarrow> act_iter (cleanup_generation B) (commit_steps commit)))))"

definition create_item ::
  "'x broker_lib_scheme \<Rightarrow> 's backend \<Rightarrow> ItemMetadata \<Rightarrow> SecretBytes \<Rightarrow> ('s, BrokerError, ResponseBody) act" where
  "create_item L B item secret =
     act_bind (act_lift (validate_item item)) (\<lambda>_.
     act_bind (require_collection L B (i_collection_id item)) (\<lambda>_.
     act_bind (b_read B (TargetName.ItemMetadata (i_id item))) (\<lambda>found.
     if found \<noteq> None then act_throw (already_exists ''item already exists'')
     else
       act_bind (commit_new_generation L B item None secret) (\<lambda>_.
       act_return (ResponseBody.Item item None)))))"

definition delete_replaced_item ::
  "'s backend \<Rightarrow> uuid \<Rightarrow> Entry list \<Rightarrow> ('s, BrokerError, unit) act" where
  "delete_replaced_item B uid es =
     act_bind (b_delete B (TargetName.ItemMetadata uid)) (\<lambda>_.
     act_iter (\<lambda>e.
       case e_kind e of
         EntryKind.ItemSecret item_id generation \<Rightarrow>
           if item_id = uid then
             act_bind (act_try (b_delete B (TargetName.ItemSecret item_id generation))) (\<lambda>_.
             act_return ())
           else act_return ()
       | _ \<Rightarrow> act_return ()) es)"

fun delete_replaced_items ::
  "'s backend \<Rightarrow> Entry list \<Rightarrow> uuid list \<Rightarrow> uuid list \<Rightarrow> uuid list \<Rightarrow>
   ('s, BrokerError, uuid list \<times> uuid list) act" where
  "delete_replaced_items B es [] deleted failed = act_return (deleted, failed)"
| "delete_replaced_items B es (replaced # rest) deleted failed =
     act_bind (act_try (delete_replaced_item B replaced es)) (\<lambda>r.
     if is_ok r then delete_replaced_items B es rest (deleted @ [replaced]) failed
     else delete_replaced_items B es rest deleted (failed @ [replaced]))"

definition create_or_replace_item ::
  "'x broker_lib_scheme \<Rightarrow> 's backend \<Rightarrow> ItemMetadata \<Rightarrow> SecretBytes \<Rightarrow> bool \<Rightarrow>
   ('s, BrokerError, ResponseBody) act" where
  "create_or_replace_item L B item secret replace =
     act_bind (act_lift (validate_item item)) (\<lambda>_.
     act_bind (require_collection L B (i_collection_id item)) (\<lambda>_.
     act_bind (b_read B (TargetName.ItemMetadata (i_id item))) (\<lambda>found.
     if found \<noteq> None then act_throw (already_exists ''item already exists'')
     else
       act_bind
         (if replace then
            act_bind (valid_items L B) (\<lambda>items.
            act_return (map i_id (filter (\<lambda>existing.
              i_collection_id existing = i_collection_id item \<and>
              i_attributes existing = i_attributes item) items)))
          else act_return []) (\<lambda>replaced_item_ids.
       act_bind (commit_new_generation L B item None secret) (\<lambda>_.
       act_bind (entries L B) (\<lambda>es.
       act_bind (delete_replaced_items B es replaced_item_ids [] []) (\<lambda>(deleted, failed).
       act_return (ResponseBody.ReplacedItem item deleted failed))))))))"

definition update_item ::
  "'x broker_lib_scheme \<Rightarrow> 's backend \<Rightarrow> ItemMetadata \<Rightarrow> SecretBytes option \<Rightarrow>
   ('s, BrokerError, ResponseBody) act" where
  "update_item L B item secret =
     act_bind (get_item_metadata L B (i_id item)) (\<lambda>existing.
     act_bind (act_lift (validate_item item)) (\<lambda>_.
     act_bind (require_collection L B (i_collection_id item)) (\<lambda>_.
     let item = item\<lparr>i_created := i_created existing,
                     i_modified := max (i_modified item) (saturating_add (i_modified existing) 1)\<rparr> in
     case secret of
       Some secret \<Rightarrow>
         if i_current_generation item = i_current_generation existing then
           act_throw (BrokerError_new Conflict ''item update with a secret requires a new generation'')
         else
           act_bind (commit_new_generation L B item (Some (i_current_generation existing)) secret) (\<lambda>_.
           act_return (ResponseBody.Item item None))
     | None \<Rightarrow>
         let item = item\<lparr>i_current_generation := i_current_generation existing\<rparr> in
         act_bind (write_metadata B (item_cbor L) (TargetName.ItemMetadata (i_id item)) item) (\<lambda>_.
         act_return (ResponseBody.Item item None)))))"

definition update_item_cas ::
  "'x broker_lib_scheme \<Rightarrow> 's backend \<Rightarrow> ItemMetadata \<Rightarrow> SecretBytes option \<Rightarrow> u64 \<Rightarrow>
   ('s, BrokerError, ResponseBody) act" where
  "update_item_cas L B item secret expected_modified =
     act_bind (get_item_metadata L B (i_id item)) (\<lambda>existing.
     if i_modified existing \<noteq> expected_modified then
       act_throw (BrokerError_new Conflict ''item was modified by another provider'')
     else update_item L B item secret)"

definition delete_item_from_entries ::
  "'s backend \<Rightarrow> uuid \<Rightarrow> Entry list \<Rightarrow> ('s, BrokerError, unit) act" where
  "delete_item_from_entries B uid es =
     act_bind (b_delete B (TargetName.ItemMetadata uid)) (\<lambda>_.
     act_iter (\<lambda>e.
       case e_kind e of
         EntryKind.ItemSecret item_id generation \<Rightarrow>
           if item_id = uid then b_delete B (TargetName.ItemSecret item_id generation)
           else act_return ()
       | _ \<Rightarrow> act_return ()) es)"

definition delete_item ::
  "'x broker_lib_scheme \<Rightarrow> 's backend \<Rightarrow> uuid \<Rightarrow> ('s, BrokerError, ResponseBody) act" where
  "delete_item L B uid =
     act_bind (get_item_metadata L B uid) (\<lambda>_.
     act_bind (entries L B) (\<lambda>es.
     act_bind (delete_item_from_entries B uid es) (\<lambda>_.
     act_return ResponseBody.Empty)))"

definition delete_collection ::
  "'x broker_lib_scheme \<Rightarrow> 's backend \<Rightarrow> uuid \<Rightarrow> ('s, BrokerError, ResponseBody) act" where
  "delete_collection L B collection_id =
     act_bind (get_collection L B collection_id) (\<lambda>_.
     act_bind (entries L B) (\<lambda>es.
     let item_ids = sort (remdups (map i_id
           (filter (\<lambda>item. i_collection_id item = collection_id) (List.map_filter (entry_item L) es))));
         aliases = map a_name
           (filter (\<lambda>alias. a_collection_id alias = collection_id) (List.map_filter (entry_alias L) es))
     in
     act_bind (act_iter (\<lambda>item_id. delete_item_from_entries B item_id es) item_ids) (\<lambda>_.
     act_bind (act_iter (\<lambda>name. b_delete B (TargetName.Alias name)) aliases) (\<lambda>_.
     act_bind (b_delete B (TargetName.Collection collection_id)) (\<lambda>_.
     act_return ResponseBody.Empty)))))"


section \<open>Recovery\<close>

definition inventory_add ::
  "'x broker_lib_scheme \<Rightarrow> Entry \<Rightarrow> RecoveryInventory \<Rightarrow> RecoveryInventory" where
  "inventory_add L e v =
     (case e_kind e of
        EntryKind.ItemMetadata _ \<Rightarrow>
          (case entry_item L e of
             Some item \<Rightarrow>
               v\<lparr>committed_generations :=
                   bt_insert (i_id item) (i_current_generation item) (committed_generations v)\<rparr>
           | None \<Rightarrow> v)
      | EntryKind.ItemSecret item_id generation \<Rightarrow>
          v\<lparr>stored_generations := insort_insert (item_id, generation) (stored_generations v)\<rparr>
      | _ \<Rightarrow> v)"

definition inventory_of :: "'x broker_lib_scheme \<Rightarrow> Entry list \<Rightarrow> RecoveryInventory" where
  "inventory_of L es =
     fold (inventory_add L) es \<lparr>committed_generations = [], stored_generations = []\<rparr>"

fun apply_recovery ::
  "'s backend \<Rightarrow> RecoveryAction list \<Rightarrow> nat \<Rightarrow> uuid list \<Rightarrow> ('s, BrokerError, ResponseBody) act" where
  "apply_recovery B [] removed_generations corrupt_items =
     act_return (ResponseBody.Reconciled removed_generations corrupt_items)"
| "apply_recovery B (DeleteAbandonedGeneration item_id generation # actions)
     removed_generations corrupt_items =
     act_bind (b_delete B (TargetName.ItemSecret item_id generation)) (\<lambda>_.
     apply_recovery B actions (removed_generations + 1) corrupt_items)"
| "apply_recovery B (ReportMissingCommittedGeneration item_id _ # actions)
     removed_generations corrupt_items =
     apply_recovery B actions removed_generations (corrupt_items @ [item_id])"

definition reconcile_locked ::
  "'x broker_lib_scheme \<Rightarrow> 's backend \<Rightarrow> ('s, BrokerError, ResponseBody) act" where
  "reconcile_locked L B =
     act_bind (entries L B) (\<lambda>es.
     apply_recovery B (plan_recovery (inventory_of L es)) 0 [])"


section \<open>Dispatch\<close>

fun dispatch :: "'x broker_lib_scheme \<Rightarrow> 's backend \<Rightarrow> Operation \<Rightarrow> ('s, BrokerError, ResponseBody) act" where
  "dispatch L B Ping = act_return ResponseBody.Pong"
| "dispatch L B ListCollections = list_collections L B"
| "dispatch L B (GetCollection collection_id) =
     act_bind (get_collection L B collection_id) (\<lambda>c. act_return (ResponseBody.Collection c))"
| "dispatch L B (CreateCollection collection) = create_collection L B collection"
| "dispatch L B (UpdateCollection collection) = update_collection L B collection"
| "dispatch L B (DeleteCollection collection_id) = delete_collection L B collection_id"
| "dispatch L B ListAliases = list_aliases L B"
| "dispatch L B (ResolveAlias name) = resolve_alias L B name"
| "dispatch L B (SetAlias alias) = set_alias L B alias"
| "dispatch L B (RemoveAlias name) = remove_alias B name"
| "dispatch L B (SearchItems attributes) = search_items L B attributes"
| "dispatch L B (ListItems collection_id) = list_items L B collection_id"
| "dispatch L B (GetItem item_id include_secret) = get_item L B item_id include_secret"
| "dispatch L B (CreateItem item secret) = create_item L B item secret"
| "dispatch L B (CreateOrReplaceItem item secret replace) =
     create_or_replace_item L B item secret replace"
| "dispatch L B (UpdateItem item secret) = update_item L B item secret"
| "dispatch L B (UpdateItemCas item secret expected_modified) =
     update_item_cas L B item secret expected_modified"
| "dispatch L B (DeleteItem item_id) = delete_item L B item_id"
| "dispatch L B Reconcile = reconcile_locked L B"

text \<open>Taking the lock, running the body, and dropping the guard on every way out.\<close>

definition with_lock ::
  "'s backend \<Rightarrow> ('s, BrokerError, ResponseBody) act \<Rightarrow> 's \<Rightarrow>
   ((BrokerError + ResponseBody) \<times> 's) option" where
  "with_lock B body s =
     (case acquire_lock B s of
        None \<Rightarrow> None
      | Some (Inl e, s') \<Rightarrow> Some (Inl e, s')
      | Some (Inr _, s') \<Rightarrow> (case body s' of (r, s'') \<Rightarrow> Some (r, release_lock B s'')))"

definition execute ::
  "'x broker_lib_scheme \<Rightarrow> 's backend \<Rightarrow> Operation \<Rightarrow> 's \<Rightarrow>
   ((BrokerError + ResponseBody) \<times> 's) option" where
  "execute L B operation = with_lock B (dispatch L B operation)"

definition reconcile ::
  "'x broker_lib_scheme \<Rightarrow> 's backend \<Rightarrow> 's \<Rightarrow> ((BrokerError + ResponseBody) \<times> 's) option" where
  "reconcile L B = with_lock B (reconcile_locked L B)"

end
