(* ===== verification/Broker_Views.thy ===== *)
theory Broker_Views
  imports Broker_Service
begin

text \<open>
  What a credential store means as a vault: which collections, aliases, items and secrets it
  holds, the elementary changes a broker may make to it (\<open>vault_step\<close>), and the consistency
  that every one of those changes keeps. This is the abstract side of the broker; the backend
  and its faults do not occur here.
\<close>

section \<open>Views\<close>

definition store_collection :: "'x broker_lib_scheme \<Rightarrow> (string \<rightharpoonup> bytes) \<Rightarrow> uuid \<rightharpoonup> CollectionMetadata" where
  "store_collection L st u =
     (case st (target_to_string L (TargetName.Collection u)) of
        None \<Rightarrow> None
      | Some b \<Rightarrow> entry_collection L \<lparr>e_kind = EntryKind.Collection u, e_blob = b\<rparr>)"

definition store_alias :: "'x broker_lib_scheme \<Rightarrow> (string \<rightharpoonup> bytes) \<Rightarrow> string \<rightharpoonup> AliasMetadata" where
  "store_alias L st a =
     (case st (target_to_string L (TargetName.Alias a)) of
        None \<Rightarrow> None
      | Some b \<Rightarrow>
          if is_utf8 a then entry_alias L \<lparr>e_kind = EntryKind.Alias a, e_blob = b\<rparr> else None)"

definition store_item :: "'x broker_lib_scheme \<Rightarrow> (string \<rightharpoonup> bytes) \<Rightarrow> uuid \<rightharpoonup> ItemMetadata" where
  "store_item L st u =
     (case st (target_to_string L (TargetName.ItemMetadata u)) of
        None \<Rightarrow> None
      | Some b \<Rightarrow> entry_item L \<lparr>e_kind = EntryKind.ItemMetadata u, e_blob = b\<rparr>)"

definition store_secret :: "'x text_lib_scheme \<Rightarrow> (string \<rightharpoonup> bytes) \<Rightarrow> uuid \<Rightarrow> uuid \<rightharpoonup> bytes" where
  "store_secret L st u g = st (target_to_string L (TargetName.ItemSecret u g))"

text \<open>The item as clients see it: its metadata with the secret of the generation it names.\<close>

definition visible_item ::
  "'x broker_lib_scheme \<Rightarrow> (string \<rightharpoonup> bytes) \<Rightarrow> uuid \<rightharpoonup> ItemMetadata \<times> bytes option" where
  "visible_item L st u =
     (case store_item L st u of
        None \<Rightarrow> None
      | Some m \<Rightarrow> Some (m, store_secret L st u (i_current_generation m)))"

definition put :: "'x text_lib_scheme \<Rightarrow> TargetName \<Rightarrow> bytes \<Rightarrow> (string \<rightharpoonup> bytes) \<Rightarrow> (string \<rightharpoonup> bytes)" where
  "put L t b st = st(target_to_string L t \<mapsto> b)"

definition del :: "'x text_lib_scheme \<Rightarrow> TargetName \<Rightarrow> (string \<rightharpoonup> bytes) \<Rightarrow> (string \<rightharpoonup> bytes)" where
  "del L t st = st(target_to_string L t := None)"

text \<open>The values of the metadata types that Rust can represent.\<close>

definition collection_value :: "CollectionMetadata \<Rightarrow> bool" where
  "collection_value c = is_utf8 (c_label c)"

definition alias_value :: "AliasMetadata \<Rightarrow> bool" where
  "alias_value a = is_utf8 (a_name a)"

definition item_value :: "ItemMetadata \<Rightarrow> bool" where
  "item_value m \<longleftrightarrow>
     is_utf8 (i_label m) \<and> is_utf8 (i_content_type m) \<and> bt_keys_sorted (i_attributes m) \<and>
     list_all (\<lambda>(k, v). is_utf8 k \<and> is_utf8 v) (i_attributes m)"

fun operation_value :: "Operation \<Rightarrow> bool" where
  "operation_value (CreateCollection c) = collection_value c"
| "operation_value (UpdateCollection c) = collection_value c"
| "operation_value (ResolveAlias n) = is_utf8 n"
| "operation_value (SetAlias a) = alias_value a"
| "operation_value (RemoveAlias n) = is_utf8 n"
| "operation_value (CreateItem m secret) = (item_value m \<and> secret_wf secret)"
| "operation_value (CreateOrReplaceItem m secret _) = (item_value m \<and> secret_wf secret)"
| "operation_value (UpdateItem m secret) = (item_value m \<and> (\<forall>x. secret = Some x \<longrightarrow> secret_wf x))"
| "operation_value (UpdateItemCas m secret _) = (item_value m \<and> (\<forall>x. secret = Some x \<longrightarrow> secret_wf x))"
| "operation_value _ = True"


text \<open>The vault as a whole, and what a successful operation makes of it.\<close>

record vault_view =
  vv_collections :: "uuid \<rightharpoonup> CollectionMetadata"
  vv_aliases :: "string \<rightharpoonup> AliasMetadata"
  vv_items :: "uuid \<rightharpoonup> ItemMetadata \<times> bytes option"

definition view :: "'x broker_lib_scheme \<Rightarrow> (string \<rightharpoonup> bytes) \<Rightarrow> vault_view" where
  "view L st = \<lparr>vv_collections = store_collection L st, vv_aliases = store_alias L st,
                vv_items = visible_item L st\<rparr>"

definition drop_where :: "('v \<Rightarrow> bool) \<Rightarrow> ('k \<rightharpoonup> 'v) \<Rightarrow> ('k \<rightharpoonup> 'v)" where
  "drop_where p m = (\<lambda>k. case m k of Some v \<Rightarrow> if p v then None else Some v | None \<Rightarrow> None)"

text \<open>An update keeps the creation time, moves the modification time forward, and without a new
  secret stays on the generation it was on.\<close>

definition updated_item :: "ItemMetadata \<Rightarrow> ItemMetadata \<Rightarrow> SecretBytes option \<Rightarrow> ItemMetadata" where
  "updated_item existing m secret =
     (let m = m\<lparr>i_created := i_created existing,
                i_modified := max (i_modified m) (saturating_add (i_modified existing) 1)\<rparr>
      in case secret of
           Some _ \<Rightarrow> m
         | None \<Rightarrow> m\<lparr>i_current_generation := i_current_generation existing\<rparr>)"

definition update_view :: "ItemMetadata \<Rightarrow> SecretBytes option \<Rightarrow> vault_view \<Rightarrow> vault_view" where
  "update_view m secret v =
     (case vv_items v (i_id m) of
        None \<Rightarrow> v
      | Some (existing, old) \<Rightarrow>
          v\<lparr>vv_items := (vv_items v)(i_id m \<mapsto>
             (updated_item existing m secret,
              case secret of Some x \<Rightarrow> Some (expose x) | None \<Rightarrow> old))\<rparr>)"

fun apply_op :: "Operation \<Rightarrow> vault_view \<Rightarrow> vault_view" where
  "apply_op (CreateCollection c) v = v\<lparr>vv_collections := (vv_collections v)(c_id c \<mapsto> c)\<rparr>"
| "apply_op (UpdateCollection c) v =
     (case vv_collections v (c_id c) of
        None \<Rightarrow> v
      | Some existing \<Rightarrow>
          v\<lparr>vv_collections := (vv_collections v)(c_id c \<mapsto> c\<lparr>c_created := c_created existing\<rparr>)\<rparr>)"
| "apply_op (DeleteCollection u) v =
     \<lparr>vv_collections = (vv_collections v)(u := None),
      vv_aliases = drop_where (\<lambda>a. a_collection_id a = u) (vv_aliases v),
      vv_items = drop_where (\<lambda>(m, _). i_collection_id m = u) (vv_items v)\<rparr>"
| "apply_op (SetAlias a) v = v\<lparr>vv_aliases := (vv_aliases v)(a_name a \<mapsto> a)\<rparr>"
| "apply_op (RemoveAlias n) v = v\<lparr>vv_aliases := (vv_aliases v)(n := None)\<rparr>"
| "apply_op (CreateItem m secret) v =
     v\<lparr>vv_items := (vv_items v)(i_id m \<mapsto> (m, Some (expose secret)))\<rparr>"
| "apply_op (CreateOrReplaceItem m secret replace) v =
     v\<lparr>vv_items := (if replace then
          drop_where (\<lambda>(k, _). i_collection_id k = i_collection_id m \<and> i_attributes k = i_attributes m)
            (vv_items v) else vv_items v)(i_id m \<mapsto> (m, Some (expose secret)))\<rparr>"
| "apply_op (UpdateItem m secret) v = update_view m secret v"
| "apply_op (UpdateItemCas m secret _) v = update_view m secret v"
| "apply_op (DeleteItem u) v = v\<lparr>vv_items := (vv_items v)(u := None)\<rparr>"
| "apply_op _ v = v"


text \<open>A vault some items and aliases were taken out of.\<close>

definition without :: "uuid set \<Rightarrow> string set \<Rightarrow> vault_view \<Rightarrow> vault_view" where
  "without D A v = v\<lparr>vv_items := vv_items v |` (- D), vv_aliases := vv_aliases v |` (- A)\<rparr>"

definition members ::
  "'x broker_lib_scheme \<Rightarrow> (string \<rightharpoonup> bytes) \<Rightarrow> uuid \<Rightarrow> uuid set" where
  "members L st c = {u. \<exists>m. store_item L st u = Some m \<and> i_collection_id m = c}"

definition alias_names ::
  "'x broker_lib_scheme \<Rightarrow> (string \<rightharpoonup> bytes) \<Rightarrow> uuid \<Rightarrow> string set" where
  "alias_names L st c = {n. \<exists>a. store_alias L st n = Some a \<and> a_collection_id a = c}"

text \<open>The items a replacing creation replaces.\<close>

definition replaced_by ::
  "'x broker_lib_scheme \<Rightarrow> (string \<rightharpoonup> bytes) \<Rightarrow> ItemMetadata \<Rightarrow> bool \<Rightarrow> uuid set" where
  "replaced_by L st m replace =
     {u. replace \<and> (\<exists>k. store_item L st u = Some k \<and>
        i_collection_id k = i_collection_id m \<and> i_attributes k = i_attributes m)}"


section \<open>Elementary changes\<close>

text \<open>
  One write or delete of the backend, with the condition under which the broker makes it. A
  secret is only written or deleted while the metadata does not name its generation, metadata is
  only written once the generation it names is stored (or was named before), references are only
  written to existing collections, and a collection goes last.
\<close>

inductive vault_step :: "'x broker_lib_scheme \<Rightarrow> (string \<rightharpoonup> bytes) \<Rightarrow> (string \<rightharpoonup> bytes) \<Rightarrow> bool"
  for L where
  write_collection:
    "store_collection L (put L (TargetName.Collection u) b st) u = Some c \<Longrightarrow>
     vault_step L st (put L (TargetName.Collection u) b st)"
| write_alias:
    "store_alias L (put L (TargetName.Alias n) b st) n = Some a \<Longrightarrow>
     store_collection L st (a_collection_id a) \<noteq> None \<Longrightarrow>
     vault_step L st (put L (TargetName.Alias n) b st)"
| write_secret:
    "\<forall>m. store_item L st u = Some m \<longrightarrow> i_current_generation m \<noteq> g \<Longrightarrow>
     vault_step L st (put L (TargetName.ItemSecret u g) b st)"
| write_item:
    "store_item L (put L (TargetName.ItemMetadata u) b st) u = Some m \<Longrightarrow>
     store_secret L st u (i_current_generation m) \<noteq> None \<or>
       (\<exists>m0. store_item L st u = Some m0 \<and> i_current_generation m0 = i_current_generation m) \<Longrightarrow>
     store_collection L st (i_collection_id m) \<noteq> None \<Longrightarrow>
     vault_step L st (put L (TargetName.ItemMetadata u) b st)"
| delete_alias: "vault_step L st (del L (TargetName.Alias n) st)"
| delete_item: "vault_step L st (del L (TargetName.ItemMetadata u) st)"
| delete_secret:
    "\<forall>m. store_item L st u = Some m \<longrightarrow> i_current_generation m \<noteq> g \<Longrightarrow>
     vault_step L st (del L (TargetName.ItemSecret u g) st)"
| delete_collection:
    "\<forall>i m. store_item L st i = Some m \<longrightarrow> i_collection_id m \<noteq> u \<Longrightarrow>
     \<forall>n a. store_alias L st n = Some a \<longrightarrow> a_collection_id a \<noteq> u \<Longrightarrow>
     vault_step L st (del L (TargetName.Collection u) st)"

inductive_cases vault_stepE: "vault_step L st st'"

abbreviation vault_steps :: "'x broker_lib_scheme \<Rightarrow> (string \<rightharpoonup> bytes) \<Rightarrow> (string \<rightharpoonup> bytes) \<Rightarrow> bool" where
  "vault_steps L \<equiv> (vault_step L)\<^sup>*\<^sup>*"

text \<open>
  A consistent vault: every item's current secret is stored, and every item and alias belongs to
  a collection that exists.
\<close>

definition vault_consistent :: "'x broker_lib_scheme \<Rightarrow> (string \<rightharpoonup> bytes) \<Rightarrow> bool" where
  "vault_consistent L st \<longleftrightarrow>
     (\<forall>u m. store_item L st u = Some m \<longrightarrow>
        store_secret L st u (i_current_generation m) \<noteq> None \<and>
        store_collection L st (i_collection_id m) \<noteq> None) \<and>
     (\<forall>n a. store_alias L st n = Some a \<longrightarrow> store_collection L st (a_collection_id a) \<noteq> None)"

lemma store_item_visible: "store_item L st u = map_option fst (visible_item L st u)"
  by (simp add: visible_item_def split: option.splits)

lemma drop_where_restrict:
  "(\<And>k v. m k = Some v \<Longrightarrow> p v \<longleftrightarrow> k \<in> S) \<Longrightarrow> drop_where p m = m |` (- S)"
  by (auto simp: drop_where_def restrict_map_def fun_eq_iff split: option.splits)

lemma restrict_del: "m(u := None) |` (- S) = m |` (- insert u S)"
  by (auto simp: restrict_map_def fun_eq_iff)

lemma without_simps [simp]:
  "vv_items (without D A v) = vv_items v |` (- D)"
  "vv_aliases (without D A v) = vv_aliases v |` (- A)"
  "vv_collections (without D A v) = vv_collections v"
  by (simp_all add: without_def)

lemma without_none [simp]: "without {} {} v = v"
  by (simp add: without_def restrict_map_def)

lemma without_item: "apply_op (DeleteItem u) (without D A v) = without (insert u D) A v"
  by (auto simp: without_def restrict_map_def fun_eq_iff)

lemma without_alias: "apply_op (RemoveAlias n) (without D A v) = without D (insert n A) v"
  by (auto simp: without_def restrict_map_def fun_eq_iff)

lemma view_items: "view L st = v \<Longrightarrow> visible_item L st = vv_items v"
  and view_aliases: "view L st = v \<Longrightarrow> store_alias L st = vv_aliases v"
  and view_collections: "view L st = v \<Longrightarrow> store_collection L st = vv_collections v"
  by (auto simp: view_def)

text \<open>Credentials outside the project's namespace, or with a name no target has.\<close>

definition foreign_name :: "'x text_lib_scheme \<Rightarrow> string \<Rightarrow> bool" where
  "foreign_name L n \<longleftrightarrow> (\<forall>t. n \<noteq> target_to_string L t)"

lemma vault_step_foreign: "vault_step L st st' \<Longrightarrow> foreign_name L n \<Longrightarrow> st' n = st n"
  by (erule vault_stepE) (auto simp: put_def del_def foreign_name_def)

lemma vault_steps_foreign: "vault_steps L st st' \<Longrightarrow> foreign_name L n \<Longrightarrow> st' n = st n"
  by (induction rule: rtranclp_induct) (auto simp: vault_step_foreign)

lemma foreign_nameI: "\<not> starts_with CREDENTIAL_PREFIX n \<Longrightarrow> foreign_name L n"
  using target_in_namespace by (auto simp: foreign_name_def)


section \<open>The views under elementary changes\<close>

lemma entry_collection_id: "entry_collection L \<lparr>e_kind = EntryKind.Collection u, e_blob = b\<rparr> = Some c \<Longrightarrow> c_id c = u"
  by (auto simp: entry_collection_def split: sum.splits if_splits)

lemma store_collection_id: "store_collection L st u = Some c \<Longrightarrow> c_id c = u"
  by (auto simp: store_collection_def entry_collection_id split: option.splits)

lemma store_item_id: "store_item L st u = Some m \<Longrightarrow> i_id m = u"
  by (auto simp: store_item_def entry_item_def split: option.splits sum.splits if_splits)

lemma store_alias_name: "store_alias L st n = Some a \<Longrightarrow> a_name a = n"
  by (auto simp: store_alias_def entry_alias_def split: option.splits sum.splits if_splits)

lemma store_collection_valid: "store_collection L st u = Some c \<Longrightarrow> is_ok (validate_collection c)"
  by (auto simp: store_collection_def entry_collection_def split: option.splits sum.splits if_splits)

lemma store_item_valid: "store_item L st u = Some m \<Longrightarrow> is_ok (validate_item m)"
  by (auto simp: store_item_def entry_item_def split: option.splits sum.splits if_splits)

lemma store_alias_valid: "store_alias L st n = Some a \<Longrightarrow> is_ok (validate_alias a)"
  by (auto simp: store_alias_def entry_alias_def split: option.splits sum.splits if_splits)

text \<open>What the broker's validators accept.\<close>

lemma validate_schema_ok: "is_ok (validate_schema_version v) \<longleftrightarrow> v = METADATA_SCHEMA_VERSION"
  by (simp add: validate_schema_version_def)

lemma validate_collection_ok:
  "is_ok (validate_collection c) \<longleftrightarrow>
   c_schema_version c = METADATA_SCHEMA_VERSION \<and> c_id c \<noteq> 0 \<and> text_ok MAX_LABEL_BYTES False (c_label c)"
  by (simp add: validate_collection_def validate_schema_ok validators_ok)

lemma validate_item_ok:
  "is_ok (validate_item m) \<longleftrightarrow>
   i_schema_version m = METADATA_SCHEMA_VERSION \<and>
   i_id m \<noteq> 0 \<and> i_collection_id m \<noteq> 0 \<and> i_current_generation m \<noteq> 0 \<and>
   text_ok MAX_LABEL_BYTES False (i_label m) \<and> is_ok (validate_attributes (i_attributes m)) \<and>
   text_ok MAX_CONTENT_TYPE_BYTES False (i_content_type m)"
  by (simp add: validate_item_def validate_schema_ok validators_ok)

lemma validate_alias_ok:
  "is_ok (validate_alias a) \<longleftrightarrow>
   a_schema_version a = METADATA_SCHEMA_VERSION \<and> text_ok MAX_ALIAS_BYTES False (a_name a) \<and>
   a_collection_id a \<noteq> 0"
  by (simp add: validate_alias_def validate_schema_ok validators_ok broker_validate_alias_name_def)

lemma updated_item_revision:
  "i_created (updated_item m0 m x) = i_created m0"
  "x = None \<Longrightarrow> i_current_generation (updated_item m0 m x) = i_current_generation m0"
  "i_modified m0 < i_modified (updated_item m0 m x) \<or>
   i_modified m0 = u64_max \<and> i_modified (updated_item m0 m x) = u64_max"
proof -
  have m: "i_modified (updated_item m0 m x) = max (i_modified m) (saturating_add (i_modified m0) 1)"
    by (cases x) (simp_all add: updated_item_def)
  show "i_modified m0 < i_modified (updated_item m0 m x) \<or>
    i_modified m0 = u64_max \<and> i_modified (updated_item m0 m x) = u64_max"
  proof (cases "i_modified m0 = u64_max")
    case True
    have "saturating_add u64_max 1 = u64_max"
      using saturating_add_one_le [of u64_max] le_u64_max by (simp add: order_antisym)
    with True m le_u64_max show ?thesis by (simp add: max_absorb2)
  next
    case False
    from saturating_add_one_less [OF this] m show ?thesis by (simp add: less_max_iff_disj)
  qed
qed (cases x, simp_all add: updated_item_def)

text \<open>When an update of \<open>m0\<close> to \<open>m\<close> has nothing to fail on.\<close>

definition update_succeeds ::
  "'x broker_lib_scheme \<Rightarrow> (string \<rightharpoonup> bytes) \<Rightarrow> ItemMetadata \<Rightarrow> SecretBytes option \<Rightarrow> ItemMetadata \<Rightarrow> bool" where
  "update_succeeds L st m secret m0 \<longleftrightarrow>
     store_item L st (i_id m) = Some m0 \<and> is_ok (validate_item m) \<and>
     store_collection L st (i_collection_id m) \<noteq> None \<and>
     (secret \<noteq> None \<longrightarrow> i_current_generation m \<noteq> i_current_generation m0) \<and>
     is_ok (encode_metadata (item_cbor L) (updated_item m0 m secret))"

context target_lib
begin

lemma put_same: "put L t b st (target_to_string L t) = Some b"
  by (simp add: put_def)

lemma put_other: "t \<noteq> t' \<Longrightarrow> put L t b st (target_to_string L t') = st (target_to_string L t')"
  by (simp add: put_def)

lemma del_same: "del L t st (target_to_string L t) = None"
  by (simp add: del_def)

lemma del_other: "t \<noteq> t' \<Longrightarrow> del L t st (target_to_string L t') = st (target_to_string L t')"
  by (simp add: del_def)

lemmas put_del = put_same put_other del_same del_other

end

context cbor_codec
begin

lemma decode_encode:
  "ok x \<Longrightarrow> encode_metadata C x = Inr b \<Longrightarrow> decode_metadata C b = Inr x \<and> length b \<le> MAX_METADATA_BYTES"
  by (auto simp: encode_metadata_def decode_metadata_def res_bind_Inr de_ser_exact not_less split: if_splits)

end

text \<open>The crates of the broker together: names as in \<open>target_lib\<close>, and a codec per record.\<close>

locale broker_lib_laws = target_lib L + coll: cbor_codec "collection_cbor L" collection_value +
    ali: cbor_codec "alias_cbor L" alias_value + itm: cbor_codec "item_cbor L" item_value
  for L :: "'x broker_lib_scheme"
begin

lemma store_collection_frame [simp]:
  "store_collection L (put L (TargetName.Alias n) b st) = store_collection L st"
  "store_collection L (put L (TargetName.ItemMetadata i) b st) = store_collection L st"
  "store_collection L (put L (TargetName.ItemSecret i g) b st) = store_collection L st"
  "store_collection L (del L (TargetName.Alias n) st) = store_collection L st"
  "store_collection L (del L (TargetName.ItemMetadata i) st) = store_collection L st"
  "store_collection L (del L (TargetName.ItemSecret i g) st) = store_collection L st"
  by (simp_all add: store_collection_def put_del fun_eq_iff)

lemma store_alias_frame [simp]:
  "store_alias L (put L (TargetName.Collection u) b st) = store_alias L st"
  "store_alias L (put L (TargetName.ItemMetadata i) b st) = store_alias L st"
  "store_alias L (put L (TargetName.ItemSecret i g) b st) = store_alias L st"
  "store_alias L (del L (TargetName.Collection u) st) = store_alias L st"
  "store_alias L (del L (TargetName.ItemMetadata i) st) = store_alias L st"
  "store_alias L (del L (TargetName.ItemSecret i g) st) = store_alias L st"
  by (simp_all add: store_alias_def put_del fun_eq_iff)

lemma store_item_frame [simp]:
  "store_item L (put L (TargetName.Collection u) b st) = store_item L st"
  "store_item L (put L (TargetName.Alias n) b st) = store_item L st"
  "store_item L (put L (TargetName.ItemSecret i g) b st) = store_item L st"
  "store_item L (del L (TargetName.Collection u) st) = store_item L st"
  "store_item L (del L (TargetName.Alias n) st) = store_item L st"
  "store_item L (del L (TargetName.ItemSecret i g) st) = store_item L st"
  by (simp_all add: store_item_def put_del fun_eq_iff)

lemma store_secret_frame [simp]:
  "store_secret L (put L (TargetName.Collection u) b st) = store_secret L st"
  "store_secret L (put L (TargetName.Alias n) b st) = store_secret L st"
  "store_secret L (put L (TargetName.ItemMetadata i) b st) = store_secret L st"
  "store_secret L (del L (TargetName.Collection u) st) = store_secret L st"
  "store_secret L (del L (TargetName.Alias n) st) = store_secret L st"
  "store_secret L (del L (TargetName.ItemMetadata i) st) = store_secret L st"
  by (simp_all add: store_secret_def put_del fun_eq_iff)

lemma store_collection_del [simp]:
  "store_collection L (del L (TargetName.Collection u) st) v =
     (if v = u then None else store_collection L st v)"
  by (simp add: store_collection_def put_del)

lemma store_collection_put_other [simp]:
  "v \<noteq> u \<Longrightarrow> store_collection L (put L (TargetName.Collection u) b st) v = store_collection L st v"
  by (simp add: store_collection_def put_del)

lemma store_alias_del [simp]:
  "store_alias L (del L (TargetName.Alias n) st) k = (if k = n then None else store_alias L st k)"
  by (simp add: store_alias_def put_del)

lemma store_alias_put_other [simp]:
  "k \<noteq> n \<Longrightarrow> store_alias L (put L (TargetName.Alias n) b st) k = store_alias L st k"
  by (simp add: store_alias_def put_del)

lemma store_item_del [simp]:
  "store_item L (del L (TargetName.ItemMetadata u) st) v = (if v = u then None else store_item L st v)"
  by (simp add: store_item_def put_del)

lemma store_item_put_other [simp]:
  "v \<noteq> u \<Longrightarrow> store_item L (put L (TargetName.ItemMetadata u) b st) v = store_item L st v"
  by (simp add: store_item_def put_del)

lemma store_secret_put [simp]:
  "store_secret L (put L (TargetName.ItemSecret u g) b st) v h =
     (if v = u \<and> h = g then Some b else store_secret L st v h)"
  by (auto simp: store_secret_def put_del)

lemma store_secret_del [simp]:
  "store_secret L (del L (TargetName.ItemSecret u g) st) v h =
     (if v = u \<and> h = g then None else store_secret L st v h)"
  by (auto simp: store_secret_def put_del)


lemma visible_frame [simp]:
  "visible_item L (put L (TargetName.Collection u) b st) = visible_item L st"
  "visible_item L (put L (TargetName.Alias n) b st) = visible_item L st"
  "visible_item L (del L (TargetName.Collection u) st) = visible_item L st"
  "visible_item L (del L (TargetName.Alias n) st) = visible_item L st"
  by (simp_all add: visible_item_def fun_eq_iff split: option.splits)

text \<open>A generation the metadata does not name is invisible.\<close>

lemma visible_secret:
  assumes "\<forall>m. store_item L st u = Some m \<longrightarrow> i_current_generation m \<noteq> g"
  shows "visible_item L (put L (TargetName.ItemSecret u g) b st) = visible_item L st"
    and "visible_item L (del L (TargetName.ItemSecret u g) st) = visible_item L st"
  using assms by (auto simp: visible_item_def fun_eq_iff split: option.splits)

lemma visible_put_item:
  "store_item L (put L (TargetName.ItemMetadata u) b st) u = Some m \<Longrightarrow>
   visible_item L (put L (TargetName.ItemMetadata u) b st) =
     (visible_item L st)(u \<mapsto> (m, store_secret L st u (i_current_generation m)))"
  by (auto simp: visible_item_def fun_eq_iff split: option.splits)

lemma visible_del_item [simp]:
  "visible_item L (del L (TargetName.ItemMetadata u) st) = (visible_item L st)(u := None)"
  by (auto simp: visible_item_def fun_eq_iff split: option.splits)

text \<open>What was encoded is what the view shows.\<close>

lemma store_collection_put:
  assumes "encode_metadata (collection_cbor L) c = Inr b" and "collection_value c"
    and "is_ok (validate_collection c)"
  shows "store_collection L (put L (TargetName.Collection (c_id c)) b st) (c_id c) = Some c"
  using assms coll.decode_encode [of c b]
  by (simp add: store_collection_def put_del entry_collection_def)

lemma store_alias_put:
  assumes "encode_metadata (alias_cbor L) a = Inr b" and "alias_value a" and "is_ok (validate_alias a)"
  shows "store_alias L (put L (TargetName.Alias (a_name a)) b st) (a_name a) = Some a"
  using assms ali.decode_encode [of a b]
  by (simp add: store_alias_def put_del entry_alias_def alias_value_def)

lemma store_item_put:
  assumes "encode_metadata (item_cbor L) m = Inr b" and "item_value m" and "is_ok (validate_item m)"
  shows "store_item L (put L (TargetName.ItemMetadata (i_id m)) b st) (i_id m) = Some m"
  using assms itm.decode_encode [of m b]
  by (simp add: store_item_def put_del entry_item_def)


text \<open>The view after each change.\<close>

lemma view_simps [simp]:
  "vv_collections (view L st) = store_collection L st"
  "vv_aliases (view L st) = store_alias L st"
  "vv_items (view L st) = visible_item L st"
  by (simp_all add: view_def)

lemma view_put_collection:
  assumes "encode_metadata (collection_cbor L) c = Inr b" and "collection_value c"
    and "is_ok (validate_collection c)"
  shows "view L (put L (TargetName.Collection (c_id c)) b st) =
    (view L st)\<lparr>vv_collections := (store_collection L st)(c_id c \<mapsto> c)\<rparr>"
  using store_collection_put [OF assms] by (auto simp: view_def fun_eq_iff)

lemma view_put_alias:
  assumes "encode_metadata (alias_cbor L) a = Inr b" and "alias_value a" and "is_ok (validate_alias a)"
  shows "view L (put L (TargetName.Alias (a_name a)) b st) =
    (view L st)\<lparr>vv_aliases := (store_alias L st)(a_name a \<mapsto> a)\<rparr>"
  using store_alias_put [OF assms] by (auto simp: view_def fun_eq_iff)

lemma view_put_item:
  assumes "encode_metadata (item_cbor L) m = Inr b" and "item_value m" and "is_ok (validate_item m)"
  shows "view L (put L (TargetName.ItemMetadata (i_id m)) b st) =
    (view L st)\<lparr>vv_items := (visible_item L st)(i_id m \<mapsto>
       (m, store_secret L st (i_id m) (i_current_generation m)))\<rparr>"
  using visible_put_item [OF store_item_put [OF assms]] by (simp add: view_def)

lemma view_secret:
  assumes "\<forall>m. store_item L st u = Some m \<longrightarrow> i_current_generation m \<noteq> g"
  shows "view L (put L (TargetName.ItemSecret u g) b st) = view L st"
    and "view L (del L (TargetName.ItemSecret u g) st) = view L st"
  using visible_secret [OF assms] by (simp_all add: view_def)

lemma view_del:
  "view L (del L (TargetName.Collection u) st) =
     (view L st)\<lparr>vv_collections := (store_collection L st)(u := None)\<rparr>"
  "view L (del L (TargetName.Alias n) st) = (view L st)\<lparr>vv_aliases := (store_alias L st)(n := None)\<rparr>"
  "view L (del L (TargetName.ItemMetadata u) st) =
     (view L st)\<lparr>vv_items := (visible_item L st)(u := None)\<rparr>"
  by (auto simp: view_def fun_eq_iff)


text \<open>Every elementary change keeps the vault consistent.\<close>

lemma vault_step_consistent:
  assumes "vault_step L st st'" and "vault_consistent L st"
  shows "vault_consistent L st'"
  using assms
proof cases
  case (write_collection u b c)
  then show ?thesis
    using assms(2) unfolding vault_consistent_def
    by (simp, metis option.distinct(1) store_collection_put_other)
next
  case (write_alias n b a)
  then show ?thesis
    using assms(2) unfolding vault_consistent_def
    by (simp, metis option.inject store_alias_put_other)
next
  case (write_secret u g b)
  then show ?thesis using assms(2) unfolding vault_consistent_def by auto
next
  case (write_item u b m)
  then show ?thesis
    using assms(2) unfolding vault_consistent_def
    by (simp, metis option.inject store_item_put_other)
next
  case (delete_alias n)
  then show ?thesis using assms(2) unfolding vault_consistent_def by auto
next
  case (delete_item u)
  then show ?thesis using assms(2) unfolding vault_consistent_def by auto
next
  case (delete_secret u g)
  then show ?thesis using assms(2) unfolding vault_consistent_def by auto
next
  case (delete_collection u)
  then show ?thesis using assms(2) unfolding vault_consistent_def by auto
qed

lemma vault_steps_consistent:
  "vault_steps L st st' \<Longrightarrow> vault_consistent L st \<Longrightarrow> vault_consistent L st'"
  by (induction rule: rtranclp_induct) (auto intro: vault_step_consistent)

end

end
