(* ===== verification/Reference_Cbor.thy ===== *)
theory Reference_Cbor
  imports Reference_Text Broker_Views
begin

text \<open>
  A reference implementation of the CBOR encoding (RFC 8949) the crate \<^verbatim>\<open>ciborium\<close> gives
  to the metadata records: definite-length items with minimal heads, UUIDs as 16-byte strings,
  records as maps from field names. It satisfies the codec laws, so the broker's theorems apply
  to it; the model itself never uses it.
\<close>

section \<open>Data items\<close>

datatype cval =
    UInt nat
  | Bytes bytes
  | Text string
  | Map "cval list"  \<comment> \<open>keys and values in turn\<close>

definition be_bytes :: "nat \<Rightarrow> nat \<Rightarrow> bytes" where
  "be_bytes k n = map of_nat (digits 256 k n)"

definition be_value :: "bytes \<Rightarrow> nat" where
  "be_value bs = from_digits 256 (map unat bs)"

text \<open>The initial byte holds the major type and the argument, or how many bytes it takes.\<close>

definition cbor_head :: "nat \<Rightarrow> nat \<Rightarrow> bytes" where
  "cbor_head major n =
     (if n < 24 then [of_nat (major * 32 + n)]
      else if n < 256 then of_nat (major * 32 + 24) # be_bytes 1 n
      else if n < 65536 then of_nat (major * 32 + 25) # be_bytes 2 n
      else if n < 4294967296 then of_nat (major * 32 + 26) # be_bytes 4 n
      else of_nat (major * 32 + 27) # be_bytes 8 n)"

fun head_width :: "nat \<Rightarrow> nat option" where
  "head_width a =
     (if a = 24 then Some 1 else if a = 25 then Some 2 else if a = 26 then Some 4
      else if a = 27 then Some 8 else None)"

fun parse_head :: "bytes \<Rightarrow> (nat \<times> nat \<times> bytes) option" where
  "parse_head [] = None"
| "parse_head (b # r) =
     (let major = unat b div 32; a = unat b mod 32 in
      if a < 24 then Some (major, a, r)
      else case head_width a of
             None \<Rightarrow> None
           | Some w \<Rightarrow> if length r < w then None else Some (major, be_value (take w r), drop w r))"

fun cbor_encode :: "cval \<Rightarrow> bytes" where
  "cbor_encode (UInt n) = cbor_head 0 n"
| "cbor_encode (Bytes b) = cbor_head 2 (length b) @ b"
| "cbor_encode (Text s) = cbor_head 3 (length s) @ as_bytes s"
| "cbor_encode (Map vs) = cbor_head 5 (length vs div 2) @ concat (map cbor_encode vs)"

fun parse_many :: "(bytes \<Rightarrow> ('a \<times> bytes) option) \<Rightarrow> nat \<Rightarrow> bytes \<Rightarrow> ('a list \<times> bytes) option" where
  "parse_many p 0 b = Some ([], b)"
| "parse_many p (Suc n) b =
     (case p b of
        None \<Rightarrow> None
      | Some (x, b') \<Rightarrow>
          (case parse_many p n b' of None \<Rightarrow> None | Some (xs, b'') \<Rightarrow> Some (x # xs, b'')))"

text \<open>The first argument bounds the nesting, as the crate's recursion limit does.\<close>

fun cbor_parse :: "nat \<Rightarrow> bytes \<Rightarrow> (cval \<times> bytes) option" where
  "cbor_parse 0 b = None"
| "cbor_parse (Suc d) b =
     (case parse_head b of
        None \<Rightarrow> None
      | Some (major, n, r) \<Rightarrow>
          if major = 0 then Some (UInt n, r)
          else if major = 2 then
            (if length r < n then None else Some (Bytes (take n r), drop n r))
          else if major = 3 then
            (if length r < n then None
             else map_option (\<lambda>s. (Text s, drop n r)) (from_utf8 (take n r)))
          else if major = 5 then
            map_option (\<lambda>(vs, r'). (Map vs, r')) (parse_many (cbor_parse d) (2 * n) r)
          else None)"

fun cval_ok :: "cval \<Rightarrow> bool" where
  "cval_ok (UInt n) = (n < 2 ^ 64)"
| "cval_ok (Bytes b) = (length b < 2 ^ 64)"
| "cval_ok (Text s) = (length s < 2 ^ 64 \<and> is_utf8 s)"
| "cval_ok (Map vs) = (length vs < 2 ^ 64 \<and> even (length vs) \<and> list_all cval_ok vs)"

fun cval_within :: "nat \<Rightarrow> cval \<Rightarrow> bool" where
  "cval_within 0 v = False"
| "cval_within (Suc d) (Map vs) = list_all (cval_within d) vs"
| "cval_within (Suc d) v = True"


section \<open>Parsing inverts encoding\<close>

lemma be_value_bytes: "n < 256 ^ k \<Longrightarrow> be_value (be_bytes k n) = n"
proof -
  assume "n < 256 ^ k"
  have "map (unat \<circ> (of_nat :: nat \<Rightarrow> u8)) (digits 256 k n) = digits 256 k n"
    by (rule map_idI) (use digits_less [of 256 _ k n] in \<open>auto simp: unat_of_nat\<close>)
  with \<open>n < 256 ^ k\<close> show ?thesis by (simp add: be_value_def be_bytes_def from_to_digits)
qed

lemma length_be_bytes [simp]: "length (be_bytes k n) = k"
  by (simp add: be_bytes_def)

lemma parse_head_head:
  assumes "major < 8" and "n < 2 ^ 64"
  shows "parse_head (cbor_head major n @ r) = Some (major, n, r)"
proof -
  have byte: "unat (of_nat (major * 32 + a) :: u8) = major * 32 + a" if "a < 32" for a
    using assms(1) that by (simp add: unat_of_nat del: of_nat_add of_nat_mult)
  consider "n < 24" | "24 \<le> n" "n < 256" | "256 \<le> n" "n < 65536" | "65536 \<le> n" "n < 4294967296"
    | "4294967296 \<le> n" by linarith
  then show ?thesis
    by cases (use assms byte be_value_bytes [of n 1] be_value_bytes [of n 2] be_value_bytes [of n 4]
        be_value_bytes [of n 8] in \<open>simp_all add: cbor_head_def Let_def del: of_nat_add of_nat_mult\<close>)
qed

lemma parse_many_encode:
  assumes "\<And>v r. v \<in> set vs \<Longrightarrow> p (f v @ r) = Some (v, r)"
  shows "parse_many p (length vs) (concat (map f vs) @ r) = Some (vs, r)"
  using assms
proof (induction vs)
  case Nil
  then show ?case by simp
next
  case (Cons v vs)
  have "p (f v @ concat (map f vs) @ r) = Some (v, concat (map f vs) @ r)" by (rule Cons.prems) simp
  with Cons show ?case by simp
qed

lemma cbor_parse_encode:
  "cval_ok v \<Longrightarrow> cval_within d v \<Longrightarrow> cbor_parse d (cbor_encode v @ r) = Some (v, r)"
proof (induction d arbitrary: v r)
  case 0
  then show ?case by simp
next
  case (Suc d)
  show ?case
  proof (cases v)
    case (Map vs)
    then have "2 * (length vs div 2) = length vs" and "length vs div 2 < 2 ^ 64"
      using Suc.prems by auto
    moreover have "parse_many (cbor_parse d) (length vs) (concat (map cbor_encode vs) @ r) = Some (vs, r)"
      using Suc Map by (intro parse_many_encode) (auto simp: list_all_iff)
    ultimately show ?thesis using Map by (simp add: parse_head_head)
  qed (use Suc.prems in \<open>auto simp: parse_head_head from_utf8_as_bytes\<close>)
qed

lemma cbor_encode_ne: "cbor_encode v \<noteq> []"
  by (cases v) (simp_all add: cbor_head_def)


section \<open>Codecs for records\<close>

definition reference_cbor :: "('a \<Rightarrow> cval) \<Rightarrow> (cval \<Rightarrow> 'a option) \<Rightarrow> 'a cbor" where
  "reference_cbor put_value get_value =
     \<lparr>cbor_ser = \<lambda>x.
        if cval_ok (put_value x) then Inr (cbor_encode (put_value x)) else Inl ''value out of range'',
      cbor_de = \<lambda>b.
        case cbor_parse 256 b of
          None \<Rightarrow> Inl ''malformed data item''
        | Some (v, r) \<Rightarrow>
            (case get_value v of
               None \<Rightarrow> Inl ''unexpected data item''
             | Some x \<Rightarrow> Inr (x, length b - length r))\<rparr>"

lemma reference_cbor_codec:
  assumes "\<And>x. ok x \<Longrightarrow> get_value (put_value x) = Some x" and "\<And>x. cval_within 256 (put_value x)"
  shows "cbor_codec (reference_cbor put_value get_value) ok"
proof
  fix x p r
  assume "ok x" and "cbor_ser (reference_cbor put_value get_value) x = Inr p"
  then show "cbor_de (reference_cbor put_value get_value) (p @ r) = Inr (x, length p)"
    using assms by (auto simp: reference_cbor_def cbor_parse_encode split: if_splits)
next
  fix b x n
  assume "cbor_de (reference_cbor put_value get_value) b = Inr (x, n)"
  then show "n \<le> length b" by (auto simp: reference_cbor_def split: option.splits)
next
  fix x p
  assume "cbor_ser (reference_cbor put_value get_value) x = Inr p"
  then show "p \<noteq> []" by (auto simp: reference_cbor_def cbor_encode_ne split: if_splits)
qed

text \<open>Fields of a record, by name, and the field types.\<close>

fun get_field :: "string \<Rightarrow> cval list \<Rightarrow> cval option" where
  "get_field k (Text s # v # r) = (if s = k then Some v else get_field k r)"
| "get_field k _ = None"

definition uuid_value :: "uuid \<Rightarrow> cval" where
  "uuid_value u = Bytes (be_bytes 16 (unat u))"

fun get_uint :: "cval \<Rightarrow> 'w::len word option" where
  "get_uint (UInt n) = (if n < 2 ^ LENGTH('w) then Some (of_nat n) else None)"
| "get_uint _ = None"

fun get_uuid :: "cval \<Rightarrow> uuid option" where
  "get_uuid (Bytes b) = (if length b = 16 then Some (of_nat (be_value b)) else None)"
| "get_uuid _ = None"

fun get_text :: "cval \<Rightarrow> string option" where
  "get_text (Text s) = Some s"
| "get_text _ = None"

fun get_pairs :: "cval list \<Rightarrow> (string, string) btree \<Rightarrow> (string, string) btree option" where
  "get_pairs [] m = Some m"
| "get_pairs (Text k # Text v # r) m = get_pairs r (bt_insert k v m)"
| "get_pairs _ m = None"

fun get_map :: "cval \<Rightarrow> (string, string) btree option" where
  "get_map (Map vs) = get_pairs vs []"
| "get_map _ = None"

definition map_value :: "(string, string) btree \<Rightarrow> cval" where
  "map_value m = Map (concat (map (\<lambda>(k, v). [Text k, Text v]) m))"

lemma get_uint_value [simp]: "get_uint (UInt (unat w)) = Some w"
  using unsigned_less [of w] by simp

lemma get_uuid_value [simp]: "get_uuid (uuid_value u) = Some u"
proof -
  have "unat u < 256 ^ 16" using unsigned_less [of u] by simp
  then show ?thesis by (simp add: uuid_value_def be_value_bytes)
qed

lemma bt_insert_last:
  "\<forall>a \<in> fst ` set m. a < k \<Longrightarrow> bt_insert k v m = m @ [(k, v)]"
  by (induction m) auto

lemma get_pairs_value:
  "bt_keys_sorted (acc @ m) \<Longrightarrow>
   get_pairs (concat (map (\<lambda>(k, v). [Text k, Text v]) m)) acc = Some (acc @ m)"
proof (induction m arbitrary: acc)
  case Nil
  then show ?case by simp
next
  case (Cons p m)
  obtain k v where p: "p = (k, v)" by force
  have "\<forall>a \<in> fst ` set acc. a < k"
    using Cons.prems p by (auto simp: bt_keys_sorted_def sorted_wrt_append)
  with Cons p show ?case by (simp add: bt_insert_last)
qed

lemma get_map_value: "bt_keys_sorted m \<Longrightarrow> get_map (map_value m) = Some m"
  using get_pairs_value [of "[]" m] by (simp add: map_value_def)

end
