(* ===== verification/Broker_Entries.thy ===== *)
theory Broker_Entries
  imports Broker_Views
begin

text \<open>
  The broker enumerates the store and works on the entries it parsed. This theory relates such a
  list of entries, and the recovery inventory built from it, to the views of the store.
\<close>

section \<open>Entries and the store\<close>

fun kind_of :: "TargetName \<Rightarrow> EntryKind" where
  "kind_of (TargetName.Collection u) = EntryKind.Collection u"
| "kind_of (TargetName.Alias n) = EntryKind.Alias n"
| "kind_of (TargetName.ItemMetadata u) = EntryKind.ItemMetadata u"
| "kind_of (TargetName.ItemSecret u g) = EntryKind.ItemSecret u g"

definition entry_for :: "TargetName \<Rightarrow> bytes \<Rightarrow> Entry" where
  "entry_for t b = \<lparr>e_kind = kind_of t, e_blob = (case t of TargetName.ItemSecret _ _ \<Rightarrow> [] | _ \<Rightarrow> b)\<rparr>"

definition entries_of :: "'x text_lib_scheme \<Rightarrow> (string \<rightharpoonup> bytes) \<Rightarrow> Entry list \<Rightarrow> bool" where
  "entries_of L st es \<longleftrightarrow>
     distinct (map e_kind es) \<and>
     set es = {entry_for t b |t b. target_wf t \<and> st (target_to_string L t) = Some b}"

lemma kind_of_inj [simp]: "kind_of t = kind_of t' \<longleftrightarrow> t = t'"
  by (cases t; cases t') auto

lemma e_kind_entry_for [simp]: "e_kind (entry_for t b) = kind_of t"
  by (simp add: entry_for_def)

lemma entries_kind:
  assumes "entries_of L st es" and "target_wf t"
  shows "(\<exists>e \<in> set es. e_kind e = kind_of t) \<longleftrightarrow> st (target_to_string L t) \<noteq> None"
proof
  assume "\<exists>e \<in> set es. e_kind e = kind_of t"
  then show "st (target_to_string L t) \<noteq> None" using assms by (auto simp: entries_of_def)
next
  assume "st (target_to_string L t) \<noteq> None"
  then obtain b where "entry_for t b \<in> set es" using assms by (auto simp: entries_of_def)
  then show "\<exists>e \<in> set es. e_kind e = kind_of t" by (rule bexI [rotated]) simp
qed

lemma entry_item_kind:
  "entry_item L e = Some m \<Longrightarrow> e_kind e = EntryKind.ItemMetadata (i_id m)"
  by (auto simp: entry_item_def split: EntryKind.splits sum.splits if_splits)

lemma entry_alias_kind:
  "entry_alias L e = Some a \<Longrightarrow> e_kind e = EntryKind.Alias (a_name a)"
  by (auto simp: entry_alias_def split: EntryKind.splits sum.splits if_splits)

lemma entry_collection_kind:
  "entry_collection L e = Some c \<Longrightarrow> e_kind e = EntryKind.Collection (c_id c)"
  by (auto simp: entry_collection_def split: EntryKind.splits sum.splits if_splits)

fun target_of_kind :: "EntryKind \<Rightarrow> TargetName" where
  "target_of_kind (EntryKind.Collection u) = TargetName.Collection u"
| "target_of_kind (EntryKind.Alias n) = TargetName.Alias n"
| "target_of_kind (EntryKind.ItemMetadata u) = TargetName.ItemMetadata u"
| "target_of_kind (EntryKind.ItemSecret u g) = TargetName.ItemSecret u g"

lemma target_of_kind_of [simp]: "target_of_kind (kind_of t) = t"
  by (cases t) auto

definition listing_entry :: "'x text_lib_scheme \<Rightarrow> string \<times> bytes \<Rightarrow> Entry option" where
  "listing_entry L l =
     (case target_from_str L (fst l) of Inl _ \<Rightarrow> None | Inr t \<Rightarrow> Some (entry_for t (snd l)))"

lemma concat_entry_of: "concat (map (entry_of L) ls) = List.map_filter (listing_entry L) ls"
  by (induction ls)
     (auto simp: entry_of_def listing_entry_def entry_for_def List.map_filter_simps
       split: sum.splits TargetName.splits)

lemma listing_entry_hide:
  "listing_entry L (hide_secret_blob L (n, b)) =
     (case target_from_str L n of Inl _ \<Rightarrow> None | Inr t \<Rightarrow> Some (entry_for t b))"
  by (auto simp: listing_entry_def hide_secret_blob_def entry_for_def split: sum.splits TargetName.splits)

context target_lib
begin

lemma listing_entries:
  assumes "distinct (map fst ls)"
    and "set ls = hide_secret_blob L ` {(n, b). st n = Some b \<and> starts_with CREDENTIAL_PREFIX n}"
  shows "entries_of L st (concat (map (entry_of L) ls))"
proof -
  have "fst l = target_to_string L (target_of_kind (e_kind e))" if "listing_entry L l = Some e" for l e
    using that by (auto simp: listing_entry_def dest: from_str_Inr split: sum.splits)
  then have "distinct (map e_kind (List.map_filter (listing_entry L) ls))"
    by (rule distinct_map_filter [OF assms(1)])
  moreover have "(\<exists>l \<in> set ls. listing_entry L l = Some e) \<longleftrightarrow>
      (\<exists>t b. e = entry_for t b \<and> target_wf t \<and> st (target_to_string L t) = Some b)" for e
  proof
    assume "\<exists>l \<in> set ls. listing_entry L l = Some e"
    then obtain n b where "st n = Some b" "listing_entry L (hide_secret_blob L (n, b)) = Some e"
      using assms(2) by auto
    then show "\<exists>t b. e = entry_for t b \<and> target_wf t \<and> st (target_to_string L t) = Some b"
      by (auto simp: listing_entry_hide split: sum.splits) (metis from_str_Inr)
  next
    assume "\<exists>t b. e = entry_for t b \<and> target_wf t \<and> st (target_to_string L t) = Some b"
    then obtain t b where t: "e = entry_for t b" "target_wf t" "st (target_to_string L t) = Some b"
      by blast
    then have "hide_secret_blob L (target_to_string L t, b) \<in> set ls"
      unfolding assms(2) by (intro imageI) (simp add: target_in_namespace)
    moreover have "listing_entry L (hide_secret_blob L (target_to_string L t, b)) = Some e"
      using t by (simp add: listing_entry_hide from_str_to_string)
    ultimately show "\<exists>l \<in> set ls. listing_entry L l = Some e" by blast
  qed
  ultimately show ?thesis
    by (auto simp: entries_of_def concat_entry_of set_map_filter)
qed

end

lemma alias_wf:
  assumes "is_ok (validate_alias a)" and "is_utf8 (a_name a)"
  shows "target_wf (TargetName.Alias (a_name a))"
  using assms by (auto simp: validate_alias_ok text_ok_def)

lemma entries_items:
  assumes "entries_of L st es"
  shows "set (List.map_filter (entry_item L) es) = {m. \<exists>u. store_item L st u = Some m}"
    and "distinct (map i_id (List.map_filter (entry_item L) es))"
proof -
  show "set (List.map_filter (entry_item L) es) = {m. \<exists>u. store_item L st u = Some m}"
  proof (intro set_eqI iffI; clarsimp simp: set_map_filter)
    fix m e
    assume e: "e \<in> set es" "entry_item L e = Some m"
    then obtain t b where "e = entry_for t b" "st (target_to_string L t) = Some b"
      using assms by (auto simp: entries_of_def)
    moreover from this e have "t = TargetName.ItemMetadata (i_id m)"
      using entry_item_kind [of L e m] by (cases t) auto
    ultimately have "store_item L st (i_id m) = Some m"
      using e by (simp add: store_item_def entry_for_def)
    then show "\<exists>u. store_item L st u = Some m" ..
  next
    fix m u
    assume "store_item L st u = Some m"
    then obtain b where "st (target_to_string L (TargetName.ItemMetadata u)) = Some b"
      and "entry_item L (entry_for (TargetName.ItemMetadata u) b) = Some m"
      by (auto simp: store_item_def entry_for_def split: option.splits)
    then show "\<exists>e \<in> set es. entry_item L e = Some m"
      using assms by (force simp: entries_of_def)
  qed
  show "distinct (map i_id (List.map_filter (entry_item L) es))"
    using assms
    by (intro distinct_map_filter [where k = e_kind and h = EntryKind.ItemMetadata])
       (auto simp: entries_of_def dest: entry_item_kind)
qed

lemma entries_collections:
  assumes "entries_of L st es"
  shows "set (List.map_filter (entry_collection L) es) = {c. \<exists>u. store_collection L st u = Some c}"
    and "distinct (map c_id (List.map_filter (entry_collection L) es))"
proof -
  show "set (List.map_filter (entry_collection L) es) = {c. \<exists>u. store_collection L st u = Some c}"
  proof (intro set_eqI iffI; clarsimp simp: set_map_filter)
    fix c e
    assume e: "e \<in> set es" "entry_collection L e = Some c"
    then obtain t b where "e = entry_for t b" "st (target_to_string L t) = Some b"
      using assms by (auto simp: entries_of_def)
    moreover from this e have "t = TargetName.Collection (c_id c)"
      using entry_collection_kind [of L e c] by (cases t) auto
    ultimately have "store_collection L st (c_id c) = Some c"
      using e by (simp add: store_collection_def entry_for_def)
    then show "\<exists>u. store_collection L st u = Some c" ..
  next
    fix c u
    assume "store_collection L st u = Some c"
    then obtain b where "st (target_to_string L (TargetName.Collection u)) = Some b"
      and "entry_collection L (entry_for (TargetName.Collection u) b) = Some c"
      by (auto simp: store_collection_def entry_for_def split: option.splits)
    then show "\<exists>e \<in> set es. entry_collection L e = Some c"
      using assms by (force simp: entries_of_def)
  qed
  show "distinct (map c_id (List.map_filter (entry_collection L) es))"
    using assms
    by (intro distinct_map_filter [where k = e_kind and h = EntryKind.Collection])
       (auto simp: entries_of_def dest: entry_collection_kind)
qed

lemma entries_aliases:
  assumes "entries_of L st es"
  shows "set (List.map_filter (entry_alias L) es) = {a. \<exists>n. store_alias L st n = Some a}"
    and "distinct (map a_name (List.map_filter (entry_alias L) es))"
proof -
  show "set (List.map_filter (entry_alias L) es) = {a. \<exists>n. store_alias L st n = Some a}"
  proof (intro set_eqI iffI; clarsimp simp: set_map_filter)
    fix a e
    assume e: "e \<in> set es" "entry_alias L e = Some a"
    then obtain t b where "e = entry_for t b" "st (target_to_string L t) = Some b" "target_wf t"
      using assms by (auto simp: entries_of_def)
    moreover from this e have "t = TargetName.Alias (a_name a)"
      using entry_alias_kind [of L e a] by (cases t) auto
    ultimately have "store_alias L st (a_name a) = Some a"
      using e by (simp add: store_alias_def entry_for_def)
    then show "\<exists>n. store_alias L st n = Some a" ..
  next
    fix a n
    assume "store_alias L st n = Some a"
    then obtain b where b: "st (target_to_string L (TargetName.Alias n)) = Some b"
        "entry_alias L (entry_for (TargetName.Alias n) b) = Some a" "is_utf8 n"
      by (auto simp: store_alias_def entry_for_def split: option.splits if_splits)
    then have "is_ok (validate_alias a)" "a_name a = n"
      by (auto simp: entry_alias_def entry_for_def split: sum.splits if_splits)
    with b alias_wf have "target_wf (TargetName.Alias n)" by blast
    with b show "\<exists>e \<in> set es. entry_alias L e = Some a"
      using assms by (force simp: entries_of_def)
  qed
  show "distinct (map a_name (List.map_filter (entry_alias L) es))"
    using assms
    by (intro distinct_map_filter [where k = e_kind and h = EntryKind.Alias])
       (auto simp: entries_of_def dest: entry_alias_kind)
qed

text \<open>The recovery inventory says what the store says.\<close>

definition commit_item :: "ItemMetadata \<Rightarrow> (uuid, uuid) btree \<Rightarrow> (uuid, uuid) btree" where
  "commit_item m = bt_insert (i_id m) (i_current_generation m)"

definition entry_secret :: "Entry \<Rightarrow> (uuid \<times> uuid) option" where
  "entry_secret e = (case e_kind e of EntryKind.ItemSecret i g \<Rightarrow> Some (i, g) | _ \<Rightarrow> None)"

lemma entry_secret_iff: "entry_secret e = Some (i, g) \<longleftrightarrow> e_kind e = EntryKind.ItemSecret i g"
  by (cases "e_kind e") (auto simp: entry_secret_def)

lemma inventory_fold:
  "fold (inventory_add L) es v =
     \<lparr>committed_generations =
        fold commit_item (List.map_filter (entry_item L) es) (committed_generations v),
      stored_generations = fold insort_insert (List.map_filter entry_secret es) (stored_generations v)\<rparr>"
proof (induction es arbitrary: v)
  case Nil
  then show ?case by (simp add: List.map_filter_simps)
next
  case (Cons e es)
  have "inventory_add L e v =
     \<lparr>committed_generations = fold commit_item (List.map_filter (entry_item L) [e]) (committed_generations v),
      stored_generations = fold insort_insert (List.map_filter entry_secret [e]) (stored_generations v)\<rparr>"
    by (auto simp: inventory_add_def entry_item_def entry_secret_def commit_item_def
        List.map_filter_simps split: EntryKind.splits sum.splits)
  then show ?case
    using Cons [of "inventory_add L e v"]
    by (auto simp: List.map_filter_simps split: option.splits)
qed

lemma commit_item_fold:
  assumes "distinct (map i_id ms)"
  shows "bt_keys_sorted c \<Longrightarrow> bt_keys_sorted (fold commit_item ms c)"
    and "map_of (fold commit_item ms c) u = Some g \<longleftrightarrow>
      (\<exists>m \<in> set ms. i_id m = u \<and> i_current_generation m = g) \<or>
      u \<notin> i_id ` set ms \<and> map_of c u = Some g"
proof -
  show "bt_keys_sorted c \<Longrightarrow> bt_keys_sorted (fold commit_item ms c)"
    by (induction ms arbitrary: c) (simp_all add: commit_item_def)
  show "map_of (fold commit_item ms c) u = Some g \<longleftrightarrow>
      (\<exists>m \<in> set ms. i_id m = u \<and> i_current_generation m = g) \<or>
      u \<notin> i_id ` set ms \<and> map_of c u = Some g"
    using assms
  proof (induction ms arbitrary: c)
    case Nil
    then show ?case by simp
  next
    case (Cons m ms)
    then have "i_id m \<noteq> i_id k" if "k \<in> set ms" for k using that by auto
    with Cons show ?case by (auto simp: commit_item_def)
  qed
qed

lemma insort_fold:
  "set (fold insort_insert xs ys) = set xs \<union> set ys"
  "sorted ys \<Longrightarrow> sorted (fold insort_insert xs ys)"
  "distinct ys \<Longrightarrow> distinct (fold insort_insert xs ys)"
  by (induction xs arbitrary: ys)
     (auto simp: set_insort_insert sorted_insort_insert distinct_insort_insert)

lemma inventory_of_store:
  assumes "entries_of L st es"
  shows "inventory_wf (inventory_of L es)"
    and "map_of (committed_generations (inventory_of L es)) u = Some g \<longleftrightarrow>
      (\<exists>m. store_item L st u = Some m \<and> i_current_generation m = g)"
    and "(u, g) \<in> set (stored_generations (inventory_of L es)) \<longleftrightarrow> store_secret L st u g \<noteq> None"
proof -
  note items = entries_items [OF assms]
  show "inventory_wf (inventory_of L es)"
    using commit_item_fold(1) [OF items(2)]
    by (simp add: inventory_of_def inventory_fold inventory_wf_def insort_fold)
  show "map_of (committed_generations (inventory_of L es)) u = Some g \<longleftrightarrow>
      (\<exists>m. store_item L st u = Some m \<and> i_current_generation m = g)"
    using commit_item_fold(2) [OF items(2), of "[]" u g]
    by (auto simp: inventory_of_def inventory_fold items(1) dest: store_item_id)
  have "(u, g) \<in> set (List.map_filter entry_secret es) \<longleftrightarrow>
      (\<exists>e \<in> set es. e_kind e = kind_of (TargetName.ItemSecret u g))"
    by (auto simp: set_map_filter entry_secret_iff)
  also have "\<dots> \<longleftrightarrow> store_secret L st u g \<noteq> None"
    using entries_kind [OF assms, of "TargetName.ItemSecret u g"] by (simp add: store_secret_def)
  finally show "(u, g) \<in> set (stored_generations (inventory_of L es)) \<longleftrightarrow> store_secret L st u g \<noteq> None"
    by (simp add: inventory_of_def inventory_fold insort_fold)
qed

text \<open>The two kinds of recovery actions, and what they are for the inventory of a store.\<close>

fun deletion :: "RecoveryAction \<Rightarrow> (uuid \<times> uuid) option" where
  "deletion (DeleteAbandonedGeneration i g) = Some (i, g)"
| "deletion (ReportMissingCommittedGeneration _ _) = None"

fun report :: "RecoveryAction \<Rightarrow> uuid option" where
  "report (DeleteAbandonedGeneration _ _) = None"
| "report (ReportMissingCommittedGeneration i _) = Some i"

definition abandoned :: "'x broker_lib_scheme \<Rightarrow> (string \<rightharpoonup> bytes) \<Rightarrow> (uuid \<times> uuid) set" where
  "abandoned L st =
     {(u, g). store_secret L st u g \<noteq> None \<and>
        (\<forall>m. store_item L st u = Some m \<longrightarrow> i_current_generation m \<noteq> g)}"

definition incomplete :: "'x broker_lib_scheme \<Rightarrow> (string \<rightharpoonup> bytes) \<Rightarrow> uuid set" where
  "incomplete L st =
     {u. \<exists>m. store_item L st u = Some m \<and> store_secret L st u (i_current_generation m) = None}"

lemma map_filter_plan:
  "List.map_filter deletion (plan_recovery v) =
     filter (\<lambda>(i, g). map_of (committed_generations v) i \<noteq> Some g) (stored_generations v)"
  "List.map_filter report (plan_recovery v) =
     map fst (filter (\<lambda>p. p \<notin> set (stored_generations v)) (committed_generations v))"
proof -
  have del: "List.map_filter deletion (map (\<lambda>(i, g). DeleteAbandonedGeneration i g) xs) = xs"
    and nodel: "List.map_filter deletion (map (\<lambda>(i, g). ReportMissingCommittedGeneration i g) xs) = []"
    and rep: "List.map_filter report (map (\<lambda>(i, g). ReportMissingCommittedGeneration i g) xs) = map fst xs"
    and norep: "List.map_filter report (map (\<lambda>(i, g). DeleteAbandonedGeneration i g) xs) = []" for xs
    by (induction xs) (auto simp: List.map_filter_simps)
  show "List.map_filter deletion (plan_recovery v) =
     filter (\<lambda>(i, g). map_of (committed_generations v) i \<noteq> Some g) (stored_generations v)"
    "List.map_filter report (plan_recovery v) =
     map fst (filter (\<lambda>p. p \<notin> set (stored_generations v)) (committed_generations v))"
    by (simp_all add: plan_recovery_def map_filter_append del nodel rep norep)
qed

lemma plan_of_store:
  assumes "entries_of L st es"
  defines "as \<equiv> plan_recovery (inventory_of L es)"
  shows "set (List.map_filter deletion as) = abandoned L st"
    and "distinct (List.map_filter deletion as)"
    and "set (List.map_filter report as) = incomplete L st"
    and "sorted_wrt (<) (List.map_filter report as)"
proof -
  note inv = inventory_of_store [OF assms(1)]
  have mem: "(u, g) \<in> set (committed_generations (inventory_of L es)) \<longleftrightarrow>
      (\<exists>m. store_item L st u = Some m \<and> i_current_generation m = g)" for u g
    using inv(1,2) by (simp add: inventory_wf_def bt_mem_iff)
  show "set (List.map_filter deletion as) = abandoned L st"
    using inv(2,3) by (auto simp: as_def map_filter_plan abandoned_def)
  show "distinct (List.map_filter deletion as)"
    using inv(1) by (simp add: as_def map_filter_plan inventory_wf_def)
  show "set (List.map_filter report as) = incomplete L st"
  proof (rule set_eqI)
    fix u
    let ?v = "inventory_of L es"
    have "u \<in> set (List.map_filter report as) \<longleftrightarrow>
        (\<exists>g. (u, g) \<in> set (committed_generations ?v) \<and> (u, g) \<notin> set (stored_generations ?v))"
      by (auto simp: as_def map_filter_plan image_iff)
    also have "\<dots> \<longleftrightarrow> u \<in> incomplete L st"
      unfolding mem inv(3) by (auto simp: incomplete_def)
    finally show "u \<in> set (List.map_filter report as) \<longleftrightarrow> u \<in> incomplete L st" .
  qed
  show "sorted_wrt (<) (List.map_filter report as)"
    using inv(1)
    by (auto simp: as_def map_filter_plan inventory_wf_def bt_keys_sorted_def intro: strict_filter)
qed

end
