(* ===== verification/Broker_Safety.thy ===== *)
theory Broker_Safety
  imports Broker_Entries
begin

text \<open>
  The broker's methods on any backend that keeps the contract \<open>vault_backend\<close>: what each reads,
  and that whatever it does to the store, at every fault, is a sequence of the elementary changes
  \<open>vault_step\<close>. The proofs are in the locale \<open>vault\<close>, the backend contract together with the
  laws of the third-party crates.
\<close>

lemma validate_item_update [simp]:
  "validate_item (m\<lparr>i_created := x\<rparr>) = validate_item m"
  "validate_item (m\<lparr>i_modified := y\<rparr>) = validate_item m"
  by (simp_all add: validate_item_def)

section \<open>Backends with their crates\<close>

locale vault = vault_backend L B store invar up held + broker_lib_laws L
  for L :: "'x broker_lib_scheme" and B :: "'s backend"
    and store :: "'s \<Rightarrow> string \<rightharpoonup> bytes" and invar :: "'s \<Rightarrow> bool"
    and up :: "'s \<Rightarrow> bool" and held :: "'s \<Rightarrow> nat"
begin

text \<open>The backend still works and is still locked; and the store is as it was.\<close>

definition alive :: "'s \<Rightarrow> 's \<Rightarrow> bool" where
  "alive s t \<longleftrightarrow> invar t \<and> held t = held s \<and> (up s \<longrightarrow> up t)"

definition quiet :: "'s \<Rightarrow> 's \<Rightarrow> bool" where
  "quiet s t \<longleftrightarrow> alive s t \<and> store t = store s"

lemma quiet_refl: "invar s \<Longrightarrow> quiet s s"
  by (simp add: quiet_def alive_def)

lemma quietD: "quiet s t \<Longrightarrow> invar t" "quiet s t \<Longrightarrow> store t = store s" "quiet s t \<Longrightarrow> up s \<Longrightarrow> up t"
    "quiet s t \<Longrightarrow> alive s t"
  by (simp_all add: quiet_def alive_def)

lemma quiet_trans: "quiet s t \<Longrightarrow> quiet t v \<Longrightarrow> quiet s v"
  by (simp add: quiet_def alive_def)

lemma alive_trans: "alive s t \<Longrightarrow> alive t v \<Longrightarrow> alive s v"
  by (simp add: alive_def)

lemma aliveD: "alive s t \<Longrightarrow> invar t"
  by (simp add: alive_def)

lemma read_wp:
  assumes "invar s"
  shows "wp (b_read B t)
    (\<lambda>r s'. quiet s s' \<and> (up s \<longrightarrow> is_ok r) \<and> (\<forall>v. r = Inr v \<longrightarrow> store s (target_to_string L t) = v)) s"
  by (rule wp_mono [OF read_law [OF assms]]) (auto simp: quiet_def alive_def)

lemma write_wp:
  assumes "invar s"
  shows "wp (b_write B t b)
    (\<lambda>r s'. alive s s' \<and> (up s \<longrightarrow> length b \<le> MAX_SECRET_BYTES \<longrightarrow> is_ok r) \<and>
       store s' = (if is_ok r then put L t b (store s) else store s)) s"
  by (rule wp_mono [OF write_law [OF assms]]) (auto simp: alive_def put_def)

lemma delete_wp:
  assumes "invar s"
  shows "wp (b_delete B t)
    (\<lambda>r s'. alive s s' \<and> (up s \<longrightarrow> is_ok r) \<and>
       store s' = (if is_ok r then del L t (store s) else store s)) s"
  by (rule wp_mono [OF delete_law [OF assms]]) (auto simp: alive_def del_def)

lemma entries_wp:
  assumes "invar s"
  shows "wp (entries L B)
    (\<lambda>r s'. quiet s s' \<and> (up s \<longrightarrow> is_ok r) \<and> (\<forall>es. r = Inr es \<longrightarrow> entries_of L (store s) es)) s"
  unfolding entries_def wp_simps
  by (rule wp_mono [OF enumerate_law [OF assms]])
     (auto simp: quiet_def alive_def wp_simps listing_entries split: sum.splits)

lemma get_collection_wp:
  assumes "invar s"
  shows "wp (get_collection L B u)
    (\<lambda>r s'. quiet s s' \<and> (\<forall>c. r = Inr c \<longrightarrow> store_collection L (store s) u = Some c) \<and>
       (up s \<longrightarrow> is_ok r \<longleftrightarrow> store_collection L (store s) u \<noteq> None)) s"
  unfolding get_collection_def wp_simps
  by (rule wp_mono [OF read_wp [OF assms]])
     (auto simp: wp_simps store_collection_def entry_collection_def res_bind_def is_ok_def ok_or_def
       not_found_def corrupt_state_def split: sum.splits option.splits if_splits)

lemma require_collection_wp:
  assumes "invar s"
  shows "wp (require_collection L B u)
    (\<lambda>r s'. quiet s s' \<and> (\<forall>c. r = Inr c \<longrightarrow> store_collection L (store s) u = Some c) \<and>
       (up s \<longrightarrow> is_ok r \<longleftrightarrow> store_collection L (store s) u \<noteq> None)) s"
  unfolding require_collection_def wp_simps
  by (rule wp_mono [OF get_collection_wp [OF assms]]) auto

lemma get_item_metadata_wp:
  assumes "invar s"
  shows "wp (get_item_metadata L B u)
    (\<lambda>r s'. quiet s s' \<and> (\<forall>m. r = Inr m \<longrightarrow> store_item L (store s) u = Some m) \<and>
       (up s \<longrightarrow> is_ok r \<longleftrightarrow> store_item L (store s) u \<noteq> None)) s"
  unfolding get_item_metadata_def wp_simps
  by (rule wp_mono [OF read_wp [OF assms]])
     (auto simp: wp_simps store_item_def entry_item_def res_bind_def is_ok_def split: sum.splits option.splits if_splits)

lemma valid_items_wp:
  assumes "invar s"
  shows "wp (valid_items L B)
    (\<lambda>r s'. quiet s s' \<and> (up s \<longrightarrow> is_ok r) \<and>
       (\<forall>ms. r = Inr ms \<longrightarrow> set ms = {m. \<exists>u. store_item L (store s) u = Some m} \<and>
          sorted_wrt (<) (map i_id ms))) s"
  unfolding valid_items_def wp_simps
  by (rule wp_mono [OF entries_wp [OF assms]])
     (auto simp: wp_simps entries_items intro: strict_sort_key split: sum.splits)


text \<open>Reading steps, from a state whose store is still that of \<open>s\<close>.\<close>

lemma require_then:
  assumes "quiet s t"
    and "\<And>e t'. quiet s t' \<Longrightarrow> up s \<longrightarrow> store_collection L (store s) u = None \<Longrightarrow> Q (Inl e) t'"
    and "\<And>c t'. quiet s t' \<Longrightarrow> store_collection L (store s) u = Some c \<Longrightarrow> wp (f c) Q t'"
  shows "wp (act_bind (require_collection L B u) f) Q t"
  by (rule wp_bindI [OF require_collection_wp [OF quietD(1) [OF assms(1)]]])
     (use assms(1) in \<open>auto simp: quietD intro!: assms(2,3) intro: quiet_trans\<close>)

lemma get_item_then:
  assumes "quiet s t"
    and "\<And>e t'. quiet s t' \<Longrightarrow> up s \<longrightarrow> store_item L (store s) u = None \<Longrightarrow> Q (Inl e) t'"
    and "\<And>m t'. quiet s t' \<Longrightarrow> store_item L (store s) u = Some m \<Longrightarrow> wp (f m) Q t'"
  shows "wp (act_bind (get_item_metadata L B u) f) Q t"
  by (rule wp_bindI [OF get_item_metadata_wp [OF quietD(1) [OF assms(1)]]])
     (use assms(1) in \<open>auto simp: quietD intro!: assms(2,3) intro: quiet_trans\<close>)

lemma get_collection_then:
  assumes "quiet s t"
    and "\<And>e t'. quiet s t' \<Longrightarrow> up s \<longrightarrow> store_collection L (store s) u = None \<Longrightarrow> Q (Inl e) t'"
    and "\<And>c t'. quiet s t' \<Longrightarrow> store_collection L (store s) u = Some c \<Longrightarrow> wp (f c) Q t'"
  shows "wp (act_bind (get_collection L B u) f) Q t"
  by (rule wp_bindI [OF get_collection_wp [OF quietD(1) [OF assms(1)]]])
     (use assms(1) in \<open>auto simp: quietD intro!: assms(2,3) intro: quiet_trans\<close>)

lemma read_then:
  assumes "quiet s t"
    and "\<And>e t'. quiet s t' \<Longrightarrow> \<not> up s \<Longrightarrow> Q (Inl e) t'"
    and "\<And>t'. quiet s t' \<Longrightarrow> wp (f (store s (target_to_string L x))) Q t'"
  shows "wp (act_bind (b_read B x) f) Q t"
  by (rule wp_bindI [OF read_wp [OF quietD(1) [OF assms(1)]]])
     (use assms(1) in \<open>auto simp: quietD intro!: assms(2,3) intro: quiet_trans\<close>)

lemma entries_then:
  assumes "quiet s t"
    and "\<And>e t'. quiet s t' \<Longrightarrow> \<not> up s \<Longrightarrow> Q (Inl e) t'"
    and "\<And>es t'. quiet s t' \<Longrightarrow> entries_of L (store s) es \<Longrightarrow> wp (f es) Q t'"
  shows "wp (act_bind (entries L B) f) Q t"
  by (rule wp_bindI [OF entries_wp [OF quietD(1) [OF assms(1)]]])
     (use assms(1) in \<open>auto simp: quietD intro!: assms(2,3) intro: quiet_trans\<close>)

lemma lift_then:
  assumes "\<And>e. r = Inl e \<Longrightarrow> Q (Inl e) t" and "\<And>x. r = Inr x \<Longrightarrow> wp (f x) Q t"
  shows "wp (act_bind (act_lift r) f) Q t"
  using assms by (cases r) (simp_all add: wp_simps)


section \<open>Operations that only read\<close>

lemma list_collections_wp:
  assumes "invar s"
  shows "wp (list_collections L B)
    (\<lambda>r s'. quiet s s' \<and> (up s \<longrightarrow> is_ok r) \<and>
       (\<forall>x. r = Inr x \<longrightarrow> (\<exists>cs. x = ResponseBody.Collections cs \<and>
          set cs = {c. \<exists>u. store_collection L (store s) u = Some c} \<and>
          sorted_wrt (<) (map c_id cs)))) s"
  unfolding list_collections_def wp_simps
  by (rule wp_mono [OF entries_wp [OF assms]])
     (auto simp: wp_simps entries_collections intro: strict_sort_key split: sum.splits)

lemma alias_name_valid: "is_ok (validate_alias a) \<Longrightarrow> is_ok (broker_validate_alias_name (a_name a))"
  by (simp add: validate_alias_ok broker_validate_alias_name_def validators_ok)

lemma resolve_alias_wp:
  assumes "invar s" and "is_utf8 n"
  shows "wp (resolve_alias L B n)
    (\<lambda>r s'. quiet s s' \<and> (\<forall>x. r = Inr x \<longrightarrow> x = ResponseBody.Alias (store_alias L (store s) n)) \<and>
       (\<forall>a. up s \<longrightarrow> store_alias L (store s) n = Some a \<longrightarrow>
          store_collection L (store s) (a_collection_id a) \<noteq> None \<longrightarrow> is_ok r)) s"
proof (cases "broker_validate_alias_name n")
  case (Inl e)
  then have "store_alias L (store s) n = None"
    using alias_name_valid store_alias_valid store_alias_name by (cases "store_alias L (store s) n") fastforce+
  with Inl assms show ?thesis by (simp add: resolve_alias_def wp_simps quiet_refl)
next
  case (Inr v)
  have got: "wp (get_collection L B u)
      (\<lambda>r t'. quiet s t' \<and> (up s \<longrightarrow> store_collection L (store s) u \<noteq> None \<longrightarrow> is_ok r)) t"
    if "quiet s t" for t u
    by (rule wp_mono [OF get_collection_wp]) (use that in \<open>auto simp: quietD intro: quiet_trans\<close>)
  show ?thesis
    unfolding resolve_alias_def Inr
    by (simp only: act_bind_lift, rule wp_bindI [OF read_wp [OF assms(1)]])
       (use assms(2) in \<open>auto simp: wp_simps store_alias_def entry_alias_def
         split: sum.splits option.splits intro!: wp_mono [OF got]\<close>)
qed

lemma list_aliases_wp:
  assumes "invar s"
  shows "wp (list_aliases L B)
    (\<lambda>r s'. quiet s s' \<and> (up s \<longrightarrow> is_ok r) \<and>
       (\<forall>x. up s \<longrightarrow> r = Inr x \<longrightarrow> (\<exists>as. x = ResponseBody.Aliases as \<and>
          set as = {a. \<exists>n. store_alias L (store s) n = Some a \<and>
            store_collection L (store s) (a_collection_id a) \<noteq> None} \<and>
          sorted_wrt (<) (map a_name as)))) s"
proof -
  let ?has = "\<lambda>a. store_collection L (store s) (a_collection_id a) \<noteq> None"
  let ?body = "\<lambda>e. case entry_alias L e of None \<Rightarrow> act_return []
    | Some a \<Rightarrow> act_bind (act_try (get_collection L B (a_collection_id a)))
        (\<lambda>c. act_return (if is_ok c then [a] else []))"
  have body: "wp (?body e)
      (\<lambda>r t'. quiet s t' \<and> (\<exists>ys. r = Inr ys \<and> (up s \<longrightarrow>
         ys = (case entry_alias L e of None \<Rightarrow> [] | Some a \<Rightarrow> if ?has a then [a] else [])))) t" if "quiet s t" for e t
    using that
    by (auto simp: wp_simps List.map_filter_simps quietD split: option.splits
        intro!: wp_mono [OF get_collection_wp] intro: quiet_trans)
  have collect: "wp (act_collect ?body es) (\<lambda>r t. quiet s t \<and> (\<exists>ys. r = Inr ys \<and>
      (up s \<longrightarrow> ys = filter ?has (List.map_filter (entry_alias L) es)))) t" if "quiet s t" for es t
    by (rule wp_mono [OF wp_collect [where I = "quiet s", OF body that]])
       (auto simp: list_all2_eq_map concat_map_filter)
  show ?thesis
    unfolding list_aliases_def
    by (rule wp_bindI [OF entries_wp [OF assms]], simp, rule wp_bindI [OF collect])
       (auto simp: wp_simps entries_aliases intro!: strict_sort_key distinct_map_filter_filter)
qed

lemma search_items_wp:
  assumes "invar s"
  shows "wp (search_items L B attributes)
    (\<lambda>r s'. quiet s s' \<and> (up s \<longrightarrow> is_ok r = is_ok (validate_attributes attributes)) \<and>
       (\<forall>x. r = Inr x \<longrightarrow> (\<exists>ms. x = ResponseBody.Items ms \<and>
          set ms = {m. (\<exists>u. store_item L (store s) u = Some m) \<and> attributes_match attributes m} \<and>
          sorted_wrt (<) (map i_id ms)))) s"
proof (cases "validate_attributes attributes")
  case (Inl e)
  with assms show ?thesis by (simp add: search_items_def wp_simps quiet_refl)
next
  case (Inr u)
  then show ?thesis
    unfolding search_items_def wp_simps Inr map_err_simps sum.case
    by (intro wp_mono [OF valid_items_wp [OF assms]])
       (auto simp: wp_simps strict_filter split: sum.splits)
qed

lemma list_items_wp:
  assumes "invar s"
  shows "wp (list_items L B u)
    (\<lambda>r s'. quiet s s' \<and> (up s \<longrightarrow> is_ok r \<longleftrightarrow> store_collection L (store s) u \<noteq> None) \<and>
       (\<forall>x. r = Inr x \<longrightarrow> (\<exists>ms. x = ResponseBody.Items ms \<and>
          set ms = {m. (\<exists>i. store_item L (store s) i = Some m) \<and> i_collection_id m = u} \<and>
          sorted_wrt (<) (map i_id ms)))) s"
  unfolding list_items_def
  by (rule wp_bindI [OF get_collection_wp [OF assms]])
     (auto simp: wp_simps strict_filter quietD split: sum.splits
       intro!: wp_mono [OF valid_items_wp] intro: quiet_trans)

lemma get_item_wp:
  assumes "invar s"
  shows "wp (get_item L B u include_secret)
    (\<lambda>r s'. quiet s s' \<and>
       (\<forall>x. r = Inr x \<longrightarrow> (\<exists>m. store_item L (store s) u = Some m \<and>
          x = ResponseBody.Item m (if include_secret
            then map_option SecretBytes (store_secret L (store s) u (i_current_generation m)) else None) \<and>
          (include_secret \<longrightarrow> store_secret L (store s) u (i_current_generation m) \<noteq> None))) \<and>
       (\<forall>m b. up s \<longrightarrow> visible_item L (store s) u = Some (m, Some b) \<longrightarrow> length b \<le> MAX_SECRET_BYTES \<longrightarrow>
          is_ok r)) s"
  unfolding get_item_def
proof (rule get_item_then [OF quiet_refl [OF assms]], goal_cases err ok)
  case (err e t)
  then show ?case by (auto simp: visible_item_def)
next
  case (ok m t)
  let ?b = "store_secret L (store s) u (i_current_generation m)"
  have secret: "wp (act_bind (b_read B (TargetName.ItemSecret u (i_current_generation m))) (\<lambda>found.
       act_lift
         (res_bind (ok_or (corrupt_state e) found) (\<lambda>blob.
          res_bind (map_err invalid_request (SecretBytes_new blob)) (\<lambda>secret.
          Inr (ResponseBody.Item m (Some secret)))))))
     (\<lambda>r s'. quiet s s' \<and>
        (\<forall>x. r = Inr x \<longrightarrow> ?b \<noteq> None \<and> x = ResponseBody.Item m (map_option SecretBytes ?b)) \<and>
        (\<forall>b. up s \<longrightarrow> ?b = Some b \<longrightarrow> length b \<le> MAX_SECRET_BYTES \<longrightarrow> is_ok r)) t" for e
    by (rule read_then [OF ok(1)])
       (auto simp: wp_simps store_secret_def res_bind_Inr SecretBytes_new_def split: if_splits)
  show ?case
  proof (cases include_secret)
    case True
    show ?thesis
      unfolding if_P [OF True]
      by (rule wp_mono [OF secret]) (use ok True in \<open>auto simp: visible_item_def\<close>)
  next
    case False
    with ok show ?thesis by (simp add: wp_simps)
  qed
qed


section \<open>Writing\<close>

text \<open>\<open>trace\<close>: only elementary changes happened, whatever the result.\<close>

definition trace :: "'s \<Rightarrow> 's \<Rightarrow> bool" where
  "trace s t \<longleftrightarrow> alive s t \<and> vault_steps L (store s) (store t)"

lemma trace_quiet: "quiet s t \<Longrightarrow> trace s t"
  by (simp add: trace_def quiet_def)

lemma trace_trans: "trace s t \<Longrightarrow> trace t v \<Longrightarrow> trace s v"
  by (auto simp: trace_def intro: alive_trans)

lemma traceD: "trace s t \<Longrightarrow> invar t" "trace s t \<Longrightarrow> up s \<Longrightarrow> up t" "trace s t \<Longrightarrow> held t = held s"
  by (simp_all add: trace_def alive_def)

lemma trace_step: "alive s t \<Longrightarrow> store t = store s \<or> vault_step L (store s) (store t) \<Longrightarrow> trace s t"
  by (auto simp: trace_def)

lemma write_metadata_wp:
  assumes "invar s"
  shows "wp (write_metadata B C t x)
    (\<lambda>r s'. alive s s' \<and> (up s \<longrightarrow> is_ok r = is_ok (encode_metadata C x)) \<and>
       (if is_ok r then \<exists>b. encode_metadata C x = Inr b \<and> store s' = put L t b (store s)
        else store s' = store s)) s"
proof (cases "encode_metadata C x")
  case (Inl e)
  with assms show ?thesis by (simp add: write_metadata_def wp_simps alive_def)
next
  case (Inr b)
  then have "length b \<le> MAX_SECRET_BYTES"
    by (auto simp: encode_metadata_def res_bind_Inr limit_defs split: if_splits)
  then show ?thesis
    unfolding write_metadata_def Inr wp_simps sum.case
    by (intro wp_mono [OF write_wp [OF assms]]) auto
qed

text \<open>The deferred deletes of a commit: a generation the metadata does not name, or nothing.\<close>

lemma cleanup_wp:
  assumes "invar s" and "\<forall>m. store_item L (store s) u = Some m \<longrightarrow> prev \<noteq> Some (i_current_generation m)"
  shows "wp (act_iter (cleanup_generation B)
      (commit_steps \<lparr>gc_item_id = u, gc_new_generation = g, gc_previous_generation = prev\<rparr>))
    (\<lambda>r s'. r = Inr () \<and> trace s s' \<and> view L (store s') = view L (store s) \<and>
       store_item L (store s') = store_item L (store s)) s"
proof -
  have del: "wp (b_delete B (TargetName.ItemSecret u p))
      (\<lambda>_ s'. trace s s' \<and> view L (store s') = view L (store s) \<and>
        store_item L (store s') = store_item L (store s)) s"
    if "prev = Some p" for p
  proof -
    have p: "\<forall>m. store_item L (store s) u = Some m \<longrightarrow> i_current_generation m \<noteq> p"
      using assms(2) that by auto
    show ?thesis
      by (rule wp_mono [OF delete_wp [OF assms(1)]])
         (use p in \<open>auto intro!: trace_step vault_step.delete_secret simp: view_secret [OF p]\<close>)
  qed
  show ?thesis
    using del trace_quiet [OF quiet_refl [OF assms(1)]]
    by (cases prev) (auto simp: commit_steps_def cleanup_generation_def wp_simps intro: wp_mono)
qed

lemma commit_wp:
  assumes "invar s" and "item_value m" and "is_ok (validate_item m)"
    and new: "\<forall>m0. store_item L (store s) (i_id m) = Some m0 \<longrightarrow> i_current_generation m0 \<noteq> i_current_generation m"
    and prev: "prev \<noteq> Some (i_current_generation m)"
    and coll: "store_collection L (store s) (i_collection_id m) \<noteq> None"
    and secret: "secret_wf x"
  shows "wp (commit_new_generation L B m prev x)
    (\<lambda>r s'. trace s s' \<and> (up s \<longrightarrow> is_ok r = is_ok (encode_metadata (item_cbor L) m)) \<and>
       view L (store s') =
         (if is_ok r
          then (view L (store s))\<lparr>vv_items := (visible_item L (store s))(i_id m \<mapsto> (m, Some (expose x)))\<rparr>
          else view L (store s))) s"
proof (cases "encode_metadata (item_cbor L) m")
  case (Inl e)
  with assms(1) show ?thesis
    by (simp add: commit_new_generation_def wp_simps trace_quiet quiet_refl Let_def)
next
  case (Inr b)
  let ?sec = "TargetName.ItemSecret (i_id m) (i_current_generation m)"
  let ?meta = "TargetName.ItemMetadata (i_id m)"
  have small: "length b \<le> MAX_SECRET_BYTES" "length (expose x) \<le> MAX_SECRET_BYTES"
    using Inr secret
    by (auto simp: encode_metadata_def res_bind_Inr limit_defs secret_wf_def split: if_splits)
  have write1: "wp (b_write B ?sec (expose x))
      (\<lambda>r s'. trace s s' \<and> (up s \<longrightarrow> is_ok r) \<and>
         store s' = (if is_ok r then put L ?sec (expose x) (store s) else store s)) s"
    by (rule wp_mono [OF write_wp [OF assms(1)]])
       (use small new in \<open>auto intro!: trace_step vault_step.write_secret\<close>)
  have write2: "wp (b_write B ?meta b)
      (\<lambda>r s''. trace s' s'' \<and> (up s' \<longrightarrow> is_ok r) \<and>
         store s'' = (if is_ok r then put L ?meta b (store s') else store s')) s'"
    if "invar s'" "store s' = put L ?sec (expose x) (store s)" for s'
    by (rule wp_mono [OF write_wp [OF that(1)]])
       (use small that coll store_item_put [OF Inr assms(2,3)] in
         \<open>auto intro!: trace_step vault_step.write_item [where m = m]\<close>)
  have delete: "wp (b_delete B ?sec)
      (\<lambda>r s''. trace s' s'' \<and> view L (store s'') = view L (store s)) s'"
    if "invar s'" "store s' = put L ?sec (expose x) (store s)" for s'
    by (rule wp_mono [OF delete_wp [OF that(1)]])
       (use that new in \<open>auto intro!: trace_step vault_step.delete_secret simp: view_secret\<close>)
  have clean: "wp (act_iter (cleanup_generation B)
        (commit_steps \<lparr>gc_item_id = i_id m, gc_new_generation = i_current_generation m,
                       gc_previous_generation = prev\<rparr>))
      (\<lambda>r t. r = Inr () \<and> trace s' t \<and>
        view L (store t) =
          (view L (store s))\<lparr>vv_items := (visible_item L (store s))(i_id m \<mapsto> (m, Some (expose x)))\<rparr>) s'"
    if "invar s'" "store s' = put L ?meta b (put L ?sec (expose x) (store s))" for s'
    by (rule wp_mono [OF cleanup_wp [OF that(1)]])
       (use that prev new store_item_put [OF Inr assms(2,3)] view_put_item [OF Inr assms(2,3)] in
         \<open>auto simp: view_secret visible_secret\<close>)
  show ?thesis
    unfolding commit_new_generation_def Let_def Inr wp_simps sum.case into_inner_def
    by (rule wp_mono [OF write1])
       (auto split: sum.splits simp: wp_simps view_secret [OF new]
         intro!: wp_mono [OF write2] wp_mono [OF delete] wp_mono [OF clean]
         dest: traceD intro: trace_trans)
qed

lemma quiet_alive: "quiet s t \<Longrightarrow> alive t v \<Longrightarrow> alive s v"
  by (simp add: quiet_def alive_def)

text \<open>The metadata writes, from a state whose store is still that of \<open>s\<close>.\<close>

lemma write_collection_wp:
  assumes "quiet s s'" and "collection_value c" and "is_ok (validate_collection c)"
  shows "wp (write_metadata B (collection_cbor L) (TargetName.Collection (c_id c)) c)
    (\<lambda>r t. trace s t \<and> (up s \<longrightarrow> is_ok r = is_ok (encode_metadata (collection_cbor L) c)) \<and>
       view L (store t) =
         (if is_ok r then (view L (store s))\<lparr>vv_collections := (store_collection L (store s))(c_id c \<mapsto> c)\<rparr>
          else view L (store s))) s'"
  by (rule wp_mono [OF write_metadata_wp [OF quietD(1) [OF assms(1)]]])
     (use assms in \<open>auto simp: quietD view_put_collection store_collection_put
        intro!: trace_step vault_step.write_collection intro: quiet_alive split: if_splits\<close>)

lemma write_alias_wp:
  assumes "quiet s s'" and "alias_value a" and "is_ok (validate_alias a)"
    and "store_collection L (store s) (a_collection_id a) \<noteq> None"
  shows "wp (write_metadata B (alias_cbor L) (TargetName.Alias (a_name a)) a)
    (\<lambda>r t. trace s t \<and> (up s \<longrightarrow> is_ok r = is_ok (encode_metadata (alias_cbor L) a)) \<and>
       view L (store t) =
         (if is_ok r then (view L (store s))\<lparr>vv_aliases := (store_alias L (store s))(a_name a \<mapsto> a)\<rparr>
          else view L (store s))) s'"
  by (rule wp_mono [OF write_metadata_wp [OF quietD(1) [OF assms(1)]]])
     (use assms in \<open>auto simp: quietD view_put_alias store_alias_put
        intro!: trace_step vault_step.write_alias intro: quiet_alive split: if_splits\<close>)

lemma write_item_wp:
  assumes "quiet s s'" and "item_value m" and "is_ok (validate_item m)"
    and "store_item L (store s) (i_id m) = Some m0" "i_current_generation m0 = i_current_generation m"
    and "store_collection L (store s) (i_collection_id m) \<noteq> None"
  shows "wp (write_metadata B (item_cbor L) (TargetName.ItemMetadata (i_id m)) m)
    (\<lambda>r t. trace s t \<and> (up s \<longrightarrow> is_ok r = is_ok (encode_metadata (item_cbor L) m)) \<and>
       view L (store t) =
         (if is_ok r then (view L (store s))\<lparr>vv_items := (visible_item L (store s))(i_id m \<mapsto>
            (m, store_secret L (store s) (i_id m) (i_current_generation m)))\<rparr>
          else view L (store s))) s'"
  by (rule wp_mono [OF write_metadata_wp [OF quietD(1) [OF assms(1)]]])
     (use assms in \<open>auto simp: quietD view_put_item store_item_put
        intro!: trace_step vault_step.write_item [where m = m] intro: quiet_alive split: if_splits\<close>)

lemma create_collection_wp:
  assumes "invar s" and "collection_value c"
  shows "wp (create_collection L B c)
    (\<lambda>r s'. trace s s' \<and>
       view L (store s') =
         (if is_ok r then apply_op (CreateCollection c) (view L (store s)) else view L (store s)) \<and>
       (up s \<longrightarrow> is_ok r \<longleftrightarrow> is_ok (validate_collection c) \<and>
          store s (target_to_string L (TargetName.Collection (c_id c))) = None \<and>
          is_ok (encode_metadata (collection_cbor L) c)) \<and>
       (\<forall>x. r = Inr x \<longrightarrow> x = ResponseBody.Collection c)) s"
proof (cases "validate_collection c")
  case (Inl e)
  with assms show ?thesis by (simp add: create_collection_def wp_simps trace_quiet quiet_refl)
next
  case (Inr v)
  then have valid: "is_ok (validate_collection c)" by simp
  show ?thesis
    unfolding create_collection_def Inr act_bind_lift
    by (rule wp_bindI [OF read_wp [OF assms(1)]])
       (use valid assms(2) in \<open>auto simp: wp_simps trace_quiet quietD split: sum.splits
          intro!: wp_mono [OF write_collection_wp]\<close>)
qed

lemma update_collection_wp:
  assumes "invar s" and "collection_value c"
  shows "wp (update_collection L B c)
    (\<lambda>r s'. trace s s' \<and>
       view L (store s') =
         (if is_ok r then apply_op (UpdateCollection c) (view L (store s)) else view L (store s)) \<and>
       (\<forall>x. r = Inr x \<longrightarrow> (\<exists>c0. store_collection L (store s) (c_id c) = Some c0 \<and>
          x = ResponseBody.Collection (c\<lparr>c_created := c_created c0\<rparr>)))) s"
proof -
  have valid: "validate_collection (c\<lparr>c_created := x\<rparr>) = validate_collection c"
    and "collection_value (c\<lparr>c_created := x\<rparr>)" for x
    using assms(2) by (simp_all add: validate_collection_def collection_value_def)
  then have wr: "wp (write_metadata B (collection_cbor L) (TargetName.Collection (c_id c)) (c\<lparr>c_created := x\<rparr>))
    (\<lambda>r t. trace s t \<and> (up s \<longrightarrow> is_ok r = is_ok (encode_metadata (collection_cbor L) (c\<lparr>c_created := x\<rparr>))) \<and>
       view L (store t) =
         (if is_ok r then (view L (store s))\<lparr>vv_collections :=
            (store_collection L (store s))(c_id c \<mapsto> c\<lparr>c_created := x\<rparr>)\<rparr> else view L (store s))) s'"
    if "quiet s s'" "is_ok (validate_collection c)" for s' x
    using write_collection_wp [OF that(1), of "c\<lparr>c_created := x\<rparr>"] that(2) by (simp cong: if_cong)
  show ?thesis
    unfolding update_collection_def Let_def
    by (rule wp_bindI [OF get_collection_wp [OF assms(1)]])
       (auto simp: wp_simps trace_quiet quietD split: sum.splits intro!: wp_mono [OF wr])
qed

lemma set_alias_wp:
  assumes "invar s" and "alias_value a"
  shows "wp (set_alias L B a)
    (\<lambda>r s'. trace s s' \<and>
       view L (store s') =
         (if is_ok r then apply_op (SetAlias a) (view L (store s)) else view L (store s)) \<and>
       (up s \<longrightarrow> is_ok r \<longleftrightarrow> is_ok (validate_alias a) \<and>
          store_collection L (store s) (a_collection_id a) \<noteq> None \<and>
          is_ok (encode_metadata (alias_cbor L) a)) \<and>
       (\<forall>x. r = Inr x \<longrightarrow> x = ResponseBody.Alias (Some a))) s"
proof (cases "validate_alias a")
  case (Inl e)
  with assms show ?thesis by (simp add: set_alias_def wp_simps trace_quiet quiet_refl)
next
  case (Inr v)
  then have valid: "is_ok (validate_alias a)" by simp
  show ?thesis
    unfolding set_alias_def Inr act_bind_lift
    by (rule wp_bindI [OF require_collection_wp [OF assms(1)]])
       (use valid assms(2) in \<open>auto simp: wp_simps trace_quiet quietD split: sum.splits
          intro!: wp_mono [OF write_alias_wp]\<close>)
qed

lemma remove_alias_wp:
  assumes "invar s"
  shows "wp (remove_alias B n)
    (\<lambda>r s'. trace s s' \<and>
       view L (store s') =
         (if is_ok r then apply_op (RemoveAlias n) (view L (store s)) else view L (store s)) \<and>
       (up s \<longrightarrow> is_ok r \<longleftrightarrow> is_ok (broker_validate_alias_name n) \<and>
          store s (target_to_string L (TargetName.Alias n)) \<noteq> None) \<and>
       (\<forall>x. r = Inr x \<longrightarrow> x = ResponseBody.Empty)) s"
proof (cases "broker_validate_alias_name n")
  case (Inl e)
  with assms show ?thesis by (simp add: remove_alias_def wp_simps trace_quiet quiet_refl)
next
  case (Inr v)
  have rm: "wp (b_delete B (TargetName.Alias n))
      (\<lambda>r t. trace s t \<and> (up s \<longrightarrow> is_ok r) \<and> view L (store t) =
         (if is_ok r then apply_op (RemoveAlias n) (view L (store s)) else view L (store s))) s'"
    if "quiet s s'" for s'
    by (rule wp_mono [OF delete_wp [OF quietD(1) [OF that]]])
       (use that in \<open>auto simp: quietD view_del intro!: trace_step vault_step.delete_alias
          intro: quiet_alive\<close>)
  show ?thesis
    unfolding remove_alias_def Inr act_bind_lift
    by (rule wp_bindI [OF read_wp [OF assms(1)]])
       (auto simp: wp_simps trace_quiet quietD Inr split: sum.splits intro!: wp_mono [OF rm])
qed


section \<open>Creating and updating items\<close>

lemma commit_quiet_wp:
  assumes "quiet s s'" and "item_value m" and "is_ok (validate_item m)" and "secret_wf x"
    and "\<forall>m0. store_item L (store s) (i_id m) = Some m0 \<longrightarrow> i_current_generation m0 \<noteq> i_current_generation m"
    and "prev \<noteq> Some (i_current_generation m)"
    and "store_collection L (store s) (i_collection_id m) \<noteq> None"
  shows "wp (commit_new_generation L B m prev x)
    (\<lambda>r t. trace s t \<and> (up s \<longrightarrow> is_ok r = is_ok (encode_metadata (item_cbor L) m)) \<and>
       view L (store t) =
         (if is_ok r
          then (view L (store s))\<lparr>vv_items := (visible_item L (store s))(i_id m \<mapsto> (m, Some (expose x)))\<rparr>
          else view L (store s))) s'"
  by (rule wp_mono [OF commit_wp [OF quietD(1) [OF assms(1)] assms(2,3)]])
     (use assms in \<open>auto simp: quietD intro: trace_trans [OF trace_quiet]\<close>)

lemma store_item_absent:
  "store s (target_to_string L (TargetName.ItemMetadata u)) = None \<Longrightarrow> store_item L (store s) u = None"
  by (simp add: store_item_def)

lemma create_item_wp:
  assumes "invar s" and "item_value m" and "secret_wf x"
  shows "wp (create_item L B m x)
    (\<lambda>r s'. trace s s' \<and>
       view L (store s') =
         (if is_ok r then apply_op (CreateItem m x) (view L (store s)) else view L (store s)) \<and>
       (up s \<longrightarrow> is_ok r \<longleftrightarrow> is_ok (validate_item m) \<and>
          store_collection L (store s) (i_collection_id m) \<noteq> None \<and>
          store s (target_to_string L (TargetName.ItemMetadata (i_id m))) = None \<and>
          is_ok (encode_metadata (item_cbor L) m)) \<and>
       (\<forall>y. r = Inr y \<longrightarrow> y = ResponseBody.Item m None)) s"
  unfolding create_item_def
proof (rule lift_then, goal_cases err ok)
  case (err e)
  with assms show ?case by (simp add: trace_quiet quiet_refl quietD)
next
  case (ok v)
  show ?case
    by (rule require_then [OF quiet_refl [OF assms(1)]], simp add: trace_quiet quietD,
        erule read_then, simp add: trace_quiet quietD)
       (use assms ok in \<open>auto simp: wp_simps trace_quiet quietD store_item_absent split: sum.splits
          intro!: wp_mono [OF commit_quiet_wp]\<close>)
qed

lemma update_item_wp:
  assumes "invar s" and "item_value m" and "\<forall>x. secret = Some x \<longrightarrow> secret_wf x"
  shows "wp (update_item L B m secret)
    (\<lambda>r s'. trace s s' \<and>
       view L (store s') =
         (if is_ok r then update_view m secret (view L (store s)) else view L (store s)) \<and>
       (\<forall>y. r = Inr y \<longrightarrow> (\<exists>m0. store_item L (store s) (i_id m) = Some m0 \<and>
          y = ResponseBody.Item (updated_item m0 m secret) None)) \<and>
       (\<forall>m0. up s \<longrightarrow> update_succeeds L (store s) m secret m0 \<longrightarrow> is_ok r)) s"
    (is "wp _ ?Q s")
proof -
  let ?new = "\<lambda>m0. m\<lparr>i_created := i_created m0,
      i_modified := max (i_modified m) (saturating_add (i_modified m0) 1)\<rparr>"
  let ?same = "\<lambda>m0. (?new m0)\<lparr>i_current_generation := i_current_generation m0\<rparr>"
  have val: "item_value (?new m0)" "item_value (?same m0)" for m0
    using assms(2) by (simp_all add: item_value_def)
  have body: "wp (case secret of
       Some x \<Rightarrow>
         if i_current_generation (?new m0) = i_current_generation m0 then
           act_throw (BrokerError_new Conflict ''item update with a secret requires a new generation'')
         else
           act_bind (commit_new_generation L B (?new m0) (Some (i_current_generation m0)) x) (\<lambda>_.
           act_return (ResponseBody.Item (?new m0) None))
     | None \<Rightarrow>
         act_bind (write_metadata B (item_cbor L) (TargetName.ItemMetadata (i_id (?same m0))) (?same m0)) (\<lambda>_.
         act_return (ResponseBody.Item (?same m0) None))) ?Q t"
    if "quiet s t" "store_item L (store s) (i_id m) = Some m0" "is_ok (validate_item m)"
      "store_collection L (store s) (i_collection_id m) = Some c" for t m0 c
  proof (cases secret)
    note body_facts = that
    case None
    have valid: "is_ok (validate_item (?same m0))"
      using that(3) store_item_valid [OF that(2)] by (simp add: validate_item_ok)
    have "wp (write_metadata B (item_cbor L) (TargetName.ItemMetadata (i_id (?same m0))) (?same m0))
      (\<lambda>r t. trace s t \<and> view L (store t) = (if is_ok r then update_view m None (view L (store s))
          else view L (store s)) \<and>
        (\<forall>m0. up s \<longrightarrow> update_succeeds L (store s) m None m0 \<longrightarrow> is_ok r)) t"
      by (rule wp_mono [OF write_item_wp [OF that(1) val(2) valid]])
         (use that in \<open>auto simp: update_view_def visible_item_def updated_item_def update_succeeds_def\<close>)
    then show ?thesis
      unfolding None option.case
      by (rule wp_bindI) (use that in \<open>auto simp: wp_simps updated_item_def Let_def update_succeeds_def\<close>)
  next
    note body_facts = that
    case (Some x)
    have valid: "is_ok (validate_item (?new m0))"
      using that(3) by (simp add: validate_item_ok)
    have "wp (commit_new_generation L B (?new m0) (Some (i_current_generation m0)) x)
      (\<lambda>r t. trace s t \<and> view L (store t) = (if is_ok r then update_view m secret (view L (store s))
          else view L (store s)) \<and>
        (\<forall>m0. up s \<longrightarrow> update_succeeds L (store s) m secret m0 \<longrightarrow> is_ok r)) t"
      if "i_current_generation m \<noteq> i_current_generation m0"
      by (rule wp_mono [OF commit_quiet_wp [OF \<open>quiet s t\<close> val(1) valid]])
         (use body_facts that assms(3) Some in \<open>auto simp: update_view_def visible_item_def updated_item_def update_succeeds_def\<close>)
    then show ?thesis
      unfolding Some option.case
      using body_facts
      by (auto simp: wp_simps updated_item_def trace_quiet quietD update_succeeds_def split: sum.splits
          elim!: wp_mono)
  qed
  show ?thesis
    unfolding update_item_def Let_def
    by (rule get_item_then [OF quiet_refl [OF assms(1)]], simp add: trace_quiet quietD update_succeeds_def,
        rule lift_then, simp add: trace_quiet quietD update_succeeds_def,
        erule require_then, simp add: trace_quiet quietD update_succeeds_def, rule body) auto
qed

lemma update_item_cas_wp:
  assumes "invar s" and "item_value m" and "\<forall>x. secret = Some x \<longrightarrow> secret_wf x"
  shows "wp (update_item_cas L B m secret expected)
    (\<lambda>r s'. trace s s' \<and>
       view L (store s') =
         (if is_ok r then update_view m secret (view L (store s)) else view L (store s)) \<and>
       (\<forall>m0. store_item L (store s) (i_id m) = Some m0 \<longrightarrow> i_modified m0 \<noteq> expected \<longrightarrow>
          \<not> is_ok r \<and> store s' = store s \<and>
          (up s \<longrightarrow> r = Inl (BrokerError_new Conflict ''item was modified by another provider''))) \<and>
       (\<forall>y. r = Inr y \<longrightarrow> (\<exists>m0. store_item L (store s) (i_id m) = Some m0 \<and> i_modified m0 = expected \<and>
          y = ResponseBody.Item (updated_item m0 m secret) None)) \<and>
       (\<forall>m0. up s \<longrightarrow> update_succeeds L (store s) m secret m0 \<longrightarrow> i_modified m0 = expected \<longrightarrow> is_ok r)) s"
proof -
  have upd: "wp (update_item L B m secret)
    (\<lambda>r s'. trace s s' \<and>
       view L (store s') =
         (if is_ok r then update_view m secret (view L (store s)) else view L (store s)) \<and>
       (\<forall>y. r = Inr y \<longrightarrow> (\<exists>m0. store_item L (store s) (i_id m) = Some m0 \<and>
          y = ResponseBody.Item (updated_item m0 m secret) None)) \<and>
       (\<forall>m0. up s \<longrightarrow> update_succeeds L (store s) m secret m0 \<longrightarrow> is_ok r)) t" if "quiet s t" for t
    by (rule wp_mono [OF update_item_wp [OF quietD(1) [OF that] assms(2,3)]])
       (use that in \<open>auto simp: quietD intro: trace_trans [OF trace_quiet]\<close>)
  show ?thesis
    unfolding update_item_cas_def
    by (rule get_item_then [OF quiet_refl [OF assms(1)]])
       (auto simp: wp_simps trace_quiet quietD update_succeeds_def intro!: wp_mono [OF upd])
qed

end

end
