(* ===== verification/Broker_Removal.thy ===== *)
theory Broker_Removal
  imports Broker_Safety
begin

text \<open>
  The broker's deletions, replacements and recovery on any backend that keeps the contract: which
  part of the vault is gone after a fault, and that nothing is left behind on success.
\<close>

context vault
begin

section \<open>Deleting items\<close>

text \<open>
  The secrets of an item whose metadata is gone may be deleted one by one: nothing visible
  changes any more. \<open>shrinks\<close> is such a change.
\<close>

definition shrinks :: "'s \<Rightarrow> 's \<Rightarrow> bool" where
  "shrinks s t \<longleftrightarrow> trace s t \<and> view L (store t) = view L (store s) \<and>
     store_item L (store t) = store_item L (store s) \<and>
     (\<forall>v h. store_secret L (store s) v h = None \<longrightarrow> store_secret L (store t) v h = None)"

definition gone :: "uuid \<Rightarrow> Entry \<Rightarrow> 's \<Rightarrow> bool" where
  "gone u e t \<longleftrightarrow> (\<forall>g. e_kind e = EntryKind.ItemSecret u g \<longrightarrow> store_secret L (store t) u g = None)"

lemma shrinks_refl: "invar s \<Longrightarrow> shrinks s s"
  by (simp add: shrinks_def trace_quiet quiet_refl)

lemma shrinks_trans: "shrinks s t \<Longrightarrow> shrinks t v \<Longrightarrow> shrinks s v"
  by (auto simp: shrinks_def intro: trace_trans)

lemma shrinksD: "shrinks s t \<Longrightarrow> invar t" "shrinks s t \<Longrightarrow> up s \<Longrightarrow> up t" "shrinks s t \<Longrightarrow> trace s t"
    "shrinks s t \<Longrightarrow> store_item L (store t) = store_item L (store s)"
    "shrinks s t \<Longrightarrow> view L (store t) = view L (store s)" "shrinks s t \<Longrightarrow> gone u e s \<Longrightarrow> gone u e t"
  by (auto simp: shrinks_def gone_def dest: traceD)

lemma delete_secret_wp:
  assumes "invar s" and "\<forall>m. store_item L (store s) u = Some m \<longrightarrow> i_current_generation m \<noteq> g"
  shows "wp (b_delete B (TargetName.ItemSecret u g))
    (\<lambda>r t. shrinks s t \<and> (is_ok r \<longrightarrow> store_secret L (store t) u g = None) \<and> (up s \<longrightarrow> is_ok r)) s"
  by (rule wp_mono [OF delete_wp [OF assms(1)]])
     (use assms in \<open>auto simp: shrinks_def view_secret intro!: trace_step vault_step.delete_secret\<close>)

lemma delete_metadata_wp:
  assumes "invar s"
  shows "wp (b_delete B (TargetName.ItemMetadata u))
    (\<lambda>r t. trace s t \<and> (up s \<longrightarrow> is_ok r) \<and> store_secret L (store t) = store_secret L (store s) \<and>
       (if is_ok r then store_item L (store t) u = None \<and>
          view L (store t) = (view L (store s))\<lparr>vv_items := (visible_item L (store s))(u := None)\<rparr>
        else view L (store t) = view L (store s))) s"
  by (rule wp_mono [OF delete_wp [OF assms(1)]])
     (auto simp: view_del intro!: trace_step vault_step.delete_item)

lemma secrets_loop_wp:
  assumes "invar s" and "store_item L (store s) u = None"
  shows "wp (act_iter (\<lambda>e. case e_kind e of
         EntryKind.ItemSecret item_id g \<Rightarrow>
           if item_id = u then b_delete B (TargetName.ItemSecret item_id g) else act_return ()
       | _ \<Rightarrow> act_return ()) es)
    (\<lambda>r t. shrinks s t \<and> (\<forall>e. gone u e s \<longrightarrow> gone u e t) \<and>
       (is_ok r \<longrightarrow> (\<forall>e \<in> set es. gone u e t)) \<and> (up s \<longrightarrow> is_ok r)) s"
proof (rule wp_iter_all, goal_cases body start)
  case (body e t)
  then have "invar t" and "\<forall>m. store_item L (store t) u = Some m \<longrightarrow> i_current_generation m \<noteq> g" for g
    using assms(2) by (auto simp: shrinksD)
  note step = delete_secret_wp [OF this]
  show ?case
    using body
    by (auto simp: wp_simps gone_def shrinksD split: EntryKind.splits
        intro!: wp_mono [OF step] intro: shrinks_trans dest: shrinksD(6) [unfolded gone_def, rule_format])
qed (use assms in \<open>simp add: shrinks_refl\<close>)

lemma secrets_try_loop_wp:
  assumes "invar s" and "store_item L (store s) u = None"
  shows "wp (act_iter (\<lambda>e. case e_kind e of
         EntryKind.ItemSecret item_id g \<Rightarrow>
           if item_id = u then
             act_bind (act_try (b_delete B (TargetName.ItemSecret item_id g))) (\<lambda>_. act_return ())
           else act_return ()
       | _ \<Rightarrow> act_return ()) es)
    (\<lambda>r t. shrinks s t \<and> (\<forall>e. (up s \<longrightarrow> gone u e s) \<longrightarrow> (up s \<longrightarrow> gone u e t)) \<and>
       (is_ok r \<longrightarrow> (\<forall>e \<in> set es. up s \<longrightarrow> gone u e t)) \<and> (True \<longrightarrow> is_ok r)) s"
proof (rule wp_iter_all, goal_cases body start)
  case (body e t)
  then have "invar t" and "\<forall>m. store_item L (store t) u = Some m \<longrightarrow> i_current_generation m \<noteq> g" for g
    using assms(2) by (auto simp: shrinksD)
  note step = delete_secret_wp [OF this]
  show ?case
    using body
    by (auto simp: wp_simps gone_def shrinksD split: EntryKind.splits
        intro!: wp_mono [OF step] intro: shrinks_trans dest: shrinksD(6) [unfolded gone_def, rule_format])
qed (use assms in \<open>simp add: shrinks_refl\<close>)

definition fewer :: "'s \<Rightarrow> 's \<Rightarrow> bool" where
  "fewer s t \<longleftrightarrow> (\<forall>v h. store_secret L (store s) v h = None \<longrightarrow> store_secret L (store t) v h = None)"

lemma delete_item_from_entries_wp:
  assumes "invar s"
  shows "wp (delete_item_from_entries B u es)
    (\<lambda>r t. trace s t \<and> fewer s t \<and> (up s \<longrightarrow> is_ok r) \<and>
       (view L (store t) = apply_op (DeleteItem u) (view L (store s)) \<or>
        \<not> is_ok r \<and> view L (store t) = view L (store s)) \<and>
       (is_ok r \<longrightarrow> (\<forall>e \<in> set es. gone u e t))) s"
  unfolding delete_item_from_entries_def
  by (rule wp_bindI [OF delete_metadata_wp [OF assms]])
     (auto simp: fewer_def shrinks_def dest: traceD
       intro!: wp_mono [OF secrets_loop_wp] intro: trace_trans)

lemma delete_replaced_item_wp:
  assumes "invar s"
  shows "wp (delete_replaced_item B u es)
    (\<lambda>r t. trace s t \<and> (up s \<longrightarrow> is_ok r) \<and>
       view L (store t) = (if is_ok r then apply_op (DeleteItem u) (view L (store s)) else view L (store s))) s"
  unfolding delete_replaced_item_def
  by (rule wp_bindI [OF delete_metadata_wp [OF assms]])
     (auto simp: shrinks_def dest: traceD
       intro!: wp_mono [OF secrets_try_loop_wp] intro: trace_trans)

lemma secrets_gone:
  assumes "entries_of L (store s) es" and "fewer s t" and "\<forall>e \<in> set es. gone u e t"
  shows "store_secret L (store t) u g = None"
proof (cases "store_secret L (store s) u g")
  case None
  then show ?thesis using assms(2) by (simp add: fewer_def)
next
  case (Some b)
  then obtain e where "e \<in> set es" "e_kind e = EntryKind.ItemSecret u g"
    using entries_kind [OF assms(1), of "TargetName.ItemSecret u g"] by (auto simp: store_secret_def)
  then show ?thesis using assms(3) by (auto simp: gone_def)
qed

lemma delete_item_wp:
  assumes "invar s"
  shows "wp (Broker_Service.delete_item L B u)
    (\<lambda>r t. trace s t \<and> (up s \<longrightarrow> is_ok r \<longleftrightarrow> store_item L (store s) u \<noteq> None) \<and>
       (view L (store t) = apply_op (DeleteItem u) (view L (store s)) \<or>
        \<not> is_ok r \<and> view L (store t) = view L (store s)) \<and>
       (is_ok r \<longrightarrow> (\<forall>g. store_secret L (store t) u g = None)) \<and>
       (\<forall>y. r = Inr y \<longrightarrow> y = ResponseBody.Empty)) s"
proof -
  have body: "wp (delete_item_from_entries B u es)
      (\<lambda>r t'. trace s t' \<and> (up s \<longrightarrow> is_ok r) \<and>
       (view L (store t') = apply_op (DeleteItem u) (view L (store s)) \<or>
        \<not> is_ok r \<and> view L (store t') = view L (store s)) \<and>
       (is_ok r \<longrightarrow> (\<forall>g. store_secret L (store t') u g = None))) t"
    if q: "quiet s t" and es: "entries_of L (store s) es" for t es
    by (rule wp_mono [OF delete_item_from_entries_wp [OF quietD(1) [OF q]]])
       (use q secrets_gone [OF es] in \<open>auto simp: quietD fewer_def intro: trace_trans [OF trace_quiet]\<close>)
  show ?thesis
    unfolding Broker_Service.delete_item_def
    by (rule get_item_then [OF quiet_refl [OF assms]], simp add: trace_quiet quietD,
        erule entries_then, simp add: trace_quiet quietD)
       (auto simp: wp_simps split: sum.splits intro!: wp_mono [OF body])
qed

lemma view_keep: "(view L st)\<lparr>vv_items := visible_item L st |` UNIV\<rparr> = view L st"
  by (simp add: view_def restrict_map_def)

lemma delete_replaced_items_wp:
  assumes "invar s"
  shows "wp (delete_replaced_items B es ids deleted failed)
    (\<lambda>r t. trace s t \<and> (\<exists>d f. r = Inr (deleted @ d, failed @ f) \<and> set d \<union> set f = set ids \<and>
       (up s \<longrightarrow> d = ids \<and> f = []) \<and>
       view L (store t) = (view L (store s))\<lparr>vv_items := visible_item L (store s) |` (- set d)\<rparr>)) s"
  using assms
proof (induction ids arbitrary: s deleted failed)
  case Nil
  then show ?case by (auto simp: wp_simps trace_quiet quiet_refl view_keep)
next
  case (Cons u ids)
  show ?case
    unfolding delete_replaced_items.simps
  proof (rule wp_bindI [where P = "\<lambda>r t. \<exists>q. r = Inr q \<and> trace s t \<and> (up s \<longrightarrow> is_ok q) \<and>
       view L (store t) = (if is_ok q then apply_op (DeleteItem u) (view L (store s)) else view L (store s))"],
      goal_cases del err ok)
    case del
    show ?case
      unfolding wp_simps by (rule wp_mono [OF delete_replaced_item_wp [OF Cons.prems]]) auto
  next
    case (ok q t)
    then have t: "trace s t" "invar t" "up s \<Longrightarrow> up t" by (auto dest: traceD)
    show ?case
    proof (cases "is_ok q")
      case True
      then have v: "view L (store t) = apply_op (DeleteItem u) (view L (store s))" using ok by auto
      then have vt: "visible_item L (store t) = (visible_item L (store s))(u := None)"
        using view_items [OF v] by simp
      have "wp (delete_replaced_items B es ids (deleted @ [u]) failed)
        (\<lambda>r t'. trace s t' \<and> (\<exists>d f. r = Inr (deleted @ d, failed @ f) \<and> set d \<union> set f = set (u # ids) \<and>
           (up s \<longrightarrow> d = u # ids \<and> f = []) \<and>
           view L (store t') = (view L (store s))\<lparr>vv_items := visible_item L (store s) |` (- set d)\<rparr>)) t"
      proof (rule wp_mono [OF Cons.IH [OF t(2)]], elim conjE exE, goal_cases)
        case (1 r t' d f)
        then have "view L (store t') = (view L (store s))\<lparr>vv_items := visible_item L (store s) |` (- set (u # d))\<rparr>"
          by (simp add: v vt restrict_del [unfolded fun_upd_def] fun_upd_def)
        moreover have "trace s t'" using t(1) 1(1) by (rule trace_trans)
        ultimately show ?case using 1 t(3) by fastforce
      qed
      with True show ?thesis by simp
    next
      case False
      then have v: "view L (store t) = view L (store s)" and down: "\<not> up s" using ok by auto
      then have vt: "visible_item L (store t) = visible_item L (store s)"
        using view_items [OF v] by simp
      have "wp (delete_replaced_items B es ids deleted (failed @ [u]))
        (\<lambda>r t'. trace s t' \<and> (\<exists>d f. r = Inr (deleted @ d, failed @ f) \<and> set d \<union> set f = set (u # ids) \<and>
           (up s \<longrightarrow> d = u # ids \<and> f = []) \<and>
           view L (store t') = (view L (store s))\<lparr>vv_items := visible_item L (store s) |` (- set d)\<rparr>)) t"
      proof (rule wp_mono [OF Cons.IH [OF t(2)]], elim conjE exE, goal_cases)
        case (1 r t' d f)
        then have "view L (store t') = (view L (store s))\<lparr>vv_items := visible_item L (store s) |` (- set d)\<rparr>"
          by (simp add: v vt)
        moreover have "trace s t'" using t(1) 1(1) by (rule trace_trans)
        ultimately show ?case using 1 down by fastforce
      qed
      with False show ?thesis by simp
    qed
  qed auto
qed

lemma item_ids:
  "i_id ` {k. (\<exists>u. store_item L st u = Some k) \<and> P k} = {u. \<exists>k. store_item L st u = Some k \<and> P k}"
  by (auto dest: store_item_id)

lemma restrict_upd: "u \<notin> S \<Longrightarrow> (f(u \<mapsto> v)) |` (- S) = (f |` (- S))(u \<mapsto> v)"
  by (auto simp: restrict_map_def fun_eq_iff)

text \<open>The items to replace, read before the new item is written.\<close>

lemma replaced_ids_wp:
  assumes "quiet s t"
  shows "wp (if replace then
        act_bind (valid_items L B) (\<lambda>items.
        act_return (map i_id (filter (\<lambda>k. i_collection_id k = i_collection_id m \<and>
          i_attributes k = i_attributes m) items)))
      else act_return [])
    (\<lambda>r t'. quiet s t' \<and> (up s \<longrightarrow> is_ok r) \<and>
       (\<forall>ids. r = Inr ids \<longrightarrow> set ids = replaced_by L (store s) m replace)) t"
proof (cases replace)
  case True
  have "wp (valid_items L B)
      (\<lambda>r t'. quiet s t' \<and> (up s \<longrightarrow> is_ok r) \<and>
         (\<forall>ms. r = Inr ms \<longrightarrow> set ms = {k. \<exists>u. store_item L (store s) u = Some k})) t"
    by (rule wp_mono [OF valid_items_wp [OF quietD(1) [OF assms]]])
       (use assms in \<open>auto simp: quietD intro: quiet_trans\<close>)
  then have "wp (act_bind (valid_items L B) (\<lambda>items.
        act_return (map i_id (filter (\<lambda>k. i_collection_id k = i_collection_id m \<and>
          i_attributes k = i_attributes m) items))))
      (\<lambda>r t'. quiet s t' \<and> (up s \<longrightarrow> is_ok r) \<and>
         (\<forall>ids. r = Inr ids \<longrightarrow> set ids = replaced_by L (store s) m True)) t"
    by (rule wp_bindI) (auto simp: wp_simps replaced_by_def item_ids)
  with True show ?thesis by simp
next
  case False
  with assms show ?thesis by (simp add: wp_simps replaced_by_def)
qed

definition replaced :: "ItemMetadata \<Rightarrow> SecretBytes \<Rightarrow> uuid list \<Rightarrow> vault_view \<Rightarrow> vault_view" where
  "replaced m x d v = v\<lparr>vv_items := (vv_items v |` (- set d))(i_id m \<mapsto> (m, Some (expose x)))\<rparr>"

lemma create_or_replace_item_wp:
  assumes "invar s" and "item_value m" and "secret_wf x"
  shows "wp (create_or_replace_item L B m x replace)
    (\<lambda>r t. trace s t \<and>
       (\<forall>y. r = Inr y \<longrightarrow> (\<exists>d f. y = ResponseBody.ReplacedItem m d f \<and>
          set d \<union> set f = replaced_by L (store s) m replace \<and> (up s \<longrightarrow> f = []) \<and>
          view L (store t) = replaced m x d (view L (store s)))) \<and>
       (\<not> is_ok r \<longrightarrow> view L (store t) = view L (store s) \<or>
          view L (store t) = apply_op (CreateItem m x) (view L (store s))) \<and>
       (up s \<longrightarrow> is_ok r \<longleftrightarrow> is_ok (validate_item m) \<and>
          store_collection L (store s) (i_collection_id m) \<noteq> None \<and>
          store s (target_to_string L (TargetName.ItemMetadata (i_id m))) = None \<and>
          is_ok (encode_metadata (item_cbor L) m))) s"
    (is "wp _ ?Q s")
  unfolding create_or_replace_item_def
proof (rule lift_then, goal_cases err ok)
  case (err e)
  with assms show ?case by (simp add: trace_quiet quiet_refl quietD)
next
  case (ok v)
  let ?R = "replaced_by L (store s) m replace"
  have cleanup: "wp (act_bind (entries L B) (\<lambda>es.
       act_bind (delete_replaced_items B es ids [] []) (\<lambda>(d, f).
       act_return (ResponseBody.ReplacedItem m d f)))) ?Q t"
    if t: "trace s t" "view L (store t) = apply_op (CreateItem m x) (view L (store s))"
      and ids: "set ids = ?R" and cond: "store_collection L (store s) (i_collection_id m) \<noteq> None"
        "store s (target_to_string L (TargetName.ItemMetadata (i_id m))) = None"
        "is_ok (encode_metadata (item_cbor L) m) \<or> \<not> up s" for t ids
  proof -
    have vt: "visible_item L (store t) = (visible_item L (store s))(i_id m \<mapsto> (m, Some (expose x)))"
      using view_items [OF t(2)] by simp
    have "i_id m \<notin> ?R" using cond(2) by (auto simp: replaced_by_def store_item_def)
    then have vd: "(view L (store t))\<lparr>vv_items := visible_item L (store t) |` (- set d)\<rparr> =
        replaced m x d (view L (store s))" if "set d \<union> set f = ?R" for d f
    proof -
      have "i_id m \<notin> set d" using that \<open>i_id m \<notin> ?R\<close> by blast
      then show ?thesis by (simp add: replaced_def t(2) vt restrict_upd del: fun_upd_apply)
    qed
    have del: "wp (delete_replaced_items B es ids [] [])
        (\<lambda>r t'. trace s t' \<and> (\<exists>d f. r = Inr (d, f) \<and> set d \<union> set f = ?R \<and> (up s \<longrightarrow> f = []) \<and>
           view L (store t') = replaced m x d (view L (store s)))) t2" if q: "quiet t t2" for es t2
    proof (rule wp_mono [OF delete_replaced_items_wp [OF quietD(1) [OF q]]], elim conjE exE, goal_cases)
      case (1 r t' d f)
      then have "view L (store t') = replaced m x d (view L (store s))"
        using vd [of d f] q ids by (simp add: quietD)
      moreover have "trace s t'" using t(1) trace_quiet [OF q] 1(1) by (blast intro: trace_trans)
      moreover have "up s \<longrightarrow> f = []" using 1 q t(1) by (auto simp: quietD dest: traceD)
      ultimately show ?case using 1 ids by auto
    qed
    show ?thesis
      by (rule entries_then [OF quiet_refl [OF traceD(1) [OF t(1)]]])
         (use t cond ok in \<open>auto simp: wp_simps quietD dest: traceD split: sum.splits
            intro!: wp_mono [OF del] intro: trace_trans [OF t(1) trace_quiet]\<close>)
  qed
  have commit: "wp (act_bind (commit_new_generation L B m None x) (\<lambda>_.
       act_bind (entries L B) (\<lambda>es.
       act_bind (delete_replaced_items B es ids [] []) (\<lambda>(d, f).
       act_return (ResponseBody.ReplacedItem m d f))))) ?Q t"
    if "quiet s t" "set ids = ?R" "store_collection L (store s) (i_collection_id m) = Some c"
        "store s (target_to_string L (TargetName.ItemMetadata (i_id m))) = None" for t ids c
  proof -
    have new: "wp (commit_new_generation L B m None x)
      (\<lambda>r t. trace s t \<and> (up s \<longrightarrow> is_ok r = is_ok (encode_metadata (item_cbor L) m)) \<and>
         view L (store t) = (if is_ok r then apply_op (CreateItem m x) (view L (store s))
           else view L (store s))) t"
      by (rule wp_mono [OF commit_quiet_wp [OF that(1) assms(2) _ assms(3)]])
         (use that ok store_item_absent in auto)
    show ?thesis
    proof (rule wp_bindI [OF new], goal_cases err ok)
      case (err e t')
      then show ?case by auto
    next
      case (ok _ t')
      show ?case by (rule cleanup) (use ok that in auto)
    qed
  qed
  have ids: "wp (act_bind
         (if replace then
            act_bind (valid_items L B) (\<lambda>items.
            act_return (map i_id (filter (\<lambda>existing.
              i_collection_id existing = i_collection_id m \<and>
              i_attributes existing = i_attributes m) items)))
          else act_return []) (\<lambda>replaced_item_ids.
       act_bind (commit_new_generation L B m None x) (\<lambda>_.
       act_bind (entries L B) (\<lambda>es.
       act_bind (delete_replaced_items B es replaced_item_ids [] []) (\<lambda>(deleted, failed).
       act_return (ResponseBody.ReplacedItem m deleted failed)))))) ?Q t"
    if "quiet s t" "store_collection L (store s) (i_collection_id m) = Some c"
        "store s (target_to_string L (TargetName.ItemMetadata (i_id m))) = None" for t c
  proof (rule wp_bindI [OF replaced_ids_wp [OF that(1)]], goal_cases err ok)
    case (err e t')
    then show ?case by (auto simp: trace_quiet quietD)
  next
    case (ok ids t')
    then show ?case by (intro commit [OF _ _ that(2,3)]) auto
  qed
  show ?case
    by (rule require_then [OF quiet_refl [OF assms(1)]], simp add: trace_quiet quietD,
        erule read_then, simp add: trace_quiet quietD, unfold wp_if, rule if_split [THEN iffD2],
        intro conjI impI, simp add: wp_throw trace_quiet quietD, erule ids) auto
qed


section \<open>Deleting a collection\<close>

text \<open>
  \<open>partly s c D A t\<close>: on the way from \<open>s\<close> only items \<open>D\<close> and aliases \<open>A\<close> of the collection
  were taken out.
\<close>

definition partly :: "'s \<Rightarrow> uuid \<Rightarrow> uuid set \<Rightarrow> string set \<Rightarrow> 's \<Rightarrow> bool" where
  "partly s c D A t \<longleftrightarrow> trace s t \<and> fewer s t \<and> view L (store t) = without D A (view L (store s)) \<and>
     D \<subseteq> members L (store s) c \<and> A \<subseteq> alias_names L (store s) c"

lemma partlyD: "partly s c D A t \<Longrightarrow> invar t" "partly s c D A t \<Longrightarrow> up s \<Longrightarrow> up t"
  by (auto simp: partly_def dest: traceD)

lemma partly_views:
  assumes "partly s c D A t"
  shows "visible_item L (store t) = visible_item L (store s) |` (- D)"
    and "store_alias L (store t) = store_alias L (store s) |` (- A)"
    and "store_collection L (store t) = store_collection L (store s)"
proof -
  have v: "view L (store t) = without D A (view L (store s))"
    using assms by (simp add: partly_def)
  show "visible_item L (store t) = visible_item L (store s) |` (- D)"
    and "store_alias L (store t) = store_alias L (store s) |` (- A)"
    and "store_collection L (store t) = store_collection L (store s)"
    using view_items [OF v] view_aliases [OF v] view_collections [OF v] by simp_all
qed

lemma partly_items_wp:
  assumes "partly s c {} {} s0" and "set ids \<subseteq> members L (store s) c"
  shows "wp (act_iter (\<lambda>u. delete_item_from_entries B u es) ids)
    (\<lambda>r t. (\<exists>D. partly s c D {} t) \<and> (\<forall>u. visible_item L (store s0) u = None \<and> (\<forall>e \<in> set es. gone u e s0) \<longrightarrow>
         visible_item L (store t) u = None \<and> (\<forall>e \<in> set es. gone u e t)) \<and>
       (is_ok r \<longrightarrow> (\<forall>u \<in> set ids. visible_item L (store t) u = None \<and> (\<forall>e \<in> set es. gone u e t))) \<and>
       (up s \<longrightarrow> is_ok r)) s0"
proof (rule wp_iter_all, goal_cases body start)
  case (body u t)
  then obtain D where t: "partly s c D {} t" by blast
  note step = delete_item_from_entries_wp [OF partlyD(1) [OF t], of u es]
  show ?case
  proof (rule wp_mono [OF step], goal_cases)
    case (1 r t')
    have "apply_op (DeleteItem u) (view L (store t)) = without (insert u D) {} (view L (store s))"
      using t by (simp only: partly_def without_item)
    then have "view L (store t') = without (insert u D) {} (view L (store s)) \<or>
        view L (store t') = without D {} (view L (store s))"
      using 1 t by (auto simp: partly_def simp del: apply_op.simps)
    moreover have "trace s t'" "fewer s t'"
      using 1 t by (auto simp: partly_def fewer_def intro: trace_trans)
    ultimately have "partly s c (insert u D) {} t' \<or> partly s c D {} t'"
      using t body assms(2) by (auto simp: partly_def)
    moreover have vis: "visible_item L (store t') = (visible_item L (store t))(u := None) \<or>
        \<not> is_ok r \<and> visible_item L (store t') = visible_item L (store t)"
      using 1 by (auto dest!: view_items)
    moreover from vis have "visible_item L (store t') v = None" if "visible_item L (store t) v = None" for v
      using that by auto
    moreover have "gone v e t'" if "gone v e t" for v e
      using 1 that by (auto simp: gone_def fewer_def)
    moreover from vis have "visible_item L (store t') u = None" if "is_ok r"
      using that by auto
    ultimately show ?case using 1 partlyD(2) [OF t] by blast
  qed
qed (use assms in blast)

lemma partly_aliases_wp:
  assumes "partly s c D {} s0" and "set ns \<subseteq> alias_names L (store s) c"
  shows "wp (act_iter (\<lambda>n. b_delete B (TargetName.Alias n)) ns)
    (\<lambda>r t. ((\<exists>A. partly s c D A t) \<and> store_secret L (store t) = store_secret L (store s0)) \<and>
       (\<forall>n. store_alias L (store s0) n = None \<longrightarrow> store_alias L (store t) n = None) \<and>
       (is_ok r \<longrightarrow> (\<forall>n \<in> set ns. store_alias L (store t) n = None)) \<and> (up s \<longrightarrow> is_ok r)) s0"
proof (rule wp_iter_all, goal_cases body start)
  case (body n t)
  then obtain A where t: "partly s c D A t" by blast
  note step = delete_wp [OF partlyD(1) [OF t], of "TargetName.Alias n"]
  show ?case
  proof (rule wp_mono [OF step], goal_cases)
    case (1 r t')
    then have "trace t t'" by (auto intro!: trace_step vault_step.delete_alias)
    have "view L (del L (TargetName.Alias n) (store t)) = apply_op (RemoveAlias n) (view L (store t))"
      by (simp add: view_del)
    also have "\<dots> = without D (insert n A) (view L (store s))"
      using t by (simp only: partly_def without_alias)
    finally have "view L (store t') = without D (insert n A) (view L (store s)) \<or>
        view L (store t') = without D A (view L (store s))"
      using 1 t by (auto simp: partly_def simp del: apply_op.simps split: if_splits)
    moreover have "trace s t'" "fewer s t'"
      using 1 t \<open>trace t t'\<close> by (auto simp: partly_def fewer_def intro: trace_trans split: if_splits)
    ultimately have "partly s c D (insert n A) t' \<or> partly s c D A t'"
      using t body assms(2) by (auto simp: partly_def)
    moreover have "store_secret L (store t') = store_secret L (store s0)"
      using 1 body by (auto split: if_splits)
    moreover have "store_alias L (store t') k = None" if "store_alias L (store t) k = None" for k
      using 1 that by (auto split: if_splits)
    ultimately show ?case using 1 partlyD(2) [OF t] by auto
  qed
qed (use assms in blast)

lemma delete_collection_view:
  "apply_op (DeleteCollection c) (view L st) =
     (without (members L st c) (alias_names L st c) (view L st))
       \<lparr>vv_collections := (store_collection L st)(c := None)\<rparr>"
proof -
  have "drop_where (\<lambda>(m, _). i_collection_id m = c) (visible_item L st) = visible_item L st |` (- members L st c)"
    by (rule drop_where_restrict) (auto simp: members_def store_item_visible)
  moreover have "drop_where (\<lambda>a. a_collection_id a = c) (store_alias L st) = store_alias L st |` (- alias_names L st c)"
    by (rule drop_where_restrict) (auto simp: alias_names_def)
  ultimately show ?thesis by (simp add: without_def view_def)
qed

lemma partly_all:
  assumes "partly s c D A t"
  shows "\<forall>u \<in> members L (store s) c. visible_item L (store t) u = None \<Longrightarrow> D = members L (store s) c"
    and "\<forall>n \<in> alias_names L (store s) c. store_alias L (store t) n = None \<Longrightarrow> A = alias_names L (store s) c"
  using assms partly_views [OF assms]
  by (auto simp: partly_def members_def alias_names_def store_item_visible restrict_map_def split: if_splits)

lemma delete_last_wp:
  assumes "partly s c (members L (store s) c) (alias_names L (store s) c) t"
  shows "wp (b_delete B (TargetName.Collection c))
    (\<lambda>r t'. trace s t' \<and> (up s \<longrightarrow> is_ok r) \<and> store_secret L (store t') = store_secret L (store t) \<and>
       view L (store t') = (if is_ok r then apply_op (DeleteCollection c) (view L (store s))
         else without (members L (store s) c) (alias_names L (store s) c) (view L (store s)))) t"
proof -
  note v = partly_views [OF assms]
  have "\<forall>i m. store_item L (store t) i = Some m \<longrightarrow> i_collection_id m \<noteq> c"
    and "\<forall>n a. store_alias L (store t) n = Some a \<longrightarrow> a_collection_id a \<noteq> c"
    by (auto simp: store_item_visible v restrict_map_def members_def alias_names_def split: if_splits)
  then have step: "vault_step L (store t) (del L (TargetName.Collection c) (store t))"
    by (rule vault_step.delete_collection)
  have vd: "view L (del L (TargetName.Collection c) (store t)) = apply_op (DeleteCollection c) (view L (store s))"
    using assms by (simp add: view_del v(3) partly_def delete_collection_view del: apply_op.simps)
  have tr: "trace s t'" if "alive t t'" "store t' = store t \<or> store t' = del L (TargetName.Collection c) (store t)" for t'
    using assms step trace_step [OF that(1)] that(2) by (auto simp: partly_def intro: trace_trans)
  show ?thesis
    by (rule wp_mono [OF delete_wp [OF partlyD(1) [OF assms]]])
       (use assms vd partlyD(2) [OF assms] in \<open>auto simp: partly_def tr simp del: apply_op.simps\<close>)
qed

lemma delete_collection_wp:
  assumes "invar s"
  shows "wp (Broker_Service.delete_collection L B c)
    (\<lambda>r t. trace s t \<and> (up s \<longrightarrow> is_ok r \<longleftrightarrow> store_collection L (store s) c \<noteq> None) \<and>
       (is_ok r \<longrightarrow> view L (store t) = apply_op (DeleteCollection c) (view L (store s)) \<and>
          (\<forall>u \<in> members L (store s) c. \<forall>g. store_secret L (store t) u g = None)) \<and>
       (\<not> is_ok r \<longrightarrow> (\<exists>D A. D \<subseteq> members L (store s) c \<and> A \<subseteq> alias_names L (store s) c \<and>
          view L (store t) = without D A (view L (store s)))) \<and>
       (\<forall>y. r = Inr y \<longrightarrow> y = ResponseBody.Empty)) s"
    (is "wp _ ?Q s")
proof -
  have body: "wp (act_bind (act_iter (\<lambda>item_id. delete_item_from_entries B item_id es) ids) (\<lambda>_.
      act_bind (act_iter (\<lambda>name. b_delete B (TargetName.Alias name)) ns) (\<lambda>_.
      act_bind (b_delete B (TargetName.Collection c)) (\<lambda>_.
      act_return ResponseBody.Empty)))) ?Q t"
    if q: "quiet s t" and es: "entries_of L (store s) es" and has: "store_collection L (store s) c \<noteq> None"
      and ids: "set ids = members L (store s) c" and ns: "set ns = alias_names L (store s) c" for t es ids ns
  proof -
    have start: "partly s c {} {} t"
      using q by (auto simp: partly_def fewer_def quietD trace_quiet)
    have part: "?Q (Inl e) t'" if "partly s c D A t'" "\<not> up s" for e D A t'
      using that by (auto simp: partly_def)
    have left: "wp (act_bind (act_iter (\<lambda>name. b_delete B (TargetName.Alias name)) ns) (\<lambda>_.
      act_bind (b_delete B (TargetName.Collection c)) (\<lambda>_. act_return ResponseBody.Empty))) ?Q t1"
      if t1: "partly s c (members L (store s) c) {} t1"
        and sec: "\<forall>u \<in> members L (store s) c. \<forall>g. store_secret L (store t1) u g = None" for t1
    proof (rule wp_bindI [OF partly_aliases_wp [OF t1 eq_refl [OF ns]]], goal_cases err ok)
      case (err e t2)
      then show ?case using part by auto
    next
      case (ok _ t2)
      then obtain A where A: "partly s c (members L (store s) c) A t2" by blast
      moreover have "A = alias_names L (store s) c" using ok ns by (intro partly_all(2) [OF A]) auto
      ultimately have t2: "partly s c (members L (store s) c) (alias_names L (store s) c) t2" by simp
      show ?case
        by (rule wp_bindI [OF delete_last_wp [OF t2]])
           (use has sec ok in \<open>auto simp: wp_simps simp del: apply_op.simps\<close>)
    qed
    show ?thesis
    proof (rule wp_bindI [OF partly_items_wp [OF start eq_refl [OF ids]]], goal_cases err ok)
      case (err e t1)
      then show ?case using part by auto
    next
      case (ok _ t1)
      then obtain D where D: "partly s c D {} t1" by blast
      moreover have "D = members L (store s) c" using ok ids by (intro partly_all(1) [OF D]) auto
      moreover have "store_secret L (store t1) u g = None" if "u \<in> members L (store s) c" for u g
        using D ok ids that by (intro secrets_gone [OF es]) (auto simp: partly_def)
      ultimately show ?case by (intro left) auto
    qed
  qed
  show ?thesis
    unfolding Broker_Service.delete_collection_def Let_def
    by (rule get_collection_then [OF quiet_refl [OF assms]], fastforce simp: trace_quiet quietD intro: exI [of _ "{}"],
        erule entries_then, fastforce simp: trace_quiet quietD intro: exI [of _ "{}"], rule body)
       (auto simp: entries_items entries_aliases members_def alias_names_def image_iff
         dest: store_item_id store_alias_name)
qed


section \<open>Recovery\<close>

lemma apply_recovery_wp:
  assumes "invar s"
    and "\<forall>(u, g) \<in> set (List.map_filter deletion as).
      \<forall>m. store_item L (store s) u = Some m \<longrightarrow> i_current_generation m \<noteq> g"
  shows "wp (apply_recovery B as n bad)
    (\<lambda>r t. shrinks s t \<and> (up s \<longrightarrow> is_ok r) \<and>
       (\<forall>u g. (u, g) \<notin> set (List.map_filter deletion as) \<longrightarrow>
          store_secret L (store t) u g = store_secret L (store s) u g) \<and>
       (\<forall>y. r = Inr y \<longrightarrow>
          y = ResponseBody.Reconciled (n + length (List.map_filter deletion as))
                (bad @ List.map_filter report as) \<and>
          (\<forall>(u, g) \<in> set (List.map_filter deletion as). store_secret L (store t) u g = None))) s"
  using assms
proof (induction as arbitrary: s n bad)
  case Nil
  then show ?case by (simp add: wp_simps shrinks_refl List.map_filter_simps)
next
  case (Cons a as)
  show ?case
  proof (cases a)
    case (ReportMissingCommittedGeneration u g)
    then show ?thesis
      using Cons.IH [OF Cons.prems(1), of n "bad @ [u]"] Cons.prems(2)
      by (simp add: List.map_filter_simps)
  next
    case (DeleteAbandonedGeneration u g)
    have del: "wp (b_delete B (TargetName.ItemSecret u g))
      (\<lambda>r t. shrinks s t \<and> (is_ok r \<longrightarrow> store_secret L (store t) u g = None) \<and> (up s \<longrightarrow> is_ok r) \<and>
        (\<forall>v h. (v, h) \<noteq> (u, g) \<longrightarrow> store_secret L (store t) v h = store_secret L (store s) v h)) s"
      by (rule wp_mono [OF wp_conj [OF delete_secret_wp [OF Cons.prems(1)] delete_wp [OF Cons.prems(1)]]])
         (use Cons.prems(2) DeleteAbandonedGeneration in \<open>auto simp: List.map_filter_simps split: if_splits\<close>)
    show ?thesis
      unfolding DeleteAbandonedGeneration apply_recovery.simps
    proof (rule wp_bindI [OF del], goal_cases err ok)
      case (err e t)
      then show ?case by (auto simp: List.map_filter_simps)
    next
      case (ok _ t)
      then have t: "invar t" "up s \<Longrightarrow> up t" "shrinks s t" by (auto dest: shrinksD)
      have "wp (apply_recovery B as (n + 1) bad)
       (\<lambda>r t'. shrinks t t' \<and> (up t \<longrightarrow> is_ok r) \<and>
         (\<forall>v h. (v, h) \<notin> set (List.map_filter deletion as) \<longrightarrow>
            store_secret L (store t') v h = store_secret L (store t) v h) \<and>
         (\<forall>y. r = Inr y \<longrightarrow>
            y = ResponseBody.Reconciled (n + 1 + length (List.map_filter deletion as))
                  (bad @ List.map_filter report as) \<and>
            (\<forall>(u, g) \<in> set (List.map_filter deletion as). store_secret L (store t') u g = None))) t"
        by (rule Cons.IH [OF t(1)])
           (use Cons.prems(2) DeleteAbandonedGeneration shrinksD(4) [OF t(3)] in
             \<open>auto simp: List.map_filter_simps\<close>)
      then show ?case
        by (rule wp_mono) (use ok t in \<open>auto simp: List.map_filter_simps shrinks_def intro: trace_trans\<close>)
    qed
  qed
qed

lemma reconcile_locked_wp:
  assumes "invar s"
  shows "wp (reconcile_locked L B)
    (\<lambda>r t. shrinks s t \<and> (up s \<longrightarrow> is_ok r) \<and>
       (\<forall>u g. (u, g) \<notin> abandoned L (store s) \<longrightarrow>
          store_secret L (store t) u g = store_secret L (store s) u g) \<and>
       (\<forall>y. r = Inr y \<longrightarrow> abandoned L (store t) = {} \<and>
          (\<exists>bad. y = ResponseBody.Reconciled (card (abandoned L (store s))) bad \<and>
             set bad = incomplete L (store s) \<and> sorted_wrt (<) bad))) s"
  unfolding reconcile_locked_def
proof (rule entries_then [OF quiet_refl [OF assms]], goal_cases err ok)
  case (err e t)
  then show ?case by (auto simp: quietD shrinks_def trace_quiet)
next
  case (ok es t)
  let ?as = "plan_recovery (inventory_of L es)"
  note plan = plan_of_store [OF ok(2)]
  have card: "length (List.map_filter deletion ?as) = card (abandoned L (store s))"
    using plan(1,2) distinct_card by metis
  have quiet: "shrinks s t" using ok(1) by (auto simp: quietD shrinks_def trace_quiet)
  show ?case
  proof (rule wp_mono [OF apply_recovery_wp [OF quietD(1) [OF ok(1)]]], goal_cases safe post)
    case safe
    show ?case using plan(1) ok(1) by (auto simp: quietD abandoned_def)
  next
    case (post r t')
    then have "shrinks s t'" using quiet shrinks_trans by blast
    moreover have "abandoned L (store t') = {}" if "r = Inr y" for y
    proof -
      have del: "store_secret L (store t') u g = None" if "(u, g) \<in> abandoned L (store s)" for u g
        using that post \<open>r = Inr y\<close> plan(1) by auto
      have "store_secret L (store t') u g = store_secret L (store s) u g"
        if "(u, g) \<notin> abandoned L (store s)" for u g
        using that post plan(1) quietD(2) [OF ok(1)] by auto
      with del have same: "store_secret L (store t') u g = None \<or> (u, g) \<notin> abandoned L (store s) \<and>
          store_secret L (store t') u g = store_secret L (store s) u g" for u g
        by blast
      have "(u, g) \<notin> abandoned L (store t')" for u g
        using same [of u g] shrinksD(4) [OF \<open>shrinks s t'\<close>] by (auto simp: abandoned_def)
      then show ?thesis by auto
    qed
    ultimately show ?case using post ok(1) plan card by (auto simp: quietD)
  qed
qed

end

end
