(* ===== verification/Broker_Operations.thy ===== *)
theory Broker_Operations
  imports Broker_Removal
begin

text \<open>
  Whole requests: \<open>execute\<close> takes the lock, dispatches and releases. The lemmas of the locale
  \<open>vault\<close> are lifted from the methods to requests, and to any sequence of requests.
\<close>

section \<open>What a request may do\<close>

fun replacing :: "Operation \<Rightarrow> bool" where
  "replacing (CreateOrReplaceItem _ _ r) = r"
| "replacing _ = False"

text \<open>The vaults a request that reports an error may leave behind.\<close>

fun interrupted :: "Operation \<Rightarrow> vault_view \<Rightarrow> vault_view \<Rightarrow> bool" where
  "interrupted (DeleteItem u) v v' \<longleftrightarrow> v' = v \<or> v' = apply_op (DeleteItem u) v"
| "interrupted (DeleteCollection c) v v' \<longleftrightarrow>
     (\<exists>D A. v' = without D A v \<and>
        (\<forall>u \<in> D. \<exists>m b. vv_items v u = Some (m, b) \<and> i_collection_id m = c) \<and>
        (\<forall>n \<in> A. \<exists>a. vv_aliases v n = Some a \<and> a_collection_id a = c))"
| "interrupted (CreateOrReplaceItem m x _) v v' \<longleftrightarrow> v' = v \<or> v' = apply_op (CreateItem m x) v"
| "interrupted _ v v' \<longleftrightarrow> v' = v"

lemma interrupted_refl: "interrupted op v v"
proof (cases op)
  case (DeleteCollection c)
  have "v = without {} {} v" by simp
  then show ?thesis unfolding DeleteCollection interrupted.simps by blast
qed auto

text \<open>The requests of a history that returned, in order, whatever faults they met.\<close>

inductive broker_run :: "'x broker_lib_scheme \<Rightarrow> 's backend \<Rightarrow> 's \<Rightarrow> 's \<Rightarrow> bool" for L B where
  start: "broker_run L B s s"
| request: "broker_run L B s t \<Longrightarrow> operation_value op \<Longrightarrow> execute L B op t = Some (r, t') \<Longrightarrow>
    broker_run L B s t'"

context vault
begin

lemma replaced_all:
  assumes "set d = replaced_by L (store s) m r"
  shows "replaced m x d (view L (store s)) = apply_op (CreateOrReplaceItem m x r) (view L (store s))"
proof (cases r)
  case True
  have "drop_where (\<lambda>(k, _). i_collection_id k = i_collection_id m \<and> i_attributes k = i_attributes m)
      (visible_item L (store s)) = visible_item L (store s) |` (- set d)"
    by (rule drop_where_restrict) (auto simp: assms True replaced_by_def store_item_visible)
  then show ?thesis using True by (simp add: replaced_def)
next
  case False
  then show ?thesis using assms by (simp add: replaced_def replaced_by_def restrict_map_def)
qed

lemma members_visible:
  "u \<in> members L st c \<Longrightarrow> \<exists>m b. visible_item L st u = Some (m, b) \<and> i_collection_id m = c"
  by (auto simp: members_def store_item_visible)

lemma dispatch_wp:
  assumes "invar s" and "operation_value op"
  shows "wp (dispatch L B op)
    (\<lambda>r t. trace s t \<and>
      (is_ok r \<longrightarrow> (replacing op \<longrightarrow> up s) \<longrightarrow> view L (store t) = apply_op op (view L (store s))) \<and>
      (\<not> is_ok r \<longrightarrow> interrupted op (view L (store s)) (view L (store t)))) s"
proof (cases op)
  case Ping
  with assms show ?thesis by (simp add: wp_simps trace_quiet quiet_refl)
next
  case ListCollections
  show ?thesis unfolding ListCollections dispatch.simps
    by (rule wp_mono [OF list_collections_wp [OF assms(1)]]) (use assms ListCollections in \<open>auto simp: trace_quiet quietD\<close>)
next
  case (GetCollection u)
  show ?thesis unfolding GetCollection dispatch.simps
    by (rule get_collection_then [OF quiet_refl [OF assms(1)]])
       (auto simp: wp_simps trace_quiet quietD)
next
  case (CreateCollection c)
  show ?thesis unfolding CreateCollection dispatch.simps
    by (rule wp_mono [OF create_collection_wp [OF assms(1)]]) (use assms CreateCollection in auto)
next
  case (UpdateCollection c)
  show ?thesis unfolding UpdateCollection dispatch.simps
    by (rule wp_mono [OF update_collection_wp [OF assms(1)]]) (use assms UpdateCollection in auto)
next
  case (DeleteCollection c)
  show ?thesis unfolding DeleteCollection dispatch.simps
  proof (rule wp_mono [OF delete_collection_wp [OF assms(1)]], goal_cases)
    case (1 r t)
    have "interrupted (DeleteCollection c) (view L (store s)) (view L (store t))" if "\<not> is_ok r"
    proof -
      obtain D A where "D \<subseteq> members L (store s) c" "A \<subseteq> alias_names L (store s) c"
        "view L (store t) = without D A (view L (store s))"
        using 1 \<open>\<not> is_ok r\<close> by blast
      then show ?thesis
        using members_visible by (auto simp: alias_names_def intro!: exI [of _ D] exI [of _ A])
    qed
    then show ?case using 1 by (simp del: apply_op.simps interrupted.simps)
  qed
next
  case ListAliases
  show ?thesis unfolding ListAliases dispatch.simps
    by (rule wp_mono [OF list_aliases_wp [OF assms(1)]]) (use assms ListAliases in \<open>auto simp: trace_quiet quietD\<close>)
next
  case (ResolveAlias n)
  show ?thesis unfolding ResolveAlias dispatch.simps
    by (rule wp_mono [OF resolve_alias_wp [OF assms(1)]]) (use assms ResolveAlias in \<open>auto simp: trace_quiet quietD\<close>)
next
  case (SetAlias a)
  show ?thesis unfolding SetAlias dispatch.simps
    by (rule wp_mono [OF set_alias_wp [OF assms(1)]]) (use assms SetAlias in auto)
next
  case (RemoveAlias n)
  show ?thesis unfolding RemoveAlias dispatch.simps
    by (rule wp_mono [OF remove_alias_wp [OF assms(1)]]) auto
next
  case (SearchItems a)
  show ?thesis unfolding SearchItems dispatch.simps
    by (rule wp_mono [OF search_items_wp [OF assms(1)]]) (use assms SearchItems in \<open>auto simp: trace_quiet quietD\<close>)
next
  case (ListItems u)
  show ?thesis unfolding ListItems dispatch.simps
    by (rule wp_mono [OF list_items_wp [OF assms(1)]]) (use assms ListItems in \<open>auto simp: trace_quiet quietD\<close>)
next
  case (GetItem u i)
  show ?thesis unfolding GetItem dispatch.simps
    by (rule wp_mono [OF get_item_wp [OF assms(1)]]) (use assms GetItem in \<open>auto simp: trace_quiet quietD\<close>)
next
  case (CreateItem m x)
  show ?thesis unfolding CreateItem dispatch.simps
    by (rule wp_mono [OF create_item_wp [OF assms(1)]]) (use assms CreateItem in auto)
next
  case (CreateOrReplaceItem m x r)
  have "wp (create_or_replace_item L B m x r) (\<lambda>q t. trace s t \<and>
      (is_ok q \<longrightarrow> up s \<or> \<not> r \<longrightarrow>
         view L (store t) = apply_op (CreateOrReplaceItem m x r) (view L (store s))) \<and>
      (\<not> is_ok q \<longrightarrow> view L (store t) = view L (store s) \<or>
         view L (store t) = apply_op (CreateItem m x) (view L (store s)))) s"
  proof (rule wp_mono [OF create_or_replace_item_wp [OF assms(1)]], goal_cases)
    case (3 q t)
    have "view L (store t) = apply_op (CreateOrReplaceItem m x r) (view L (store s))"
      if "q = Inr y" "up s \<or> \<not> r" for y
    proof -
      obtain d f where d: "set d \<union> set f = replaced_by L (store s) m r" "up s \<longrightarrow> f = []"
        "view L (store t) = replaced m x d (view L (store s))"
        using 3 \<open>q = Inr y\<close> by blast
      then have "set d = replaced_by L (store s) m r" using that(2) by (auto simp: replaced_by_def)
      with d(3) replaced_all show ?thesis by metis
    qed
    then show ?case using 3 by (cases q) (simp_all del: apply_op.simps)
  qed (use assms CreateOrReplaceItem in auto)
  then show ?thesis unfolding CreateOrReplaceItem dispatch.simps
    by (rule wp_mono) (auto simp del: apply_op.simps)
next
  case (UpdateItem m x)
  show ?thesis unfolding UpdateItem dispatch.simps
    by (rule wp_mono [OF update_item_wp [OF assms(1)]]) (use assms UpdateItem in auto)
next
  case (UpdateItemCas m x e)
  show ?thesis unfolding UpdateItemCas dispatch.simps
    by (rule wp_mono [OF update_item_cas_wp [OF assms(1)]]) (use assms UpdateItemCas in auto)
next
  case (DeleteItem u)
  show ?thesis unfolding DeleteItem dispatch.simps
    by (rule wp_mono [OF delete_item_wp [OF assms(1)]]) auto
next
  case Reconcile
  show ?thesis unfolding Reconcile dispatch.simps
    by (rule wp_mono [OF reconcile_locked_wp [OF assms(1)]]) (auto simp: shrinks_def)
qed


section \<open>Requests under the lock\<close>

text \<open>
  A request that returns either could not take the lock and changed nothing, or ran its body
  from a state with the same content.
\<close>

lemma with_lock_cases:
  assumes "with_lock B body s = Some (r, t)" and "invar s"
  obtains (locked_out) e where "r = Inl e" "invar t" "store t = store s" "\<not> up s" "held t = held s"
    | (body_run) s' t' where "invar s'" "store s' = store s" "up s \<longrightarrow> up s'" "held s' = Suc (held s)"
        "body s' = (r, t')" "t = release_lock B t'"
proof -
  obtain q s' where q: "acquire_lock B s = Some (q, s')"
    using assms(1) by (auto simp: with_lock_def split: option.splits)
  note law = acquire_law [OF assms(2) q]
  show thesis
  proof (cases q)
    case (Inl e)
    with q assms(1) have "r = Inl e" "t = s'" by (auto simp: with_lock_def)
    with law Inl show thesis by (intro locked_out) auto
  next
    case (Inr u)
    obtain t' where "body s' = (r, t')" "t = release_lock B t'"
      using q Inr assms(1) by (auto simp: with_lock_def split: prod.splits)
    with law Inr show thesis by (intro body_run) auto
  qed
qed

lemma execute_cases:
  assumes "execute L B op s = Some (r, t)" and "invar s" and "operation_value op"
  obtains (refused) e where "r = Inl e" "invar t" "store t = store s" "\<not> up s"
    | (ran) s' t' where "invar s'" "store s' = store s" "up s \<longrightarrow> up s'" "dispatch L B op s' = (r, t')"
        "trace s' t'" "invar t" "store t = store t'" "up s \<longrightarrow> up t \<and> held t = held s"
  using assms(1,2) unfolding execute_def
proof (cases rule: with_lock_cases)
  case (locked_out e)
  then show thesis using refused by blast
next
  case (body_run s' t')
  have "trace s' t'" using wpD [OF dispatch_wp [OF body_run(1) assms(3)] body_run(5)] by simp
  then have "invar t'" "up s' \<longrightarrow> up t'" "held t' = held s'" by (auto dest: traceD)
  then show thesis using body_run release_law [of t'] \<open>trace s' t'\<close> by (intro ran) auto
qed

lemma execute_steps:
  assumes "execute L B op s = Some (r, t)" and "invar s" and "operation_value op"
  shows "vault_steps L (store s) (store t) \<and> invar t \<and> (up s \<longrightarrow> up t \<and> held t = held s)"
  using assms by (cases rule: execute_cases) (auto simp: trace_def)

lemma execute_view:
  assumes "execute L B op s = Some (r, t)" and "invar s" and "operation_value op"
  shows "is_ok r \<Longrightarrow> (replacing op \<Longrightarrow> up s) \<Longrightarrow> view L (store t) = apply_op op (view L (store s))"
    and "\<not> is_ok r \<Longrightarrow> interrupted op (view L (store s)) (view L (store t))"
proof -
  have "(is_ok r \<longrightarrow> (replacing op \<longrightarrow> up s) \<longrightarrow> view L (store t) = apply_op op (view L (store s))) \<and>
      (\<not> is_ok r \<longrightarrow> interrupted op (view L (store s)) (view L (store t)))"
    using assms
  proof (cases rule: execute_cases)
    case (refused e)
    then show ?thesis by (simp add: interrupted_refl)
  next
    case (ran s' t')
    with wpD [OF dispatch_wp [OF ran(1) assms(3)] ran(4)] show ?thesis by auto
  qed
  then show "is_ok r \<Longrightarrow> (replacing op \<Longrightarrow> up s) \<Longrightarrow> view L (store t) = apply_op op (view L (store s))"
    and "\<not> is_ok r \<Longrightarrow> interrupted op (view L (store s)) (view L (store t))" by blast+
qed

text \<open>What holds of a method's result holds of the request's.\<close>

lemma execute_wp:
  assumes "execute L B op s = Some (r, t)" and "invar s" and "operation_value op"
    and "\<And>s'. invar s' \<Longrightarrow> store s' = store s \<Longrightarrow> up s \<longrightarrow> up s' \<Longrightarrow> wp (dispatch L B op) (\<lambda>q t'. Q q (store t')) s'"
    and "\<And>e. \<not> up s \<Longrightarrow> Q (Inl e) (store s)"
  shows "Q r (store t)"
  using assms(1-3)
proof (cases rule: execute_cases)
  case (refused e)
  then show ?thesis using assms(5) by simp
next
  case (ran s' t')
  then show ?thesis using wpD [OF assms(4) [OF ran(1-3)] ran(4)] by simp
qed

lemma execute_returns: "invar s \<Longrightarrow> held s = 0 \<Longrightarrow> \<exists>r t. execute L B op s = Some (r, t)"
  using acquire_free [of s]
  by (auto simp: execute_def with_lock_def split: option.splits sum.splits prod.splits)

lemma run_steps:
  assumes "broker_run L B s t" and "invar s"
  shows "invar t \<and> vault_steps L (store s) (store t)"
  using assms
proof (induction rule: broker_run.induct)
  case (start s)
  then show ?case by simp
next
  case (request s t op r t')
  then show ?case using execute_steps [of op t r t'] by (auto intro: rtranclp_trans)
qed


section \<open>Requests that succeed\<close>

lemma create_collection_ok:
  assumes "execute L B (CreateCollection c) s = Some (r, t)" and "invar s" and "up s"
    and "collection_value c" and "is_ok (validate_collection c)"
    and "store s (target_to_string L (TargetName.Collection (c_id c))) = None"
    and "is_ok (encode_metadata (collection_cbor L) c)"
  shows "r = Inr (ResponseBody.Collection c)"
  using assms(1,2)
proof (rule execute_wp [where Q = "\<lambda>q _. q = Inr (ResponseBody.Collection c)"], goal_cases)
  case (2 s')
  then show ?case unfolding dispatch.simps
    by (intro wp_mono [OF create_collection_wp]) (use assms in \<open>auto simp: is_ok_iff\<close>)
qed (use assms in auto)

lemma create_item_ok:
  assumes "execute L B (CreateItem m x) s = Some (r, t)" and "invar s" and "up s"
    and "item_value m" and "secret_wf x" and "is_ok (validate_item m)"
    and "store_collection L (store s) (i_collection_id m) \<noteq> None"
    and "store s (target_to_string L (TargetName.ItemMetadata (i_id m))) = None"
    and "is_ok (encode_metadata (item_cbor L) m)"
  shows "r = Inr (ResponseBody.Item m None)"
  using assms(1,2)
proof (rule execute_wp [where Q = "\<lambda>q _. q = Inr (ResponseBody.Item m None)"], goal_cases)
  case (2 s')
  then show ?case unfolding dispatch.simps
    by (intro wp_mono [OF create_item_wp]) (use assms in \<open>auto simp: is_ok_iff\<close>)
qed (use assms in auto)

lemma set_alias_ok:
  assumes "execute L B (SetAlias a) s = Some (r, t)" and "invar s" and "up s"
    and "alias_value a" and "is_ok (validate_alias a)"
    and "store_collection L (store s) (a_collection_id a) \<noteq> None"
    and "is_ok (encode_metadata (alias_cbor L) a)"
  shows "r = Inr (ResponseBody.Alias (Some a))"
  using assms(1,2)
proof (rule execute_wp [where Q = "\<lambda>q _. q = Inr (ResponseBody.Alias (Some a))"], goal_cases)
  case (2 s')
  then show ?case unfolding dispatch.simps
    by (intro wp_mono [OF set_alias_wp]) (use assms in \<open>auto simp: is_ok_iff\<close>)
qed (use assms in auto)

lemma get_item_ok:
  assumes "execute L B (GetItem u True) s = Some (r, t)" and "invar s" and "up s"
    and "visible_item L (store s) u = Some (m, Some b)" and "length b \<le> MAX_SECRET_BYTES"
  shows "r = Inr (ResponseBody.Item m (Some (SecretBytes b))) \<and> store t = store s"
  using assms(1,2)
proof (rule execute_wp [where Q = "\<lambda>q st. q = Inr (ResponseBody.Item m (Some (SecretBytes b))) \<and> st = store s"],
    goal_cases)
  case (2 s')
  then show ?case unfolding dispatch.simps
    by (intro wp_mono [OF get_item_wp])
       (use assms in \<open>auto simp: is_ok_iff quietD visible_item_def split: option.splits\<close>)
qed (use assms in auto)

lemma resolve_alias_ok:
  assumes "execute L B (ResolveAlias n) s = Some (r, t)" and "invar s" and "up s" and "is_utf8 n"
    and "store_alias L (store s) n = Some a" and "store_collection L (store s) (a_collection_id a) \<noteq> None"
  shows "r = Inr (ResponseBody.Alias (Some a))"
  using assms(1,2)
proof (rule execute_wp [where Q = "\<lambda>q _. q = Inr (ResponseBody.Alias (Some a))"], goal_cases)
  case (2 s')
  then show ?case unfolding dispatch.simps
    by (intro wp_mono [OF resolve_alias_wp]) (use assms in \<open>auto simp: is_ok_iff\<close>)
qed (use assms in auto)


lemma update_item_ok:
  assumes "execute L B op s = Some (r, t)" and "invar s" and "up s" and "operation_value op"
    and "op = UpdateItem m x \<or> op = UpdateItemCas m x e \<and> i_modified m0 = e"
    and "store_item L (store s) (i_id m) = Some m0" and "is_ok (validate_item m)"
    and "store_collection L (store s) (i_collection_id m) \<noteq> None"
    and "x \<noteq> None \<longrightarrow> i_current_generation m \<noteq> i_current_generation m0"
    and "is_ok (encode_metadata (item_cbor L) (updated_item m0 m x))"
  shows "is_ok r"
  using assms(1,2,4)
proof (rule execute_wp [where Q = "\<lambda>q _. is_ok q"], goal_cases)
  case (1 s')
  from assms(5) show ?case
  proof
    assume op: "op = UpdateItem m x"
    show ?thesis
      unfolding op dispatch.simps
    proof (rule wp_mono [OF update_item_wp [OF 1(1)]], goal_cases)
      case (3 r t)
      then show ?case using assms(3,6-10) 1(2,3) unfolding update_succeeds_def by simp
    qed (use assms(4) op in auto)
  next
    assume op: "op = UpdateItemCas m x e \<and> i_modified m0 = e"
    show ?thesis
      unfolding conjunct1 [OF op] dispatch.simps
    proof (rule wp_mono [OF update_item_cas_wp [OF 1(1)]], goal_cases)
      case (3 r t)
      then show ?case using assms(3,6-10) 1(2,3) op unfolding update_succeeds_def by simp
    qed (use assms(4) op in auto)
  qed
qed (use assms in auto)


lemma delete_item_ok:
  assumes "execute L B (DeleteItem u) s = Some (r, t)" and "invar s" and "up s"
    and "store_item L (store s) u \<noteq> None"
  shows "r = Inr ResponseBody.Empty"
  using assms(1,2)
proof (rule execute_wp [where Q = "\<lambda>q _. q = Inr ResponseBody.Empty"], goal_cases)
  case (2 s')
  then show ?case unfolding dispatch.simps
    by (intro wp_mono [OF delete_item_wp]) (use assms in \<open>auto simp: is_ok_iff\<close>)
qed (use assms in auto)

lemma delete_collection_ok:
  assumes "execute L B (DeleteCollection c) s = Some (r, t)" and "invar s" and "up s"
    and "store_collection L (store s) c \<noteq> None"
  shows "r = Inr ResponseBody.Empty"
  using assms(1,2)
proof (rule execute_wp [where Q = "\<lambda>q _. q = Inr ResponseBody.Empty"], goal_cases)
  case (2 s')
  then show ?case unfolding dispatch.simps
    by (intro wp_mono [OF delete_collection_wp]) (use assms in \<open>auto simp: is_ok_iff\<close>)
qed (use assms in auto)

lemma read_ok:
  assumes "execute L B op s = Some (r, t)" and "invar s" and "up s"
    and "op = Reconcile \<or> op = ListAliases \<or> op = ListCollections \<or>
      op = SearchItems a \<and> is_ok (validate_attributes a) \<or>
      op = ListItems c \<and> store_collection L (store s) c \<noteq> None"
  shows "is_ok r"
  using assms(1,2)
proof (rule execute_wp [where Q = "\<lambda>q _. is_ok q"], goal_cases)
  case (2 s')
  have "wp (reconcile_locked L B) (\<lambda>q _. is_ok q) s'" "wp (list_aliases L B) (\<lambda>q _. is_ok q) s'"
    "wp (list_collections L B) (\<lambda>q _. is_ok q) s'"
    "is_ok (validate_attributes a) \<Longrightarrow> wp (search_items L B a) (\<lambda>q _. is_ok q) s'"
    "store_collection L (store s) c \<noteq> None \<Longrightarrow> wp (list_items L B c) (\<lambda>q _. is_ok q) s'"
    using 2 assms(3)
    by (auto intro: wp_mono [OF reconcile_locked_wp] wp_mono [OF list_aliases_wp]
        wp_mono [OF list_collections_wp] wp_mono [OF search_items_wp] wp_mono [OF list_items_wp])
  with assms(4) show ?case by auto
qed (use assms in auto)


section \<open>Histories\<close>

lemma run_consistent:
  "broker_run L B s t \<Longrightarrow> invar s \<Longrightarrow> vault_consistent L (store s) \<Longrightarrow> vault_consistent L (store t)"
  using run_steps vault_steps_consistent by blast

lemma run_foreign:
  "broker_run L B s t \<Longrightarrow> invar s \<Longrightarrow> foreign_name L n \<Longrightarrow> store t n = store s n"
  using run_steps vault_steps_foreign by blast

lemma execute_unlocks:
  assumes "invar s" and "up s" and "held s = 0" and "operation_value op"
  shows "\<exists>r t. execute L B op s = Some (r, t) \<and> held t = 0 \<and> up t \<and> invar t"
  using execute_returns [OF assms(1,3)] execute_steps [OF _ assms(1,4)] assms(2,3) by metis

lemma create_then_get:
  assumes "execute L B (CreateItem m x) s = Some (Inr y, t)" and "invar s" and "up s"
    and "item_value m" and "secret_wf x" and "held s = 0"
  shows "\<exists>t'. execute L B (GetItem (i_id m) True) t =
    Some (Inr (ResponseBody.Item m (Some x)), t') \<and> store t' = store t"
proof -
  have t: "invar t" "up t" "held t = 0"
    using execute_steps [OF assms(1,2)] assms by auto
  have "view L (store t) = apply_op (CreateItem m x) (view L (store s))"
    using execute_view(1) [OF assms(1,2)] assms by simp
  then have "visible_item L (store t) (i_id m) = Some (m, Some (expose x))"
    using view_items by fastforce
  then show ?thesis
    using execute_returns [OF t(1,3)] get_item_ok [OF _ t(1,2)] assms(5)
    by (metis secret_wf_def SecretBytes.collapse)
qed

lemma set_then_resolve:
  assumes "execute L B (SetAlias a) s = Some (Inr y, t)" and "invar s" and "up s" and "alias_value a"
    and "held s = 0"
  shows "\<exists>t'. execute L B (ResolveAlias (a_name a)) t = Some (Inr (ResponseBody.Alias (Some a)), t')"
proof -
  have t: "invar t" "up t" "held t = 0"
    using execute_steps [OF assms(1,2)] assms by auto
  have v: "view L (store t) = apply_op (SetAlias a) (view L (store s))"
    using execute_view(1) [OF assms(1,2)] assms by simp
  have "store_collection L (store s) (a_collection_id a) \<noteq> None"
    using assms(1,2)
  proof (rule execute_wp [where Q = "\<lambda>q _. is_ok q \<longrightarrow> store_collection L (store s) (a_collection_id a) \<noteq> None",
        THEN mp], goal_cases)
    case (2 s')
    then show ?case unfolding dispatch.simps
      by (intro wp_mono [OF set_alias_wp]) (use assms in auto)
  qed (use assms in auto)
  moreover have "store_alias L (store t) (a_name a) = Some a" "store_collection L (store t) = store_collection L (store s)"
    using view_aliases [OF v] view_collections [OF v] by simp_all
  moreover have "is_utf8 (a_name a)" using assms(4) by (simp add: alias_value_def)
  ultimately show ?thesis
    using execute_returns [OF t(1,3)] resolve_alias_ok [OF _ t(1,2)] by metis
qed

lemma cas_stale:
  assumes "execute L B (UpdateItemCas m x e) s = Some (r, t)" and "invar s"
    and "operation_value (UpdateItemCas m x e)"
    and "store_item L (store s) (i_id m) = Some m0" and "i_modified m0 \<noteq> e"
  shows "\<not> is_ok r \<and> store t = store s \<and>
    (up s \<longrightarrow> r = Inl (BrokerError_new Conflict ''item was modified by another provider''))"
  using assms(1-3)
proof (rule execute_wp [where Q = "\<lambda>r st. \<not> is_ok r \<and> st = store s \<and>
    (up s \<longrightarrow> r = Inl (BrokerError_new Conflict ''item was modified by another provider''))"], goal_cases)
  case (1 s')
  then show ?case unfolding dispatch.simps
    by (intro wp_mono [OF update_item_cas_wp]) (use assms in auto)
qed (use assms in auto)

lemma update_result:
  assumes "execute L B op s = Some (Inr y, t)" and "invar s" and "operation_value op"
    and "op = UpdateItem m x \<or> op = UpdateItemCas m x e"
  shows "\<exists>m0. store_item L (store s) (i_id m) = Some m0 \<and>
    y = ResponseBody.Item (updated_item m0 m x) None \<and>
    store_item L (store t) (i_id m) = Some (updated_item m0 m x) \<and>
    (op = UpdateItemCas m x e \<longrightarrow> i_modified m0 = e)"
proof -
  let ?Q = "\<lambda>q :: BrokerError + ResponseBody. \<forall>y. q = Inr y \<longrightarrow> (\<exists>m0. store_item L (store s) (i_id m) = Some m0 \<and>
      y = ResponseBody.Item (updated_item m0 m x) None \<and> (op = UpdateItemCas m x e \<longrightarrow> i_modified m0 = e))"
  have "?Q (Inr y)"
    using assms(1-3)
  proof (rule execute_wp [where Q = "\<lambda>q _. ?Q q"], goal_cases)
    case (1 s')
    show ?case
    proof (cases "op = UpdateItem m x")
      case True
      show ?thesis
        unfolding True dispatch.simps
        by (rule wp_mono [OF update_item_wp [OF 1(1)]]) (use assms(3) 1(2) True in auto)
    next
      case False
      then have cas: "op = UpdateItemCas m x e" using assms(4) by simp
      show ?thesis
        unfolding cas dispatch.simps
      proof (rule wp_mono [OF update_item_cas_wp [OF 1(1)]], goal_cases)
        case (3 r t)
        then show ?case using 1(2) by (elim conjE) (simp, blast)
      qed (use assms(3) cas in auto)
    qed
  qed (use assms in auto)
  then obtain m0 where m0: "store_item L (store s) (i_id m) = Some m0"
    "y = ResponseBody.Item (updated_item m0 m x) None" "op = UpdateItemCas m x e \<longrightarrow> i_modified m0 = e"
    by blast
  have "view L (store t) = update_view m x (view L (store s))"
    using execute_view(1) [OF assms(1-3)] assms(4) by auto
  then have "store_item L (store t) (i_id m) = Some (updated_item m0 m x)"
    using m0(1) by (auto simp: store_item_visible update_view_def dest!: view_items split: option.splits)
  with m0 show ?thesis by blast
qed

text \<open>Two updates that saw the same revision cannot both succeed.\<close>

lemma cas_twice:
  assumes "execute L B (UpdateItemCas m1 x1 e) s = Some (Inr y, t)" and "invar s" and "e \<noteq> u64_max"
    and "operation_value (UpdateItemCas m1 x1 e)" and "operation_value (UpdateItemCas m2 x2 e)"
    and "i_id m2 = i_id m1" and "execute L B (UpdateItemCas m2 x2 e) t = Some (r, t')"
  shows "\<not> is_ok r \<and> store t' = store t"
proof -
  obtain m0 where "store_item L (store t) (i_id m1) = Some (updated_item m0 m1 x1)" and "i_modified m0 = e"
    using update_result [OF assms(1,2,4)] by blast
  moreover from this(2) assms(3) updated_item_revision(3) [of m0 m1 x1]
  have "i_modified (updated_item m0 m1 x1) \<noteq> e" by auto
  moreover have "invar t" using execute_steps [OF assms(1,2,4)] by simp
  ultimately show ?thesis using cas_stale [OF assms(7) _ assms(5)] assms(6) by simp
qed


section \<open>Removal and recovery\<close>

lemma delete_item_complete:
  assumes "execute L B (DeleteItem u) s = Some (Inr y, t)" and "invar s"
  shows "store_item L (store t) u = None \<and> (\<forall>g. store_secret L (store t) u g = None)"
proof -
  have "\<forall>g. store_secret L (store t) u g = None"
    using assms
  proof (rule execute_wp [where Q = "\<lambda>q st. is_ok q \<longrightarrow> (\<forall>g. store_secret L st u g = None)", THEN mp], goal_cases)
    case (2 s')
    then show ?case unfolding dispatch.simps by (intro wp_mono [OF delete_item_wp]) auto
  qed auto
  moreover have "view L (store t) = apply_op (DeleteItem u) (view L (store s))"
    using execute_view(1) [OF assms] by simp
  ultimately show ?thesis by (auto simp: store_item_visible dest!: view_items)
qed

lemma delete_collection_complete:
  assumes "execute L B (DeleteCollection c) s = Some (Inr y, t)" and "invar s"
  shows "\<forall>u \<in> members L (store s) c. store_item L (store t) u = None \<and> (\<forall>g. store_secret L (store t) u g = None)"
proof -
  have "\<forall>u \<in> members L (store s) c. \<forall>g. store_secret L (store t) u g = None"
    using assms
  proof (rule execute_wp [where Q = "\<lambda>q st. is_ok q \<longrightarrow>
      (\<forall>u \<in> members L (store s) c. \<forall>g. store_secret L st u g = None)", THEN mp], goal_cases)
    case (2 s')
    then show ?case unfolding dispatch.simps by (intro wp_mono [OF delete_collection_wp]) auto
  qed auto
  moreover have "view L (store t) = apply_op (DeleteCollection c) (view L (store s))"
    using execute_view(1) [OF assms] by simp
  then have "visible_item L (store t) = visible_item L (store s) |` (- members L (store s) c)"
    unfolding delete_collection_view by (drule_tac view_items) simp
  ultimately show ?thesis by (auto simp: store_item_visible)
qed

lemma reconcile_exact:
  assumes "execute L B Reconcile s = Some (Inr y, t)" and "invar s"
  shows "view L (store t) = view L (store s) \<and> abandoned L (store t) = {} \<and>
    (\<forall>u g. (u, g) \<notin> abandoned L (store s) \<longrightarrow> store_secret L (store t) u g = store_secret L (store s) u g) \<and>
    (\<exists>bad. y = ResponseBody.Reconciled (card (abandoned L (store s))) bad \<and>
       set bad = incomplete L (store s) \<and> sorted_wrt (<) bad)"
  using assms
proof (rule execute_wp [where Q = "\<lambda>q st. \<forall>y. q = Inr y \<longrightarrow>
    view L st = view L (store s) \<and> abandoned L st = {} \<and>
    (\<forall>u g. (u, g) \<notin> abandoned L (store s) \<longrightarrow> store_secret L st u g = store_secret L (store s) u g) \<and>
    (\<exists>bad. y = ResponseBody.Reconciled (card (abandoned L (store s))) bad \<and>
       set bad = incomplete L (store s) \<and> sorted_wrt (<) bad)", rule_format], goal_cases)
  case (2 s')
  show ?case unfolding dispatch.simps
    by (rule wp_mono [OF reconcile_locked_wp [OF 2(1)]]) (use 2 in \<open>auto dest: shrinksD\<close>)
qed auto

lemma replace_spares:
  assumes "execute L B (CreateOrReplaceItem m x replace) s = Some (r, t)" and "invar s"
    and "item_value m" and "secret_wf x"
  shows "(\<forall>u. u \<noteq> i_id m \<longrightarrow> u \<notin> replaced_by L (store s) m replace \<longrightarrow>
      visible_item L (store t) u = visible_item L (store s) u) \<and>
    (is_ok r \<longrightarrow> visible_item L (store t) (i_id m) = Some (m, Some (expose x))) \<and>
    (\<forall>d f. r = Inr (ResponseBody.ReplacedItem m d f) \<longrightarrow>
      set d \<union> set f = replaced_by L (store s) m replace \<and> (\<forall>u \<in> set d. u \<noteq> i_id m \<longrightarrow> visible_item L (store t) u = None))"
  using assms(1,2)
proof (rule execute_wp [where Q = "\<lambda>r st. (\<forall>u. u \<noteq> i_id m \<longrightarrow> u \<notin> replaced_by L (store s) m replace \<longrightarrow>
      visible_item L st u = visible_item L (store s) u) \<and>
    (is_ok r \<longrightarrow> visible_item L st (i_id m) = Some (m, Some (expose x))) \<and>
    (\<forall>d f. r = Inr (ResponseBody.ReplacedItem m d f) \<longrightarrow>
      set d \<union> set f = replaced_by L (store s) m replace \<and> (\<forall>u \<in> set d. u \<noteq> i_id m \<longrightarrow> visible_item L st u = None))"],
    goal_cases)
  case (2 s')
  show ?case
    unfolding dispatch.simps
  proof (rule wp_mono [OF create_or_replace_item_wp [OF 2(1) assms(3,4)]], goal_cases)
    case (1 r t)
    show ?case
    proof (cases r)
      case (Inl e)
      then have "visible_item L (store t) = visible_item L (store s) \<or>
          visible_item L (store t) = (visible_item L (store s))(i_id m \<mapsto> (m, Some (expose x)))"
        using 1 2(2) by (auto dest!: view_items)
      then show ?thesis using Inl by auto
    next
      case (Inr y)
      then obtain d f where df: "y = ResponseBody.ReplacedItem m d f" "set d \<union> set f = replaced_by L (store s) m replace"
        and v: "view L (store t) = replaced m x d (view L (store s))"
        using 1 2(2) by auto
      have "visible_item L (store t) = (visible_item L (store s) |` (- set d))(i_id m \<mapsto> (m, Some (expose x)))"
        using view_items [OF v] by (simp add: replaced_def)
      then show ?thesis using df Inr by (auto simp: restrict_map_def)
    qed
  qed
qed (use assms in auto)


section \<open>Listings\<close>

lemma search_exact:
  assumes "execute L B (SearchItems attributes) s = Some (Inr y, t)" and "invar s"
  shows "store t = store s \<and> (\<exists>ms. y = ResponseBody.Items ms \<and> sorted_wrt (<) (map i_id ms) \<and>
    set ms = {m. (\<exists>u. store_item L (store s) u = Some m) \<and> attributes_match attributes m})"
  using assms
proof (rule execute_wp [where Q = "\<lambda>q st. \<forall>y. q = Inr y \<longrightarrow> st = store s \<and>
    (\<exists>ms. y = ResponseBody.Items ms \<and> sorted_wrt (<) (map i_id ms) \<and>
    set ms = {m. (\<exists>u. store_item L (store s) u = Some m) \<and> attributes_match attributes m})", rule_format],
    goal_cases)
  case (2 s')
  show ?case unfolding dispatch.simps
    by (rule wp_mono [OF search_items_wp [OF 2(1)]]) (use 2(2) in \<open>auto simp: quietD\<close>)
qed auto

text \<open>Listings of a vault that is up never fail.\<close>

lemma listings_ok:
  assumes "invar s" and "up s"
  shows "execute L B ListCollections s = Some (r, t) \<Longrightarrow> is_ok r"
    "execute L B ListAliases s = Some (r, t) \<Longrightarrow> is_ok r"
    "execute L B (ListItems c) s = Some (r, t) \<Longrightarrow> store_collection L (store s) c \<noteq> None \<Longrightarrow> is_ok r"
proof -
  show "execute L B ListCollections s = Some (r, t) \<Longrightarrow> is_ok r"
  proof (erule execute_wp [where Q = "\<lambda>q _. is_ok q"], goal_cases)
    case (3 s')
    then show ?case unfolding dispatch.simps by (intro wp_mono [OF list_collections_wp]) (use assms in auto)
  qed (use assms in auto)
  show "execute L B ListAliases s = Some (r, t) \<Longrightarrow> is_ok r"
  proof (erule execute_wp [where Q = "\<lambda>q _. is_ok q"], goal_cases)
    case (3 s')
    then show ?case unfolding dispatch.simps by (intro wp_mono [OF list_aliases_wp]) (use assms in auto)
  qed (use assms in auto)
  show "execute L B (ListItems c) s = Some (r, t) \<Longrightarrow> store_collection L (store s) c \<noteq> None \<Longrightarrow> is_ok r"
  proof (erule execute_wp [where Q = "\<lambda>q _. is_ok q"], goal_cases)
    case (3 s')
    then show ?case unfolding dispatch.simps by (intro wp_mono [OF list_items_wp]) (use assms in auto)
  qed (use assms in auto)
qed

lemma list_collections_exact:
  assumes "execute L B ListCollections s = Some (Inr y, t)" and "invar s"
  shows "store t = store s \<and> (\<exists>cs. y = ResponseBody.Collections cs \<and> sorted_wrt (<) (map c_id cs) \<and>
    set cs = {c. \<exists>u. store_collection L (store s) u = Some c})"
  using assms
proof (rule execute_wp [where Q = "\<lambda>q st. \<forall>y. q = Inr y \<longrightarrow> st = store s \<and>
    (\<exists>cs. y = ResponseBody.Collections cs \<and> sorted_wrt (<) (map c_id cs) \<and>
    set cs = {c. \<exists>u. store_collection L (store s) u = Some c})", rule_format],
    goal_cases)
  case (2 s')
  show ?case unfolding dispatch.simps
    by (rule wp_mono [OF list_collections_wp [OF 2(1)]]) (use 2(2) in \<open>auto simp: quietD\<close>)
qed auto

lemma list_items_exact:
  assumes "execute L B (ListItems c) s = Some (Inr y, t)" and "invar s"
  shows "store t = store s \<and> (\<exists>ms. y = ResponseBody.Items ms \<and> sorted_wrt (<) (map i_id ms) \<and>
    set ms = {m. (\<exists>u. store_item L (store s) u = Some m) \<and> i_collection_id m = c})"
  using assms
proof (rule execute_wp [where Q = "\<lambda>q st. \<forall>y. q = Inr y \<longrightarrow> st = store s \<and>
    (\<exists>ms. y = ResponseBody.Items ms \<and> sorted_wrt (<) (map i_id ms) \<and>
    set ms = {m. (\<exists>u. store_item L (store s) u = Some m) \<and> i_collection_id m = c})", rule_format],
    goal_cases)
  case (2 s')
  show ?case unfolding dispatch.simps
    by (rule wp_mono [OF list_items_wp [OF 2(1)]]) (use 2(2) in \<open>auto simp: quietD\<close>)
qed auto

lemma list_aliases_exact:
  assumes "execute L B ListAliases s = Some (Inr y, t)" and "invar s" and "up s"
  shows "store t = store s \<and> (\<exists>as. y = ResponseBody.Aliases as \<and> sorted_wrt (<) (map a_name as) \<and>
    set as = {a. \<exists>n. store_alias L (store s) n = Some a \<and>
      store_collection L (store s) (a_collection_id a) \<noteq> None})"
  using assms(1,2)
proof (rule execute_wp [where Q = "\<lambda>q st. \<forall>y. q = Inr y \<longrightarrow> st = store s \<and>
    (\<exists>as. y = ResponseBody.Aliases as \<and> sorted_wrt (<) (map a_name as) \<and>
    set as = {a. \<exists>n. store_alias L (store s) n = Some a \<and>
      store_collection L (store s) (a_collection_id a) \<noteq> None})", rule_format],
    goal_cases)
  case (2 s')
  show ?case unfolding dispatch.simps
    by (rule wp_mono [OF list_aliases_wp [OF 2(1)]]) (use 2 assms(3) in \<open>auto simp: quietD\<close>)
qed (use assms in auto)

end

end
