(* ===== verification/Reference_Vault.thy ===== *)
theory Reference_Vault
  imports Reference_Cbor Broker_Operations
begin

text \<open>
  The reference crates put together with the in-memory backend: a concrete instance of the locale
  \<open>vault\<close>, on which the broker's theorems are evaluated.
\<close>

section \<open>Codecs of the metadata records\<close>

definition collection_put :: "CollectionMetadata \<Rightarrow> cval" where
  "collection_put c =
     Map [Text ''schema_version'', UInt (unat (c_schema_version c)), Text ''id'', uuid_value (c_id c),
          Text ''label'', Text (c_label c), Text ''created'', UInt (unat (c_created c)),
          Text ''modified'', UInt (unat (c_modified c))]"

fun collection_get :: "cval \<Rightarrow> CollectionMetadata option" where
  "collection_get (Map kvs) =
     Option.bind (Option.bind (get_field ''schema_version'' kvs) get_uint) (\<lambda>version.
     Option.bind (Option.bind (get_field ''id'' kvs) get_uuid) (\<lambda>uid.
     Option.bind (Option.bind (get_field ''label'' kvs) get_text) (\<lambda>label.
     Option.bind (Option.bind (get_field ''created'' kvs) get_uint) (\<lambda>created.
     Option.bind (Option.bind (get_field ''modified'' kvs) get_uint) (\<lambda>modified.
     Some \<lparr>c_schema_version = version, c_id = uid, c_label = label, c_created = created,
           c_modified = modified\<rparr>)))))"
| "collection_get _ = None"

definition alias_put :: "AliasMetadata \<Rightarrow> cval" where
  "alias_put a =
     Map [Text ''schema_version'', UInt (unat (a_schema_version a)), Text ''name'', Text (a_name a),
          Text ''collection_id'', uuid_value (a_collection_id a)]"

fun alias_get :: "cval \<Rightarrow> AliasMetadata option" where
  "alias_get (Map kvs) =
     Option.bind (Option.bind (get_field ''schema_version'' kvs) get_uint) (\<lambda>version.
     Option.bind (Option.bind (get_field ''name'' kvs) get_text) (\<lambda>name.
     Option.bind (Option.bind (get_field ''collection_id'' kvs) get_uuid) (\<lambda>uid.
     Some \<lparr>a_schema_version = version, a_name = name, a_collection_id = uid\<rparr>)))"
| "alias_get _ = None"

definition item_put :: "ItemMetadata \<Rightarrow> cval" where
  "item_put m =
     Map [Text ''schema_version'', UInt (unat (i_schema_version m)), Text ''id'', uuid_value (i_id m),
          Text ''collection_id'', uuid_value (i_collection_id m), Text ''label'', Text (i_label m),
          Text ''attributes'', map_value (i_attributes m), Text ''content_type'', Text (i_content_type m),
          Text ''created'', UInt (unat (i_created m)), Text ''modified'', UInt (unat (i_modified m)),
          Text ''current_generation'', uuid_value (i_current_generation m)]"

fun item_get :: "cval \<Rightarrow> ItemMetadata option" where
  "item_get (Map kvs) =
     Option.bind (Option.bind (get_field ''schema_version'' kvs) get_uint) (\<lambda>version.
     Option.bind (Option.bind (get_field ''id'' kvs) get_uuid) (\<lambda>uid.
     Option.bind (Option.bind (get_field ''collection_id'' kvs) get_uuid) (\<lambda>cid.
     Option.bind (Option.bind (get_field ''label'' kvs) get_text) (\<lambda>label.
     Option.bind (Option.bind (get_field ''attributes'' kvs) get_map) (\<lambda>attributes.
     Option.bind (Option.bind (get_field ''content_type'' kvs) get_text) (\<lambda>content_type.
     Option.bind (Option.bind (get_field ''created'' kvs) get_uint) (\<lambda>created.
     Option.bind (Option.bind (get_field ''modified'' kvs) get_uint) (\<lambda>modified.
     Option.bind (Option.bind (get_field ''current_generation'' kvs) get_uuid) (\<lambda>generation.
     Some \<lparr>i_schema_version = version, i_id = uid, i_collection_id = cid, i_label = label,
           i_attributes = attributes, i_content_type = content_type, i_created = created,
           i_modified = modified, i_current_generation = generation\<rparr>)))))))))"
| "item_get _ = None"

lemma collection_get_put: "collection_get (collection_put c) = Some c"
  by (simp add: collection_put_def del: get_uint.simps)

lemma alias_get_put: "alias_get (alias_put a) = Some a"
  by (simp add: alias_put_def del: get_uint.simps)

lemma item_get_put: "item_value m \<Longrightarrow> item_get (item_put m) = Some m"
  by (simp add: item_put_def get_map_value item_value_def del: get_uint.simps)

lemma map_value_within: "cval_within (Suc (Suc d)) (map_value m)"
  by (auto simp: map_value_def list_all_iff)

lemma puts_within:
  "cval_within 256 (collection_put c)" "cval_within 256 (alias_put a)" "cval_within 256 (item_put m)"
proof -
  have "cval_within (Suc (Suc (Suc d))) (collection_put c)" "cval_within (Suc (Suc (Suc d))) (alias_put a)"
    "cval_within (Suc (Suc (Suc d))) (item_put m)" for d
    using map_value_within [of d] by (simp_all add: collection_put_def alias_put_def item_put_def uuid_value_def)
  note within = this [of 253]
  have depth: "256 = Suc (Suc (Suc 253))" by simp
  show "cval_within 256 (collection_put c)" "cval_within 256 (alias_put a)"
    "cval_within 256 (item_put m)" by (subst depth, rule within)+
qed

definition reference_lib :: broker_lib where
  "reference_lib =
     \<lparr>uuid_parse_str = uuid_parse, uuid_to_string = \<lambda>u. hyphenate (uuid_hex u), uuid_simple = uuid_hex,
      b64_encode = base64_encode, b64_decode = base64_decode,
      collection_cbor = reference_cbor collection_put collection_get,
      alias_cbor = reference_cbor alias_put alias_get,
      item_cbor = reference_cbor item_put item_get\<rparr>"

interpretation ref_lib: broker_lib_laws reference_lib
proof -
  have "target_lib reference_lib"
    by unfold_locales
       (simp_all add: reference_lib_def uuid_parse_hyphenate uuid_text_no_slash base64_decode_encode
         base64_canonical base64_no_slash)
  moreover have "cbor_codec (collection_cbor reference_lib) collection_value"
    "cbor_codec (alias_cbor reference_lib) alias_value" "cbor_codec (item_cbor reference_lib) item_value"
    by (simp_all add: reference_lib_def reference_cbor_codec collection_get_put alias_get_put item_get_put
        puts_within)
  ultimately show "broker_lib_laws reference_lib" by (rule broker_lib_laws.intro)
qed


section \<open>The broker on the in-memory backend\<close>

abbreviation memory_store :: "MemoryData \<Rightarrow> string \<rightharpoonup> bytes" where
  "memory_store s \<equiv> map_of (credentials s)"

lemma memory_vault:
  assumes "broker_lib_laws L"
  shows "vault L (InMemoryBackend L) memory_store memory_invar memory_up guards"
  using memory_vault_backend assms by (rule vault.intro)

interpretation ref_vault: vault reference_lib "InMemoryBackend reference_lib" memory_store memory_invar
    memory_up guards
  by (rule memory_vault) (rule ref_lib.broker_lib_laws_axioms)


section \<open>A concrete vault\<close>

definition demo_collection :: CollectionMetadata where
  "demo_collection =
     \<lparr>c_schema_version = 1, c_id = 7, c_label = ''Login'', c_created = 1, c_modified = 1\<rparr>"

definition demo_item :: ItemMetadata where
  "demo_item =
     \<lparr>i_schema_version = 1, i_id = 11, i_collection_id = 7, i_label = ''mail'',
      i_attributes = [(''user'', ''me'')], i_content_type = ''text/plain'', i_created = 1,
      i_modified = 1, i_current_generation = 12\<rparr>"

definition demo_alias :: AliasMetadata where
  "demo_alias = \<lparr>a_schema_version = 1, a_name = ''default'', a_collection_id = 7\<rparr>"

definition demo_secret :: SecretBytes where
  "demo_secret = SecretBytes [1, 2, 3]"

abbreviation demo_execute :: "Operation \<Rightarrow> MemoryData \<Rightarrow> ((BrokerError + ResponseBody) \<times> MemoryData) option" where
  "demo_execute \<equiv> execute reference_lib (InMemoryBackend reference_lib)"

definition demo_s1 :: MemoryData where
  "demo_s1 = snd (the (demo_execute (CreateCollection demo_collection) MemoryData_default))"

definition demo_s2 :: MemoryData where
  "demo_s2 = snd (the (demo_execute (CreateItem demo_item demo_secret) demo_s1))"

lemmas demo_eval =
  encode_metadata_def reference_lib_def reference_cbor_def collection_put_def item_put_def alias_put_def
  demo_collection_def demo_item_def demo_alias_def cbor_head_def map_value_def limit_defs uuid_value_def
  is_utf8_def as_bytes_def byte_of_char_def

lemma demo_values:
  "collection_value demo_collection" "item_value demo_item" "alias_value demo_alias" "secret_wf demo_secret"
  by (simp_all add: collection_value_def item_value_def alias_value_def bt_keys_sorted_def
      demo_secret_def secret_wf_def demo_eval)

lemma demo_valid:
  "is_ok (validate_collection demo_collection)" "is_ok (validate_item demo_item)" "is_ok (validate_alias demo_alias)"
  by (simp_all add: validate_collection_ok validate_item_ok validate_alias_ok validate_attributes_ok text_ok_def
      METADATA_SCHEMA_VERSION_def demo_collection_def demo_item_def demo_alias_def limit_defs)

lemma demo_encodes:
  "is_ok (encode_metadata (collection_cbor reference_lib) demo_collection)"
  "is_ok (encode_metadata (item_cbor reference_lib) demo_item)"
  "is_ok (encode_metadata (alias_cbor reference_lib) demo_alias)"
  by (simp_all add: demo_eval)

text \<open>A request to an unlocked, healthy memory vault returns and leaves it so.\<close>

definition memory_ready :: "MemoryData \<Rightarrow> bool" where
  "memory_ready s \<longleftrightarrow> memory_invar s \<and> memory_up s \<and> guards s = 0"

lemma memory_ready_default: "memory_ready MemoryData_default"
  by (simp add: memory_ready_def MemoryData_default_def memory_invar_def memory_up_def guards_def)

lemma memory_request:
  assumes "memory_ready s" and "operation_value op"
  obtains r t where "demo_execute op s = Some (r, t)" and "memory_ready t"
  using assms ref_vault.execute_returns [of s op] ref_vault.execute_steps [of op s]
  by (auto simp: memory_ready_def)

lemma demo_s1_facts:
  "demo_execute (CreateCollection demo_collection) MemoryData_default =
     Some (Inr (ResponseBody.Collection demo_collection), demo_s1)"
  "memory_ready demo_s1"
  "view reference_lib (memory_store demo_s1) =
     apply_op (CreateCollection demo_collection) (view reference_lib Map.empty)"
proof -
  obtain r t where x: "demo_execute (CreateCollection demo_collection) MemoryData_default = Some (r, t)"
    and t: "memory_ready t"
    using memory_request [OF memory_ready_default, of "CreateCollection demo_collection"] demo_values by auto
  have s: "memory_invar MemoryData_default" "memory_up MemoryData_default"
    "memory_store MemoryData_default = Map.empty"
    by (simp_all add: MemoryData_default_def memory_invar_def memory_up_def)
  have r: "r = Inr (ResponseBody.Collection demo_collection)"
    using ref_vault.create_collection_ok [OF x s(1,2)] s(3) demo_values demo_valid demo_encodes by simp
  have "t = demo_s1" by (simp add: demo_s1_def x)
  with x r t show "demo_execute (CreateCollection demo_collection) MemoryData_default =
     Some (Inr (ResponseBody.Collection demo_collection), demo_s1)" and "memory_ready demo_s1" by simp_all
  show "view reference_lib (memory_store demo_s1) =
     apply_op (CreateCollection demo_collection) (view reference_lib Map.empty)"
    using ref_vault.execute_view(1) [OF x s(1)] r s(3) demo_values \<open>t = demo_s1\<close> by simp
qed

lemma view_empty:
  "store_collection L Map.empty u = None" "store_alias L Map.empty n = None"
  "store_item L Map.empty u = None" "visible_item L Map.empty u = None"
  by (simp_all add: store_collection_def store_alias_def store_item_def visible_item_def)

lemma demo_s1_store:
  "store_collection reference_lib (memory_store demo_s1) 7 = Some demo_collection"
  "memory_store demo_s1 (target_to_string reference_lib (TargetName.ItemMetadata u)) = None"
proof -
  show "store_collection reference_lib (memory_store demo_s1) 7 = Some demo_collection"
    using view_collections [OF demo_s1_facts(3)] by (simp add: demo_collection_def)
  obtain b where b: "encode_metadata (collection_cbor reference_lib) demo_collection = Inr b"
    using demo_encodes(1) by (auto simp: is_ok_iff)
  have valid: "validate_collection demo_collection = Inr ()"
    using demo_valid(1) by (simp add: unit_result_ok)
  have "credentials demo_s1 = [(target_to_string reference_lib (TargetName.Collection 7), b)]"
    by (simp add: demo_s1_def execute_def with_lock_def create_collection_def write_metadata_def
        InMemoryBackend_def memory_acquire_lock_def memory_read_def memory_write_def memory_credentials_def
        set_credentials_def MemoryLock_drop_def MemoryData_default_def act_simps valid b)
       (simp add: demo_collection_def)
  then show "memory_store demo_s1 (target_to_string reference_lib (TargetName.ItemMetadata u)) = None"
    by simp
qed

lemma demo_s2_facts:
  "demo_execute (CreateItem demo_item demo_secret) demo_s1 = Some (Inr (ResponseBody.Item demo_item None), demo_s2)"
  "memory_ready demo_s2"
  "view reference_lib (memory_store demo_s2) =
     apply_op (CreateItem demo_item demo_secret)
       (apply_op (CreateCollection demo_collection) (view reference_lib Map.empty))"
proof -
  obtain r t where x: "demo_execute (CreateItem demo_item demo_secret) demo_s1 = Some (r, t)"
    and t: "memory_ready t"
    using memory_request [OF demo_s1_facts(2), of "CreateItem demo_item demo_secret"] demo_values by auto
  have s: "memory_invar demo_s1" "memory_up demo_s1" using demo_s1_facts(2) by (simp_all add: memory_ready_def)
  have r: "r = Inr (ResponseBody.Item demo_item None)"
    by (rule ref_vault.create_item_ok [OF x s])
       (use demo_values demo_valid demo_encodes demo_s1_store in \<open>simp_all add: demo_item_def\<close>)
  have "t = demo_s2" by (simp add: demo_s2_def x)
  with x r t show "demo_execute (CreateItem demo_item demo_secret) demo_s1 =
      Some (Inr (ResponseBody.Item demo_item None), demo_s2)" and "memory_ready demo_s2" by simp_all
  show "view reference_lib (memory_store demo_s2) =
     apply_op (CreateItem demo_item demo_secret)
       (apply_op (CreateCollection demo_collection) (view reference_lib Map.empty))"
    using ref_vault.execute_view(1) [OF x s(1)] r demo_values \<open>t = demo_s2\<close> demo_s1_facts(3) by simp
qed

lemma demo_s2_visible:
  "visible_item reference_lib (memory_store demo_s2) 11 = Some (demo_item, Some [1, 2, 3])"
  "store_item reference_lib (memory_store demo_s2) 11 = Some demo_item"
  "store_collection reference_lib (memory_store demo_s2) 7 = Some demo_collection"
proof -
  show vis: "visible_item reference_lib (memory_store demo_s2) 11 = Some (demo_item, Some [1, 2, 3])"
    using view_items [OF demo_s2_facts(3)] by (simp add: demo_secret_def) (simp add: demo_item_def)
  then show "store_item reference_lib (memory_store demo_s2) 11 = Some demo_item"
    by (simp add: store_item_visible)
  show "store_collection reference_lib (memory_store demo_s2) 7 = Some demo_collection"
    using view_collections [OF demo_s2_facts(3)] by (simp add: demo_collection_def)
qed

end
