(* ===== verification/Broker_Properties.thy ===== *)
theory Broker_Properties
  imports Reference_Vault
begin

text \<open>
  The properties of the broker, each for every backend and every set of crates that keep their
  contracts (the predicate \<open>vault\<close>), at every pattern of backend faults. Each is instantiated on
  the in-memory backend with the reference crates.
\<close>

lemmas demo_vault = ref_vault.vault_axioms

lemma demo_ready:
  "memory_invar MemoryData_default" "memory_up MemoryData_default" "guards MemoryData_default = 0"
  "memory_invar demo_s1" "memory_up demo_s1" "guards demo_s1 = 0"
  "memory_invar demo_s2" "memory_up demo_s2" "guards demo_s2 = 0"
  using memory_ready_default demo_s1_facts(2) demo_s2_facts(2) by (simp_all add: memory_ready_def)

lemma demo_run: "broker_run reference_lib (InMemoryBackend reference_lib) MemoryData_default demo_s2"
proof -
  have "broker_run reference_lib (InMemoryBackend reference_lib) MemoryData_default demo_s1"
    by (rule broker_run.request [OF broker_run.start _ demo_s1_facts(1)]) (simp add: demo_values)
  then show ?thesis
    by (rule broker_run.request [OF _ _ demo_s2_facts(1)]) (simp add: demo_values)
qed

lemma demo_consistent_empty: "vault_consistent L (memory_store MemoryData_default)"
  by (simp add: vault_consistent_def MemoryData_default_def view_empty)

lemma memory_request_ex:
  "memory_ready s \<Longrightarrow> operation_value op \<Longrightarrow> \<exists>r t. demo_execute op s = Some (r, t) \<and> memory_ready t"
  using memory_request by blast

lemma demo_updates:
  assumes "op = UpdateItem demo_item None \<or> op = UpdateItemCas demo_item None 1"
  shows "\<exists>y t. demo_execute op demo_s2 = Some (Inr y, t) \<and> memory_ready t"
proof -
  have v: "operation_value op" using assms demo_values(2) by auto
  obtain r t where x: "demo_execute op demo_s2 = Some (r, t)" and t: "memory_ready t"
    using memory_request [OF demo_s2_facts(2) v] .
  have "is_ok (encode_metadata (item_cbor reference_lib) (updated_item demo_item demo_item None))"
    by (simp add: demo_eval updated_item_def saturating_add_def)
  then have "is_ok r"
    using assms demo_s2_visible demo_valid(2) demo_ready(7,8)
    by (intro ref_vault.update_item_ok [OF x, where x = None and m = demo_item and m0 = demo_item and e = 1])
       (auto simp: v demo_item_def)
  then show ?thesis using x t by (auto simp: is_ok_iff)
qed

text \<open>A request to the concrete vault, with its result left to the model.\<close>

lemma demo_request:
  assumes "memory_ready s" and "operation_value op"
  shows "demo_execute op s = Some (fst (the (demo_execute op s)), snd (the (demo_execute op s)))"
  using memory_request [OF assms] by (metis option.sel prod.collapse)


section \<open>Consistency\<close>

text \<open>
  C1. Whatever requests a broker serves, and however its backend fails in between, a consistent
  vault stays consistent: every item that is visible has the secret of the generation its metadata
  names stored, and every item and alias belongs to an existing collection.
\<close>

theorem broker_run_consistent:
  assumes "vault L B store invar up held" and "invar s" and "vault_consistent L (store s)"
    and "broker_run L B s t"
  shows "vault_consistent L (store t)"
  by (rule vault.run_consistent [OF assms(1,4,2,3)])

theorem broker_run_consistent_witness:
  "vault_consistent reference_lib (memory_store demo_s2) \<and>
   visible_item reference_lib (memory_store demo_s2) 11 = Some (demo_item, Some [1, 2, 3])"
  using broker_run_consistent [OF demo_vault demo_ready(1) demo_consistent_empty demo_run] demo_s2_visible(1)
  by simp

text \<open>
  C2. A request that succeeds changes the vault exactly as its specification \<open>apply_op\<close> says, on
  every backend and whatever deletes of superseded secrets had to be deferred. Only the removals of
  a replacing creation need a backend that is up.
\<close>

theorem execute_success_refines:
  assumes "vault L B store invar up held" and "invar s" and "operation_value op"
    and "execute L B op s = Some (Inr y, t)" and "replacing op \<Longrightarrow> up s"
  shows "view L (store t) = apply_op op (view L (store s))"
  by (rule vault.execute_view(1) [OF assms(1,4,2,3)]) (simp_all add: assms(5))

theorem execute_success_refines_witness:
  "view reference_lib (memory_store demo_s2) =
   apply_op (CreateItem demo_item demo_secret) (view reference_lib (memory_store demo_s1))"
  using execute_success_refines [OF demo_vault demo_ready(4) _ demo_s2_facts(1)] demo_values by simp

text \<open>
  C3. A request that reports an error leaves the vault as it was, except for three kinds whose
  partial effects are bounded: a deleted item may be gone although cleaning up failed, a deleted
  collection may have lost some of its own items and aliases, and a replacing creation may have
  committed its new item; nothing else changes.
\<close>

theorem execute_error_bounded:
  assumes "vault L B store invar up held" and "invar s" and "operation_value op"
    and "execute L B op s = Some (Inl e, t)"
  shows "interrupted op (view L (store s)) (view L (store t))"
  by (rule vault.execute_view(2) [OF assms(1,4,2,3)]) simp

theorem execute_error_bounded_witness:
  "\<exists>e t. demo_execute (DeleteItem 99) demo_s2 = Some (Inl e, t) \<and>
     interrupted (DeleteItem 99) (view reference_lib (memory_store demo_s2)) (view reference_lib (memory_store t))"
proof -
  obtain r t where x: "demo_execute (DeleteItem 99) demo_s2 = Some (r, t)"
    using memory_request_ex [OF demo_s2_facts(2), of "DeleteItem 99"] by auto
  have "\<not> is_ok r"
    using x demo_ready(7)
  proof (rule ref_vault.execute_wp [where Q = "\<lambda>q _. \<not> is_ok q"], goal_cases)
    case (2 s')
    have "visible_item reference_lib (memory_store demo_s2) 99 = None"
      using view_items [OF demo_s2_facts(3)] by (simp add: view_empty demo_item_def)
    then show ?case unfolding dispatch.simps
      by (intro wp_mono [OF ref_vault.delete_item_wp [OF 2(1)]])
         (use 2 demo_ready(8) in \<open>auto simp: store_item_visible\<close>)
  qed auto
  then obtain e where r: "r = Inl e" by (cases r) auto
  with execute_error_bounded [OF demo_vault demo_ready(7) _ x [unfolded r]] x show ?thesis by auto
qed

text \<open>
  C4. No history of requests ever touches a credential whose name is not one of the project's
  targets.
\<close>

theorem broker_foreign_untouched:
  assumes "vault L B store invar up held" and "invar s" and "broker_run L B s t"
    and "\<not> starts_with CREDENTIAL_PREFIX n"
  shows "store t n = store s n"
  by (rule vault.run_foreign [OF assms(1,3,2) foreign_nameI [OF assms(4)]])

theorem broker_foreign_untouched_witness:
  "memory_store demo_s2 ''git:https://example.org'' = memory_store MemoryData_default ''git:https://example.org''"
  by (rule broker_foreign_untouched [OF demo_vault demo_ready(1) demo_run])
     (simp add: starts_with_def CREDENTIAL_PREFIX_def)

text \<open>
  C5. On a backend that is up and whose lock is free, every request returns, and it returns with
  the lock released, on success and on every error.
\<close>

theorem execute_returns_unlocked:
  assumes "vault L B store invar up held" and "invar s" and "up s" and "held s = 0" and "operation_value op"
  shows "\<exists>r t. execute L B op s = Some (r, t) \<and> held t = 0 \<and> up t \<and> invar t"
  by (rule vault.execute_unlocks [OF assms])

theorem execute_returns_unlocked_witness:
  "\<exists>r t. demo_execute (DeleteCollection 7) demo_s2 = Some (r, t) \<and> guards t = 0"
  using execute_returns_unlocked [OF demo_vault demo_ready(7-9), of "DeleteCollection 7"] by auto


section \<open>Items\<close>

text \<open>
  C6. An item that was created is read back as it was written, its secret included, and reading
  it changes nothing.
\<close>

theorem create_get_roundtrip:
  assumes "vault L B store invar up held" and "invar s" and "up s" and "item_value m" and "secret_wf x"
    and "held s = 0" and "execute L B (CreateItem m x) s = Some (Inr y, t)"
  shows "\<exists>t'. execute L B (GetItem (i_id m) True) t =
    Some (Inr (ResponseBody.Item m (Some x)), t') \<and> store t' = store t"
  by (rule vault.create_then_get [OF assms(1,7,2-6)])

theorem create_get_roundtrip_witness:
  "\<exists>t'. demo_execute (GetItem 11 True) demo_s2 =
     Some (Inr (ResponseBody.Item demo_item (Some demo_secret)), t')"
  using create_get_roundtrip [OF demo_vault demo_ready(4,5) demo_values(2,4) demo_ready(6) demo_s2_facts(1)]
  by (auto simp: demo_item_def)

text \<open>
  A conditional update whose expected revision is not the stored one fails and changes
  nothing; on a backend that is up it fails with \<open>Conflict\<close>.
\<close>

lemma cas_stale_conflict:
  assumes "vault L B store invar up held" and "invar s" and "operation_value (UpdateItemCas m x e)"
    and "store_item L (store s) (i_id m) = Some m0" and "i_modified m0 \<noteq> e"
    and "execute L B (UpdateItemCas m x e) s = Some (r, t)"
  shows "\<not> is_ok r \<and> store t = store s \<and>
    (up s \<longrightarrow> r = Inl (BrokerError_new Conflict ''item was modified by another provider''))"
  by (rule vault.cas_stale [OF assms(1,6,2-5)])

text \<open>
  C7. Two conditional updates of an item that expect the same revision never both succeed, unless
  the revision counter is at its maximum.
\<close>

theorem cas_no_lost_update:
  assumes "vault L B store invar up held" and "invar s" and "e \<noteq> u64_max"
    and "operation_value (UpdateItemCas m1 x1 e)" and "operation_value (UpdateItemCas m2 x2 e)"
    and "i_id m2 = i_id m1" and "execute L B (UpdateItemCas m1 x1 e) s = Some (Inr y, t)"
    and "execute L B (UpdateItemCas m2 x2 e) t = Some (r, t')"
  shows "\<not> is_ok r \<and> store t' = store t"
  by (rule vault.cas_twice [OF assms(1,7,2-6,8)])

theorem cas_no_lost_update_witness:
  "\<exists>y t r t'. demo_execute (UpdateItemCas demo_item None 1) demo_s2 = Some (Inr y, t) \<and>
     demo_execute (UpdateItemCas demo_item None 1) t = Some (r, t') \<and> \<not> is_ok r"
proof -
  have v: "operation_value (UpdateItemCas demo_item None 1)" using demo_values(2) by simp
  obtain y t where x: "demo_execute (UpdateItemCas demo_item None 1) demo_s2 = Some (Inr y, t)"
    and t: "memory_ready t"
    using demo_updates [of "UpdateItemCas demo_item None 1"] by auto
  obtain r t' where x': "demo_execute (UpdateItemCas demo_item None 1) t = Some (r, t')"
    using memory_request [OF t v] .
  have "(1 :: u64) \<noteq> u64_max" by (simp add: u64_max_def)
  from cas_no_lost_update [OF demo_vault demo_ready(7) this v v refl x x'] x x' show ?thesis by blast
qed

text \<open>
  An update keeps the creation time of the item, moves its revision strictly forward (short of
  the maximum), and without a new secret keeps the item on the generation it was on.
\<close>

lemma update_moves_revision:
  assumes "vault L B store invar up held" and "invar s" and "operation_value (UpdateItem m x)"
    and "execute L B (UpdateItem m x) s = Some (Inr y, t)"
  shows "\<exists>m0 m1. store_item L (store s) (i_id m) = Some m0 \<and> store_item L (store t) (i_id m) = Some m1 \<and>
    y = ResponseBody.Item m1 None \<and> i_created m1 = i_created m0 \<and>
    (i_modified m0 < i_modified m1 \<or> i_modified m0 = u64_max \<and> i_modified m1 = u64_max) \<and>
    (x = None \<longrightarrow> i_current_generation m1 = i_current_generation m0)"
  using vault.update_result [OF assms(1,4,2,3), of m x] updated_item_revision by metis


section \<open>Removal and recovery\<close>

text \<open>
  C8. When a deletion succeeds, neither the item nor any generation of its secret is left in the
  credential store; for a collection this holds of all its items.
\<close>

theorem delete_leaves_nothing:
  assumes "vault L B store invar up held" and "invar s"
    and "execute L B (DeleteCollection c) s = Some (Inr y, t)" and "u \<in> members L (store s) c"
  shows "store_item L (store t) u = None \<and> (\<forall>g. store_secret L (store t) u g = None)"
  using vault.delete_collection_complete [OF assms(1,3,2)] assms(4) by blast

theorem delete_leaves_nothing_witness:
  "\<exists>t. demo_execute (DeleteCollection 7) demo_s2 = Some (Inr ResponseBody.Empty, t) \<and>
     store_secret reference_lib (memory_store t) 11 12 = None"
proof -
  obtain r t where x: "demo_execute (DeleteCollection 7) demo_s2 = Some (r, t)"
    using memory_request_ex [OF demo_s2_facts(2), of "DeleteCollection 7"] by auto
  have r: "r = Inr ResponseBody.Empty"
    using ref_vault.delete_collection_ok [OF x demo_ready(7,8)] demo_s2_visible(3) by simp
  have "11 \<in> members reference_lib (memory_store demo_s2) 7"
    using demo_s2_visible(2) by (simp add: members_def demo_item_def)
  from delete_leaves_nothing [OF demo_vault demo_ready(7) x [unfolded r] this] x r show ?thesis by blast
qed



text \<open>
  Recovery treats an item whose metadata no longer decodes as if it had none: every stored
  generation of its secret is deleted, the current one included. The data model document asks for the opposite.
\<close>

lemma reconcile_drops_unreadable_item:
  assumes "vault L B store invar up held" and "invar s" and "execute L B Reconcile s = Some (Inr y, t)"
    and "store s (target_to_string L (TargetName.ItemMetadata u)) = Some b"
    and "\<not> is_ok (decode_metadata (item_cbor L) b)"
  shows "store_secret L (store t) u g = None"
proof -
  have "store_item L (store s) u = None"
    using assms(4,5) by (auto simp: store_item_def entry_item_def is_ok_def split: sum.splits)
  moreover have "view L (store t) = view L (store s)" "abandoned L (store t) = {}"
    using vault.reconcile_exact [OF assms(1,3,2)] by simp_all
  ultimately have "store_item L (store t) u = None" by (metis store_item_visible view_items)
  moreover have "(u, g) \<notin> abandoned L (store t)" using \<open>abandoned L (store t) = {}\<close> by simp
  ultimately show ?thesis by (simp add: abandoned_def)
qed

text \<open>
  C10. A replacing creation spares every item that does not have the attributes and the collection
  of the new one, whatever fails; when it succeeds the new item is visible with its secret, and the
  items it reports as replaced are gone.
\<close>

theorem replace_spares_others:
  assumes "vault L B store invar up held" and "invar s" and "item_value m" and "secret_wf x"
    and "execute L B (CreateOrReplaceItem m x replace) s = Some (r, t)"
  shows "(\<forall>u. u \<noteq> i_id m \<longrightarrow> u \<notin> replaced_by L (store s) m replace \<longrightarrow>
      visible_item L (store t) u = visible_item L (store s) u) \<and>
    (is_ok r \<longrightarrow> visible_item L (store t) (i_id m) = Some (m, Some (expose x))) \<and>
    (\<forall>d f. r = Inr (ResponseBody.ReplacedItem m d f) \<longrightarrow>
      set d \<union> set f = replaced_by L (store s) m replace \<and>
      (\<forall>u \<in> set d. u \<noteq> i_id m \<longrightarrow> visible_item L (store t) u = None))"
  by (rule vault.replace_spares [OF assms(1,5,2-4)])


theorem replace_spares_others_witness:
  "\<exists>r t. demo_execute (CreateOrReplaceItem (demo_item\<lparr>i_id := 21, i_attributes := []\<rparr>) demo_secret True) demo_s2 =
       Some (r, t) \<and>
     visible_item reference_lib (memory_store t) 11 = Some (demo_item, Some [1, 2, 3])"
proof -
  let ?m = "demo_item\<lparr>i_id := 21, i_attributes := []\<rparr>"
  have m: "item_value ?m" using demo_values(2) by (simp add: item_value_def)
  then obtain r t where x: "demo_execute (CreateOrReplaceItem ?m demo_secret True) demo_s2 = Some (r, t)"
    using memory_request_ex [OF demo_s2_facts(2), of "CreateOrReplaceItem ?m demo_secret True"] demo_values by auto
  have "11 \<notin> replaced_by reference_lib (memory_store demo_s2) ?m True"
    using demo_s2_visible(2) by (simp add: replaced_by_def demo_item_def)
  with replace_spares_others [OF demo_vault demo_ready(7) m demo_values(4) x] demo_s2_visible(1) x
  show ?thesis by auto
qed


section \<open>Listings\<close>

text \<open>What the filter of a search accepts, without the traversal of the attributes.\<close>

lemma attributes_match_iff:
  "attributes_match attributes m \<longleftrightarrow>
     (\<forall>k v. (k, v) \<in> set attributes \<longrightarrow> map_of (i_attributes m) k = Some v)"
  by (auto simp: attributes_match_def list_all_iff)

text \<open>
  C11. A search returns exactly the visible items that have every attribute asked for with the
  value asked for, each item once and in the order of the identifiers, and changes nothing.
\<close>

theorem search_items_exact:
  assumes "vault L B store invar up held" and "invar s"
    and "execute L B (SearchItems attributes) s = Some (Inr y, t)"
  shows "store t = store s \<and> (\<exists>ms. y = ResponseBody.Items ms \<and> sorted_wrt (<) (map i_id ms) \<and>
    set ms = {m. (\<exists>u. store_item L (store s) u = Some m) \<and>
      (\<forall>k v. (k, v) \<in> set attributes \<longrightarrow> map_of (i_attributes m) k = Some v)})"
  using vault.search_exact [OF assms(1,3,2)] by (simp add: attributes_match_iff)

theorem search_items_exact_witness:
  "\<exists>ms t. demo_execute (SearchItems [(''user'', ''me'')]) demo_s2 = Some (Inr (ResponseBody.Items ms), t) \<and>
     demo_item \<in> set ms"
proof -
  let ?a = "[(''user'', ''me'')]"
  obtain r t where x: "demo_execute (SearchItems ?a) demo_s2 = Some (r, t)"
    using memory_request_ex [OF demo_s2_facts(2), of "SearchItems ?a"] by auto
  have "is_ok (validate_attributes ?a)" by (simp add: validate_attributes_ok text_ok_def limit_defs)
  then obtain y where r: "r = Inr y"
    using ref_vault.read_ok [OF x demo_ready(7,8)] by (auto simp: is_ok_iff)
  have "map_of (i_attributes demo_item) ''user'' = Some ''me''" by (simp add: demo_item_def)
  with search_items_exact [OF demo_vault demo_ready(7) x [unfolded r]] x r demo_s2_visible(2)
  show ?thesis by fastforce
qed

text \<open>
  On a backend that is up an alias that was set resolves to what was set.
\<close>

lemma set_resolve_alias:
  assumes "vault L B store invar up held" and "invar s" and "up s" and "alias_value a"
    and "held s = 0" and "execute L B (SetAlias a) s = Some (Inr y, t)"
  shows "\<exists>t'. execute L B (ResolveAlias (a_name a)) t = Some (Inr (ResponseBody.Alias (Some a)), t')"
  by (rule vault.set_then_resolve [OF assms(1,6,2-5)])

end
