(* ===== verification/Frames.thy ===== *)
theory Frames
  imports Cbor
begin

text \<open>
  Length-prefixed frames (\<^verbatim>\<open>crates/protocol/src/frame.rs\<close>): the transport between
  provider and broker. The asynchronous byte streams are tokio's, hence parameters; the locales
  \<open>byte_reader\<close> and \<open>byte_writer\<close> say what a stream does, and are interpreted on the bytes
  in a pipe.
\<close>

section \<open>Byte streams\<close>

record 'r reader =
  read_u32 :: "('r, io_error, u32) act"
  read_exact :: "nat \<Rightarrow> ('r, io_error, bytes) act"

record 'w writer =
  write_u32 :: "u32 \<Rightarrow> ('w, io_error, unit) act"
  write_all :: "bytes \<Rightarrow> ('w, io_error, unit) act"
  flush :: "('w, io_error, unit) act"

definition u32_to_be :: "u32 \<Rightarrow> bytes" where
  "u32_to_be w = map (\<lambda>k. of_nat (unat w div 256 ^ k)) [3, 2, 1, 0]"

definition u32_from_be :: "bytes \<Rightarrow> u32" where
  "u32_from_be bs = of_nat (fold (\<lambda>b n. n * 256 + unat b) bs 0)"


section \<open>Frames\<close>

definition MAX_FRAME_SIZE :: nat where
  "MAX_FRAME_SIZE = 1024 * 1024"

definition read_frame :: "'r reader \<Rightarrow> 'a cbor \<Rightarrow> ('r, ProtocolError, 'a) act" where
  "read_frame R C =
     act_bind (act_map_err Io (read_u32 R)) (\<lambda>w.
     let len = unat w in
     if len = 0 then act_throw EmptyFrame
     else if MAX_FRAME_SIZE < len then act_throw (FrameTooLarge len MAX_FRAME_SIZE)
     else
       act_bind (act_map_err Io (read_exact R len)) (\<lambda>payload.
       act_lift
         (res_bind (map_err Decode (cbor_de C payload)) (\<lambda>(v, consumed).
          if consumed \<noteq> len then Inl (TrailingBytes (len - consumed)) else Inr v))))"

definition write_frame :: "'w writer \<Rightarrow> 'a cbor \<Rightarrow> 'a \<Rightarrow> ('w, ProtocolError, unit) act" where
  "write_frame W C v =
     act_bind (act_lift (map_err Encode (cbor_ser C v))) (\<lambda>payload.
     if payload = [] then act_throw EmptyFrame
     else if MAX_FRAME_SIZE < length payload then
       act_throw (FrameTooLarge (length payload) MAX_FRAME_SIZE)
     else if 2 ^ 32 \<le> length payload then
       act_throw (FrameTooLarge (length payload) MAX_FRAME_SIZE)
     else
       act_bind (act_map_err Io (write_u32 W (of_nat (length payload)))) (\<lambda>_.
       act_bind (act_map_err Io (write_all W payload)) (\<lambda>_.
       act_map_err Io (flush W))))"

text \<open>A peer that reads frames one after the other.\<close>

fun read_frames :: "'r reader \<Rightarrow> 'a cbor \<Rightarrow> nat \<Rightarrow> ('r, ProtocolError, 'a list) act" where
  "read_frames R C 0 = act_return []"
| "read_frames R C (Suc n) =
     act_bind (read_frame R C) (\<lambda>v. act_bind (read_frames R C n) (\<lambda>vs. act_return (v # vs)))"


section \<open>The stream interfaces\<close>

lemma u32_from_to_be [simp]: "u32_from_be (u32_to_be w) = w"
proof -
  define n where "n = unat w"
  have w: "w = of_nat n" by (simp add: n_def)
  define a b c where "a = n div 256" and "b = a div 256" and "c = b div 256"
  note abc = a_def b_def c_def
  have "n < 4294967296" using unsigned_less [of w] by (simp add: n_def)
  then have c: "c mod 256 = c" by (simp add: abc div_mult2_eq [symmetric])
  moreover have "b mod 256 + c * 256 = b" "a mod 256 + b * 256 = a" "n mod 256 + a * 256 = n"
    by (simp_all add: abc)
  ultimately have "((c mod 256 * 256 + b mod 256) * 256 + a mod 256) * 256 + n mod 256 = n"
    by (simp add: add.commute)
  moreover have "n div 16777216 = c" "n div 65536 = b" "n div 256 = a"
    by (simp_all add: abc div_mult2_eq [symmetric])
  ultimately have "fold (\<lambda>b n. n * 256 + unat b) (u32_to_be w) 0 = n"
    by (simp add: u32_to_be_def unat_of_nat c flip: n_def)
  then show ?thesis by (simp add: u32_from_be_def w)
qed

lemma length_u32_to_be [simp]: "length (u32_to_be w) = 4"
  by (simp add: u32_to_be_def)

text \<open>A reader hands out the bytes still to come (\<open>rest\<close>), or fails at the end of the stream.\<close>

locale byte_reader =
  fixes R :: "'r reader" and rest :: "'r \<Rightarrow> bytes"
  assumes read_u32_spec:
      "wp (read_u32 R)
         (\<lambda>r t. if 4 \<le> length (rest s)
                then r = Inr (u32_from_be (take 4 (rest s))) \<and> rest t = drop 4 (rest s)
                else \<exists>m. r = Inl (IoError UnexpectedEof m)) s"
    and read_exact_spec:
      "wp (read_exact R n)
         (\<lambda>r t. if n \<le> length (rest s)
                then r = Inr (take n (rest s)) \<and> rest t = drop n (rest s)
                else \<exists>m. r = Inl (IoError UnexpectedEof m)) s"

text \<open>A writer appends to what was sent; a write that fails may have sent a part.\<close>

locale byte_writer =
  fixes W :: "'w writer" and sent :: "'w \<Rightarrow> bytes"
  assumes write_u32_spec:
      "wp (write_u32 W x)
         (\<lambda>r t. \<exists>k \<le> 4. sent t = sent s @ take k (u32_to_be x) \<and> (is_ok r \<longrightarrow> k = 4)) s"
    and write_all_spec:
      "wp (write_all W bs)
         (\<lambda>r t. \<exists>k \<le> length bs. sent t = sent s @ take k bs \<and> (is_ok r \<longrightarrow> k = length bs)) s"
    and flush_spec: "wp (flush W) (\<lambda>_ t. sent t = sent s) s"

text \<open>The bytes of a frame around a payload.\<close>

definition frame_bytes :: "bytes \<Rightarrow> bytes" where
  "frame_bytes p = u32_to_be (of_nat (length p)) @ p"

lemma unat_of_length: "length p \<le> MAX_FRAME_SIZE \<Longrightarrow> unat (of_nat (length p) :: u32) = length p"
  by (simp add: MAX_FRAME_SIZE_def unat_of_nat)

context byte_reader
begin

lemma read_frame_bytes:
  assumes "cbor_codec C ok" and "ok v" and "cbor_ser C v = Inr p"
    and "length p \<le> MAX_FRAME_SIZE" and "rest s = frame_bytes p @ tail"
  shows "wp (read_frame R C) (\<lambda>r t. r = Inr v \<and> rest t = tail) s"
proof -
  have p: "p \<noteq> []" and de: "cbor_de C p = Inr (v, length p)"
    using cbor_codec.ser_ne [OF assms(1,3)] cbor_codec.de_ser_exact [OF assms(1-3)] by simp_all
  have payload: "wp (read_exact R (length p)) (\<lambda>r t. r = Inr p \<and> rest t = tail) t"
    if "rest t = p @ tail" for t
    by (rule wp_mono [OF read_exact_spec]) (simp add: that)
  have len: "wp (read_u32 R) (\<lambda>r t. r = Inr (of_nat (length p)) \<and> rest t = p @ tail) s"
    by (rule wp_mono [OF read_u32_spec]) (simp add: assms(5) frame_bytes_def)
  show ?thesis
    unfolding read_frame_def wp_simps
    by (rule wp_mono [OF len])
       (use assms(4) p de in \<open>auto simp: unat_of_length wp_simps Let_def
         intro!: wp_mono [OF payload]\<close>)
qed

lemma read_frames_bytes:
  assumes "cbor_codec C ok"
    and "list_all2 (\<lambda>v p. ok v \<and> cbor_ser C v = Inr p \<and> length p \<le> MAX_FRAME_SIZE) vs ps"
    and "rest s = concat (map frame_bytes ps) @ tail"
  shows "wp (read_frames R C (length vs)) (\<lambda>r t. r = Inr vs \<and> rest t = tail) s"
  using assms(2,3)
proof (induction vs ps arbitrary: s rule: list_all2_induct)
  case Nil
  then show ?case by (simp add: wp_simps)
next
  case (Cons v vs p ps)
  have "wp (read_frame R C) (\<lambda>r t. r = Inr v \<and> rest t = concat (map frame_bytes ps) @ tail) s"
    using Cons by (intro read_frame_bytes [OF assms(1)]) auto
  then show ?case
    unfolding length_Cons read_frames.simps wp_simps
    by (rule wp_mono) (auto simp: wp_simps intro!: wp_mono [OF Cons.IH])
qed

end

context byte_writer
begin

lemma write_frame_bytes:
  "wp (write_frame W C v)
     (\<lambda>r t. is_ok r \<longrightarrow>
        (\<exists>p. cbor_ser C v = Inr p \<and> p \<noteq> [] \<and> length p \<le> MAX_FRAME_SIZE \<and>
             sent t = sent s @ frame_bytes p)) s"
proof (cases "cbor_ser C v")
  case (Inl e)
  then show ?thesis by (simp add: write_frame_def wp_simps)
next
  case (Inr p)
  have 1: "wp (write_u32 W x) (\<lambda>r t. is_ok r \<longrightarrow> sent t = sent s @ u32_to_be x) s" for x s
    by (rule wp_mono [OF write_u32_spec]) auto
  have 2: "wp (write_all W b) (\<lambda>r t. is_ok r \<longrightarrow> sent t = sent s @ b) s" for b s
    by (rule wp_mono [OF write_all_spec]) auto
  show ?thesis
    unfolding write_frame_def Inr wp_simps map_err_simps sum.case wp_if
    by (auto simp: frame_bytes_def not_less wp_simps split: sum.splits
        intro!: wp_mono [OF 1] wp_mono [OF 2] wp_mono [OF flush_spec])
qed

text \<open>A value that cannot be framed puts nothing on the stream.\<close>

lemma write_frame_rejected:
  assumes "\<And>p. cbor_ser C v = Inr p \<Longrightarrow> p = [] \<or> MAX_FRAME_SIZE < length p"
  shows "wp (write_frame W C v) (\<lambda>r t. \<not> is_ok r \<and> t = s) s"
  using assms by (cases "cbor_ser C v") (auto simp: write_frame_def wp_simps)

lemma write_frames_bytes:
  "wp (act_iter (write_frame W C) vs)
     (\<lambda>r t. is_ok r \<longrightarrow>
        (\<exists>ps. list_all2 (\<lambda>v p. cbor_ser C v = Inr p \<and> length p \<le> MAX_FRAME_SIZE) vs ps \<and>
              sent t = sent s @ concat (map frame_bytes ps))) s"
proof (induction vs arbitrary: s)
  case Nil
  then show ?case by (simp add: wp_simps)
next
  case (Cons v vs)
  have "wp (act_iter (write_frame W C) vs)
      (\<lambda>r t. is_ok r \<longrightarrow>
         (\<exists>ps. list_all2 (\<lambda>v p. cbor_ser C v = Inr p \<and> length p \<le> MAX_FRAME_SIZE) (v # vs) ps \<and>
               sent t = sent s @ concat (map frame_bytes ps))) s'"
    if "cbor_ser C v = Inr p" "length p \<le> MAX_FRAME_SIZE" "sent s' = sent s @ frame_bytes p" for p s'
    by (rule wp_mono [OF Cons.IH]) (use that in \<open>auto intro: exI [of _ "p # ps" for ps]\<close>)
  then show ?case
    unfolding act_iter.simps wp_simps
    by (intro wp_mono [OF write_frame_bytes]) (auto split: sum.splits)
qed

end


section \<open>Pipes\<close>

text \<open>
  The standard streams between provider and broker: the reading end is the bytes the peer has
  sent and closed the stream after, the writing end the bytes sent so far.
\<close>

definition pipe_take :: "nat \<Rightarrow> (bytes, io_error, bytes) act" where
  "pipe_take n s =
     (if n \<le> length s then (Inr (take n s), drop n s)
      else (Inl (IoError UnexpectedEof ''early eof''), []))"

definition pipe_put :: "bytes \<Rightarrow> (bytes, io_error, unit) act" where
  "pipe_put b s = (Inr (), s @ b)"

definition pipe_reader :: "bytes reader" where
  "pipe_reader =
     \<lparr>read_u32 = act_bind (pipe_take 4) (\<lambda>b. act_return (u32_from_be b)), read_exact = pipe_take\<rparr>"

definition pipe_writer :: "bytes writer" where
  "pipe_writer =
     \<lparr>write_u32 = \<lambda>x. pipe_put (u32_to_be x), write_all = pipe_put, flush = act_return ()\<rparr>"

interpretation pipe_in: byte_reader pipe_reader "\<lambda>s. s"
  by unfold_locales
     (auto simp: pipe_reader_def pipe_take_def wp_def act_simps)

interpretation pipe_out: byte_writer pipe_writer "\<lambda>s. s"
  by unfold_locales
     (auto simp: pipe_writer_def pipe_put_def wp_def act_simps intro: exI [of _ "4"])

text \<open>What a reader accepts is one non-empty, bounded payload that decodes with no byte left.\<close>

lemma read_frame_Inr:
  assumes "read_frame pipe_reader C s = (Inr v, t)"
  shows "\<exists>h p. s = h @ p @ t \<and> length h = 4 \<and> unat (u32_from_be h) = length p \<and>
    0 < length p \<and> length p \<le> MAX_FRAME_SIZE \<and> cbor_de C p = Inr (v, length p)"
proof -
  let ?n = "unat (u32_from_be (take 4 s))"
  have "4 \<le> length s \<and> 0 < ?n \<and> ?n \<le> MAX_FRAME_SIZE \<and> ?n \<le> length s - 4 \<and>
      t = drop ?n (drop 4 s) \<and> cbor_de C (take ?n (drop 4 s)) = Inr (v, ?n)"
    using assms
    by (auto simp: read_frame_def pipe_reader_def pipe_take_def act_simps res_bind_Inr Let_def
        split: if_splits prod.splits sum.splits)
  then show ?thesis
    by - (rule exI [of _ "take 4 s"], rule exI [of _ "take ?n (drop 4 s)"],
        simp add: append_take_drop_id del: drop_drop)
qed

lemma read_frame_too_large:
  assumes "length h = 4" and "MAX_FRAME_SIZE < unat (u32_from_be h)"
  shows "read_frame pipe_reader C (h @ r) = (Inl (FrameTooLarge (unat (u32_from_be h)) MAX_FRAME_SIZE), r)"
  using assms by (simp add: read_frame_def pipe_reader_def pipe_take_def act_simps)

lemma frames_read_back:
  assumes "cbor_codec C ok" and "\<And>v. v \<in> set vs \<Longrightarrow> ok v"
    and "act_iter (write_frame pipe_writer C) vs sent = (Inr (), sent @ wire)"
  shows "read_frames pipe_reader C (length vs) (wire @ tail) = (Inr vs, tail)"
proof -
  obtain ps where ps: "list_all2 (\<lambda>v p. cbor_ser C v = Inr p \<and> length p \<le> MAX_FRAME_SIZE) vs ps"
    and "wire = concat (map frame_bytes ps)"
    using wpD [OF pipe_out.write_frames_bytes assms(3)] by auto
  moreover from ps have
    "list_all2 (\<lambda>v p. ok v \<and> cbor_ser C v = Inr p \<and> length p \<le> MAX_FRAME_SIZE) vs ps"
    by (rule list.rel_mono_strong) (simp add: assms(2))
  ultimately have "wp (read_frames pipe_reader C (length vs)) (\<lambda>r t. r = Inr vs \<and> t = tail) (wire @ tail)"
    by (intro pipe_in.read_frames_bytes [OF assms(1)]) auto
  then show ?thesis by (simp add: wp_def prod_eq_iff)
qed

end
