(* ===== verification/Protocol_Properties.thy ===== *)
theory Protocol_Properties
  imports Reference_Vault Frames
begin

text \<open>
  The properties of the protocol library: names, frames, negotiation, the commit protocol and the
  recovery plan, and the limits of the metadata.
\<close>

section \<open>Target names\<close>

text \<open>
  C12. The parser of target names accepts exactly what the printer writes for a well-formed target
  and returns that target: every name has one reading and every target one name.
\<close>

theorem target_name_canonical:
  assumes "target_lib L"
  shows "target_from_str L s = Inr t \<longleftrightarrow> s = target_to_string L t \<and> target_wf t"
  by (rule target_lib.from_str_iff [OF assms])

theorem target_name_canonical_witness:
  "target_from_str reference_text
     (target_to_string reference_text (TargetName.ItemSecret 11 12)) = Inr (TargetName.ItemSecret 11 12)"
  using target_name_canonical [OF ref_text.target_lib_axioms] by simp

text \<open>
  A name is reported as foreign exactly when it is outside the project's namespace, and every
  name the printer writes is inside it.
\<close>

lemma target_namespace:
  "(target_from_str L s = Inl ForeignPrefix \<longleftrightarrow> \<not> starts_with CREDENTIAL_PREFIX s) \<and>
   starts_with CREDENTIAL_PREFIX (target_to_string L t)"
  using target_from_str_foreign target_in_namespace by blast


section \<open>Frames\<close>

lemma demo_frame:
  obtains p where "cbor_ser (collection_cbor reference_lib) demo_collection = Inr p" and "length p \<le> MAX_FRAME_SIZE"
    and "p \<noteq> []"
proof -
  obtain b where "encode_metadata (collection_cbor reference_lib) demo_collection = Inr b"
    using demo_encodes(1) by (auto simp: is_ok_iff)
  then have b: "cbor_ser (collection_cbor reference_lib) demo_collection = Inr b" "length b \<le> MAX_FRAME_SIZE"
    by (auto simp: encode_metadata_def res_bind_Inr limit_defs MAX_FRAME_SIZE_def split: if_splits)
  with ref_lib.coll.ser_ne [OF b(1)] show thesis using that by blast
qed

text \<open>
  C13. What a sequence of frames carried is what the other side reads, value by value and in order,
  and the reader stops exactly at the end of the last frame.
\<close>

theorem frames_roundtrip:
  assumes "cbor_codec C ok" and "\<And>v. v \<in> set vs \<Longrightarrow> ok v"
    and "act_iter (write_frame pipe_writer C) vs sent = (Inr (), sent @ wire)"
  shows "read_frames pipe_reader C (length vs) (wire @ tail) = (Inr vs, tail)"
  by (rule frames_read_back [OF assms])

theorem frames_roundtrip_witness:
  "\<exists>wire. act_iter (write_frame pipe_writer (collection_cbor reference_lib)) [demo_collection, demo_collection] [] =
       (Inr (), wire) \<and>
     read_frames pipe_reader (collection_cbor reference_lib) 2 (wire @ [255]) =
       (Inr [demo_collection, demo_collection], [255])"
proof -
  obtain p where p: "cbor_ser (collection_cbor reference_lib) demo_collection = Inr p" "length p \<le> MAX_FRAME_SIZE" "p \<noteq> []"
    by (rule demo_frame)
  then have "act_iter (write_frame pipe_writer (collection_cbor reference_lib)) [demo_collection, demo_collection] [] =
      (Inr (), [] @ (frame_bytes p @ frame_bytes p))"
    by (simp add: write_frame_def pipe_writer_def pipe_put_def act_simps frame_bytes_def MAX_FRAME_SIZE_def)
  from frames_roundtrip [OF ref_lib.coll.cbor_codec_axioms _ this, of "[255]"] this demo_values(1)
  show ?thesis by (auto simp: numeral_2_eq_2)
qed

text \<open>
  C14. A frame is only accepted when its length is between one and the maximum, the whole payload
  arrived, and decoding it left no byte over.
\<close>

theorem read_frame_sound:
  assumes "read_frame pipe_reader C s = (Inr v, t)"
  shows "\<exists>h p. s = h @ p @ t \<and> length h = 4 \<and> unat (u32_from_be h) = length p \<and>
    0 < length p \<and> length p \<le> MAX_FRAME_SIZE \<and> cbor_de C p = Inr (v, length p)"
  by (rule read_frame_Inr [OF assms])

theorem read_frame_sound_witness:
  "\<exists>s h p. read_frame pipe_reader (collection_cbor reference_lib) s = (Inr demo_collection, []) \<and>
     s = h @ p \<and> length h = 4 \<and> cbor_de (collection_cbor reference_lib) p = Inr (demo_collection, length p)"
proof -
  obtain p where p: "cbor_ser (collection_cbor reference_lib) demo_collection = Inr p" "length p \<le> MAX_FRAME_SIZE" "p \<noteq> []"
    by (rule demo_frame)
  have "wp (read_frame pipe_reader (collection_cbor reference_lib)) (\<lambda>r t. r = Inr demo_collection \<and> t = []) (frame_bytes p)"
    by (rule pipe_in.read_frame_bytes [OF ref_lib.coll.cbor_codec_axioms demo_values(1) p(1,2)]) simp
  then have "read_frame pipe_reader (collection_cbor reference_lib) (frame_bytes p) = (Inr demo_collection, [])"
    by (simp add: wp_def prod_eq_iff)
  from read_frame_sound [OF this] this show ?thesis by auto
qed

text \<open>
  C15. A header that announces more than the maximum is refused before any byte of the payload is
  read, and a value whose encoding is too large or empty is never written.
\<close>

theorem frame_limit_enforced:
  assumes "length h = 4" and "MAX_FRAME_SIZE < unat (u32_from_be h)"
    and "cbor_ser C v = Inr p" and "MAX_FRAME_SIZE < length p"
  shows "read_frame pipe_reader C (h @ r) =
      (Inl (FrameTooLarge (unat (u32_from_be h)) MAX_FRAME_SIZE), r) \<and>
    write_frame pipe_writer C v sent = (Inl (FrameTooLarge (length p) MAX_FRAME_SIZE), sent)"
  using read_frame_too_large [OF assms(1,2)] assms(3,4)
  by (auto simp: write_frame_def act_simps)

theorem frame_limit_enforced_witness:
  "read_frame pipe_reader \<lparr>cbor_ser = \<lambda>b. Inr b, cbor_de = \<lambda>b. Inr (b, length b)\<rparr> [255, 255, 255, 255, 1] =
     (Inl (FrameTooLarge 4294967295 MAX_FRAME_SIZE), [1])"
  using frame_limit_enforced [of "[255, 255, 255, 255]"
      "\<lparr>cbor_ser = \<lambda>b. Inr b, cbor_de = \<lambda>b. Inr (b, length b)\<rparr>"
      "replicate (Suc MAX_FRAME_SIZE) 0" "replicate (Suc MAX_FRAME_SIZE) 0" "[1]" "[]"]
  by (simp add: u32_from_be_def MAX_FRAME_SIZE_def)


section \<open>Negotiation\<close>

text \<open>
  Negotiation agrees on the greatest version both sides support and on the capabilities both
  have, and fails exactly when no version is common.
\<close>

lemma negotiate_greatest_common:
  "case negotiate client versions caps of
     Inl e \<Rightarrow> e = NoCommonVersion \<and>
       \<not> (\<exists>v. VersionRange_contains (h_versions client) v \<and> VersionRange_contains versions v)
   | Inr ack \<Rightarrow>
       VersionRange_contains (h_versions client) (ack_version ack) \<and>
       VersionRange_contains versions (ack_version ack) \<and>
       \<not> (\<exists>v > ack_version ack. VersionRange_contains (h_versions client) v \<and> VersionRange_contains versions v) \<and>
       ack_capabilities ack = h_capabilities client \<inter> caps"
proof (cases "negotiate client versions caps")
  case (Inl e)
  with negotiate_Inl [THEN iffD1, OF Inl] show ?thesis by auto
next
  case (Inr ack)
  note neg = negotiate_Inr [OF this]
  then have "\<not> (\<exists>v > ack_version ack. VersionRange_contains (h_versions client) v \<and> VersionRange_contains versions v)"
    by (meson leD)
  with Inr neg(1,2,4) show ?thesis by simp
qed


section \<open>Commits and recovery\<close>

text \<open>
  C16. After every prefix of the steps of a generation commit the generation that the item's
  metadata names is stored, if it was before: a crash between two steps never loses a committed
  secret.
\<close>

theorem commit_steps_crash_safe:
  assumes "generation_committed (gc_previous_generation c, stored)"
  shows "generation_committed
    (fold (run_step c) (take n (commit_steps c)) (gc_previous_generation c, stored))"
  by (rule commit_prefix_safe [OF assms])

theorem commit_steps_crash_safe_witness:
  "generation_committed (fold (run_step \<lparr>gc_item_id = 1, gc_new_generation = 3, gc_previous_generation = Some 2\<rparr>)
     (take 2 (commit_steps \<lparr>gc_item_id = 1, gc_new_generation = 3, gc_previous_generation = Some 2\<rparr>)) (Some 2, {2}))"
  using commit_steps_crash_safe [of "\<lparr>gc_item_id = 1, gc_new_generation = 3, gc_previous_generation = Some 2\<rparr>" "{2}" 2]
  by simp

text \<open>
  C17. The recovery plan names each abandoned generation once for deletion and each committed but
  missing generation once for a report, and nothing else.
\<close>

theorem plan_recovery_exact:
  assumes "inventory_wf v"
  shows "distinct (plan_recovery v) \<and> set (plan_recovery v) =
    {DeleteAbandonedGeneration i g |i g.
       (i, g) \<in> set (stored_generations v) \<and> map_of (committed_generations v) i \<noteq> Some g} \<union>
    {ReportMissingCommittedGeneration i g |i g.
       map_of (committed_generations v) i = Some g \<and> (i, g) \<notin> set (stored_generations v)}"
proof -
  have "a \<in> set (plan_recovery v) \<longleftrightarrow> a \<in>
    {DeleteAbandonedGeneration i g |i g.
       (i, g) \<in> set (stored_generations v) \<and> map_of (committed_generations v) i \<noteq> Some g} \<union>
    {ReportMissingCommittedGeneration i g |i g.
       map_of (committed_generations v) i = Some g \<and> (i, g) \<notin> set (stored_generations v)}" for a
    by (cases a) (simp_all add: plan_deletes plan_reports [OF assms])
  then show ?thesis using plan_distinct [OF assms] by blast
qed

theorem plan_recovery_exact_witness:
  "DeleteAbandonedGeneration 1 5 \<in> set (plan_recovery
     \<lparr>committed_generations = [(1, 4), (2, 6)], stored_generations = [(1, 4), (1, 5)]\<rparr>)"
  using plan_recovery_exact [of "\<lparr>committed_generations = [(1, 4), (2, 6)], stored_generations = [(1, 4), (1, 5)]\<rparr>"]
  by (simp add: inventory_wf_def bt_keys_sorted_def)


section \<open>Limits\<close>

text \<open>
  The broker answers \<open>SecretTooLarge\<close> for an oversized secret and \<open>InvalidRequest\<close> for every
  other limit a validator reports, although it tells them apart by the text of the error.
\<close>

lemma too_large_classified:
  assumes "SecretBytes_new b = Inl e" and "validate_text f v n a = Inl e'"
    and "f \<in> {''label'', ''alias name'', ''content type'', ''attribute key'', ''attribute value''}"
  shows "MAX_SECRET_BYTES < length b \<and> be_code (invalid_request e) = SecretTooLarge \<and>
    be_code (invalid_request e') = InvalidRequest"
  using assms SecretBytes_new_mentions [OF assms(1)] validate_text_mentions [OF assms(2,3)]
  by (auto simp: invalid_request_def mentions_secret_def SecretBytes_new_def split: if_splits)

end
