(* ===== verification/Provider_Error.thy ===== *)
theory Provider_Error
  imports Messages
begin

text \<open>
  The provider's error types (\<^verbatim>\<open>crates/provider/src/error.rs\<close>) and their mapping to the
  error names libsecret clients look at. The text a D-Bus error prints is generated by the zbus
  derive macro and is a parameter where a property getter needs it.
\<close>

datatype ProviderError =
    Broker BrokerError
  | Transport
  | Timeout
  | Indeterminate
  | InvalidRequest string
  | InvalidSession
  | SecretTooLarge
  | Protocol ProtocolError

datatype SecretServiceError =
    Failed string
  | NoSuchObject string
  | NoSuchSession string
  | AlreadyExists string
  | IsLocked string
  | AccessDenied string
  | LimitsExceeded string
  | BackendUnavailable string

text \<open>\<^verbatim>\<open>impl From<ProviderError> for SecretServiceError\<close>\<close>

definition broker_error_to_dbus :: "BrokerError \<Rightarrow> SecretServiceError" where
  "broker_error_to_dbus e =
     (case be_code e of
        ErrorCode.NotFound \<Rightarrow> NoSuchObject (be_message e)
      | ErrorCode.InvalidCollection \<Rightarrow> NoSuchObject (be_message e)
      | ErrorCode.AlreadyExists \<Rightarrow> SecretServiceError.AlreadyExists (be_message e)
      | ErrorCode.Conflict \<Rightarrow> SecretServiceError.AlreadyExists (be_message e)
      | ErrorCode.SecretTooLarge \<Rightarrow> LimitsExceeded (be_message e)
      | ErrorCode.MetadataTooLarge \<Rightarrow> LimitsExceeded (be_message e)
      | ErrorCode.PermissionDenied \<Rightarrow> AccessDenied (be_message e)
      | ErrorCode.BackendUnavailable \<Rightarrow> SecretServiceError.BackendUnavailable (be_message e)
      | _ \<Rightarrow> Failed (be_message e))"

fun provider_error_to_dbus :: "ProviderError \<Rightarrow> SecretServiceError" where
  "provider_error_to_dbus (Broker e) = broker_error_to_dbus e"
| "provider_error_to_dbus ProviderError.SecretTooLarge =
     LimitsExceeded ''secret exceeds the 2560-byte Windows Credential Manager limit''"
| "provider_error_to_dbus InvalidSession = NoSuchSession ''unknown or expired session''"
| "provider_error_to_dbus (ProviderError.InvalidRequest message) = Failed message"
| "provider_error_to_dbus Transport =
     SecretServiceError.BackendUnavailable ''Windows Credential Manager broker is unavailable''"
| "provider_error_to_dbus Timeout =
     SecretServiceError.BackendUnavailable ''Windows Credential Manager broker is unavailable''"
| "provider_error_to_dbus Indeterminate =
     SecretServiceError.BackendUnavailable ''Windows Credential Manager broker is unavailable''"
| "provider_error_to_dbus (Protocol e) = Failed (protocol_error_to_string e)"

text \<open>\<^verbatim>\<open>impl From<ProtocolError> for ProviderError\<close>, the conversion of \<^verbatim>\<open>?\<close>\<close>

definition provider_of_protocol_error :: "ProtocolError \<Rightarrow> ProviderError" where
  "provider_of_protocol_error e =
     (case e of
        InvalidMetadata _ \<Rightarrow> ProviderError.InvalidRequest (protocol_error_to_string e)
      | _ \<Rightarrow> Protocol e)"

text \<open>\<^verbatim>\<open>impl From<SecretServiceError> for zbus::fdo::Error\<close>: one name for every error\<close>

datatype fdo_error = FdoFailed string | FdoOther string

definition fdo_of_dbus :: "(SecretServiceError \<Rightarrow> string) \<Rightarrow> SecretServiceError \<Rightarrow> fdo_error" where
  "fdo_of_dbus to_string e = FdoFailed (to_string e)"

text \<open>What a client is told when the outcome at the broker is unknown.\<close>

lemma provider_error_unavailable:
  "(\<exists>m. provider_error_to_dbus e = SecretServiceError.BackendUnavailable m) \<longleftrightarrow>
   e \<in> {Transport, Timeout, Indeterminate} \<or>
   (\<exists>b. e = Broker b \<and> be_code b = ErrorCode.BackendUnavailable)"
  by (cases e) (auto simp: broker_error_to_dbus_def split: ErrorCode.splits)

end
