(* ===== verification/Provider_Paths.thy ===== *)
theory Provider_Paths
  imports Target_Name
begin

text \<open>
  The D-Bus object paths of the provider (\<^verbatim>\<open>crates/provider/src/paths.rs\<close>): one path per
  collection, item, session and alias, and the parsers that read an identifier back from a path a
  client passes in.
\<close>

section \<open>Paths\<close>

definition SERVICE_PATH :: string where
  "SERVICE_PATH = ''/org/freedesktop/secrets''"

definition COMPAT_PROMPT_PATH :: string where
  "COMPAT_PROMPT_PATH = ''/org/freedesktop/secrets/prompt/compatibility''"

definition segment :: "'x text_lib_scheme \<Rightarrow> char \<Rightarrow> uuid \<Rightarrow> string" where
  "segment L prefix uid = prefix # uuid_simple L uid"

definition collection_path :: "'x text_lib_scheme \<Rightarrow> uuid \<Rightarrow> string" where
  "collection_path L uid = SERVICE_PATH @ ''/collection/'' @ segment L (CHR ''c'') uid"

definition item_path :: "'x text_lib_scheme \<Rightarrow> uuid \<Rightarrow> string" where
  "item_path L uid = SERVICE_PATH @ ''/item/'' @ segment L (CHR ''i'') uid"

definition session_path :: "'x text_lib_scheme \<Rightarrow> uuid \<Rightarrow> string" where
  "session_path L uid = SERVICE_PATH @ ''/session/'' @ segment L (CHR ''s'') uid"

definition is_ascii_alphanumeric :: "char \<Rightarrow> bool" where
  "is_ascii_alphanumeric c \<longleftrightarrow>
     is_ascii_digit c \<or> CHR ''A'' \<le> c \<and> c \<le> CHR ''Z'' \<or> CHR ''a'' \<le> c \<and> c \<le> CHR ''z''"

definition is_ascii_hexdigit :: "char \<Rightarrow> bool" where
  "is_ascii_hexdigit c \<longleftrightarrow>
     is_ascii_digit c \<or> CHR ''a'' \<le> c \<and> c \<le> CHR ''f'' \<or> CHR ''A'' \<le> c \<and> c \<le> CHR ''F''"

definition alias_path :: "string \<Rightarrow> string option" where
  "alias_path name =
     (if name \<noteq> [] \<and> list_all (\<lambda>byte. is_ascii_alphanumeric byte \<or> byte = CHR ''_'') name
      then Some (SERVICE_PATH @ ''/aliases/'' @ name) else None)"

definition parse_path ::
  "'x text_lib_scheme \<Rightarrow> string \<Rightarrow> string \<Rightarrow> char \<Rightarrow> uuid option" where
  "parse_path L path kind prefix =
     Option.bind (strip_prefix (SERVICE_PATH @ ''/'' @ kind @ ''/'') path) (\<lambda>rest.
     Option.bind (strip_prefix [prefix] rest) (\<lambda>v.
     if length v \<noteq> 32 \<or> \<not> list_all is_ascii_hexdigit v then None
     else uuid_parse_str L v))"

definition collection_id :: "'x text_lib_scheme \<Rightarrow> string \<Rightarrow> uuid option" where
  "collection_id L path = parse_path L path ''collection'' (CHR ''c'')"

definition item_id :: "'x text_lib_scheme \<Rightarrow> string \<Rightarrow> uuid option" where
  "item_id L path = parse_path L path ''item'' (CHR ''i'')"

definition session_id :: "'x text_lib_scheme \<Rightarrow> string \<Rightarrow> uuid option" where
  "session_id L path = parse_path L path ''session'' (CHR ''s'')"

lemmas path_defs = collection_path_def item_path_def session_path_def segment_def
lemmas path_id_defs = collection_id_def item_id_def session_id_def parse_path_def


section \<open>Printing and parsing\<close>

text \<open>
  \<^verbatim>\<open>Uuid::simple\<close> prints 32 hexadecimal digits in lower case, and \<^verbatim>\<open>Uuid::parse_str\<close> reads any
  32 of them, in either case.
\<close>

locale path_lib = target_lib L for L :: "'x text_lib_scheme" +
  assumes simple_length: "length (uuid_simple L u) = 32"
    and simple_hex: "list_all is_ascii_hexdigit (uuid_simple L u)"
    and parse_simple: "uuid_parse_str L (uuid_simple L u) = Some u"
    and parse_hex: "length s = 32 \<Longrightarrow> list_all is_ascii_hexdigit s \<Longrightarrow>
      \<exists>u. uuid_parse_str L s = Some u \<and> uuid_simple L u = map to_ascii_lower s"
begin

lemma simple_inj: "uuid_simple L u = uuid_simple L v \<longleftrightarrow> u = v"
  by (metis parse_simple option.inject)

lemma path_roundtrip:
  "collection_id L (collection_path L u) = Some u"
  "item_id L (item_path L u) = Some u"
  "session_id L (session_path L u) = Some u"
  by (simp_all add: path_id_defs path_defs strip_prefix_def simple_length simple_hex parse_simple)

lemma path_kinds:
  "item_path L v \<noteq> collection_path L u" "session_path L v \<noteq> collection_path L u"
  "session_path L v \<noteq> item_path L u"
  by (simp_all add: path_defs)

lemma parse_path_Some:
  assumes "parse_path L p kind c = Some u"
  shows "\<exists>s. p = SERVICE_PATH @ ''/'' @ kind @ ''/'' @ c # s \<and> map to_ascii_lower s = uuid_simple L u"
proof -
  obtain r s where p: "p = (SERVICE_PATH @ ''/'' @ kind @ ''/'') @ r" and r: "r = [c] @ s"
    and s: "length s = 32" "list_all is_ascii_hexdigit s" "uuid_parse_str L s = Some u"
    using assms by (auto simp: parse_path_def bind_eq_Some_conv strip_prefix_Some split: if_splits)
  with parse_hex [OF s(1,2)] show ?thesis by auto
qed

end

lemma alias_path_inj: "alias_path n = Some p \<Longrightarrow> alias_path m = Some p \<Longrightarrow> n = m"
  by (auto simp: alias_path_def split: if_splits)

lemma alias_path_kinds:
  assumes "alias_path n = Some p"
  shows "p \<noteq> collection_path L u" "p \<noteq> item_path L u" "p \<noteq> session_path L u"
    "p \<noteq> COMPAT_PROMPT_PATH" "p \<noteq> SERVICE_PATH"
  using assms by (auto simp: alias_path_def path_defs COMPAT_PROMPT_PATH_def SERVICE_PATH_def split: if_splits)

end
