(* ===== verification/Session_Crypto.thy ===== *)
theory Session_Crypto
  imports Provider_Error Provider_Paths
begin

unbundle bit_operations_syntax

text \<open>
  The session keys of the Secret Service protocol (\<^verbatim>\<open>crates/provider/src/crypto.rs\<close>): the
  server side of the Diffie-Hellman handshake, the HKDF derivation of the AES key, and the
  encryption of secrets in transit. Big integers, SHA-256, AES-CBC and the random source come from
  crates and are parameters; the locale \<open>crypto_laws\<close> states what the handshake relies on. A
  panic of the code is the error value \<open>Panic\<close>. Wiping freed buffers has no counterpart.
\<close>

section \<open>Panics\<close>

datatype 'e failure = Panic | Err 'e

text \<open>Fallible code inside code that may panic, and \<^verbatim>\<open>expect\<close>.\<close>

definition run_err :: "('s, 'e, 'a) act \<Rightarrow> ('s, 'e failure, 'a) act" where
  "run_err m = act_map_err Err m"

definition err :: "'e \<Rightarrow> ('s, 'e failure, 'a) act" where
  "err e = act_throw (Err e)"

definition act_expect :: "'a option \<Rightarrow> ('s, 'e failure, 'a) act" where
  "act_expect v = act_lift (ok_or Panic v)"

definition draw :: "('s \<Rightarrow> 'a \<times> 's) \<Rightarrow> ('s, 'e, 'a) act" where
  "draw f = (\<lambda>s. case f s of (x, s') \<Rightarrow> (Inr x, s'))"

lemma wp_run_err [wp_simps]: "wp (run_err m) Q s = wp m (\<lambda>r s'. Q (map_err Err r) s') s"
  by (simp add: run_err_def wp_simps)

lemma wp_err [wp_simps]: "wp (err e) Q s = Q (Inl (Err e)) s"
  by (simp add: err_def wp_simps)

lemma wp_expect [wp_simps]: "wp (act_expect v) Q s = (case v of None \<Rightarrow> Q (Inl Panic) s | Some x \<Rightarrow> Q (Inr x) s)"
  by (cases v) (simp_all add: act_expect_def wp_simps)

lemma wp_draw [wp_simps]: "wp (draw f) Q s = Q (Inr (fst (f s))) (snd (f s))"
  by (simp add: wp_def draw_def split: prod.splits)


section \<open>The crates\<close>

record crypto_lib = text_lib +
  big_parse_hex :: "string \<Rightarrow> nat option"  \<comment> \<open>\<^verbatim>\<open>BigUint::parse_bytes(_, 16)\<close>\<close>
  big_from_bytes_be :: "bytes \<Rightarrow> nat"
  big_to_bytes_be :: "nat \<Rightarrow> bytes"
  big_modpow :: "nat \<Rightarrow> nat \<Rightarrow> nat \<Rightarrow> nat"
  sha256_digest :: "bytes \<Rightarrow> bytes"
  aes_cbc_encrypt :: "bytes \<Rightarrow> bytes \<Rightarrow> bytes \<Rightarrow> bytes"  \<comment> \<open>key, IV, text; PKCS\#7 padding\<close>
  aes_cbc_decrypt :: "bytes \<Rightarrow> bytes \<Rightarrow> bytes \<Rightarrow> bytes option"


section \<open>Key derivation\<close>

definition DH_PRIME_HEX :: string where
  "DH_PRIME_HEX =
     ''FFFFFFFFFFFFFFFFC90FDAA22168C234C4C6628B80DC1CD1'' @
     ''29024E088A67CC74020BBEA63B139B22514A08798E3404D'' @
     ''DEF9519B3CD3A431B302B0A6DF25F14374FE1356D6D51C'' @
     ''245E485B576625E7EC6F44C42E9A637ED6B0BFF5CB6F406B7ED'' @
     ''EE386BFB5A899FA5AE9F24117C4B1FE649286651ECE65381'' @
     ''FFFFFFFFFFFFFFFF''"

definition DH_GROUP_BYTES :: nat where
  "DH_GROUP_BYTES = 128"

definition dh_prime :: "'x crypto_lib_scheme \<Rightarrow> nat option" where
  "dh_prime K = big_parse_hex K DH_PRIME_HEX"

definition hmac_sha256 :: "'x crypto_lib_scheme \<Rightarrow> bytes \<Rightarrow> bytes \<Rightarrow> bytes" where
  "hmac_sha256 K key v =
     (let short = (if 64 < length key then sha256_digest K key else key);
          padded_key = short @ replicate (64 - length short) 0;
          inner_hash = sha256_digest K (map (\<lambda>b. b XOR 0x36) padded_key @ v)
      in sha256_digest K (map (\<lambda>b. b XOR 0x5c) padded_key @ inner_hash))"

definition derive_aes_key :: "'x crypto_lib_scheme \<Rightarrow> bytes \<Rightarrow> bytes" where
  "derive_aes_key K shared_secret =
     (let pseudorandom_key = hmac_sha256 K (replicate 32 0) shared_secret
      in take 16 (hmac_sha256 K pseudorandom_key [1]))"

text \<open>The slice bound is computed by subtraction: a longer encoding would panic.\<close>

definition derive_dh_aes_key :: "'x crypto_lib_scheme \<Rightarrow> nat \<Rightarrow> bytes option" where
  "derive_dh_aes_key K shared =
     (let encoded = big_to_bytes_be K shared
      in if DH_GROUP_BYTES < length encoded then None
         else Some (derive_aes_key K (replicate (DH_GROUP_BYTES - length encoded) 0 @ encoded)))"


section \<open>Session keys\<close>

datatype SessionKey = Plain | Dh (dh_key: bytes)

definition plain :: SessionKey where
  "plain = Plain"

definition checked_iv :: "bytes \<Rightarrow> ProviderError + bytes" where
  "checked_iv parameters =
     (if length parameters = 16 then Inr parameters
      else Inl (ProviderError.InvalidRequest ''DH sessions require a 16-byte AES-CBC IV''))"

definition invalid_public_key :: ProviderError where
  "invalid_public_key = ProviderError.InvalidRequest ''invalid DH public key''"

definition open_dh ::
  "'x crypto_lib_scheme \<Rightarrow> (nat \<Rightarrow> nat \<Rightarrow> 'w \<Rightarrow> nat \<times> 'w) \<Rightarrow> bytes \<Rightarrow>
   ('w, ProviderError failure, SessionKey \<times> bytes) act" where
  "open_dh K gen_biguint_range client_public =
     (if client_public = [] \<or> 128 < length client_public then err invalid_public_key
      else
        act_bind (act_expect (dh_prime K)) (\<lambda>prime.
        let client = big_from_bytes_be K client_public in
        if client < 2 \<or> prime - 2 \<le> client then err invalid_public_key
        else
          act_bind (draw (gen_biguint_range 2 (prime - 2))) (\<lambda>drawn.
          let private_number = big_from_bytes_be K (big_to_bytes_be K drawn);
              server = big_modpow K 2 private_number prime;
              shared = big_modpow K client private_number prime
          in
          act_bind (act_expect (derive_dh_aes_key K shared)) (\<lambda>key.
          act_return (Dh key, big_to_bytes_be K server)))))"

fun encrypt :: "'x crypto_lib_scheme \<Rightarrow> SessionKey \<Rightarrow> bytes \<Rightarrow> bytes \<Rightarrow> ProviderError + bytes" where
  "encrypt K Plain parameters secret =
     (if parameters \<noteq> [] then
        Inl (ProviderError.InvalidRequest ''plain sessions require empty parameters'')
      else Inr secret)"
| "encrypt K (Dh key) parameters secret =
     res_bind (checked_iv parameters) (\<lambda>iv. Inr (aes_cbc_encrypt K key iv secret))"

fun decrypt :: "'x crypto_lib_scheme \<Rightarrow> SessionKey \<Rightarrow> bytes \<Rightarrow> bytes \<Rightarrow> ProviderError + bytes" where
  "decrypt K Plain parameters encrypted =
     (if parameters \<noteq> [] then
        Inl (ProviderError.InvalidRequest ''plain sessions require empty parameters'')
      else Inr encrypted)"
| "decrypt K (Dh key) parameters encrypted =
     res_bind (checked_iv parameters) (\<lambda>iv.
     ok_or (ProviderError.InvalidRequest ''invalid encrypted secret'')
       (aes_cbc_decrypt K key iv encrypted))"


section \<open>The handshake\<close>

definition hex_digit_value :: "char \<Rightarrow> nat" where
  "hex_digit_value c =
     (if is_ascii_digit c then of_char c - 48
      else if CHR ''a'' \<le> c then of_char c - 87 else of_char c - 55)"

definition hex_number :: "string \<Rightarrow> nat" where
  "hex_number s = foldl (\<lambda>n c. n * 16 + hex_digit_value c) 0 s"

lemma hex_digit_value_less: "is_ascii_hexdigit c \<Longrightarrow> hex_digit_value c < 16"
  by (auto simp: is_ascii_hexdigit_def is_ascii_digit_def hex_digit_value_def less_eq_char_def)

lemma foldl_hex_bounds:
  "list_all is_ascii_hexdigit s \<Longrightarrow>
   a * 16 ^ length s \<le> foldl (\<lambda>n c. n * 16 + hex_digit_value c) a s \<and>
   foldl (\<lambda>n c. n * 16 + hex_digit_value c) a s < (a + 1) * 16 ^ length s"
proof (induction s arbitrary: a)
  case (Cons c s)
  let ?b = "a * 16 + hex_digit_value c"
  have d: "hex_digit_value c < 16" using Cons.prems by (simp add: hex_digit_value_less)
  have lo: "a * 16 * 16 ^ length s \<le> ?b * 16 ^ length s" by (rule mult_right_mono) simp_all
  have hi: "(?b + 1) * 16 ^ length s \<le> (a + 1) * 16 * 16 ^ length s"
    using d by (intro mult_right_mono) simp_all
  have IH: "?b * 16 ^ length s \<le> foldl (\<lambda>n c. n * 16 + hex_digit_value c) ?b s"
    "foldl (\<lambda>n c. n * 16 + hex_digit_value c) ?b s < (?b + 1) * 16 ^ length s"
    using Cons.IH [of ?b] Cons.prems by auto
  show ?case
    using order_trans [OF lo IH(1)] less_le_trans [OF IH(2) hi] by (simp add: mult.assoc add_mult_distrib)
qed simp

lemma DH_PRIME_HEX_digits: "list_all is_ascii_hexdigit DH_PRIME_HEX" "length DH_PRIME_HEX = 256"
  by (simp_all add: DH_PRIME_HEX_def is_ascii_hexdigit_def is_ascii_digit_def less_eq_char_def)

lemma dh_prime_bounds: "4 < hex_number DH_PRIME_HEX" "hex_number DH_PRIME_HEX < 256 ^ DH_GROUP_BYTES"
  "65536 < hex_number DH_PRIME_HEX"
proof -
  obtain r where r: "DH_PRIME_HEX = CHR ''F'' # r" by (simp add: DH_PRIME_HEX_def)
  have l: "length r = 255" "list_all is_ascii_hexdigit r" using DH_PRIME_HEX_digits by (simp_all add: r)
  have "hex_number DH_PRIME_HEX = foldl (\<lambda>n c. n * 16 + hex_digit_value c) 15 r"
    by (simp add: r hex_number_def hex_digit_value_def is_ascii_digit_def less_eq_char_def)
  with foldl_hex_bounds [OF l(2), of 15] have "15 * 16 ^ 255 \<le> hex_number DH_PRIME_HEX"
    by (simp add: l)
  moreover have "(65536 :: nat) < 15 * 16 ^ 255" by simp
  ultimately show "65536 < hex_number DH_PRIME_HEX" by linarith
  then show "4 < hex_number DH_PRIME_HEX" by linarith
  have "hex_number DH_PRIME_HEX < 16 ^ 256"
    using foldl_hex_bounds [OF DH_PRIME_HEX_digits(1), of 0] DH_PRIME_HEX_digits(2) by (simp add: hex_number_def)
  then show "hex_number DH_PRIME_HEX < 256 ^ DH_GROUP_BYTES" by (simp add: DH_GROUP_BYTES_def)
qed

text \<open>
  Hexadecimal parsing, big-endian bytes of minimal length, modular powers, and CBC decryption that
  inverts encryption under the same key and IV.
\<close>

locale crypto_laws =
  fixes K :: "'x crypto_lib_scheme"
  assumes parse_hex_number: "s \<noteq> [] \<Longrightarrow> list_all is_ascii_hexdigit s \<Longrightarrow>
      big_parse_hex K s = Some (hex_number s)"
    and from_to_bytes: "big_from_bytes_be K (big_to_bytes_be K n) = n"
    and to_bytes_length: "n < 256 ^ k \<Longrightarrow> 0 < k \<Longrightarrow> length (big_to_bytes_be K n) \<le> k"
    and modpow_spec: "0 < p \<Longrightarrow> big_modpow K b e p = b ^ e mod p"
    and sha256_length: "length (sha256_digest K bs) = 32"
    and aes_decrypt_encrypt: "length key = 16 \<Longrightarrow> length iv = 16 \<Longrightarrow>
      aes_cbc_decrypt K key iv (aes_cbc_encrypt K key iv m) = Some m"
begin

lemma dh_prime_Some: "dh_prime K = Some (hex_number DH_PRIME_HEX)"
  using DH_PRIME_HEX_digits by (auto simp: dh_prime_def intro!: parse_hex_number)

lemma derive_key_length: "length (derive_aes_key K bs) = 16"
  by (simp add: derive_aes_key_def hmac_sha256_def Let_def sha256_length)

lemma derive_dh_Some:
  assumes "n < hex_number DH_PRIME_HEX"
  shows "\<exists>key. derive_dh_aes_key K n = Some key \<and> length key = 16"
proof -
  have "length (big_to_bytes_be K n) \<le> DH_GROUP_BYTES"
    using assms dh_prime_bounds(2) by (intro to_bytes_length) (simp_all add: DH_GROUP_BYTES_def)
  then show ?thesis by (simp add: derive_dh_aes_key_def Let_def derive_key_length)
qed

lemma open_dh_wp:
  "wp (open_dh K gen pub)
     (\<lambda>r t. (\<exists>e. r = Inl (Err e) \<and> t = w) \<or>
        (\<exists>key. let d = fst (gen 2 (hex_number DH_PRIME_HEX - 2) w) in
           r = Inr (Dh key, big_to_bytes_be K (2 ^ d mod hex_number DH_PRIME_HEX)) \<and>
           derive_dh_aes_key K (big_from_bytes_be K pub ^ d mod hex_number DH_PRIME_HEX) = Some key \<and>
           length key = 16)) w"
proof -
  have key: "\<exists>key. derive_dh_aes_key K (b mod hex_number DH_PRIME_HEX) = Some key \<and> length key = 16" for b
    using derive_dh_Some [of "b mod hex_number DH_PRIME_HEX"] dh_prime_bounds(1) by auto
  then obtain k where "derive_dh_aes_key K (big_from_bytes_be K pub ^
      fst (gen 2 (hex_number DH_PRIME_HEX - 2) w) mod hex_number DH_PRIME_HEX) = Some k" "length k = 16"
    by blast
  then show ?thesis
    using dh_prime_bounds(1)
    by (auto simp: open_dh_def wp_simps Let_def dh_prime_Some from_to_bytes modpow_spec)
qed

lemma open_dh_no_panic: "wp (open_dh K gen pub) (\<lambda>r t. r \<noteq> Inl Panic) w"
  by (rule wp_mono [OF open_dh_wp]) (auto simp: Let_def)

text \<open>A public value in range is accepted.\<close>

lemma open_dh_ok:
  assumes "pub \<noteq> []" and "length pub \<le> 128" and "2 \<le> big_from_bytes_be K pub"
    and "big_from_bytes_be K pub < hex_number DH_PRIME_HEX - 2"
  shows "wp (open_dh K gen pub) (\<lambda>r t. is_ok r) w"
proof -
  obtain k where "derive_dh_aes_key K (big_from_bytes_be K pub ^
      fst (gen 2 (hex_number DH_PRIME_HEX - 2) w) mod hex_number DH_PRIME_HEX) = Some k"
    using derive_dh_Some dh_prime_bounds(1)
    by (metis gr_zeroI less_zeroE mod_less_divisor)
  then show ?thesis
    using assms dh_prime_bounds(1)
    by (simp add: open_dh_def wp_simps Let_def dh_prime_Some from_to_bytes modpow_spec)
qed

text \<open>Both sides arrive at the same key: the client raises the public value it got to its exponent.\<close>

lemma dh_agreement:
  assumes "wp (open_dh K gen pub) (\<lambda>r t. r = Inr (Dh key, server)) w"
    and "big_from_bytes_be K pub = 2 ^ c mod hex_number DH_PRIME_HEX"
  shows "derive_dh_aes_key K (big_from_bytes_be K server ^ c mod hex_number DH_PRIME_HEX) = Some key"
proof -
  define d where "d = fst (gen 2 (hex_number DH_PRIME_HEX - 2) w)"
  have "server = big_to_bytes_be K (2 ^ d mod hex_number DH_PRIME_HEX)"
    and "derive_dh_aes_key K (big_from_bytes_be K pub ^ d mod hex_number DH_PRIME_HEX) = Some key"
    using wp_conj [OF assms(1) open_dh_wp] by (auto simp: wp_def Let_def d_def)
  then show ?thesis
    by (simp add: assms(2) from_to_bytes power_mod power_mult [symmetric] mult.commute)
qed

lemma decrypt_encrypt:
  assumes "case key of Plain \<Rightarrow> iv = [] | Dh k \<Rightarrow> length k = 16 \<and> length iv = 16"
  shows "\<exists>v. encrypt K key iv m = Inr v \<and> decrypt K key iv v = Inr m"
  using assms by (cases key) (auto simp: checked_iv_def aes_decrypt_encrypt)

end

end
