(* ===== verification/Provider_Service.thy ===== *)
theory Provider_Service
  imports Session_Crypto "HOL-Library.Product_Lexorder"
begin

text \<open>
  The provider's core (\<^verbatim>\<open>Provider\<close> in \<^verbatim>\<open>crates/provider/src/service.rs\<close>): the typed
  operations on the broker, the table of sessions with their owners and keys, and the decoding and
  encoding of secrets. Everything outside the repository that a handler touches is a field of the
  record \<open>platform\<close>: the broker client, the clock, the random sources, and the D-Bus library
  (object server, signals, variant values, path validation). The state is the session table and
  the platform's world \<open>'w\<close>.
\<close>

section \<open>The platform\<close>

datatype dbus_interface = CollectionIface | ItemIface | SessionIface | PromptIface

datatype dbus_object =
    CollectionObject uuid
  | ItemObject uuid
  | SessionObject uuid
  | PromptObject

datatype dbus_signal =
    CollectionCreated string
  | CollectionDeleted string
  | CollectionChanged string
  | AliasesChanged
  | ItemCreated string
  | ItemDeleted string
  | ItemChanged string
  | SecretChanged
  | Completed bool string

record ('w, 'v) platform = crypto_lib +
  broker_call :: "Operation \<Rightarrow> ('w, ProviderError, ResponseBody) act"
  unix_time :: "'w \<Rightarrow> u64 option \<times> 'w"  \<comment> \<open>seconds since the epoch, none before it\<close>
  new_v4 :: "'w \<Rightarrow> uuid \<times> 'w"
  gen_biguint_range :: "nat \<Rightarrow> nat \<Rightarrow> 'w \<Rightarrow> nat \<times> 'w"
  try_fill_bytes :: "nat \<Rightarrow> ('w, unit, bytes) act"
  server_at :: "string \<Rightarrow> dbus_object \<Rightarrow> ('w, string, bool) act"
  server_remove :: "dbus_interface \<Rightarrow> string \<Rightarrow> ('w, string, bool) act"
  emit_signal :: "string \<Rightarrow> dbus_signal \<Rightarrow> ('w, string, unit) act"  \<comment> \<open>from the object at the path\<close>
  valid_object_path :: "string \<Rightarrow> bool"
  variant_string :: "string \<Rightarrow> 'v option"
  variant_bytes :: "bytes \<Rightarrow> 'v option"
  value_string :: "'v \<Rightarrow> string option"
  value_bytes :: "'v \<Rightarrow> bytes option"
  value_string_map :: "'v \<Rightarrow> (string \<times> string) list option"
  dbus_error_text :: "SecretServiceError \<Rightarrow> string"

text \<open>
  A \<^verbatim>\<open>HashMap\<close> is the list of its entries in the order it iterates in, which Rust leaves
  open; a key occurs once.
\<close>

definition hm_insert :: "'k \<Rightarrow> 'a \<Rightarrow> ('k \<times> 'a) list \<Rightarrow> ('k \<times> 'a) list" where
  "hm_insert k v m = (k, v) # filter (\<lambda>(a, _). a \<noteq> k) m"

definition hm_remove :: "'k \<Rightarrow> ('k \<times> 'a) list \<Rightarrow> ('k \<times> 'a) list" where
  "hm_remove k m = filter (\<lambda>(a, _). a \<noteq> k) m"

text \<open>\<^verbatim>\<open>into_iter().collect()\<close> from a hash map into an ordered one.\<close>

definition to_btree :: "(string \<times> string) list \<Rightarrow> (string, string) btree" where
  "to_btree m = fold (\<lambda>(k, v). bt_insert k v) m []"

type_synonym DbusSecret = "string \<times> bytes \<times> bytes \<times> string"

record SessionRecord =
  sr_owner :: string
  sr_key :: SessionKey

record 'w provider =
  sessions :: "(uuid \<times> SessionRecord) list"
  world :: 'w

type_synonym ('w, 'a) handler = "('w provider, ProviderError failure, 'a) act"

definition Provider_new :: "'w \<Rightarrow> 'w provider" where
  "Provider_new w = \<lparr>sessions = [], world = w\<rparr>"

definition on_world :: "('w, 'e, 'a) act \<Rightarrow> ('w provider, 'e, 'a) act" where
  "on_world m s = (case m (world s) of (r, w) \<Rightarrow> (r, s\<lparr>world := w\<rparr>))"

lemma wp_on_world [wp_simps]: "wp (on_world m) Q s = wp m (\<lambda>r w. Q r (s\<lparr>world := w\<rparr>)) (world s)"
  by (simp add: wp_def on_world_def split: prod.splits)

definition sessions_of :: "('w provider, 'e, (uuid \<times> SessionRecord) list) act" where
  "sessions_of s = (Inr (sessions s), s)"

definition set_sessions :: "(uuid \<times> SessionRecord) list \<Rightarrow> ('w provider, 'e, unit) act" where
  "set_sessions m s = (Inr (), s\<lparr>sessions := m\<rparr>)"

lemma wp_sessions_of [wp_simps]: "wp sessions_of Q s = Q (Inr (sessions s)) s"
  by (simp add: wp_def sessions_of_def)

lemma wp_set_sessions [wp_simps]: "wp (set_sessions m) Q s = Q (Inr ()) (s\<lparr>sessions := m\<rparr>)"
  by (simp add: wp_def set_sessions_def)


section \<open>Helpers\<close>

definition now :: "('w, 'v) platform \<Rightarrow> ('w, u64) handler" where
  "now P =
     act_bind (on_world (draw (unix_time P))) (\<lambda>t.
     act_return (case t of Some secs \<Rightarrow> secs | None \<Rightarrow> 0))"

definition fresh_uuid :: "('w, 'v) platform \<Rightarrow> ('w provider, 'e failure, uuid) act" where
  "fresh_uuid P = on_world (draw (new_v4 P))"

definition object_path :: "('w, 'v) platform \<Rightarrow> string \<Rightarrow> ('s, 'e failure, string) act" where
  "object_path P v = act_expect (if valid_object_path P v then Some v else None)"

definition variant :: "'v option \<Rightarrow> ('s, 'e failure, 'v) act" where
  "variant v = act_expect v"

definition check_protocol :: "ProtocolError + 'a \<Rightarrow> ('s, ProviderError failure, 'a) act" where
  "check_protocol r = run_err (act_lift (map_err provider_of_protocol_error r))"

definition collection_label ::
  "('w, 'v) platform \<Rightarrow> (string \<times> 'v) list \<Rightarrow> ProviderError + string" where
  "collection_label P properties =
     (case (case map_of properties ''Label'' of
              Some v \<Rightarrow> Some v
            | None \<Rightarrow> map_of properties ''org.freedesktop.Secret.Collection.Label'') of
        Some v \<Rightarrow>
          ok_or (ProviderError.InvalidRequest ''collection Label must be a string'') (value_string P v)
      | None \<Rightarrow> Inr ''Default'')"

definition item_properties ::
  "('w, 'v) platform \<Rightarrow> (string \<times> 'v) list \<Rightarrow> ProviderError + string \<times> (string, string) btree" where
  "item_properties P properties =
     res_bind
       (res_bind
         (ok_or (ProviderError.InvalidRequest ''item Label is required'')
           (case map_of properties ''Label'' of
              Some v \<Rightarrow> Some v
            | None \<Rightarrow> map_of properties ''org.freedesktop.Secret.Item.Label'')) (\<lambda>v.
          ok_or (ProviderError.InvalidRequest ''item Label must be a string'') (value_string P v))) (\<lambda>label.
     res_bind
       (case (case map_of properties ''Attributes'' of
                Some v \<Rightarrow> Some v
              | None \<Rightarrow> map_of properties ''org.freedesktop.Secret.Item.Attributes'') of
          Some v \<Rightarrow>
            res_bind
              (ok_or (ProviderError.InvalidRequest ''item Attributes must be a{ss}'')
                (value_string_map P v)) (\<lambda>m.
            Inr (to_btree m))
        | None \<Rightarrow> Inr []) (\<lambda>attributes.
     Inr (label, attributes)))"


section \<open>Requests to the broker\<close>

definition response :: "('w, 'v) platform \<Rightarrow> Operation \<Rightarrow> ('w, ResponseBody) handler" where
  "response P operation = run_err (on_world (broker_call P operation))"

definition collections :: "('w, 'v) platform \<Rightarrow> ('w, CollectionMetadata list) handler" where
  "collections P =
     act_bind (response P ListCollections) (\<lambda>body.
     case body of ResponseBody.Collections cs \<Rightarrow> act_return cs | _ \<Rightarrow> err Transport)"

definition collection :: "('w, 'v) platform \<Rightarrow> uuid \<Rightarrow> ('w, CollectionMetadata) handler" where
  "collection P uid =
     act_bind (response P (GetCollection uid)) (\<lambda>body.
     case body of ResponseBody.Collection c \<Rightarrow> act_return c | _ \<Rightarrow> err Transport)"

definition items :: "('w, 'v) platform \<Rightarrow> uuid \<Rightarrow> ('w, ItemMetadata list) handler" where
  "items P cid =
     act_bind (response P (ListItems cid)) (\<lambda>body.
     case body of ResponseBody.Items ms \<Rightarrow> act_return ms | _ \<Rightarrow> err Transport)"

definition item ::
  "('w, 'v) platform \<Rightarrow> uuid \<Rightarrow> bool \<Rightarrow> ('w, ItemMetadata \<times> SecretBytes option) handler" where
  "item P uid include_secret =
     act_bind (response P (GetItem uid include_secret)) (\<lambda>body.
     case body of ResponseBody.Item m x \<Rightarrow> act_return (m, x) | _ \<Rightarrow> err Transport)"

definition provider_create_collection ::
  "('w, 'v) platform \<Rightarrow> string \<Rightarrow> ('w, CollectionMetadata) handler" where
  "provider_create_collection P label =
     act_bind (check_protocol (validate_label label)) (\<lambda>_.
     act_bind (now P) (\<lambda>timestamp.
     act_bind (fresh_uuid P) (\<lambda>uid.
     act_bind (response P (CreateCollection
       \<lparr>c_schema_version = 1, c_id = uid, c_label = label, c_created = timestamp,
        c_modified = timestamp\<rparr>)) (\<lambda>body.
     case body of ResponseBody.Collection c \<Rightarrow> act_return c | _ \<Rightarrow> err Transport))))"

definition update_collection_label ::
  "('w, 'v) platform \<Rightarrow> uuid \<Rightarrow> string \<Rightarrow> ('w, unit) handler" where
  "update_collection_label P uid label =
     act_bind (check_protocol (validate_label label)) (\<lambda>_.
     act_bind (collection P uid) (\<lambda>c.
     act_bind (now P) (\<lambda>timestamp.
     act_bind (response P (UpdateCollection (c\<lparr>c_label := label, c_modified := timestamp\<rparr>))) (\<lambda>body.
     case body of ResponseBody.Collection _ \<Rightarrow> act_return () | _ \<Rightarrow> err Transport))))"

definition provider_delete_collection :: "('w, 'v) platform \<Rightarrow> uuid \<Rightarrow> ('w, unit) handler" where
  "provider_delete_collection P uid =
     act_bind (response P (DeleteCollection uid)) (\<lambda>body.
     case body of ResponseBody.Empty \<Rightarrow> act_return () | _ \<Rightarrow> err Transport)"

definition provider_create_item ::
  "('w, 'v) platform \<Rightarrow> uuid \<Rightarrow> string \<Rightarrow> (string, string) btree \<Rightarrow> string \<Rightarrow> SecretBytes \<Rightarrow> bool \<Rightarrow>
   ('w, ItemMetadata \<times> uuid list \<times> uuid list) handler" where
  "provider_create_item P cid label attributes content_type secret replace =
     act_bind (check_protocol (validate_label label)) (\<lambda>_.
     act_bind (check_protocol (validate_attributes attributes)) (\<lambda>_.
     act_bind (check_protocol (validate_content_type content_type)) (\<lambda>_.
     act_bind (now P) (\<lambda>timestamp.
     act_bind (fresh_uuid P) (\<lambda>uid.
     act_bind (fresh_uuid P) (\<lambda>generation.
     act_bind (response P (CreateOrReplaceItem
       \<lparr>i_schema_version = 1, i_id = uid, i_collection_id = cid, i_label = label,
        i_attributes = attributes, i_content_type = content_type, i_created = timestamp,
        i_modified = timestamp, i_current_generation = generation\<rparr> secret replace)) (\<lambda>body.
     case body of
       ResponseBody.ReplacedItem m replaced_item_ids cleanup_failed_item_ids \<Rightarrow>
         act_return (m, replaced_item_ids, cleanup_failed_item_ids)
     | _ \<Rightarrow> err Transport)))))))"

definition provider_update_item ::
  "('w, 'v) platform \<Rightarrow> ItemMetadata \<Rightarrow> SecretBytes option \<Rightarrow> ('w, ItemMetadata) handler" where
  "provider_update_item P m secret =
     act_bind (check_protocol (validate_label (i_label m))) (\<lambda>_.
     act_bind (check_protocol (validate_attributes (i_attributes m))) (\<lambda>_.
     act_bind (check_protocol (validate_content_type (i_content_type m))) (\<lambda>_.
     let expected_modified = i_modified m in
     act_bind (now P) (\<lambda>timestamp.
     let m = m\<lparr>i_modified := timestamp\<rparr> in
     act_bind
       (if secret \<noteq> None then
          act_bind (fresh_uuid P) (\<lambda>generation. act_return (m\<lparr>i_current_generation := generation\<rparr>))
        else act_return m) (\<lambda>m.
     act_bind (response P (UpdateItemCas m secret expected_modified)) (\<lambda>body.
     case body of ResponseBody.Item m _ \<Rightarrow> act_return m | _ \<Rightarrow> err Transport))))))"

definition provider_delete_item :: "('w, 'v) platform \<Rightarrow> uuid \<Rightarrow> ('w, unit) handler" where
  "provider_delete_item P uid =
     act_bind (response P (DeleteItem uid)) (\<lambda>body.
     case body of ResponseBody.Empty \<Rightarrow> act_return () | _ \<Rightarrow> err Transport)"

definition provider_resolve_alias ::
  "('w, 'v) platform \<Rightarrow> string \<Rightarrow> ('w, AliasMetadata option) handler" where
  "provider_resolve_alias P name =
     act_bind (response P (ResolveAlias name)) (\<lambda>body.
     case body of ResponseBody.Alias a \<Rightarrow> act_return a | _ \<Rightarrow> err Transport)"

fun dedup_by_name :: "AliasMetadata list \<Rightarrow> AliasMetadata list" where
  "dedup_by_name [] = []"
| "dedup_by_name [a] = [a]"
| "dedup_by_name (a # b # as) =
     (if a_name b = a_name a then dedup_by_name (a # as) else a # dedup_by_name (b # as))"

definition aliases :: "('w, 'v) platform \<Rightarrow> ('w, AliasMetadata list) handler" where
  "aliases P =
     act_bind (response P ListAliases) (\<lambda>body.
     case body of
       ResponseBody.Aliases as \<Rightarrow>
         act_return (dedup_by_name (sort_key (\<lambda>a. (a_name a, a_collection_id a)) as))
     | _ \<Rightarrow> err Transport)"

definition provider_set_alias ::
  "('w, 'v) platform \<Rightarrow> string \<Rightarrow> uuid option \<Rightarrow> ('w, unit) handler" where
  "provider_set_alias P name cid =
     act_bind (check_protocol (validate_alias_name name)) (\<lambda>_.
     act_bind
       (case cid of
          Some uid \<Rightarrow>
            response P (SetAlias \<lparr>a_schema_version = 1, a_name = name, a_collection_id = uid\<rparr>)
        | None \<Rightarrow> response P (RemoveAlias name)) (\<lambda>body.
     case body of
       ResponseBody.Empty \<Rightarrow> act_return ()
     | ResponseBody.Alias (Some _) \<Rightarrow> act_return ()
     | _ \<Rightarrow> err Transport))"

definition search :: "('w, 'v) platform \<Rightarrow> (string, string) btree \<Rightarrow> ('w, ItemMetadata list) handler" where
  "search P attributes =
     act_bind (check_protocol (validate_attributes attributes)) (\<lambda>_.
     act_bind (response P (SearchItems attributes)) (\<lambda>body.
     case body of ResponseBody.Items ms \<Rightarrow> act_return ms | _ \<Rightarrow> err Transport))"


section \<open>Sessions\<close>

definition DH_ALGORITHM :: string where
  "DH_ALGORITHM = ''dh-ietf1024-sha256-aes128-cbc-pkcs7''"

definition provider_open_session ::
  "('w, 'v) platform \<Rightarrow> string \<Rightarrow> 'v \<Rightarrow> ('w, 'v \<times> uuid \<times> SessionKey) handler" where
  "provider_open_session P algorithm input =
     act_bind
       (if algorithm = ''plain'' then
          (case value_string P input of
             None \<Rightarrow> err (ProviderError.InvalidRequest ''plain session input must be a string'')
           | Some text \<Rightarrow>
               if text \<noteq> [] then err (ProviderError.InvalidRequest ''plain session input must be empty'')
               else act_bind (variant (variant_string P [])) (\<lambda>output. act_return (output, plain)))
        else if algorithm = DH_ALGORITHM then
          (case value_bytes P input of
             None \<Rightarrow> err (ProviderError.InvalidRequest ''DH session input must be a byte array'')
           | Some public \<Rightarrow>
               act_bind (on_world (open_dh P (gen_biguint_range P) public)) (\<lambda>(key, public).
               act_bind (variant (variant_bytes P public)) (\<lambda>output. act_return (output, key))))
        else err (ProviderError.InvalidRequest (''unsupported session algorithm: '' @ algorithm)))
       (\<lambda>(output, key).
     act_bind (fresh_uuid P) (\<lambda>uid. act_return (output, uid, key)))"

definition insert_session :: "uuid \<Rightarrow> string \<Rightarrow> SessionKey \<Rightarrow> ('w provider, 'e, unit) act" where
  "insert_session uid owner key =
     act_bind sessions_of (\<lambda>m. set_sessions (hm_insert uid \<lparr>sr_owner = owner, sr_key = key\<rparr> m))"

text \<open>The lookup every use of a session starts with.\<close>

definition owned_session :: "uuid \<Rightarrow> string \<Rightarrow> ('w, SessionRecord) handler" where
  "owned_session uid owner =
     act_bind sessions_of (\<lambda>m.
     case map_of m uid of
       None \<Rightarrow> err InvalidSession
     | Some record \<Rightarrow> if sr_owner record \<noteq> owner then err InvalidSession else act_return record)"

definition close_session :: "uuid \<Rightarrow> string \<Rightarrow> ('w, unit) handler" where
  "close_session uid owner =
     act_bind (owned_session uid owner) (\<lambda>_.
     act_bind sessions_of (\<lambda>m. set_sessions (hm_remove uid m)))"

definition remove_owner :: "string \<Rightarrow> ('w provider, 'e, uuid list) act" where
  "remove_owner owner =
     act_bind sessions_of (\<lambda>m.
     act_bind (set_sessions (filter (\<lambda>(_, record). sr_owner record \<noteq> owner) m)) (\<lambda>_.
     act_return (map fst (filter (\<lambda>(_, record). sr_owner record = owner) m))))"

definition decode_secret ::
  "('w, 'v) platform \<Rightarrow> string \<Rightarrow> DbusSecret \<Rightarrow> ('w, uuid \<times> SecretBytes \<times> string) handler" where
  "decode_secret P owner = (\<lambda>(session, parameters, content, content_type).
     case session_id P session of
       None \<Rightarrow> err (ProviderError.InvalidRequest ''secret contains an invalid session path'')
     | Some uid \<Rightarrow>
         act_bind (owned_session uid owner) (\<lambda>record.
         act_bind (run_err (act_lift (decrypt P (sr_key record) parameters content))) (\<lambda>clear.
         if MAX_SECRET_BYTES < length clear then err ProviderError.SecretTooLarge
         else
           act_bind (check_protocol (SecretBytes_new clear)) (\<lambda>secret.
           act_return (uid, secret, content_type)))))"

definition encode_secret ::
  "('w, 'v) platform \<Rightarrow> string \<Rightarrow> uuid \<Rightarrow> SecretBytes \<Rightarrow> string \<Rightarrow> ('w, DbusSecret) handler" where
  "encode_secret P owner session secret content_type =
     act_bind (owned_session session owner) (\<lambda>record.
     act_bind
       (case sr_key record of
          Plain \<Rightarrow>
            act_bind (run_err (act_lift (encrypt P (sr_key record) [] (expose secret)))) (\<lambda>v.
            act_return ([], v))
        | Dh _ \<Rightarrow>
            act_bind (run_err (act_map_err (\<lambda>_. Indeterminate) (on_world (try_fill_bytes P 16)))) (\<lambda>parameters.
            act_bind (run_err (act_lift (encrypt P (sr_key record) parameters (expose secret)))) (\<lambda>v.
            act_return (parameters, v)))) (\<lambda>(parameters, v).
     act_bind (object_path P (session_path P session)) (\<lambda>path.
     act_return (path, parameters, v, content_type))))"

end
