(* ===== verification/Provider_Objects.thy ===== *)
theory Provider_Objects
  imports Provider_Service
begin

text \<open>
  The D-Bus objects of the provider (the interfaces \<^verbatim>\<open>org.freedesktop.Secret.Service\<close>,
  \<^verbatim>\<open>.Collection\<close>, \<^verbatim>\<open>.Item\<close>, \<^verbatim>\<open>.Session\<close> and \<^verbatim>\<open>.Prompt\<close> in
  \<^verbatim>\<open>crates/provider/src/service.rs\<close>): one definition per method and per property accessor,
  with every registration, signal and rollback. \<open>sender\<close> is the caller's bus name from the
  message header and \<open>here\<close> the path the object was called at, from which its signals are sent.
\<close>

type_synonym ('w, 'a) dbus_method = "('w provider, SecretServiceError failure, 'a) act"
type_synonym ('w, 'a) dbus_property = "('w provider, fdo_error failure, 'a) act"

section \<open>Conversions\<close>

definition dbus :: "('w provider, ProviderError failure, 'a) act \<Rightarrow> ('w, 'a) dbus_method" where
  "dbus m = act_map_err (map_failure provider_error_to_dbus) m"

definition fdo :: "('w, 'v) platform \<Rightarrow> ('w, 'a) dbus_method \<Rightarrow> ('w, 'a) dbus_property" where
  "fdo P m = act_map_err (map_failure (fdo_of_dbus (dbus_error_text P))) m"

text \<open>\<^verbatim>\<open>let _ = ...\<close>: the error is dropped, a panic is not.\<close>

definition ignore :: "('s, 'e failure, 'a) act \<Rightarrow> ('s, 'f failure, unit) act" where
  "ignore m s = (case m s of (Inl Panic, s') \<Rightarrow> (Inl Panic, s') | (_, s') \<Rightarrow> (Inr (), s'))"

lemma wp_ignore [wp_simps]:
  "wp (ignore m) Q s = wp m (\<lambda>r t. Q (if r = Inl Panic then Inl Panic else Inr ()) t) s"
  by (auto simp: wp_def ignore_def split: prod.splits sum.splits failure.splits)

lemma wp_dbus [wp_simps]: "wp (dbus m) Q s = wp m (\<lambda>r t. Q (map_err (map_failure provider_error_to_dbus) r) t) s"
  by (simp add: dbus_def wp_simps)

lemma wp_fdo [wp_simps]:
  "wp (fdo P m) Q s = wp m (\<lambda>r t. Q (map_err (map_failure (fdo_of_dbus (dbus_error_text P))) r) t) s"
  by (simp add: fdo_def wp_simps)

text \<open>\<^verbatim>\<open>if let Err(error) = ... { ...; return Err(..) }\<close>\<close>

definition on_err ::
  "('s, 'e failure, 'a) act \<Rightarrow> ('e \<Rightarrow> ('s, 'f failure, 'a) act) \<Rightarrow> ('s, 'f failure, 'a) act" where
  "on_err m h s =
     (case m s of
        (Inr x, s') \<Rightarrow> (Inr x, s')
      | (Inl (Err e), s') \<Rightarrow> h e s'
      | (Inl Panic, s') \<Rightarrow> (Inl Panic, s'))"

lemma wp_on_err [wp_simps]:
  "wp (on_err m h) Q s =
   wp m (\<lambda>r t. case r of Inr x \<Rightarrow> Q (Inr x) t | Inl (Err e) \<Rightarrow> wp (h e) Q t | Inl Panic \<Rightarrow> Q (Inl Panic) t) s"
  by (auto simp: wp_def on_err_def split: prod.splits sum.splits failure.splits)

definition caller :: "string option \<Rightarrow> ('w, string) dbus_method" where
  "caller sender =
     (case sender of
        Some name \<Rightarrow> act_return name
      | None \<Rightarrow> err (AccessDenied ''missing D-Bus caller identity''))"

definition lib_call :: "'e \<Rightarrow> ('w, string, 'a) act \<Rightarrow> ('w provider, 'e failure, unit) act" where
  "lib_call e m = act_bind (act_map_err (\<lambda>_. Err e) (on_world m)) (\<lambda>_. act_return ())"

text \<open>A zbus error that a property accessor passes on with \<^verbatim>\<open>?\<close>.\<close>

definition zbus_call :: "('w, string, 'a) act \<Rightarrow> ('w, unit) dbus_property" where
  "zbus_call m = act_bind (act_map_err (\<lambda>t. Err (FdoOther t)) (on_world m)) (\<lambda>_. act_return ())"

definition ignore_remove ::
  "('w, 'v) platform \<Rightarrow> dbus_interface \<Rightarrow> string \<Rightarrow> ('w provider, 'f failure, unit) act" where
  "ignore_remove P iface path = ignore (run_err (on_world (server_remove P iface path)))"

definition emit_item_changed ::
  "('w, 'v) platform \<Rightarrow> uuid \<Rightarrow> uuid \<Rightarrow> ('w provider, string failure, unit) act" where
  "emit_item_changed P cid uid =
     act_bind (object_path P (item_path P uid)) (\<lambda>path.
     run_err (on_world (emit_signal P (collection_path P cid) (ItemChanged path))))"

definition remove_owner_sessions ::
  "('w, 'v) platform \<Rightarrow> string \<Rightarrow> ('w provider, 'e failure, unit) act" where
  "remove_owner_sessions P name =
     act_bind (remove_owner name) (\<lambda>removed.
     act_iter (\<lambda>session. ignore_remove P SessionIface (session_path P session)) removed)"

text \<open>
  The monitor task of \<^verbatim>\<open>crates/provider/src/main.rs\<close>: the stream of ownership changes on the bus,
  each with the name and its new owner, or an error when its arguments do not parse.
\<close>

fun remove_disconnected_sessions ::
  "('w, 'v) platform \<Rightarrow> (string + string \<times> string option) list \<Rightarrow> ('w provider, string failure, unit) act" where
  "remove_disconnected_sessions P [] = act_return ()"
| "remove_disconnected_sessions P (Inl e # signals) = err e"
| "remove_disconnected_sessions P (Inr (name, new_owner) # signals) =
     act_bind (if new_owner = None then remove_owner_sessions P name else act_return ()) (\<lambda>_.
     remove_disconnected_sessions P signals)"

definition initialize :: "('w, 'v) platform \<Rightarrow> ('w, unit) handler" where
  "initialize P =
     act_bind (collections P) (\<lambda>cs.
     act_bind (act_iter (\<lambda>c.
       act_bind (lib_call Transport (server_at P (collection_path P (c_id c)) (CollectionObject (c_id c)))) (\<lambda>_.
       act_bind (items P (c_id c)) (\<lambda>ms.
       act_iter (\<lambda>m.
         lib_call Transport (server_at P (item_path P (i_id m)) (ItemObject (i_id m)))) ms))) cs) (\<lambda>_.
     act_bind (aliases P) (\<lambda>as.
     act_bind (act_iter (\<lambda>a.
       case alias_path (a_name a) of
         Some path \<Rightarrow> lib_call Transport (server_at P path (CollectionObject (a_collection_id a)))
       | None \<Rightarrow> act_return ()) as) (\<lambda>_.
     lib_call Transport (server_at P COMPAT_PROMPT_PATH PromptObject)))))"


section \<open>org.freedesktop.Secret.Service\<close>

definition service_open_session ::
  "('w, 'v) platform \<Rightarrow> string option \<Rightarrow> string \<Rightarrow> 'v \<Rightarrow> ('w, 'v \<times> string) dbus_method" where
  "service_open_session P sender algorithm input =
     act_bind (caller sender) (\<lambda>owner.
     act_bind (dbus (provider_open_session P algorithm input)) (\<lambda>(output, uid, key).
     act_bind (lib_call (Failed ''unable to register session'')
       (server_at P (session_path P uid) (SessionObject uid))) (\<lambda>_.
     act_bind (insert_session uid owner key) (\<lambda>_.
     act_bind (object_path P (session_path P uid)) (\<lambda>path.
     act_return (output, path))))))"

text \<open>Undoing a creation: the registered object and the stored collection go.\<close>

definition discard_collection :: "('w, 'v) platform \<Rightarrow> uuid \<Rightarrow> ('w, unit) dbus_method" where
  "discard_collection P uid =
     act_bind (ignore_remove P CollectionIface (collection_path P uid)) (\<lambda>_.
     ignore (provider_delete_collection P uid))"

definition service_create_collection ::
  "('w, 'v) platform \<Rightarrow> string \<Rightarrow> (string \<times> 'v) list \<Rightarrow> string \<Rightarrow> ('w, string \<times> string) dbus_method" where
  "service_create_collection P here properties alias =
     act_bind (dbus (run_err (act_lift (collection_label P properties)))) (\<lambda>label.
     act_bind (dbus (provider_create_collection P label)) (\<lambda>c.
     act_bind (on_err (run_err (on_world
         (server_at P (collection_path P (c_id c)) (CollectionObject (c_id c))))) (\<lambda>e.
       act_bind (ignore (provider_delete_collection P (c_id c))) (\<lambda>_.
       err (Failed (''unable to register collection: '' @ e))))) (\<lambda>_.
     act_bind
       (if alias = [] then act_return ()
        else
          act_bind (on_err (provider_set_alias P alias (Some (c_id c))) (\<lambda>e.
            act_bind (discard_collection P (c_id c)) (\<lambda>_.
            err (provider_error_to_dbus e)))) (\<lambda>_.
          act_bind
            (case alias_path alias of
               None \<Rightarrow> act_return ()
             | Some path \<Rightarrow>
                 act_bind (ignore_remove P CollectionIface path) (\<lambda>_.
                 act_bind (on_err (run_err (on_world
                     (server_at P path (CollectionObject (c_id c))))) (\<lambda>e.
                   act_bind (ignore (provider_set_alias P alias None)) (\<lambda>_.
                   act_bind (discard_collection P (c_id c)) (\<lambda>_.
                   err (Failed (''unable to register collection alias: '' @ e)))))) (\<lambda>_.
                 act_return ()))) (\<lambda>_.
          lib_call (Failed ''unable to emit alias update'')
            (emit_signal P here AliasesChanged)))) (\<lambda>_.
     act_bind (object_path P (collection_path P (c_id c))) (\<lambda>path.
     act_bind (lib_call (Failed ''unable to emit collection signal'')
       (emit_signal P here (CollectionCreated path))) (\<lambda>_.
     act_bind (object_path P ''/'') (\<lambda>root.
     act_return (path, root))))))))"

definition object_paths :: "('w, 'v) platform \<Rightarrow> string list \<Rightarrow> ('s, 'e failure, string list) act" where
  "object_paths P = act_collect (\<lambda>p. act_bind (object_path P p) (\<lambda>v. act_return [v]))"

definition service_search_items ::
  "('w, 'v) platform \<Rightarrow> (string \<times> string) list \<Rightarrow> ('w, string list \<times> string list) dbus_method" where
  "service_search_items P attributes =
     act_bind (dbus (search P (to_btree attributes))) (\<lambda>ms.
     act_bind (object_paths P (map (\<lambda>m. item_path P (i_id m)) ms)) (\<lambda>unlocked.
     act_return (unlocked, [])))"

definition service_unlock ::
  "('w, 'v) platform \<Rightarrow> string list \<Rightarrow> ('w, string list \<times> string) dbus_method" where
  "service_unlock P objects = act_bind (object_path P ''/'') (\<lambda>root. act_return (objects, root))"

definition service_lock ::
  "('w, 'v) platform \<Rightarrow> string list \<Rightarrow> ('w, string list \<times> string) dbus_method" where
  "service_lock P objects = act_bind (object_path P ''/'') (\<lambda>root. act_return (objects, root))"

fun read_secrets ::
  "('w, 'v) platform \<Rightarrow> string list \<Rightarrow> ('w, (ItemMetadata \<times> SecretBytes) list) dbus_method" where
  "read_secrets P [] = act_return []"
| "read_secrets P (path # paths) =
     (case item_id P path of
        None \<Rightarrow> err (NoSuchObject ''invalid item path'')
      | Some uid \<Rightarrow>
          act_bind (dbus (item P uid True)) (\<lambda>(metadata, secret).
          case secret of
            None \<Rightarrow> err (Failed ''broker omitted secret'')
          | Some secret \<Rightarrow>
              act_bind (read_secrets P paths) (\<lambda>rest. act_return ((metadata, secret) # rest))))"

fun encode_secrets ::
  "('w, 'v) platform \<Rightarrow> string \<Rightarrow> uuid \<Rightarrow> (ItemMetadata \<times> SecretBytes) list \<Rightarrow>
   (string \<times> DbusSecret) list \<Rightarrow> ('w, (string \<times> DbusSecret) list) dbus_method" where
  "encode_secrets P owner session [] values = act_return values"
| "encode_secrets P owner session ((metadata, secret) # raw) values =
     act_bind (dbus (encode_secret P owner session secret (i_content_type metadata))) (\<lambda>encoded.
     act_bind (object_path P (item_path P (i_id metadata))) (\<lambda>path.
     encode_secrets P owner session raw (hm_insert path encoded values)))"

definition service_get_secrets ::
  "('w, 'v) platform \<Rightarrow> string option \<Rightarrow> string list \<Rightarrow> string \<Rightarrow>
   ('w, (string \<times> DbusSecret) list) dbus_method" where
  "service_get_secrets P sender paths session =
     act_bind (caller sender) (\<lambda>owner.
     case session_id P session of
       None \<Rightarrow> err (NoSuchSession ''invalid session path'')
     | Some uid \<Rightarrow>
         act_bind (read_secrets P paths) (\<lambda>raw. encode_secrets P owner uid raw []))"

definition service_read_alias :: "('w, 'v) platform \<Rightarrow> string \<Rightarrow> ('w, string) dbus_method" where
  "service_read_alias P name =
     act_bind (dbus (provider_resolve_alias P name)) (\<lambda>found.
     case found of
       None \<Rightarrow> object_path P ''/''
     | Some a \<Rightarrow> object_path P (collection_path P (a_collection_id a)))"

definition service_set_alias ::
  "('w, 'v) platform \<Rightarrow> string \<Rightarrow> string \<Rightarrow> string \<Rightarrow> ('w, unit) dbus_method" where
  "service_set_alias P here name target =
     act_bind
       (if target = ''/'' then act_return None
        else (case collection_id P target of
                None \<Rightarrow> err (NoSuchObject ''invalid collection path'')
              | Some uid \<Rightarrow> act_return (Some uid))) (\<lambda>uid.
     act_bind (dbus (provider_set_alias P name uid)) (\<lambda>_.
     act_bind
       (case alias_path name of
          None \<Rightarrow> act_return ()
        | Some path \<Rightarrow>
            (case uid of
               Some cid \<Rightarrow>
                 act_bind (ignore_remove P CollectionIface path) (\<lambda>_.
                 lib_call (Failed ''unable to register collection alias'')
                   (server_at P path (CollectionObject cid)))
             | None \<Rightarrow> ignore_remove P CollectionIface path)) (\<lambda>_.
     lib_call (Failed ''unable to emit alias update'') (emit_signal P here AliasesChanged))))"

definition service_collections :: "('w, 'v) platform \<Rightarrow> ('w, string list) dbus_property" where
  "service_collections P =
     act_bind (fdo P (dbus (collections P))) (\<lambda>cs.
     object_paths P (map (\<lambda>c. collection_path P (c_id c)) cs))"

definition service_aliases :: "('w, 'v) platform \<Rightarrow> ('w, (string \<times> string) list) dbus_property" where
  "service_aliases P =
     act_bind (fdo P (dbus (aliases P))) (\<lambda>as.
     act_bind (object_paths P (map (\<lambda>a. collection_path P (a_collection_id a)) as)) (\<lambda>paths.
     act_return (fold (\<lambda>(k, v). hm_insert k v) (zip (map a_name as) paths) [])))"


section \<open>org.freedesktop.Secret.Collection\<close>

definition collection_delete :: "('w, 'v) platform \<Rightarrow> uuid \<Rightarrow> ('w, string) dbus_method" where
  "collection_delete P self =
     act_bind (dbus (items P self)) (\<lambda>ms.
     act_bind (dbus (aliases P)) (\<lambda>as.
     let own = filter (\<lambda>a. a_collection_id a = self) as in
     act_bind (dbus (provider_delete_collection P self)) (\<lambda>_.
     act_bind (act_iter (\<lambda>m. ignore_remove P ItemIface (item_path P (i_id m))) ms) (\<lambda>_.
     act_bind (act_iter (\<lambda>a.
       case alias_path (a_name a) of
         Some path \<Rightarrow> ignore_remove P CollectionIface path
       | None \<Rightarrow> act_return ()) own) (\<lambda>_.
     act_bind (lib_call (Failed ''unable to unregister collection'')
       (server_remove P CollectionIface (collection_path P self))) (\<lambda>_.
     act_bind (object_path P (collection_path P self)) (\<lambda>path.
     act_bind (lib_call (Failed ''unable to emit collection signal'')
       (emit_signal P SERVICE_PATH (CollectionDeleted path))) (\<lambda>_.
     object_path P ''/''))))))))"

definition collection_search_items ::
  "('w, 'v) platform \<Rightarrow> uuid \<Rightarrow> (string \<times> string) list \<Rightarrow> ('w, string list) dbus_method" where
  "collection_search_items P self attributes =
     (let wanted = to_btree attributes in
     act_bind (dbus (items P self)) (\<lambda>ms.
     object_paths P (map (\<lambda>m. item_path P (i_id m))
       (filter (\<lambda>m. list_all (\<lambda>(key, v). map_of (i_attributes m) key = Some v) wanted) ms))))"

definition collection_create_item ::
  "('w, 'v) platform \<Rightarrow> string \<Rightarrow> uuid \<Rightarrow> string option \<Rightarrow> (string \<times> 'v) list \<Rightarrow> DbusSecret \<Rightarrow> bool \<Rightarrow>
   ('w, string \<times> string) dbus_method" where
  "collection_create_item P here self sender properties secret replace =
     act_bind (caller sender) (\<lambda>owner.
     act_bind (dbus (run_err (act_lift (item_properties P properties)))) (\<lambda>(label, attributes).
     act_bind (dbus (decode_secret P owner secret)) (\<lambda>(_, secret, content_type).
     act_bind (dbus (check_protocol (validate_content_type content_type))) (\<lambda>_.
     act_bind (dbus (provider_create_item P self label attributes content_type secret replace))
       (\<lambda>(m, replaced_item_ids, cleanup_failed_item_ids).
     act_bind (act_iter (\<lambda>replaced.
       act_bind (ignore_remove P ItemIface (item_path P replaced)) (\<lambda>_.
       act_bind (object_path P (item_path P replaced)) (\<lambda>path.
       lib_call (Failed ''unable to emit item signal'') (emit_signal P here (ItemDeleted path)))))
       replaced_item_ids) (\<lambda>_.
     act_bind (on_err (run_err (on_world
         (server_at P (item_path P (i_id m)) (ItemObject (i_id m))))) (\<lambda>e.
       act_bind (ignore (provider_delete_item P (i_id m))) (\<lambda>_.
       err (Failed (''unable to register item: '' @ e))))) (\<lambda>_.
     act_bind (object_path P (item_path P (i_id m))) (\<lambda>path.
     act_bind (lib_call (Failed ''unable to emit item signal'')
       (emit_signal P here (ItemCreated path))) (\<lambda>_.
     act_bind (object_path P ''/'') (\<lambda>root.
     act_return (path, root)))))))))))"

definition collection_get_label :: "('w, 'v) platform \<Rightarrow> uuid \<Rightarrow> ('w, string) dbus_property" where
  "collection_get_label P self =
     act_bind (fdo P (dbus (collection P self))) (\<lambda>c. act_return (c_label c))"

definition collection_set_label ::
  "('w, 'v) platform \<Rightarrow> uuid \<Rightarrow> string \<Rightarrow> ('w, unit) dbus_property" where
  "collection_set_label P self label =
     act_bind (fdo P (dbus (update_collection_label P self label))) (\<lambda>_.
     act_bind (object_path P (collection_path P self)) (\<lambda>path.
     zbus_call (emit_signal P SERVICE_PATH (CollectionChanged path))))"

definition collection_locked :: bool where
  "collection_locked = False"

definition collection_created :: "('w, 'v) platform \<Rightarrow> uuid \<Rightarrow> ('w, u64) dbus_property" where
  "collection_created P self =
     act_bind (fdo P (dbus (collection P self))) (\<lambda>c. act_return (c_created c))"

definition collection_modified :: "('w, 'v) platform \<Rightarrow> uuid \<Rightarrow> ('w, u64) dbus_property" where
  "collection_modified P self =
     act_bind (fdo P (dbus (collection P self))) (\<lambda>c. act_return (c_modified c))"

definition collection_items :: "('w, 'v) platform \<Rightarrow> uuid \<Rightarrow> ('w, string list) dbus_property" where
  "collection_items P self =
     act_bind (fdo P (dbus (items P self))) (\<lambda>ms.
     object_paths P (map (\<lambda>m. item_path P (i_id m)) ms))"


section \<open>org.freedesktop.Secret.Item\<close>

definition item_delete :: "('w, 'v) platform \<Rightarrow> uuid \<Rightarrow> ('w, string) dbus_method" where
  "item_delete P self =
     act_bind (dbus (item P self False)) (\<lambda>(m, _).
     act_bind (dbus (provider_delete_item P self)) (\<lambda>_.
     act_bind (lib_call (Failed ''unable to unregister item'')
       (server_remove P ItemIface (item_path P self))) (\<lambda>_.
     act_bind (object_path P (item_path P self)) (\<lambda>path.
     act_bind (lib_call (Failed ''unable to emit item signal'')
       (emit_signal P (collection_path P (i_collection_id m)) (ItemDeleted path))) (\<lambda>_.
     object_path P ''/'')))))"

definition item_get_secret ::
  "('w, 'v) platform \<Rightarrow> uuid \<Rightarrow> string option \<Rightarrow> string \<Rightarrow> ('w, DbusSecret) dbus_method" where
  "item_get_secret P self sender session =
     act_bind (caller sender) (\<lambda>owner.
     case session_id P session of
       None \<Rightarrow> err (NoSuchSession ''invalid session path'')
     | Some uid \<Rightarrow>
         act_bind (dbus (item P self True)) (\<lambda>(m, secret).
         case secret of
           None \<Rightarrow> err (Failed ''broker omitted secret'')
         | Some secret \<Rightarrow> dbus (encode_secret P owner uid secret (i_content_type m))))"

definition item_set_secret ::
  "('w, 'v) platform \<Rightarrow> string \<Rightarrow> uuid \<Rightarrow> string option \<Rightarrow> DbusSecret \<Rightarrow> ('w, unit) dbus_method" where
  "item_set_secret P here self sender secret =
     act_bind (caller sender) (\<lambda>owner.
     act_bind (dbus (decode_secret P owner secret)) (\<lambda>(_, secret, content_type).
     act_bind (dbus (item P self False)) (\<lambda>(m, _).
     act_bind (dbus (provider_update_item P (m\<lparr>i_content_type := content_type\<rparr>) (Some secret))) (\<lambda>_.
     act_bind (act_map_err (map_failure (\<lambda>_. Failed ''unable to emit item signal''))
       (emit_item_changed P (i_collection_id m) self)) (\<lambda>_.
     lib_call (Failed ''unable to emit secret signal'') (emit_signal P here SecretChanged))))))"

definition item_get_label :: "('w, 'v) platform \<Rightarrow> uuid \<Rightarrow> ('w, string) dbus_property" where
  "item_get_label P self =
     act_bind (fdo P (dbus (item P self False))) (\<lambda>(m, _). act_return (i_label m))"

text \<open>The body both metadata setters share: read, change, conditional update, signal.\<close>

definition item_change ::
  "('w, 'v) platform \<Rightarrow> uuid \<Rightarrow> (ItemMetadata \<Rightarrow> ItemMetadata) \<Rightarrow> ('w, unit) dbus_property" where
  "item_change P self change =
     act_bind (fdo P (dbus (item P self False))) (\<lambda>(m, _).
     act_bind (fdo P (dbus (provider_update_item P (change m) None))) (\<lambda>_.
     act_map_err (map_failure FdoOther) (emit_item_changed P (i_collection_id (change m)) self)))"

definition item_set_label :: "('w, 'v) platform \<Rightarrow> uuid \<Rightarrow> string \<Rightarrow> ('w, unit) dbus_property" where
  "item_set_label P self label = item_change P self (\<lambda>m. m\<lparr>i_label := label\<rparr>)"

definition item_get_attributes ::
  "('w, 'v) platform \<Rightarrow> uuid \<Rightarrow> ('w, (string \<times> string) list) dbus_property" where
  "item_get_attributes P self =
     act_bind (fdo P (dbus (item P self False))) (\<lambda>(m, _).
     act_return (fold (\<lambda>(k, v). hm_insert k v) (i_attributes m) []))"

definition item_set_attributes ::
  "('w, 'v) platform \<Rightarrow> uuid \<Rightarrow> (string \<times> string) list \<Rightarrow> ('w, unit) dbus_property" where
  "item_set_attributes P self attributes =
     item_change P self (\<lambda>m. m\<lparr>i_attributes := to_btree attributes\<rparr>)"

definition item_locked :: bool where
  "item_locked = False"

definition item_created :: "('w, 'v) platform \<Rightarrow> uuid \<Rightarrow> ('w, u64) dbus_property" where
  "item_created P self =
     act_bind (fdo P (dbus (item P self False))) (\<lambda>(m, _). act_return (i_created m))"

definition item_modified :: "('w, 'v) platform \<Rightarrow> uuid \<Rightarrow> ('w, u64) dbus_property" where
  "item_modified P self =
     act_bind (fdo P (dbus (item P self False))) (\<lambda>(m, _). act_return (i_modified m))"


section \<open>Sessions and prompts\<close>

definition session_close ::
  "('w, 'v) platform \<Rightarrow> uuid \<Rightarrow> string option \<Rightarrow> ('w, unit) dbus_method" where
  "session_close P self sender =
     act_bind (caller sender) (\<lambda>owner.
     act_bind (dbus (close_session self owner)) (\<lambda>_.
     lib_call (Failed ''unable to unregister session'')
       (server_remove P SessionIface (session_path P self))))"

text \<open>The result of a completed prompt is the variant of the empty string.\<close>

definition prompt_complete :: "('w, 'v) platform \<Rightarrow> string \<Rightarrow> ('w, unit) dbus_method" where
  "prompt_complete P here =
     act_bind (variant (variant_string P [])) (\<lambda>_.
     lib_call (Failed ''unable to emit prompt signal'') (emit_signal P here (Completed True [])))"

definition prompt_prompt :: "('w, 'v) platform \<Rightarrow> string \<Rightarrow> string \<Rightarrow> ('w, unit) dbus_method" where
  "prompt_prompt P here window_id = prompt_complete P here"

definition prompt_dismiss :: "('w, 'v) platform \<Rightarrow> string \<Rightarrow> ('w, unit) dbus_method" where
  "prompt_dismiss P here = prompt_complete P here"

end
