(* ===== verification/Provider_Invariants.thy ===== *)
theory Provider_Invariants
  imports Provider_Objects
begin

text \<open>
  Invariants of the provider over every sequence of D-Bus calls: which handlers touch the session
  table and how, that sessions are used by their owner only, and that no handler panics on a
  platform that keeps the D-Bus rules for paths and values.
\<close>

section \<open>Calls\<close>

text \<open>A call a client can make, with the arguments of the method.\<close>

datatype 'v dbus_request =
    OpenSession string 'v
  | ServiceCreateCollection "(string \<times> 'v) list" string
  | ServiceSearchItems "(string \<times> string) list"
  | Unlock "string list"
  | Lock "string list"
  | GetSecrets "string list" string
  | ReadAlias string
  | ServiceSetAlias string string
  | ServiceCollections
  | ServiceAliases
  | CollectionDelete uuid
  | CollectionSearchItems uuid "(string \<times> string) list"
  | CollectionCreateItem uuid "(string \<times> 'v) list" DbusSecret bool
  | CollectionLabel uuid
  | CollectionSetLabel uuid string
  | CollectionCreatedAt uuid
  | CollectionModifiedAt uuid
  | CollectionItems uuid
  | ItemDelete uuid
  | ItemGetSecret uuid string
  | ItemSetSecret uuid DbusSecret
  | ItemLabel uuid
  | ItemSetLabel uuid string
  | ItemAttributes uuid
  | ItemSetAttributes uuid "(string \<times> string) list"
  | ItemCreatedAt uuid
  | ItemModifiedAt uuid
  | SessionClose uuid
  | PromptPrompt string
  | PromptDismiss

text \<open>What a history keeps of a call: whether it panicked, and the state after it.\<close>

definition observe :: "('s, 'e failure, 'a) act \<Rightarrow> 's \<Rightarrow> bool \<times> 's" where
  "observe m s = (case m s of (r, t) \<Rightarrow> (r = Inl Panic, t))"

fun perform ::
  "('w, 'v) platform \<Rightarrow> string option \<Rightarrow> string \<Rightarrow> 'v dbus_request \<Rightarrow> 'w provider \<Rightarrow> bool \<times> 'w provider" where
  "perform P sender here (OpenSession a i) = observe (service_open_session P sender a i)"
| "perform P sender here (ServiceCreateCollection ps a) = observe (service_create_collection P here ps a)"
| "perform P sender here (ServiceSearchItems as) = observe (service_search_items P as)"
| "perform P sender here (Unlock os) = observe (service_unlock P os)"
| "perform P sender here (Lock os) = observe (service_lock P os)"
| "perform P sender here (GetSecrets ps x) = observe (service_get_secrets P sender ps x)"
| "perform P sender here (ReadAlias n) = observe (service_read_alias P n)"
| "perform P sender here (ServiceSetAlias n c) = observe (service_set_alias P here n c)"
| "perform P sender here ServiceCollections = observe (service_collections P)"
| "perform P sender here ServiceAliases = observe (service_aliases P)"
| "perform P sender here (CollectionDelete u) = observe (collection_delete P u)"
| "perform P sender here (CollectionSearchItems u as) = observe (collection_search_items P u as)"
| "perform P sender here (CollectionCreateItem u ps x r) =
     observe (collection_create_item P here u sender ps x r)"
| "perform P sender here (CollectionLabel u) = observe (collection_get_label P u)"
| "perform P sender here (CollectionSetLabel u l) = observe (collection_set_label P u l)"
| "perform P sender here (CollectionCreatedAt u) = observe (collection_created P u)"
| "perform P sender here (CollectionModifiedAt u) = observe (collection_modified P u)"
| "perform P sender here (CollectionItems u) = observe (collection_items P u)"
| "perform P sender here (ItemDelete u) = observe (item_delete P u)"
| "perform P sender here (ItemGetSecret u x) = observe (item_get_secret P u sender x)"
| "perform P sender here (ItemSetSecret u x) = observe (item_set_secret P here u sender x)"
| "perform P sender here (ItemLabel u) = observe (item_get_label P u)"
| "perform P sender here (ItemSetLabel u l) = observe (item_set_label P u l)"
| "perform P sender here (ItemAttributes u) = observe (item_get_attributes P u)"
| "perform P sender here (ItemSetAttributes u as) = observe (item_set_attributes P u as)"
| "perform P sender here (ItemCreatedAt u) = observe (item_created P u)"
| "perform P sender here (ItemModifiedAt u) = observe (item_modified P u)"
| "perform P sender here (SessionClose u) = observe (session_close P u sender)"
| "perform P sender here (PromptPrompt w) = observe (prompt_prompt P here w)"
| "perform P sender here PromptDismiss = observe (prompt_dismiss P here)"


section \<open>Handlers that leave the session table alone\<close>

definition quiet :: "('w provider, 'e, 'a) act \<Rightarrow> bool" where
  "quiet m \<longleftrightarrow> (\<forall>s. sessions (snd (m s)) = sessions s)"

named_theorems quiet_intros \<open>actions that leave the session table alone\<close>

lemma quiet_basic [quiet_intros]:
  "quiet (act_return x)" "quiet (act_throw e)" "quiet (act_lift r)" "quiet (err e')"
  "quiet (act_expect v)" "quiet (on_world w)" "quiet sessions_of"
  by (simp_all add: quiet_def act_simps err_def act_expect_def on_world_def sessions_of_def split: prod.splits)

lemma quiet_bind [quiet_intros]: "quiet m \<Longrightarrow> (\<And>x. quiet (f x)) \<Longrightarrow> quiet (act_bind m f)"
  by (auto simp: quiet_def act_simps split: prod.splits sum.splits) (metis snd_conv)+

lemma quiet_wrap [quiet_intros]:
  "quiet m \<Longrightarrow> quiet (act_map_err g m)" "quiet m \<Longrightarrow> quiet (act_try m)" "quiet m \<Longrightarrow> quiet (run_err m)"
  "quiet h \<Longrightarrow> quiet (dbus h)" "quiet d \<Longrightarrow> quiet (fdo P d)" "quiet k \<Longrightarrow> quiet (ignore k)"
  by (auto simp: quiet_def act_simps run_err_def dbus_def fdo_def ignore_def
      split: prod.splits sum.splits failure.splits) (metis snd_conv)+

lemma quiet_on_err [quiet_intros]: "quiet m \<Longrightarrow> (\<And>e. quiet (h e)) \<Longrightarrow> quiet (on_err m h)"
  by (auto simp: quiet_def on_err_def split: prod.splits sum.splits failure.splits) (metis snd_conv)+

lemma quiet_iter [quiet_intros]: "(\<And>x. quiet (f x)) \<Longrightarrow> quiet (act_iter f xs)"
  by (induction xs) (auto intro: quiet_intros)

lemma quiet_collect [quiet_intros]: "(\<And>x. quiet (f x)) \<Longrightarrow> quiet (act_collect f xs)"
  by (induction xs) (auto intro!: quiet_intros)

lemma quiet_cases [quiet_intros]:
  "(c \<Longrightarrow> quiet m) \<Longrightarrow> (\<not> c \<Longrightarrow> quiet k) \<Longrightarrow> quiet (if c then m else k)"
  "quiet m \<Longrightarrow> (\<And>x. quiet (f x)) \<Longrightarrow> quiet (case v of None \<Rightarrow> m | Some x \<Rightarrow> f x)"
  "(\<And>x. quiet (g x)) \<Longrightarrow> (\<And>x. quiet (h x)) \<Longrightarrow> quiet (case r of Inl x \<Rightarrow> g x | Inr x \<Rightarrow> h x)"
  "(\<And>x y. quiet (p x y)) \<Longrightarrow> quiet (case q of (x, y) \<Rightarrow> p x y)"
  by (simp_all split: option.splits sum.splits prod.splits)

lemma quiet_library [quiet_intros]:
  "quiet (now P)" "quiet (fresh_uuid P)" "quiet (object_path P v)" "quiet (variant x)"
  "quiet (check_protocol r)" "quiet (response P op)" "quiet (caller sender)" "quiet (lib_call e m)"
  "quiet (zbus_call m)" "quiet (ignore_remove P k p)" "quiet (emit_item_changed P c u)"
  "quiet (object_paths P ps)" "quiet (owned_session u own)"
  by (auto simp: now_def fresh_uuid_def object_path_def variant_def check_protocol_def response_def
      caller_def lib_call_def zbus_call_def ignore_remove_def emit_item_changed_def object_paths_def
      owned_session_def intro!: quiet_intros)

lemma quiet_body [quiet_intros]:
  assumes "\<And>b. quiet (f b)"
  shows "quiet (act_bind (response P op) f)"
  by (intro quiet_intros assms)

lemma quiet_provider [quiet_intros]:
  "quiet (collections P)" "quiet (collection P u)" "quiet (items P u)" "quiet (item P u b)"
  "quiet (provider_create_collection P l)" "quiet (update_collection_label P u l)"
  "quiet (provider_delete_collection P u)" "quiet (provider_create_item P u l as c x r)"
  "quiet (provider_update_item P m y)" "quiet (provider_delete_item P u)"
  "quiet (provider_resolve_alias P n)" "quiet (aliases P)" "quiet (provider_set_alias P n z)"
  "quiet (search P as)" "quiet (provider_open_session P a i)" "quiet (decode_secret P own d)"
  "quiet (encode_secret P own u x c)"
  unfolding collections_def collection_def items_def item_def provider_create_collection_def
    update_collection_label_def provider_delete_collection_def provider_create_item_def
    provider_update_item_def provider_delete_item_def provider_resolve_alias_def aliases_def
    provider_set_alias_def search_def provider_open_session_def decode_secret_def encode_secret_def Let_def
  by (auto intro!: quiet_intros split: ResponseBody.splits option.splits SessionKey.splits)

lemma quiet_read_secrets [quiet_intros]: "quiet (read_secrets P ps)"
  by (induction ps) (auto intro!: quiet_intros)

lemma quiet_encode_secrets [quiet_intros]: "quiet (encode_secrets P own u raw vs)"
  by (induction raw arbitrary: vs) (auto intro!: quiet_intros)

lemma quiet_service [quiet_intros]:
  "quiet (service_search_items P as)" "quiet (service_unlock P os)" "quiet (service_lock P os)"
  "quiet (service_get_secrets P sender ps x)" "quiet (service_read_alias P n)"
  "quiet (service_set_alias P here n c)" "quiet (service_collections P)" "quiet (service_aliases P)"
  unfolding service_search_items_def service_unlock_def service_lock_def service_get_secrets_def
    service_read_alias_def service_set_alias_def service_collections_def service_aliases_def
  by (auto intro!: quiet_intros)

lemma quiet_create_collection [quiet_intros]: "quiet (service_create_collection P here ps a)"
  unfolding service_create_collection_def discard_collection_def
  by (auto intro!: quiet_intros split: failure.splits)

lemma quiet_collection [quiet_intros]:
  "quiet (collection_delete P u)" "quiet (collection_search_items P u as)"
  "quiet (collection_create_item P here u sender ps d r)" "quiet (collection_get_label P u)"
  "quiet (collection_set_label P u l)" "quiet (collection_created P u)" "quiet (collection_modified P u)"
  "quiet (collection_items P u)"
  unfolding collection_delete_def collection_search_items_def collection_create_item_def
    collection_get_label_def collection_set_label_def collection_created_def collection_modified_def
    collection_items_def Let_def
  by (auto intro!: quiet_intros)

lemma quiet_item [quiet_intros]:
  "quiet (item_delete P u)" "quiet (item_get_secret P u sender x)" "quiet (item_set_secret P here u sender d)"
  "quiet (item_get_label P u)" "quiet (item_set_label P u l)" "quiet (item_get_attributes P u)"
  "quiet (item_set_attributes P u as)" "quiet (item_created P u)" "quiet (item_modified P u)"
  "quiet (prompt_prompt P here w)" "quiet (prompt_dismiss P here)"
  unfolding item_delete_def item_get_secret_def item_set_secret_def item_get_label_def item_change_def
    item_set_label_def item_get_attributes_def item_set_attributes_def item_created_def item_modified_def
    prompt_prompt_def prompt_dismiss_def prompt_complete_def
  by (auto intro!: quiet_intros)

lemma quiet_observe: "quiet m \<Longrightarrow> sessions (snd (observe m s)) = sessions s"
  by (simp add: quiet_def observe_def case_prod_beta)


section \<open>No handler panics\<close>

definition calm :: "('s, 'e failure, 'a) act \<Rightarrow> bool" where
  "calm m \<longleftrightarrow> (\<forall>s. fst (m s) \<noteq> Inl Panic)"

named_theorems calm_intros \<open>actions that never panic\<close>

lemma calm_basic [calm_intros]:
  "calm (act_return x)" "calm (err e)" "calm (run_err m)" "v \<noteq> None \<Longrightarrow> calm (act_expect v)"
  "calm (draw f)" "calm sessions_of" "calm (set_sessions k)"
  by (auto simp: calm_def act_simps err_def run_err_def act_expect_def draw_def sessions_of_def
      set_sessions_def map_err_def split: prod.splits sum.splits)

lemma calm_bind [calm_intros]: "calm m \<Longrightarrow> (\<And>x. calm (f x)) \<Longrightarrow> calm (act_bind m f)"
  by (auto simp: calm_def act_simps split: prod.splits sum.splits) (metis fst_conv)+

lemma map_failure_Panic [simp]: "map_failure g f = Panic \<longleftrightarrow> f = Panic"
  by (cases f) auto

lemma map_err_failure_Panic [simp]: "map_err (map_failure g) r = Inl Panic \<longleftrightarrow> r = Inl Panic"
  by (cases r) auto

lemma calm_wrap [calm_intros]:
  "calm m \<Longrightarrow> calm (act_map_err (map_failure g) m)" "calm h \<Longrightarrow> calm (dbus h)" "calm d \<Longrightarrow> calm (fdo P d)"
  "calm m \<Longrightarrow> calm (ignore m)" "calm w \<Longrightarrow> calm (on_world w)" "calm (act_map_err (\<lambda>x. Err (e x)) n)"
  by (auto simp: calm_def act_simps dbus_def fdo_def ignore_def on_world_def case_prod_beta map_err_def
      split: sum.splits failure.splits)

lemma calm_on_err [calm_intros]: "calm m \<Longrightarrow> (\<And>e. calm (h e)) \<Longrightarrow> calm (on_err m h)"
  by (auto simp: calm_def on_err_def case_prod_beta split: sum.splits failure.splits)

lemma calm_iter [calm_intros]: "(\<And>x. calm (f x)) \<Longrightarrow> calm (act_iter f xs)"
  by (induction xs) (auto intro!: calm_intros)

lemma calm_collect [calm_intros]: "(\<And>x. calm (f x)) \<Longrightarrow> calm (act_collect f xs)"
  by (induction xs) (auto intro!: calm_intros)

lemma calm_cases [calm_intros]:
  "(c \<Longrightarrow> calm m) \<Longrightarrow> (\<not> c \<Longrightarrow> calm k) \<Longrightarrow> calm (if c then m else k)"
  "calm m \<Longrightarrow> (\<And>x. calm (f x)) \<Longrightarrow> calm (case v of None \<Rightarrow> m | Some x \<Rightarrow> f x)"
  "(\<And>x. calm (g x)) \<Longrightarrow> (\<And>x. calm (h x)) \<Longrightarrow> calm (case r of Inl x \<Rightarrow> g x | Inr x \<Rightarrow> h x)"
  "(\<And>x y. calm (p x y)) \<Longrightarrow> calm (case q of (x, y) \<Rightarrow> p x y)"
  by (simp_all split: option.splits sum.splits prod.splits)

lemma calm_library [calm_intros]:
  "calm (check_protocol r)" "calm (response P op)" "calm (caller sender)" "calm (lib_call e m)"
  "calm (zbus_call n)" "calm (ignore_remove P k p)" "calm (owned_session u own)" "calm (now P)"
  "calm (fresh_uuid P)" "calm (insert_session u own key)"
  unfolding check_protocol_def response_def caller_def lib_call_def zbus_call_def ignore_remove_def
    owned_session_def now_def fresh_uuid_def insert_session_def
  by (auto intro!: calm_intros)

lemma calm_observe: "calm m \<Longrightarrow> \<not> fst (observe m s)"
  by (simp add: calm_def observe_def case_prod_beta)

text \<open>
  The D-Bus grammar of object paths, and conversions into variant values that cannot fail for
  values without file descriptors.
\<close>

definition path_segment_ok :: "string \<Rightarrow> bool" where
  "path_segment_ok seg \<longleftrightarrow>
     seg \<noteq> [] \<and> list_all (\<lambda>c. is_ascii_alphanumeric c \<or> c = CHR ''_'') seg"

definition dbus_path_ok :: "string \<Rightarrow> bool" where
  "dbus_path_ok p \<longleftrightarrow>
     p = ''/'' \<or> starts_with ''/'' p \<and> list_all path_segment_ok (split_char (CHR ''/'') (tl p))"

locale dbus_platform = path_lib P + crypto_laws P for P :: "('w, 'v) platform" +
  assumes valid_path: "dbus_path_ok p \<Longrightarrow> valid_object_path P p"
    and variant_string_ok: "variant_string P t \<noteq> None"
    and variant_bytes_ok: "variant_bytes P b \<noteq> None"
begin

lemma hex_segment: "path_segment_ok (uuid_simple P u)" "CHR ''/'' \<notin> set (uuid_simple P u)"
  using simple_hex [of u] simple_length [of u]
  by (auto simp: path_segment_ok_def is_ascii_hexdigit_def is_ascii_alphanumeric_def is_ascii_digit_def
      less_eq_char_def list_all_iff)

lemma paths_valid [simp]:
  "valid_object_path P (collection_path P u)" "valid_object_path P (item_path P u)"
  "valid_object_path P (session_path P u)" "valid_object_path P ''/''"
  using hex_segment [of u]
  by (auto intro!: valid_path simp: dbus_path_ok_def path_defs SERVICE_PATH_def starts_with_def
      split_char_no_sep path_segment_ok_def is_ascii_alphanumeric_def is_ascii_digit_def less_eq_char_def)

lemma calm_object_path [calm_intros]: "valid_object_path P p \<Longrightarrow> calm (object_path P p)"
  by (auto simp: object_path_def intro!: calm_intros)

lemma calm_object_paths [calm_intros]:
  "list_all (valid_object_path P) ps \<Longrightarrow> calm (object_paths P ps)"
  by (induction ps) (auto simp: object_paths_def intro!: calm_intros)

lemma calm_variant [calm_intros]:
  "calm (variant (variant_string P t))" "calm (variant (variant_bytes P b))"
  using variant_string_ok variant_bytes_ok by (auto simp: variant_def intro!: calm_intros)

lemma calm_open_dh [calm_intros]: "calm (open_dh P gen pub)"
  by (simp add: calm_def open_dh_no_panic [unfolded wp_def])

lemma calm_provider [calm_intros]:
  "calm (collections P)" "calm (collection P u)" "calm (items P u)" "calm (item P u b)"
  "calm (provider_create_collection P l)" "calm (update_collection_label P u l)"
  "calm (provider_delete_collection P u)" "calm (provider_create_item P u l as c x r)"
  "calm (provider_update_item P m y)" "calm (provider_delete_item P u)"
  "calm (provider_resolve_alias P n)" "calm (aliases P)" "calm (provider_set_alias P n z)"
  "calm (search P as)" "calm (provider_open_session P a i)" "calm (decode_secret P own d)"
  "calm (encode_secret P own u x c)" "calm (close_session u own)"
  unfolding collections_def collection_def items_def item_def provider_create_collection_def
    update_collection_label_def provider_delete_collection_def provider_create_item_def
    provider_update_item_def provider_delete_item_def provider_resolve_alias_def aliases_def
    provider_set_alias_def search_def provider_open_session_def decode_secret_def encode_secret_def
    close_session_def Let_def
  by (auto intro!: calm_intros split: ResponseBody.splits option.splits SessionKey.splits)

lemma calm_read_secrets [calm_intros]: "calm (read_secrets P ps)"
  by (induction ps) (auto intro!: calm_intros)

lemma calm_encode_secrets [calm_intros]: "calm (encode_secrets P own u raw vs)"
  by (induction raw arbitrary: vs) (auto intro!: calm_intros)

lemma calm_emit [calm_intros]: "calm (emit_item_changed P c u)"
  unfolding emit_item_changed_def by (auto intro!: calm_intros)

lemma calm_service [calm_intros]:
  "calm (service_search_items P as)" "calm (service_unlock P os)" "calm (service_lock P os)"
  "calm (service_get_secrets P sender ps x)" "calm (service_read_alias P n)"
  "calm (service_set_alias P here n c)" "calm (service_collections P)" "calm (service_aliases P)"
  "calm (service_open_session P sender a i)"
  unfolding service_search_items_def service_unlock_def service_lock_def service_get_secrets_def
    service_read_alias_def service_set_alias_def service_collections_def service_aliases_def
    service_open_session_def
  by (auto intro!: calm_intros simp: list_all_iff)

lemma calm_create_collection [calm_intros]: "calm (service_create_collection P here ps a)"
  unfolding service_create_collection_def discard_collection_def
  by (auto intro!: calm_intros)

lemma calm_collection [calm_intros]:
  "calm (collection_delete P u)" "calm (collection_search_items P u as)"
  "calm (collection_create_item P here u sender ps d r)" "calm (collection_get_label P u)"
  "calm (collection_set_label P u l)" "calm (collection_created P u)" "calm (collection_modified P u)"
  "calm (collection_items P u)"
  unfolding collection_delete_def collection_search_items_def collection_create_item_def
    collection_get_label_def collection_set_label_def collection_created_def collection_modified_def
    collection_items_def Let_def
  by (auto intro!: calm_intros simp: list_all_iff)

lemma calm_item [calm_intros]:
  "calm (item_delete P u)" "calm (item_get_secret P u sender x)" "calm (item_set_secret P here u sender d)"
  "calm (item_get_label P u)" "calm (item_set_label P u l)" "calm (item_get_attributes P u)"
  "calm (item_set_attributes P u as)" "calm (item_created P u)" "calm (item_modified P u)"
  "calm (prompt_prompt P here w)" "calm (prompt_dismiss P here)" "calm (session_close P u sender)"
  unfolding item_delete_def item_get_secret_def item_set_secret_def item_get_label_def item_change_def
    item_set_label_def item_get_attributes_def item_set_attributes_def item_created_def item_modified_def
    prompt_prompt_def prompt_dismiss_def prompt_complete_def session_close_def
  by (auto intro!: calm_intros)

lemma perform_calm: "\<not> fst (perform P sender here rq s)"
  by (cases rq) (auto intro!: calm_observe calm_intros)

end

end
