(* ===== verification/Provider_Sessions.thy ===== *)
theory Provider_Sessions
  imports Provider_Invariants
begin

text \<open>
  The session table over histories of calls: only \<^verbatim>\<open>OpenSession\<close>, \<^verbatim>\<open>Close\<close> and the
  disappearance of a client from the bus change it, each only the sessions of that client; a secret
  leaves the provider only under the key of a session its caller owns.
\<close>

section \<open>Well-formed tables\<close>

definition key_ok :: "SessionKey \<Rightarrow> bool" where
  "key_ok key \<longleftrightarrow> (case key of Plain \<Rightarrow> True | Dh k \<Rightarrow> length k = 16)"

definition sessions_wf :: "(uuid \<times> SessionRecord) list \<Rightarrow> bool" where
  "sessions_wf m \<longleftrightarrow> distinct (map fst m) \<and> list_all (\<lambda>(_, record). key_ok (sr_key record)) m"

lemma key_ok_simps [simp]: "key_ok Plain" "key_ok (Dh k) \<longleftrightarrow> length k = 16"
  by (simp_all add: key_ok_def)

lemma map_of_hm_insert [simp]: "map_of (hm_insert k v m) = (map_of m)(k \<mapsto> v)"
proof -
  have "map_of (filter (\<lambda>(a, _). a \<noteq> k) m) x = map_of m x" if "x \<noteq> k" for x
    using that by (induction m) auto
  then show ?thesis by (auto simp: hm_insert_def fun_eq_iff)
qed

lemma map_of_hm_remove [simp]: "map_of (hm_remove k m) = (map_of m)(k := None)"
  by (induction m) (auto simp: hm_remove_def fun_eq_iff)

lemma sessions_wf_filter: "sessions_wf m \<Longrightarrow> sessions_wf (filter p m)"
  by (auto simp: sessions_wf_def distinct_map list_all_iff intro: inj_on_subset)

lemma sessions_wf_insert: "sessions_wf m \<Longrightarrow> key_ok (sr_key r) \<Longrightarrow> sessions_wf (hm_insert u r m)"
  using sessions_wf_filter [of m "\<lambda>(a, _). a \<noteq> u"] by (auto simp: sessions_wf_def hm_insert_def)

lemma sessions_wf_remove: "sessions_wf m \<Longrightarrow> sessions_wf (hm_remove u m)"
  by (simp add: hm_remove_def sessions_wf_filter)

lemma sessions_wf_key: "sessions_wf m \<Longrightarrow> map_of m u = Some r \<Longrightarrow> key_ok (sr_key r)"
  by (auto simp: sessions_wf_def list_all_iff dest!: map_of_SomeD)

lemma quiet_wp: "quiet m \<Longrightarrow> wp m (\<lambda>_ t. sessions t = sessions s) s"
  by (simp add: quiet_def wp_def)

lemma wp_owned_session:
  "wp (owned_session u own)
     (\<lambda>r t. t = s \<and> (case r of
        Inl e \<Rightarrow> e = Err InvalidSession \<and> (\<forall>record. map_of (sessions s) u = Some record \<longrightarrow> sr_owner record \<noteq> own)
      | Inr record \<Rightarrow> map_of (sessions s) u = Some record \<and> sr_owner record = own)) s"
  by (auto simp: owned_session_def wp_simps split: option.splits)


section \<open>What changes the table\<close>

lemma wp_act_iter_quiet: "(\<And>x. quiet (f x)) \<Longrightarrow> wp (act_iter f xs) (\<lambda>_ t. sessions t = sessions s) s"
  by (rule quiet_wp) (rule quiet_iter)

lemma remove_owner_sessions_wp:
  "wp (remove_owner_sessions P name)
     (\<lambda>_ t. sessions t = filter (\<lambda>(_, record). sr_owner record \<noteq> name) (sessions s)) s"
  unfolding remove_owner_sessions_def remove_owner_def wp_simps sum.case
  by (rule wp_mono [OF wp_act_iter_quiet [OF quiet_library(10)]]) simp

lemma session_close_wp:
  "wp (session_close P u sender)
     (\<lambda>_ t. sessions t = sessions s \<or>
        (\<exists>own record. sender = Some own \<and> map_of (sessions s) u = Some record \<and> sr_owner record = own \<and>
           sessions t = hm_remove u (sessions s))) s"
proof (cases sender)
  case None
  then show ?thesis by (simp add: session_close_def caller_def wp_simps)
next
  case (Some own)
  show ?thesis
    unfolding session_close_def caller_def Some option.case wp_simps sum.case close_session_def
    by (rule wp_mono [OF wp_owned_session])
       (auto split: sum.splits simp: lib_call_def wp_simps intro!: wpI)
qed

context dbus_platform
begin

lemma provider_open_session_wp:
  "wp (provider_open_session P a i)
     (\<lambda>r t. sessions t = sessions s \<and> (\<forall>out u key. r = Inr (out, u, key) \<longrightarrow>
        key_ok key \<and> (\<exists>w. u = fst (new_v4 P w)))) s"
proof -
  have dh: "wp (open_dh P (gen_biguint_range P) pub)
      (\<lambda>r w. \<forall>key out. r = Inr (key, out) \<longrightarrow> key_ok key) w" for pub w
    by (rule wp_mono [OF open_dh_wp]) (auto simp: Let_def)
  have "wp (provider_open_session P a i)
     (\<lambda>r t. \<forall>out u key. r = Inr (out, u, key) \<longrightarrow> key_ok key \<and> (\<exists>w. u = fst (new_v4 P w))) s"
    unfolding provider_open_session_def
    by (auto simp: wp_simps plain_def variant_def fresh_uuid_def split: option.splits sum.splits
        intro!: wp_mono [OF dh])
  moreover have "wp (provider_open_session P a i) (\<lambda>_ t. sessions t = sessions s) s"
    by (intro quiet_wp quiet_intros)
  ultimately show ?thesis by (simp add: wp_def)
qed

lemma service_open_session_wp:
  "wp (service_open_session P sender a i)
     (\<lambda>_ t. sessions t = sessions s \<or>
        (\<exists>own u key. sender = Some own \<and> key_ok key \<and> (\<exists>w. u = fst (new_v4 P w)) \<and>
           sessions t = hm_insert u \<lparr>sr_owner = own, sr_key = key\<rparr> (sessions s))) s"
proof (cases sender)
  case None
  then show ?thesis by (simp add: service_open_session_def caller_def wp_simps)
next
  case (Some own)
  show ?thesis
    unfolding service_open_session_def caller_def Some option.case wp_simps sum.case
    by (rule wp_mono [OF provider_open_session_wp],
        auto simp: lib_call_def wp_simps insert_session_def object_path_def split: sum.splits option.splits
         intro!: wpI, blast)
qed

text \<open>A call changes the table only by opening or closing a session of its caller.\<close>

lemma perform_sessions:
  assumes "perform P sender here rq s = (b, t)"
  shows "sessions t = sessions s \<or>
    (\<exists>own u key w a i. rq = OpenSession a i \<and> sender = Some own \<and> key_ok key \<and> u = fst (new_v4 P w) \<and>
       sessions t = hm_insert u \<lparr>sr_owner = own, sr_key = key\<rparr> (sessions s)) \<or>
    (\<exists>u record. map_of (sessions s) u = Some record \<and> sender = Some (sr_owner record) \<and>
       sessions t = hm_remove u (sessions s))"
proof -
  have t: "t = snd (perform P sender here rq s)" using assms by simp
  have obs: "snd (observe m s) = snd (m s)" for m :: "('w provider, 'e failure, 'a) act"
    by (simp add: observe_def case_prod_beta)
  show ?thesis
  proof (cases rq)
    case (OpenSession a i)
    then show ?thesis
      using service_open_session_wp [of sender a i s] by (auto simp: t wp_def observe_def case_prod_beta)
  next
    case (SessionClose u)
    then show ?thesis
      using session_close_wp [of P u sender s] by (auto simp: t wp_def observe_def case_prod_beta)
  qed (simp_all add: t quiet_observe quiet_intros)
qed

end


section \<open>Histories\<close>

text \<open>Calls of any clients, clients leaving the bus, and changes outside the provider, in any order.\<close>

inductive provider_run :: "('w, 'v) platform \<Rightarrow> 'w provider \<Rightarrow> 'w provider \<Rightarrow> bool" for P where
  start: "provider_run P s s"
| request: "provider_run P s t \<Longrightarrow> perform P sender here rq t = (b, t') \<Longrightarrow> provider_run P s t'"
| vanished: "provider_run P s t \<Longrightarrow> remove_owner_sessions P name t = (r :: unit failure + unit, t') \<Longrightarrow>
    provider_run P s t'"
| outside: "provider_run P s t \<Longrightarrow> provider_run P s (t\<lparr>world := w\<rparr>)"

context dbus_platform
begin

lemma run_sessions_wf:
  assumes "provider_run P s t" and "sessions_wf (sessions s)"
  shows "sessions_wf (sessions t)"
  using assms
proof (induction rule: provider_run.induct)
  case (request s t sender here rq b t')
  from perform_sessions [OF request.hyps(2)] request.IH [OF request.prems] show ?case
    by (auto simp: sessions_wf_insert sessions_wf_remove)
next
  case (vanished s t name r t')
  then show ?case
    using wpD [OF remove_owner_sessions_wp vanished.hyps(2)] by (simp add: sessions_wf_filter)
qed auto

text \<open>No call touches a session of another client, unless a fresh identifier collides with it.\<close>

lemma perform_spares:
  assumes "perform P sender here rq s = (b, t)" and "map_of (sessions s) u = Some sr"
    and "sender \<noteq> Some (sr_owner sr)"
  shows "map_of (sessions t) u = Some sr \<or> (\<exists>a i w. rq = OpenSession a i \<and> fst (new_v4 P w) = u)"
  using perform_sessions [OF assms(1)] assms(2,3) by (auto split: if_splits)

lemma vanished_spares:
  assumes "remove_owner_sessions P name s = (r, t)" and "sessions_wf (sessions s)"
  shows "map_of (sessions t) u =
    (case map_of (sessions s) u of
       Some record \<Rightarrow> if sr_owner record = name then None else Some record
     | None \<Rightarrow> None)"
proof -
  have "sessions t = filter (\<lambda>(_, record). sr_owner record \<noteq> name) (sessions s)"
    using wpD [OF remove_owner_sessions_wp assms(1)] .
  moreover have "map_of (filter (\<lambda>(_, record). sr_owner record \<noteq> name) m) u =
      (case map_of m u of Some record \<Rightarrow> if sr_owner record = name then None else Some record | None \<Rightarrow> None)"
    if "distinct (map fst m)" for m :: "(uuid \<times> SessionRecord) list"
    using that
  proof (induction m)
    case (Cons q m)
    then have "fst q = u \<Longrightarrow> map_of m u = None" by (auto simp: map_of_eq_None_iff)
    with Cons show ?case by (auto split: prod.splits)
  qed simp
  ultimately show ?thesis using assms(2) by (simp add: sessions_wf_def)
qed


section \<open>Secrets in transit\<close>

lemma encode_secret_wp:
  assumes "sessions_wf (sessions s)"
  shows "wp (encode_secret P own u x c)
     (\<lambda>r t. \<forall>d. r = Inr d \<longrightarrow>
        (\<exists>record iv v. map_of (sessions s) u = Some record \<and> sr_owner record = own \<and>
           d = (session_path P u, iv, v, c) \<and> decrypt P (sr_key record) iv v = Inr (expose x))) s"
  unfolding encode_secret_def
proof (rule wp_bindI [OF wp_owned_session], goal_cases)
  case (2 sr t)
  then have rec: "map_of (sessions s) u = Some sr" "sr_owner sr = own" and t: "t = s" by simp_all
  have key: "key_ok (sr_key sr)" using sessions_wf_key [OF assms rec(1)] .
  show ?case
  proof (cases "sr_key sr")
    case Plain
    then show ?thesis using rec by (auto simp: wp_simps object_path_def split: if_splits)
  next
    case (Dh k)
    then show ?thesis
      using rec key
      by (auto simp: wp_simps object_path_def checked_iv_def aes_decrypt_encrypt
          split: sum.splits if_splits intro!: wpI)
  qed
qed simp

text \<open>
  What the client of a session sends: the parameters and the ciphertext of its secret. It is
  decoded to the same bytes when the client owns the session.
\<close>

lemma decode_secret_ok:
  assumes "map_of (sessions s) u = Some record" and "sr_owner record = own"
    and "decrypt P (sr_key record) iv v = Inr b" and "length b \<le> MAX_SECRET_BYTES"
  shows "decode_secret P own (session_path P u, iv, v, c) s = (Inr (u, SecretBytes b, c), s)"
  using assms
  by (simp add: decode_secret_def path_roundtrip owned_session_def act_simps sessions_of_def run_err_def
      check_protocol_def SecretBytes_new_def)

lemma decode_secret_Inr:
  assumes "decode_secret P own (path, iv, v, c) s = (Inr (u, x, c'), t)"
  shows "t = s \<and> c' = c \<and> secret_wf x \<and> session_id P path = Some u \<and>
    (\<exists>record. map_of (sessions s) u = Some record \<and> sr_owner record = own \<and>
       decrypt P (sr_key record) iv v = Inr (expose x))"
  using assms
  by (auto simp: decode_secret_def owned_session_def act_simps sessions_of_def run_err_def err_def
      check_protocol_def map_err_def SecretBytes_new_def secret_wf_def
      split: option.splits if_splits sum.splits prod.splits)

end

end
