(* ===== verification/Provider_Client.thy ===== *)
theory Provider_Client
  imports Provider_Error Frames
begin

text \<open>
  The provider's connection to the broker process (\<^verbatim>\<open>ProcessBroker\<close> in
  \<^verbatim>\<open>crates/provider/src/broker.rs\<close>): starting the child and the handshake, the numbering and
  correlation of requests, the reader task, time limits, and what is retried after a failure. The
  operating system process, its pipes and the timer belong to tokio and are parameters
  (\<open>process_api\<close>). One caller runs at a time; requests of other callers are entries of
  \<open>pending\<close> that the same reader answers. Locks that only serialize the callers and the draining
  of standard error have no counterpart.
\<close>

section \<open>State\<close>

record ('w, 'c) process_api =
  spawn :: "('w, unit, 'c) act"  \<comment> \<open>\<^verbatim>\<open>Command::spawn\<close> with the three pipes taken\<close>
  child_stdin :: "'c \<Rightarrow> 'w writer"
  child_stdout :: "'c \<Rightarrow> 'w reader"
  kill_child :: "'c \<Rightarrow> 'w \<Rightarrow> 'w"
  deadline :: "'w \<Rightarrow> bool \<times> 'w"  \<comment> \<open>whether the time limit strikes before the awaited call ends\<close>
  progress :: "'w \<Rightarrow> nat \<times> 'w"  \<comment> \<open>how many frames the reader task gets through while a caller waits\<close>
  hello_cbor :: "Hello Envelope cbor"
  ack_cbor :: "HelloAck Envelope cbor"
  request_cbor :: "Request Envelope cbor"
  response_cbor :: "Response Envelope cbor"

type_synonym answer = "ProviderError + ResponseBody"

text \<open>
  \<open>rb_pending\<close> are the keys of the table of waiting callers, \<open>rb_answers\<close> what was sent through
  their one-shot channels, and \<open>rb_reading\<close> whether the reader task still runs.
\<close>

record 'c RunningBroker =
  rb_child :: 'c
  rb_pending :: "u64 set"
  rb_answers :: "u64 \<rightharpoonup> answer"
  rb_requests :: u64
  rb_reading :: bool

text \<open>\<open>pb_retired\<close> are the connections given up, which callers that still wait on them hold.\<close>

record ('w, 'c) ProcessBroker =
  pb_running :: "'c RunningBroker option"
  pb_retired :: "'c RunningBroker list"
  pb_world :: 'w

definition ProcessBroker_new :: "'w \<Rightarrow> ('w, 'c) ProcessBroker" where
  "ProcessBroker_new w = \<lparr>pb_running = None, pb_retired = [], pb_world = w\<rparr>"

definition timeout ::
  "('w, 'c) process_api \<Rightarrow> ('w, 'e, 'a) act \<Rightarrow> ('w, ProviderError, 'e + 'a) act" where
  "timeout A m w =
     (case m w of (r, w') \<Rightarrow>
        (case deadline A w' of (late, w'') \<Rightarrow> (if late then Inl Timeout else Inr r, w'')))"


section \<open>Starting the broker\<close>

definition client_hello :: "Hello Envelope" where
  "client_hello =
     Envelope_current
       \<lparr>h_versions = VersionRange_current,
        h_capabilities =
          {BinarySecrets, Capability.Collections, Capability.Aliases, GenerationCommits,
           Reconciliation, AtomicItemMutations}\<rparr>"

definition RunningBroker_new :: "'c \<Rightarrow> 'c RunningBroker" where
  "RunningBroker_new child =
     \<lparr>rb_child = child, rb_pending = {}, rb_answers = Map.empty, rb_requests = 1, rb_reading = True\<rparr>"

definition start :: "('w, 'c) process_api \<Rightarrow> ('w, ProviderError, 'c RunningBroker) act" where
  "start A =
     act_bind (act_map_err (\<lambda>_. Transport) (spawn A)) (\<lambda>child.
     act_bind (timeout A (write_frame (child_stdin A child) (hello_cbor A) client_hello)) (\<lambda>written.
     act_bind (act_lift (map_err provider_of_protocol_error written)) (\<lambda>_.
     act_bind (timeout A (read_frame (child_stdout A child) (ack_cbor A))) (\<lambda>received.
     act_bind (act_lift (map_err provider_of_protocol_error received)) (\<lambda>acknowledgement.
     act_bind (act_lift (map_err provider_of_protocol_error (validate_version acknowledgement))) (\<lambda>_.
     if ack_version (env_payload acknowledgement) \<noteq> PROTOCOL_VERSION then act_throw Transport
     else if AtomicItemMutations \<notin> ack_capabilities (env_payload acknowledgement) then
       act_throw Transport
     else act_return (RunningBroker_new child)))))))"

definition running ::
  "('w, 'c) process_api \<Rightarrow> (('w, 'c) ProcessBroker, ProviderError, 'c RunningBroker) act" where
  "running A s =
     (case pb_running s of
        Some rb \<Rightarrow> (Inr rb, s)
      | None \<Rightarrow>
          (case start A (pb_world s) of
             (Inl e, w) \<Rightarrow> (Inl e, s\<lparr>pb_world := w\<rparr>)
           | (Inr rb, w) \<Rightarrow> (Inr rb, s\<lparr>pb_running := Some rb, pb_world := w\<rparr>)))"


section \<open>The reader task\<close>

definition deliver :: "Response \<Rightarrow> 'c RunningBroker \<Rightarrow> 'c RunningBroker" where
  "deliver response rb =
     (if resp_request_id response \<in> rb_pending rb then
        rb\<lparr>rb_pending := rb_pending rb - {resp_request_id response},
           rb_answers := (rb_answers rb)
             (resp_request_id response \<mapsto> map_err Broker (resp_result response))\<rparr>
      else rb)"

text \<open>Draining the table: every waiting caller is told that the transport failed.\<close>

definition drain_pending :: "'c RunningBroker \<Rightarrow> 'c RunningBroker" where
  "drain_pending rb =
     rb\<lparr>rb_pending := {},
        rb_answers := (\<lambda>k. if k \<in> rb_pending rb then Some (Inl Transport) else rb_answers rb k)\<rparr>"

fun reader_loop ::
  "'w reader \<Rightarrow> Response Envelope cbor \<Rightarrow> nat \<Rightarrow> 'c RunningBroker \<Rightarrow> 'w \<Rightarrow> 'c RunningBroker \<times> 'w" where
  "reader_loop R C 0 rb w = (rb, w)"
| "reader_loop R C (Suc n) rb w =
     (if \<not> rb_reading rb then (rb, w)
      else (case read_frame R C w of
              (Inr envelope, w') \<Rightarrow>
                if is_ok (validate_version envelope) then
                  reader_loop R C n (deliver (env_payload envelope) rb) w'
                else ((drain_pending rb)\<lparr>rb_reading := False\<rparr>, w')
            | (Inl _, w') \<Rightarrow> ((drain_pending rb)\<lparr>rb_reading := False\<rparr>, w')))"


section \<open>Requests\<close>

text \<open>A caller enters the table under the next number (\<^verbatim>\<open>fetch_add\<close> wraps).\<close>

definition enter_request :: "'c RunningBroker \<Rightarrow> 'c RunningBroker" where
  "enter_request rb =
     rb\<lparr>rb_requests := rb_requests rb + 1,
        rb_pending := insert (rb_requests rb) (rb_pending rb),
        rb_answers := (rb_answers rb)(rb_requests rb := None)\<rparr>"

definition withdraw_request :: "u64 \<Rightarrow> 'c RunningBroker \<Rightarrow> 'c RunningBroker" where
  "withdraw_request request_id rb = rb\<lparr>rb_pending := rb_pending rb - {request_id}\<rparr>"

text \<open>What the caller's one-shot channel holds when it stops waiting.\<close>

definition received_answer :: "u64 \<Rightarrow> 'c RunningBroker \<Rightarrow> answer" where
  "received_answer request_id rb =
     (case rb_answers rb request_id of
        Some answer \<Rightarrow> answer
      | None \<Rightarrow> if request_id \<in> rb_pending rb then Inl Timeout else Inl Transport)"

definition request_once ::
  "('w, 'c) process_api \<Rightarrow> Operation \<Rightarrow> (('w, 'c) ProcessBroker, ProviderError, ResponseBody) act" where
  "request_once A operation =
     act_bind (running A) (\<lambda>rb s.
     let request_id = rb_requests rb;
         entered = enter_request rb;
         envelope = Envelope_current \<lparr>req_request_id = request_id, req_operation = operation\<rparr>
     in case timeout A (write_frame (child_stdin A (rb_child rb)) (request_cbor A) envelope) (pb_world s) of
          (Inl _, w) \<Rightarrow>
            (Inl Timeout, s\<lparr>pb_running := Some (withdraw_request request_id entered), pb_world := w\<rparr>)
        | (Inr (Inl _), w) \<Rightarrow>
            (Inl Transport, s\<lparr>pb_running := Some (withdraw_request request_id entered), pb_world := w\<rparr>)
        | (Inr (Inr _), w) \<Rightarrow>
            (case progress A w of (n, w') \<Rightarrow>
             case reader_loop (child_stdout A (rb_child rb)) (response_cbor A) n entered w' of
               (rb', w'') \<Rightarrow>
                 (received_answer request_id rb', s\<lparr>pb_running := Some rb', pb_world := w''\<rparr>)))"

definition restart :: "('w, 'c) process_api \<Rightarrow> ('w, 'c) ProcessBroker \<Rightarrow> ('w, 'c) ProcessBroker" where
  "restart A s =
     (case pb_running s of
        None \<Rightarrow> s
      | Some old \<Rightarrow>
          s\<lparr>pb_running := None, pb_retired := drain_pending old # pb_retired s,
            pb_world := kill_child A (rb_child old) (pb_world s)\<rparr>)"

definition shutdown :: "('w, 'c) process_api \<Rightarrow> ('w, 'c) ProcessBroker \<Rightarrow> ('w, 'c) ProcessBroker" where
  "shutdown A s = restart A s"

fun retry_safe :: "Operation \<Rightarrow> bool" where
  "retry_safe Ping = True"
| "retry_safe ListCollections = True"
| "retry_safe (GetCollection _) = True"
| "retry_safe ListAliases = True"
| "retry_safe (ResolveAlias _) = True"
| "retry_safe (SearchItems _) = True"
| "retry_safe (ListItems _) = True"
| "retry_safe (GetItem _ _) = True"
| "retry_safe _ = False"

definition process_call ::
  "('w, 'c) process_api \<Rightarrow> Operation \<Rightarrow> (('w, 'c) ProcessBroker, ProviderError, ResponseBody) act" where
  "process_call A operation s =
     (case request_once A operation s of (first, s') \<Rightarrow>
        if first = Inl Transport \<or> first = Inl Timeout then
          (let s'' = restart A s' in
           if retry_safe operation then request_once A operation s''
           else (Inl Indeterminate, s''))
        else (first, s'))"


section \<open>Correlation of answers\<close>

text \<open>The envelopes the reader task reads, up to the first that ends it.\<close>

fun frames_read ::
  "'w reader \<Rightarrow> Response Envelope cbor \<Rightarrow> nat \<Rightarrow> 'w \<Rightarrow> Response list" where
  "frames_read R C 0 w = []"
| "frames_read R C (Suc n) w =
     (case read_frame R C w of
        (Inr envelope, w') \<Rightarrow>
          if is_ok (validate_version envelope) then env_payload envelope # frames_read R C n w' else []
      | (Inl _, w') \<Rightarrow> [])"

definition answer_to :: "u64 \<Rightarrow> Response list \<Rightarrow> answer option" where
  "answer_to i rs =
     map_option (\<lambda>r. map_err Broker (resp_result r)) (find (\<lambda>r. resp_request_id r = i) rs)"

lemma deliver_simps [simp]:
  "rb_reading (deliver r rb) = rb_reading rb" "rb_child (deliver r rb) = rb_child rb"
  "rb_requests (deliver r rb) = rb_requests rb"
  "rb_pending (deliver r rb) = rb_pending rb - {resp_request_id r}"
  by (auto simp: deliver_def)

lemma deliver_answers:
  "rb_answers (deliver r rb) i =
   (if resp_request_id r = i \<and> i \<in> rb_pending rb then Some (map_err Broker (resp_result r))
    else rb_answers rb i)"
  by (simp add: deliver_def)

text \<open>Once answered, a caller's channel is not written again.\<close>

lemma reader_loop_kept:
  assumes "i \<notin> rb_pending rb" and "reader_loop R C n rb w = (rb', w')"
  shows "rb_answers rb' i = rb_answers rb i \<and> i \<notin> rb_pending rb'"
  using assms
proof (induction n arbitrary: rb w)
  case (Suc n)
  then show ?case
    by (auto simp: deliver_answers drain_pending_def split: if_splits prod.splits sum.splits)
       (metis Suc.IH deliver_answers deliver_simps(4) DiffE)+
qed simp

text \<open>
  The first frame that carries the caller's number is its answer; a stream that ends first leaves
  it with a transport error.
\<close>

lemma reader_loop_answer:
  assumes "rb_reading rb" and "i \<in> rb_pending rb" and "rb_answers rb i = None"
    and "reader_loop R C n rb w = (rb', w')"
  shows "rb_answers rb' i =
    (case answer_to i (frames_read R C n w) of
       Some a \<Rightarrow> Some a
     | None \<Rightarrow> if rb_reading rb' then None else Some (Inl Transport)) \<and>
    (i \<in> rb_pending rb' \<longleftrightarrow> rb_answers rb' i = None)"
  using assms
proof (induction n arbitrary: rb w)
  case 0
  then show ?case by (simp add: answer_to_def)
next
  case (Suc n)
  obtain r w1 where rd: "read_frame R C w = (r, w1)" by force
  show ?case
  proof (cases "\<exists>e. r = Inr e \<and> is_ok (validate_version e)")
    case False
    then show ?thesis
      using Suc.prems rd by (auto simp: drain_pending_def answer_to_def split: sum.splits if_splits)
  next
    case True
    then obtain e where r: "r = Inr e" "is_ok (validate_version e)" by blast
    have loop: "reader_loop R C n (deliver (env_payload e) rb) w1 = (rb', w')"
      using Suc.prems rd r by simp
    show ?thesis
    proof (cases "resp_request_id (env_payload e) = i")
      case True
      with reader_loop_kept [OF _ loop, of i] Suc.prems rd r show ?thesis
        by (simp add: answer_to_def deliver_answers)
    next
      case False
      with Suc.IH [OF _ _ _ loop] Suc.prems rd r show ?thesis
        by (simp add: answer_to_def deliver_answers)
    qed
  qed
qed

lemma find_first: "\<forall>x \<in> set xs. \<not> P x \<Longrightarrow> P z \<Longrightarrow> find P (xs @ z # ys) = Some z"
  by (induction xs) auto

lemma find_SomeD: "find P zs = Some z \<Longrightarrow> \<exists>xs ys. zs = xs @ z # ys \<and> P z \<and> (\<forall>x \<in> set xs. \<not> P x)"
proof (induction zs)
  case (Cons a zs)
  show ?case
  proof (cases "P a")
    case True
    with Cons.prems show ?thesis by fastforce
  next
    case False
    with Cons.IH Cons.prems obtain xs ys where "zs = xs @ z # ys" "P z" "\<forall>x \<in> set xs. \<not> P x" by auto
    with False show ?thesis by (metis append_Cons set_ConsD)
  qed
qed simp

lemma answer_to_Some:
  "answer_to i rs = Some a \<longleftrightarrow>
   (\<exists>xs r ys. rs = xs @ r # ys \<and> (\<forall>q \<in> set xs. resp_request_id q \<noteq> i) \<and> resp_request_id r = i \<and>
      a = map_err Broker (resp_result r))"
  by (auto simp: answer_to_def find_first dest!: find_SomeD)

text \<open>
  The request \<open>op\<close> under the number \<open>i\<close> is answered by \<open>x\<close> on the connection to \<open>child\<close>: it is
  written to the child within the time limit, and of the frames the reader task gets through after
  that the first one numbered \<open>i\<close> carries \<open>x\<close>.
\<close>

definition answered_with ::
  "('w, 'c) process_api \<Rightarrow> 'c \<Rightarrow> u64 \<Rightarrow> Operation \<Rightarrow> 'w \<Rightarrow> BrokerError + ResponseBody \<Rightarrow> bool" where
  "answered_with A child i op w x \<longleftrightarrow>
     (\<exists>w1 w2 n w3 xs response ys.
        write_frame (child_stdin A child) (request_cbor A)
          (Envelope_current \<lparr>req_request_id = i, req_operation = op\<rparr>) w = (Inr (), w1) \<and>
        deadline A w1 = (False, w2) \<and> progress A w2 = (n, w3) \<and>
        frames_read (child_stdout A child) (response_cbor A) n w3 = xs @ response # ys \<and>
        (\<forall>q \<in> set xs. resp_request_id q \<noteq> i) \<and> resp_request_id response = i \<and> resp_result response = x)"

lemma map_err_Broker_inj: "map_err Broker x = map_err Broker y \<longleftrightarrow> x = y"
  by (cases x; cases y) auto

lemma map_err_Broker_answer: "map_err Broker x \<noteq> Inl Timeout" "map_err Broker x \<noteq> Inl Transport"
  by (cases x; simp)+

lemma request_once_running:
  assumes "pb_running s = Some rb" and "rb_reading rb"
  shows "fst (request_once A op s) = map_err Broker x \<longleftrightarrow>
    answered_with A (rb_child rb) (rb_requests rb) op (pb_world s) x"
proof -
  let ?i = "rb_requests rb" and ?c = "rb_child rb"
  let ?e = "Envelope_current \<lparr>req_request_id = ?i, req_operation = op\<rparr>"
  obtain r w1 where wr: "write_frame (child_stdin A ?c) (request_cbor A) ?e (pb_world s) = (r, w1)" by force
  obtain late w2 where dl: "deadline A w1 = (late, w2)" by force
  obtain n w3 where pr: "progress A w2 = (n, w3)" by force
  obtain rb' w4 where lp: "reader_loop (child_stdout A ?c) (response_cbor A) n (enter_request rb) w3 = (rb', w4)"
    by force
  let ?fs = "frames_read (child_stdout A ?c) (response_cbor A) n w3"
  have spec: "answered_with A ?c ?i op (pb_world s) x \<longleftrightarrow>
      r = Inr () \<and> \<not> late \<and> answer_to ?i ?fs = Some (map_err Broker x)"
    using wr dl pr by (auto simp: answered_with_def answer_to_Some map_err_Broker_inj)
  have code: "fst (request_once A op s) =
      (if late then Inl Timeout else if is_ok r then received_answer ?i rb' else Inl Transport)"
    using assms(1) wr dl pr lp
    by (simp add: request_once_def running_def act_simps timeout_def Let_def is_ok_def split: sum.splits)
  have "rb_answers rb' ?i = (case answer_to ?i ?fs of
      Some a \<Rightarrow> Some a | None \<Rightarrow> if rb_reading rb' then None else Some (Inl Transport))"
    using reader_loop_answer [OF _ _ _ lp] assms(2) by (simp add: enter_request_def)
  then have "received_answer ?i rb' = map_err Broker x \<longleftrightarrow> answer_to ?i ?fs = Some (map_err Broker x)"
    using map_err_Broker_answer [of x] by (auto simp: received_answer_def split: option.splits)
  then show ?thesis
    unfolding spec code using map_err_Broker_answer [of x]
    by (cases r) (auto simp: is_ok_def)
qed

text \<open>
  A failure ends the connection, so no later caller can meet an answer to this request: after a
  call that reports an indeterminate outcome there is no running broker, and all callers of the
  old one have been told.
\<close>

lemma restart_running [simp]: "pb_running (restart A s) = None"
  by (auto simp: restart_def split: option.splits)

lemma drain_pending_simps [simp]:
  "rb_pending (drain_pending rb) = {}"
  "k \<in> rb_pending rb \<Longrightarrow> rb_answers (drain_pending rb) k = Some (Inl Transport)"
  by (simp_all add: drain_pending_def)

section \<open>The handshake\<close>

lemma start_Inr:
  assumes "start A w = (Inr rb, w')"
  shows "\<exists>child ack w1 w2. rb = RunningBroker_new child \<and>
    read_frame (child_stdout A child) (ack_cbor A) w1 = (Inr ack, w2) \<and>
    env_version ack = PROTOCOL_VERSION \<and> ack_version (env_payload ack) = PROTOCOL_VERSION \<and>
    AtomicItemMutations \<in> ack_capabilities (env_payload ack)"
  using assms
  by (auto simp: start_def act_simps timeout_def validate_version_def
      split: prod.splits sum.splits if_splits)


section \<open>The second attempt\<close>

lemma request_once_retired: "pb_retired (snd (request_once A op s)) = pb_retired s"
  by (auto simp: request_once_def running_def act_simps Let_def split: option.splits prod.splits sum.splits)

lemma request_once_starts:
  assumes "pb_running s = None"
  shows "request_once A op s =
    (case start A (pb_world s) of
       (Inl e, w) \<Rightarrow> (Inl e, s\<lparr>pb_world := w\<rparr>)
     | (Inr rb, w) \<Rightarrow> request_once A op (s\<lparr>pb_running := Some rb, pb_world := w\<rparr>))"
  using assms by (simp add: request_once_def running_def act_simps split: prod.splits sum.splits)

lemma process_call_again:
  assumes "retry_safe op" and "request_once A op s = (Inl e, s')" and "e \<in> {Transport, Timeout}"
  shows "process_call A op s = request_once A op (restart A s')"
  using assms by (auto simp: process_call_def)

lemma request_once_fresh:
  assumes "pb_running s = None"
  shows "case start A (pb_world s) of
      (Inl e, w) \<Rightarrow> fst (request_once A op s) = Inl e
    | (Inr rb, w) \<Rightarrow> \<exists>child. rb = RunningBroker_new child \<and>
        (\<forall>x. fst (request_once A op s) = map_err Broker x \<longleftrightarrow> answered_with A child 1 op w x)"
proof (cases "start A (pb_world s)")
  case (Pair r w)
  show ?thesis
  proof (cases r)
    case (Inr rb)
    then obtain child where rb: "rb = RunningBroker_new child" using start_Inr Pair by metis
    have "fst (request_once A op s) = map_err Broker x \<longleftrightarrow> answered_with A child 1 op w x" for x
      using request_once_running [of "s\<lparr>pb_running := Some rb, pb_world := w\<rparr>" rb A op x]
      by (simp add: request_once_starts [OF assms] Pair Inr rb RunningBroker_new_def)
    then show ?thesis using rb by (auto simp: Pair Inr)
  qed (simp add: request_once_starts [OF assms] Pair)
qed

end
