(* ===== verification/Provider_Vault.thy ===== *)
theory Provider_Vault
  imports Provider_Sessions Provider_Client Broker_Operations
begin

text \<open>
  Provider and broker together: a provider whose requests reach a vault (the locale
  \<open>linked_provider\<close>). Secrets put in by one client are read back by another through the whole
  stack, updates from a stale reading are refused, and the requests the client repeats after a
  broken connection are those that change nothing.
\<close>

section \<open>Repeated requests\<close>

context vault
begin

text \<open>Every request the client may send twice leaves the credential store exactly as it was.\<close>

lemma retry_safe_reads:
  assumes "execute L B op s = Some (r, t)" and "invar s" and "operation_value op" and "retry_safe op"
  shows "store t = store s"
  using assms(1-3)
proof (rule execute_wp [where Q = "\<lambda>_ st. st = store s"], goal_cases)
  case (1 s')
  show ?case
  proof (cases op)
    case Ping
    then show ?thesis using 1 by (simp add: wp_simps)
  next
    case (GetCollection u)
    show ?thesis unfolding GetCollection dispatch.simps wp_simps
      by (rule wp_mono [OF get_collection_wp]) (use 1 in \<open>auto simp: wp_simps quietD split: sum.splits\<close>)
  next
    case ListCollections
    show ?thesis unfolding ListCollections dispatch.simps
      by (rule wp_mono [OF list_collections_wp]) (use 1 in \<open>auto simp: quietD\<close>)
  next
    case ListAliases
    show ?thesis unfolding ListAliases dispatch.simps
      by (rule wp_mono [OF list_aliases_wp]) (use 1 in \<open>auto simp: quietD\<close>)
  next
    case (ResolveAlias n)
    show ?thesis unfolding ResolveAlias dispatch.simps
      by (rule wp_mono [OF resolve_alias_wp]) (use 1 assms(3) ResolveAlias in \<open>auto simp: quietD\<close>)
  next
    case (SearchItems a)
    show ?thesis unfolding SearchItems dispatch.simps
      by (rule wp_mono [OF search_items_wp]) (use 1 in \<open>auto simp: quietD\<close>)
  next
    case (ListItems c)
    show ?thesis unfolding ListItems dispatch.simps
      by (rule wp_mono [OF list_items_wp]) (use 1 in \<open>auto simp: quietD\<close>)
  next
    case (GetItem u b)
    show ?thesis unfolding GetItem dispatch.simps
      by (rule wp_mono [OF get_item_wp]) (use 1 in \<open>auto simp: quietD\<close>)
  qed (use assms(4) in auto)
qed simp

lemma replace_result:
  assumes "execute L B (CreateOrReplaceItem m x replace) s = Some (Inr y, t)" and "invar s"
    and "item_value m" and "secret_wf x"
  shows "\<exists>d f. y = ResponseBody.ReplacedItem m d f"
proof -
  let ?Q = "\<lambda>q :: BrokerError + ResponseBody. \<forall>y. q = Inr y \<longrightarrow> (\<exists>d f. y = ResponseBody.ReplacedItem m d f)"
  have "?Q (Inr y)"
    using assms(1,2)
  proof (rule execute_wp [where Q = "\<lambda>q _. ?Q q"], goal_cases)
    case (2 s')
    show ?case unfolding dispatch.simps
      by (rule wp_mono [OF create_or_replace_item_wp]) (use 2 assms in auto)
  qed (use assms in auto)
  then show ?thesis by simp
qed

end


section \<open>A provider on a vault\<close>

text \<open>
  The broker client answers with what the vault does (\<open>vault_of\<close> is its state in the platform's
  world); nothing else on the platform touches the vault.
\<close>

locale linked_provider = dbus_platform P + vault L B store invar up held
  for P :: "('w, 'v) platform" and L :: "'x broker_lib_scheme" and B :: "'s backend"
    and store :: "'s \<Rightarrow> string \<rightharpoonup> bytes" and invar :: "'s \<Rightarrow> bool"
    and up :: "'s \<Rightarrow> bool" and held :: "'s \<Rightarrow> nat" +
  fixes vault_of :: "'w \<Rightarrow> 's"
  assumes call_law: "execute L B op (vault_of w) = Some (q, v) \<Longrightarrow>
      fst (broker_call P op w) = map_err Broker q \<and> vault_of (snd (broker_call P op w)) = v"
    and platform_frame:
      "vault_of (snd (unix_time P w)) = vault_of w" "vault_of (snd (new_v4 P w)) = vault_of w"
      "vault_of (snd (try_fill_bytes P n w)) = vault_of w" "vault_of (snd (server_at P p d w)) = vault_of w"
      "vault_of (snd (server_remove P i p w)) = vault_of w" "vault_of (snd (emit_signal P p g w)) = vault_of w"
begin

definition settled :: "'w provider \<Rightarrow> bool" where
  "settled s \<longleftrightarrow> invar (vault_of (world s)) \<and> up (vault_of (world s)) \<and> held (vault_of (world s)) = 0"

abbreviation shown :: "'w provider \<Rightarrow> uuid \<rightharpoonup> ItemMetadata \<times> bytes option" where
  "shown s \<equiv> visible_item L (store (vault_of (world s)))"

abbreviation stored :: "'w provider \<Rightarrow> uuid \<rightharpoonup> ItemMetadata" where
  "stored s \<equiv> store_item L (store (vault_of (world s)))"

text \<open>The states after a step that left vault and sessions alone.\<close>

definition same :: "'w provider \<Rightarrow> 'w provider \<Rightarrow> bool" where
  "same s t \<longleftrightarrow> vault_of (world t) = vault_of (world s) \<and> sessions t = sessions s"

lemma same_refl [simp]: "same s s"
  by (simp add: same_def)

lemma same_trans: "same s t \<Longrightarrow> same t v \<Longrightarrow> same s v"
  by (simp add: same_def)

lemma same_world [simp]: "same s (s\<lparr>world := w\<rparr>) \<longleftrightarrow> vault_of w = vault_of (world s)"
  by (simp add: same_def)

lemma now_wp: "wp (now P) (\<lambda>r t. same s t \<and> is_ok r) s"
  by (simp add: now_def wp_simps platform_frame)

lemma fresh_uuid_wp: "wp (fresh_uuid P) (\<lambda>r t. same s t \<and> (\<exists>u. r = Inr u)) s"
  by (simp add: fresh_uuid_def wp_simps platform_frame)

lemma lib_calls_wp:
  "wp (lib_call e (emit_signal P p g)) (\<lambda>_ t. same s t) s"
  "wp (lib_call e (server_at P p d)) (\<lambda>_ t. same s t) s"
  "wp (ignore_remove P i p) (\<lambda>_ t. same s t) s"
  by (simp_all add: lib_call_def ignore_remove_def wp_simps)
     (simp_all add: wp_def act_simps platform_frame split: sum.splits)

lemma object_path_wp: "wp (object_path P p) (\<lambda>r t. t = s \<and> (\<forall>v. r = Inr v \<longrightarrow> v = p)) s"
  by (simp add: object_path_def wp_simps)

lemma check_protocol_wp: "wp (check_protocol r) (\<lambda>q t. t = s \<and> (is_ok q \<longleftrightarrow> is_ok r)) s"
  by (simp add: check_protocol_def wp_simps)

lemma response_wp:
  assumes "settled s" and "operation_value op"
  shows "wp (response P op) (\<lambda>r t. settled t \<and> sessions t = sessions s \<and>
    (\<exists>q. r = map_err (Err \<circ> Broker) q \<and>
       execute L B op (vault_of (world s)) = Some (q, vault_of (world t)))) s"
proof -
  obtain q v where x: "execute L B op (vault_of (world s)) = Some (q, v)"
    using execute_returns assms(1) unfolding settled_def by metis
  have "invar v \<and> up v \<and> held v = 0"
    using execute_steps [OF x] assms by (simp add: settled_def)
  then show ?thesis
    using call_law [OF x] x unfolding response_def wp_simps
    by (cases q) (auto simp: settled_def wp_def)
qed

text \<open>Sequencing over a step that keeps vault and sessions.\<close>

lemma same_then:
  assumes "wp m (\<lambda>_ t. same s t) s" and "\<And>e t. same s t \<Longrightarrow> Q (Inl e) t"
    and "\<And>x t. same s t \<Longrightarrow> wp (f x) Q t"
  shows "wp (act_bind m f) Q s"
  by (rule wp_bindI [OF assms(1)]) (use assms(2,3) in auto)

lemma same_iter:
  assumes "\<And>x s. wp (f x) (\<lambda>_ t. same s t) s"
  shows "wp (act_iter f xs) (\<lambda>_ t. same s t) s"
  by (rule wp_iter_inv) (auto intro: wp_mono [OF assms] same_trans)

lemma same_settled: "same s t \<Longrightarrow> settled s \<Longrightarrow> settled t"
  by (simp add: same_def settled_def)


section \<open>Creating and reading\<close>

lemma provider_create_item_wp:
  assumes "settled s" and "is_utf8 label" and "is_utf8 c" and "bt_keys_sorted as"
    and "list_all (\<lambda>(k, v). is_utf8 k \<and> is_utf8 v) as" and "secret_wf x"
  shows "wp (provider_create_item P cid label as c x replace)
    (\<lambda>r t. settled t \<and> sessions t = sessions s \<and> (\<forall>m d f. r = Inr (m, d, f) \<longrightarrow>
       i_content_type m = c \<and> shown t (i_id m) = Some (m, Some (expose x)))) s"
    (is "wp _ ?Q s")
proof -
  have checked: "wp (act_bind (check_protocol q) g) ?Q s" if "wp (g ()) ?Q s" for q :: "ProtocolError + unit" and g
    by (rule wp_bindI [OF check_protocol_wp]) (use assms(1) that in auto)
  have send: "wp (act_bind (response P (CreateOrReplaceItem m x replace)) (\<lambda>body.
      case body of ResponseBody.ReplacedItem m d f \<Rightarrow> act_return (m, d, f) | _ \<Rightarrow> err Transport)) ?Q t"
    if t: "same s t" and m: "item_value m" "i_content_type m = c" for t m
  proof (rule wp_bindI [OF response_wp], goal_cases)
    case (3 e t')
    then show ?case using t by (simp add: same_def)
  next
    case (4 y t')
    then have x: "execute L B (CreateOrReplaceItem m x replace) (vault_of (world t)) = Some (Inr y, vault_of (world t'))"
      by (metis map_err_Inr)
    have inv: "invar (vault_of (world t))" using same_settled [OF t assms(1)] by (simp add: settled_def)
    obtain d f where y: "y = ResponseBody.ReplacedItem m d f" using replace_result [OF x inv m(1) assms(6)] by blast
    have "shown t' (i_id m) = Some (m, Some (expose x))" using replace_spares [OF x inv m(1) assms(6)] by simp
    then show ?case using 4 t m(2) y by (simp add: wp_simps same_def)
  qed (use same_settled [OF t assms(1)] m assms(6) in auto)
  show ?thesis
    unfolding provider_create_item_def
    by (intro checked same_then [OF wp_mono [OF now_wp]] same_then [OF wp_mono [OF fresh_uuid_wp]] send)
       (use assms in \<open>auto simp: item_value_def same_def settled_def elim: same_trans\<close>)
qed

lemma item_wp:
  assumes "settled s" and "shown s u = Some (m, Some b)" and "length b \<le> MAX_SECRET_BYTES"
  shows "wp (item P u True) (\<lambda>r t. settled t \<and> sessions t = sessions s \<and>
    store (vault_of (world t)) = store (vault_of (world s)) \<and> r = Inr (m, Some (SecretBytes b))) s"
  unfolding item_def
proof (rule wp_bindI [OF response_wp [OF assms(1)]], goal_cases)
  case (2 e t)
  then obtain q where q: "Inl e = map_err (Err \<circ> Broker) q"
      "execute L B (GetItem u True) (vault_of (world s)) = Some (q, vault_of (world t))" by blast
  have "q = Inr (ResponseBody.Item m (Some (SecretBytes b)))"
    using get_item_ok [OF q(2)] assms by (simp add: settled_def)
  then show ?case using q(1) by simp
next
  case (3 y t)
  then obtain q where q: "Inr y = map_err (Err \<circ> Broker) q"
      "execute L B (GetItem u True) (vault_of (world s)) = Some (q, vault_of (world t))" by blast
  have "q = Inr (ResponseBody.Item m (Some (SecretBytes b))) \<and> store (vault_of (world t)) = store (vault_of (world s))"
    using get_item_ok [OF q(2)] assms by (simp add: settled_def)
  then show ?case using q(1) 3 by (simp add: wp_simps)
qed simp

text \<open>The random source delivers what it is asked for.\<close>

definition random_ok :: bool where
  "random_ok \<longleftrightarrow> (\<forall>n w. \<exists>bs w'. try_fill_bytes P n w = (Inr bs, w') \<and> length bs = n)"

lemma encode_secret_ok:
  assumes "random_ok" and "sessions_wf (sessions s)" and "map_of (sessions s) u = Some sr"
  shows "wp (encode_secret P (sr_owner sr) u x c)
    (\<lambda>r t. \<exists>iv v. r = Inr (session_path P u, iv, v, c) \<and> decrypt P (sr_key sr) iv v = Inr (expose x)) s"
proof -
  have key: "key_ok (sr_key sr)" using sessions_wf_key [OF assms(2,3)] .
  obtain bs w where rnd: "try_fill_bytes P 16 (world s) = (Inr bs, w)" "length bs = 16"
    using assms(1) unfolding random_ok_def by blast
  show ?thesis
  proof (cases "sr_key sr")
    case Plain
    then show ?thesis
      using assms(3) by (simp add: encode_secret_def owned_session_def wp_simps object_path_def)
  next
    case (Dh k)
    then show ?thesis
      using assms(3) key rnd
      by (simp add: encode_secret_def owned_session_def wp_simps object_path_def wp_def [of "try_fill_bytes P 16"]
          checked_iv_def aes_decrypt_encrypt)
  qed
qed

lemma item_get_secret_ok:
  assumes "settled s" and "random_ok" and "sessions_wf (sessions s)" and "map_of (sessions s) u = Some sr"
    and "shown s i = Some (m, Some b)" and "length b \<le> MAX_SECRET_BYTES"
  shows "wp (item_get_secret P i (Some (sr_owner sr)) (session_path P u))
    (\<lambda>r t. \<exists>iv v. r = Inr (session_path P u, iv, v, i_content_type m) \<and> decrypt P (sr_key sr) iv v = Inr b) s"
proof -
  have enc: "wp (encode_secret P (sr_owner sr) u (SecretBytes b) c)
      (\<lambda>r t. \<exists>iv v. r = Inr (session_path P u, iv, v, c) \<and> decrypt P (sr_key sr) iv v = Inr b) t"
    if "sessions t = sessions s" for t c
    using encode_secret_ok [of t u sr "SecretBytes b" c] assms that by simp
  show ?thesis
    unfolding item_get_secret_def caller_def option.case wp_simps sum.case path_roundtrip
    by (rule wp_mono [OF item_wp [OF assms(1,5,6)]]) (auto simp: wp_simps intro!: wp_mono [OF enc])
qed

text \<open>Registering an object, with a rollback that ends in an error.\<close>

lemma register_wp:
  "wp (on_err (run_err (on_world (server_at P p d))) (\<lambda>e. act_bind (k e) (\<lambda>_. err (f e))))
     (\<lambda>r t. is_ok r \<longrightarrow> same s t) s"
proof -
  have undo: "wp (act_bind m (\<lambda>_. err e)) (\<lambda>r t. is_ok r \<longrightarrow> same s t) t"
    for m :: "('w provider, 'f failure, 'b) act" and e t
    by (auto simp: wp_def act_simps err_def split: prod.splits sum.splits)
  obtain r w where at: "server_at P p d (world s) = (r, w)" by force
  have "vault_of w = vault_of (world s)" using platform_frame(4) [of p d "world s"] at by simp
  then show ?thesis
    using undo unfolding wp_simps wp_def [of "server_at P p d"] at
    by (cases r) (simp_all add: wp_simps)
qed

text \<open>Announcing and registering a new item once the broker has it.\<close>

definition item_known :: "uuid \<Rightarrow> string \<Rightarrow> bytes \<Rightarrow> 'w provider \<Rightarrow> bool" where
  "item_known i c b t \<longleftrightarrow> settled t \<and>
     (\<exists>m. i_id m = i \<and> i_content_type m = c \<and> shown t i = Some (m, Some b))"

lemma item_known_same: "same s t \<Longrightarrow> item_known i c b s \<Longrightarrow> item_known i c b t"
  by (auto simp: item_known_def same_def settled_def)

lemma announce_wp:
  "wp (act_bind (act_iter (\<lambda>replaced.
        act_bind (ignore_remove P ItemIface (item_path P replaced)) (\<lambda>_.
        act_bind (object_path P (item_path P replaced)) (\<lambda>path.
        lib_call e1 (emit_signal P here (ItemDeleted path))))) d) (\<lambda>_.
      act_bind (on_err (run_err (on_world (server_at P (item_path P i) (ItemObject i)))) (\<lambda>e.
        act_bind (ignore (provider_delete_item P i)) (\<lambda>_. err (f e)))) (\<lambda>_.
      act_bind (object_path P (item_path P i)) (\<lambda>path.
      act_bind (lib_call e2 (emit_signal P here (ItemCreated path))) (\<lambda>_.
      act_bind (object_path P ''/'') (\<lambda>root. act_return (path, root)))))))
    (\<lambda>r t. \<forall>path prompt. r = Inr (path, prompt) \<longrightarrow> same s t \<and> path = item_path P i) s"
proof (rule same_then [OF same_iter], goal_cases)
  case (1 x t)
  show ?case
    by (rule same_then [OF lib_calls_wp(3)])
       (auto simp: wp_simps object_path_def intro: wp_mono [OF lib_calls_wp(1)] same_trans)
next
  case (3 y t)
  show ?case
  proof (rule wp_bindI [OF register_wp], goal_cases)
    case (2 y t')
    then have t': "same s t'" using 3 by (auto intro: same_trans)
    show ?case
      by (simp add: wp_simps object_path_def)
         (rule wp_mono [OF lib_calls_wp(1)], auto simp: wp_simps split: sum.splits intro: same_trans [OF t'])
  qed simp
qed simp

text \<open>What a client that owns session \<open>u\<close> puts into a new item.\<close>

lemma collection_create_item_ok:
  assumes "settled s" and "map_of (sessions s) u = Some sr" and "decrypt P (sr_key sr) iv v = Inr b"
    and "length b \<le> MAX_SECRET_BYTES"
    and "item_properties P properties = Inr (label, as)" and "is_utf8 label" and "is_utf8 c"
    and "bt_keys_sorted as" and "list_all (\<lambda>(k, v). is_utf8 k \<and> is_utf8 v) as"
  shows "wp (collection_create_item P here cid (Some (sr_owner sr)) properties (session_path P u, iv, v, c) replace)
    (\<lambda>r t. \<forall>path prompt. r = Inr (path, prompt) \<longrightarrow> sessions t = sessions s \<and>
       (\<exists>i. path = item_path P i \<and> item_known i c b t)) s"
    (is "wp _ ?Q s")
proof -
  have dec: "wp (decode_secret P (sr_owner sr) (session_path P u, iv, v, c))
      (\<lambda>r t. t = s \<and> r = Inr (u, SecretBytes b, c)) s"
    using decode_secret_ok [OF assms(2) refl assms(3,4)] by (simp add: wp_def)
  have mk: "wp (provider_create_item P cid label as c (SecretBytes b) replace)
      (\<lambda>r t. sessions t = sessions s \<and> (\<forall>m d f. r = Inr (m, d, f) \<longrightarrow> item_known (i_id m) c b t)) s"
    by (rule wp_mono [OF provider_create_item_wp [OF assms(1,6-9)]])
       (use assms(4) in \<open>auto simp: secret_wf_def item_known_def\<close>)
  show ?thesis
    unfolding collection_create_item_def caller_def option.case wp_return wp_bind [of "act_return _"] sum.case
  proof (rule wp_bindI [where P = "\<lambda>r t. t = s \<and> r = Inr (label, as)"], goal_cases)
    case 1
    then show ?case by (simp add: wp_simps assms(5))
  next
    case (3 q t)
    then have q: "t = s" "q = (label, as)" by simp_all
    show ?case
      unfolding q prod.case
    proof (rule wp_bindI [where P = "\<lambda>r t. t = s \<and> r = Inr (u, SecretBytes b, c)"], goal_cases)
      case 1
      show ?case unfolding wp_simps by (rule wp_mono [OF dec]) simp
    next
      case (3 q t)
      then have q: "t = s" "q = (u, SecretBytes b, c)" by simp_all
      show ?case
        unfolding q prod.case
      proof (rule wp_bindI [where P = "\<lambda>r t. t = s"], goal_cases)
        case 1
        show ?case unfolding wp_simps by (rule wp_mono [OF check_protocol_wp]) simp
      next
        case (3 q t)
        show ?case
          unfolding 3
        proof (rule wp_bindI [where P = "\<lambda>r t. sessions t = sessions s \<and>
              (\<forall>m d f. r = Inr (m, d, f) \<longrightarrow> item_known (i_id m) c b t)"], goal_cases)
          case 1
          show ?case unfolding wp_simps by (rule wp_mono [OF mk]) auto
        next
          case (3 q t)
          obtain m d f where q: "q = (m, d, f)" by (cases q)
          show ?case
            unfolding q prod.case
            by (rule wp_mono [OF announce_wp]) (use 3 q item_known_same [of t] in \<open>auto simp: same_def\<close>)
        qed simp
      qed simp
    qed simp
  qed simp
qed

text \<open>From one client's session into the vault and out again into another client's session.\<close>

lemma create_item_then_get:
  assumes "settled s" and "random_ok" and "sessions_wf (sessions s)"
    and "map_of (sessions s) u = Some sr" and "decrypt P (sr_key sr) iv v = Inr b"
    and "length b \<le> MAX_SECRET_BYTES"
    and "item_properties P properties = Inr (label, as)" and "is_utf8 label" and "is_utf8 c"
    and "bt_keys_sorted as" and "list_all (\<lambda>(k, v). is_utf8 k \<and> is_utf8 v) as"
    and "collection_create_item P here cid (Some (sr_owner sr)) properties (session_path P u, iv, v, c) replace s =
      (Inr (path, prompt), t)"
    and "map_of (sessions s) u' = Some sr'"
  shows "\<exists>i iv' v' t'. path = item_path P i \<and>
    item_get_secret P i (Some (sr_owner sr')) (session_path P u') t = (Inr (session_path P u', iv', v', c), t') \<and>
    decrypt P (sr_key sr') iv' v' = Inr b"
proof -
  obtain i where t: "sessions t = sessions s" and i: "path = item_path P i" "item_known i c b t"
    using wpD [OF collection_create_item_ok [OF assms(1,4-11)] assms(12)] by auto
  then obtain m where m: "settled t" "i_content_type m = c" "shown t i = Some (m, Some b)"
    by (auto simp: item_known_def)
  have wf: "sessions_wf (sessions t)" and sr': "map_of (sessions t) u' = Some sr'" using assms(3,13) t by simp_all
  obtain r t' where g: "item_get_secret P i (Some (sr_owner sr')) (session_path P u') t = (r, t')" by force
  from wpD [OF item_get_secret_ok [OF m(1) assms(2) wf sr' m(3) assms(6)] g] g i(1) m(2) show ?thesis by auto
qed


section \<open>Stale updates\<close>

lemma provider_update_stale:
  assumes "settled s" and "item_value m" and "\<And>y. x = Some y \<Longrightarrow> secret_wf y"
    and "stored s (i_id m) = Some m0" and "i_modified m0 \<noteq> i_modified m"
  shows "wp (provider_update_item P m x)
    (\<lambda>r t. store (vault_of (world t)) = store (vault_of (world s)) \<and> (\<exists>e. r = Inl (Err e) \<and>
       (is_ok (validate_label (i_label m)) \<and> is_ok (validate_attributes (i_attributes m)) \<and>
        is_ok (validate_content_type (i_content_type m)) \<longrightarrow>
          e = Broker (BrokerError_new Conflict ''item was modified by another provider'')))) s"
    (is "wp _ ?Q s")
proof -
  let ?C = "\<lambda>r t. store (vault_of (world t)) = store (vault_of (world s)) \<and>
      r = Inl (Err (Broker (BrokerError_new Conflict ''item was modified by another provider'')))"
  have checked: "wp (act_bind (check_protocol q) g) (\<lambda>r t. store (vault_of (world t)) = store (vault_of (world s)) \<and>
        (\<exists>e. r = Inl (Err e) \<and> (is_ok q \<and> K \<longrightarrow> e = E))) s"
    if "wp (g ()) (\<lambda>r t. store (vault_of (world t)) = store (vault_of (world s)) \<and>
        (\<exists>e. r = Inl (Err e) \<and> (K \<longrightarrow> e = E))) s" for q :: "ProtocolError + unit" and g K E
    using that by (cases q) (auto simp: check_protocol_def wp_simps elim!: wp_mono)
  have last: "wp (act_bind (check_protocol q) g) (\<lambda>r t. store (vault_of (world t)) = store (vault_of (world s)) \<and>
        (\<exists>e. r = Inl (Err e) \<and> (is_ok q \<longrightarrow> e = Broker (BrokerError_new Conflict ''item was modified by another provider'')))) s"
    if "wp (g ()) ?C s" for q :: "ProtocolError + unit" and g
    using that by (cases q) (auto simp: check_protocol_def wp_simps elim!: wp_mono)
  have send: "wp (act_bind (response P (UpdateItemCas m' x (i_modified m))) k) ?C t"
    if t: "same s t" and m': "item_value m'" "i_id m' = i_id m" for t m' and k :: "ResponseBody \<Rightarrow> ('w, ItemMetadata) handler"
  proof -
    have st: "settled t" "stored t (i_id m') = Some m0" using t assms(1,4) m'(2) by (auto simp: same_def settled_def)
    have ov: "operation_value (UpdateItemCas m' x (i_modified m))" using m' assms(3) by simp
    show ?thesis
    proof (rule wp_bindI [OF wp_mono [OF response_wp [OF st(1) ov], where R = "\<lambda>r t. ?C r t"]], goal_cases)
      case (1 r t')
      then obtain q where q: "r = map_err (Err \<circ> Broker) q"
          "execute L B (UpdateItemCas m' x (i_modified m)) (vault_of (world t)) = Some (q, vault_of (world t'))"
        by blast
      have "q = Inl (BrokerError_new Conflict ''item was modified by another provider'') \<and>
          store (vault_of (world t')) = store (vault_of (world t))"
        using cas_stale [OF q(2) _ ov st(2) assms(5)] st(1) by (simp add: settled_def)
      then show ?case using q(1) t by (simp add: same_def)
    qed auto
  qed
  have main: "wp (act_bind (now P) (\<lambda>timestamp.
      let m = m\<lparr>i_modified := timestamp\<rparr> in
      act_bind (if x \<noteq> None then act_bind (fresh_uuid P) (\<lambda>g. act_return (m\<lparr>i_current_generation := g\<rparr>))
        else act_return m) (\<lambda>m'.
      act_bind (response P (UpdateItemCas m' x expected)) k))) ?C s"
    if "expected = i_modified m" for expected and k :: "ResponseBody \<Rightarrow> ('w, ItemMetadata) handler"
    unfolding that Let_def
  proof (rule wp_bindI [OF now_wp], goal_cases)
    case (2 n t)
    show ?case
    proof (rule wp_bindI [where P = "\<lambda>r t'. same s t' \<and> (\<exists>m'. r = Inr m' \<and> item_value m' \<and> i_id m' = i_id m)"],
        goal_cases)
      case 1
      show ?case
        using assms(2) 2
        by (auto simp: wp_simps item_value_def intro!: wp_mono [OF fresh_uuid_wp] elim: same_trans)
    next
      case (3 m' t')
      then show ?case by (intro send) auto
    qed simp
  qed simp
  show ?thesis
    unfolding provider_update_item_def Let_def
    by (intro checked last main [unfolded Let_def] refl)
qed

end

end
