(* ===== verification/Provider_Process.thy ===== *)
theory Provider_Process
  imports Provider_Vault
begin

text \<open>
  The provider as a process (\<^verbatim>\<open>crates/provider/src/main.rs\<close>): it connects to the bus, watches for
  clients that leave, exports the objects of the vault, takes its name, and serves until it is told
  to stop. The connection is the parameter \<open>bus_api\<close>; what the tasks of the connection do while the
  process waits is the argument \<open>serving\<close>. Calls that arrive before the name is taken are not
  interleaved with the start.
\<close>

section \<open>The process\<close>

record 'w bus_api =
  connect_session :: "('w, string, unit) act"
  dbus_proxy :: "('w, string, unit) act"
  receive_name_owner_changed :: "('w, string, unit) act"
  serve_root :: "string \<Rightarrow> ('w, string, bool) act"  \<comment> \<open>the service object at a path\<close>
  request_name :: "string \<Rightarrow> ('w, string, unit) act"
  terminate_signal :: "('w, string, unit) act"
  broker_shutdown :: "'w \<Rightarrow> 'w"

datatype process_error = Bus string | MonitorFailed | Core ProviderError

definition bus_call :: "('w, string, 'a) act \<Rightarrow> ('w provider, process_error failure, 'a) act" where
  "bus_call m = act_map_err (\<lambda>t. Err (Bus t)) (on_world m)"

text \<open>The monitor task up to its first wait: an error of it drops the channel the process waits on.\<close>

definition start_monitor :: "'w bus_api \<Rightarrow> ('w provider, process_error failure, unit) act" where
  "start_monitor U =
     act_map_err (\<lambda>_. Err MonitorFailed)
       (on_world (act_bind (dbus_proxy U) (\<lambda>_. receive_name_owner_changed U)))"

definition BUS_NAME :: string where
  "BUS_NAME = ''org.freedesktop.secrets''"

definition provider_ready ::
  "('w, 'v) platform \<Rightarrow> 'w bus_api \<Rightarrow> ('w provider, process_error failure, unit) act" where
  "provider_ready P U =
     act_bind (bus_call (connect_session U)) (\<lambda>_.
     act_bind (start_monitor U) (\<lambda>_.
     act_bind (bus_call (serve_root U SERVICE_PATH)) (\<lambda>_.
     act_bind (act_map_err (map_failure Core) (initialize P)) (\<lambda>_.
     bus_call (request_name U BUS_NAME)))))"

definition provider_process ::
  "('w, 'v) platform \<Rightarrow> 'w bus_api \<Rightarrow> ('w provider \<Rightarrow> 'w provider) \<Rightarrow> ('w provider, process_error failure, unit) act" where
  "provider_process P U serving =
     act_bind (provider_ready P U) (\<lambda>_.
     act_bind (bus_call (terminate_signal U)) (\<lambda>_.
     act_bind (\<lambda>s. (Inr (), serving s)) (\<lambda>_.
     on_world (\<lambda>w. (Inr (), broker_shutdown U w)))))"

text \<open>The exit code; a panic of the main task ends the process with 101.\<close>

definition provider_main ::
  "('w, 'v) platform \<Rightarrow> 'w bus_api \<Rightarrow> ('w provider \<Rightarrow> 'w provider) \<Rightarrow> 'w \<Rightarrow> nat \<times> 'w provider" where
  "provider_main P U serving w =
     (case provider_process P U serving (Provider_new w) of
        (Inr _, s) \<Rightarrow> (0, s)
      | (Inl Panic, s) \<Rightarrow> (101, s)
      | (Inl (Err _), s) \<Rightarrow> (1, s))"


section \<open>The bus\<close>

text \<open>
  What the bus shows of the provider: the object that answers for an interface at a path, the paths
  of the service itself, the name, and the watch on other names.
\<close>

fun object_interface :: "dbus_object \<Rightarrow> dbus_interface" where
  "object_interface (CollectionObject _) = CollectionIface"
| "object_interface (ItemObject _) = ItemIface"
| "object_interface (SessionObject _) = SessionIface"
| "object_interface PromptObject = PromptIface"

record bus_view =
  exported :: "string \<times> dbus_interface \<rightharpoonup> dbus_object"
  service_at :: "string set"
  named :: bool
  watching :: bool

text \<open>
  The objects clients need to reach everything in the vault: each collection and each item of a
  collection at its own path, for each alias that has a path the collection it stands for, and the
  prompt.
\<close>

fun vault_object ::
  "('w, 'v) platform \<Rightarrow> 'x broker_lib_scheme \<Rightarrow> (string \<rightharpoonup> bytes) \<Rightarrow> string \<Rightarrow> dbus_object \<Rightarrow> bool" where
  "vault_object P L st p (CollectionObject u) \<longleftrightarrow>
     store_collection L st u \<noteq> None \<and>
     (p = collection_path P u \<or>
      (\<exists>n a. store_alias L st n = Some a \<and> a_collection_id a = u \<and> alias_path n = Some p))"
| "vault_object P L st p (ItemObject u) \<longleftrightarrow>
     p = item_path P u \<and> (\<exists>m. store_item L st u = Some m \<and> store_collection L st (i_collection_id m) \<noteq> None)"
| "vault_object P L st p PromptObject \<longleftrightarrow> p = COMPAT_PROMPT_PATH"
| "vault_object P L st p (SessionObject u) \<longleftrightarrow> False"

text \<open>Exactly these objects are on the bus, each under its interface.\<close>

definition exports_vault ::
  "('w, 'v) platform \<Rightarrow> 'x broker_lib_scheme \<Rightarrow> (string \<rightharpoonup> bytes) \<Rightarrow> (string \<times> dbus_interface \<rightharpoonup> dbus_object) \<Rightarrow> bool" where
  "exports_vault P L st E \<longleftrightarrow>
     (\<forall>p i d. E (p, i) = Some d \<longleftrightarrow> i = object_interface d \<and> vault_object P L st p d)"

text \<open>No call to the bus fails.\<close>

definition bus_smooth :: "('w, 'v) platform \<Rightarrow> 'w bus_api \<Rightarrow> bool" where
  "bus_smooth P U \<longleftrightarrow>
     (\<forall>w. is_ok (fst (connect_session U w)) \<and> is_ok (fst (dbus_proxy U w)) \<and> is_ok (fst (receive_name_owner_changed U w)) \<and>
        (\<forall>p. is_ok (fst (serve_root U p w))) \<and> (\<forall>n. is_ok (fst (request_name U n w))) \<and>
        (\<forall>p d. is_ok (fst (server_at P p d w))))"

lemma dedup_by_name_distinct: "distinct (map a_name as) \<Longrightarrow> dedup_by_name as = as"
  by (induction as rule: dedup_by_name.induct) auto

text \<open>An object is at a path; and the objects on the bus are ones of the vault.\<close>

definition has_object :: "string \<Rightarrow> dbus_object \<Rightarrow> (string \<times> dbus_interface \<rightharpoonup> dbus_object) \<Rightarrow> bool" where
  "has_object p d E \<longleftrightarrow> E (p, object_interface d) = Some d"

definition only_vault ::
  "('w, 'v) platform \<Rightarrow> 'x broker_lib_scheme \<Rightarrow> (string \<rightharpoonup> bytes) \<Rightarrow> (string \<times> dbus_interface \<rightharpoonup> dbus_object) \<Rightarrow> bool" where
  "only_vault P L st E \<longleftrightarrow> (\<forall>p i d. E (p, i) = Some d \<longrightarrow> i = object_interface d \<and> vault_object P L st p d)"

lemma has_object_mono: "has_object p d E \<Longrightarrow> E \<subseteq>\<^sub>m F \<Longrightarrow> has_object p d F"
  by (auto simp: has_object_def map_le_def dom_def)

lemma exports_vaultI:
  assumes only: "only_vault P L st E"
    and cs: "set cs = {c. \<exists>u. store_collection L st u = Some c}"
    and as: "set as = {a. \<exists>n. store_alias L st n = Some a \<and> store_collection L st (a_collection_id a) \<noteq> None}"
    and prompt: "has_object COMPAT_PROMPT_PATH PromptObject E"
    and C: "\<forall>c \<in> set cs. has_object (collection_path P (c_id c)) (CollectionObject (c_id c)) E \<and>
      (\<forall>u m. store_item L st u = Some m \<and> i_collection_id m = c_id c \<longrightarrow> has_object (item_path P u) (ItemObject u) E)"
    and A: "\<forall>a \<in> set as. \<forall>p. alias_path (a_name a) = Some p \<longrightarrow> has_object p (CollectionObject (a_collection_id a)) E"
  shows "exports_vault P L st E"
proof -
  have col: "c \<in> set cs \<and> c_id c = u" if "store_collection L st u = Some c" for u c
    using that cs store_collection_id [OF that] by blast
  have al: "a \<in> set as \<and> a_name a = n"
    if "store_alias L st n = Some a" and "store_collection L st (a_collection_id a) \<noteq> None" for n a
    using as that store_alias_name [OF that(1)] by blast
  have "has_object p d E" if vo: "vault_object P L st p d" for p d
  proof (cases d)
    case (CollectionObject u)
    then obtain c where c: "store_collection L st u = Some c" using vo by auto
    then have "has_object (collection_path P u) d E" using col C CollectionObject by blast
    moreover have "has_object p d E" if "store_alias L st n = Some a" "a_collection_id a = u" "alias_path n = Some p" for n a
      using A al [OF that(1)] c that CollectionObject by auto
    ultimately show ?thesis using vo CollectionObject by auto
  next
    case (ItemObject u)
    then obtain m c where "p = item_path P u" "store_item L st u = Some m" "store_collection L st (i_collection_id m) = Some c"
      using vo by auto
    then show ?thesis using col C ItemObject by metis
  qed (use vo prompt in auto)
  then show ?thesis using only unfolding exports_vault_def only_vault_def has_object_def by metis
qed

locale provider_bus = linked_provider P L B store invar up held vault_of
  for P :: "('w, 'v) platform" and L :: "'x broker_lib_scheme" and B :: "'s backend"
    and store :: "'s \<Rightarrow> string \<rightharpoonup> bytes" and invar :: "'s \<Rightarrow> bool"
    and up :: "'s \<Rightarrow> bool" and held :: "'s \<Rightarrow> nat" and vault_of :: "'w \<Rightarrow> 's" +
  fixes U :: "'w bus_api" and bus :: "'w \<Rightarrow> bus_view"
  assumes at_law: "wp (server_at P p d)
      (\<lambda>r w'. bus w' = (if r = Inr True then (bus w)\<lparr>exported := (exported (bus w))((p, object_interface d) \<mapsto> d)\<rparr> else bus w) \<and>
         (r = Inr False \<longrightarrow> exported (bus w) (p, object_interface d) \<noteq> None)) w"
    and call_bus: "bus (snd (broker_call P op w)) = bus w"
    and connect_law: "wp (connect_session U) (\<lambda>_ w'. bus w' = bus w \<and> vault_of w' = vault_of w) w"
    and proxy_law: "wp (dbus_proxy U) (\<lambda>_ w'. bus w' = bus w \<and> vault_of w' = vault_of w) w"
    and watch_law: "wp (receive_name_owner_changed U)
      (\<lambda>r w'. vault_of w' = vault_of w \<and> bus w' = (if is_ok r then (bus w)\<lparr>watching := True\<rparr> else bus w)) w"
    and root_law: "wp (serve_root U p) (\<lambda>r w'. vault_of w' = vault_of w \<and>
      bus w' = (if is_ok r then (bus w)\<lparr>service_at := insert p (service_at (bus w))\<rparr> else bus w)) w"
    and name_law: "wp (request_name U n)
      (\<lambda>r w'. vault_of w' = vault_of w \<and> bus w' = (if is_ok r then (bus w)\<lparr>named := True\<rparr> else bus w)) w"
begin

lemma vault_object_unique:
  assumes "vault_object P L st p d" and "vault_object P L st p d'" and "object_interface d' = object_interface d"
  shows "d' = d"
proof (cases d; cases d')
  fix u v
  assume d: "d = CollectionObject u" "d' = CollectionObject v"
  consider "p = collection_path P u" "p = collection_path P v" | n where "alias_path n = Some p" "p \<in> {collection_path P u, collection_path P v}"
    | n m a b where "alias_path n = Some p" "alias_path m = Some p" "store_alias L st n = Some a" "store_alias L st m = Some b"
        "a_collection_id a = u" "a_collection_id b = v"
    using assms(1,2) d by auto
  then have "v = u"
  proof cases
    case 1
    then show ?thesis using path_roundtrip(1) by (metis option.inject)
  next
    case (2 n)
    then show ?thesis using alias_path_kinds(1) by blast
  next
    case (3 n m a b)
    then show ?thesis using alias_path_inj by (metis option.inject)
  qed
  then show ?thesis by (simp add: d)
next
  fix u v
  assume d: "d = ItemObject u" "d' = ItemObject v"
  then have "item_path P u = item_path P v" using assms(1,2) by auto
  then show ?thesis using path_roundtrip(2) d by (metis option.inject)
qed (use assms in auto)

text \<open>Before and after every step of the start: only objects of the vault are on the bus.\<close>

definition starting :: "'w provider \<Rightarrow> bool" where
  "starting s \<longleftrightarrow> settled s \<and> only_vault P L (store (vault_of (world s))) (exported (bus (world s)))"

text \<open>Steps of the start: the vault and the sessions stay, objects are only added.\<close>

definition grows :: "'w provider \<Rightarrow> 'w provider \<Rightarrow> bool" where
  "grows s t \<longleftrightarrow> starting t \<and> store (vault_of (world t)) = store (vault_of (world s)) \<and> sessions t = sessions s \<and>
     exported (bus (world s)) \<subseteq>\<^sub>m exported (bus (world t)) \<and> service_at (bus (world t)) = service_at (bus (world s)) \<and>
     named (bus (world t)) = named (bus (world s)) \<and> watching (bus (world t)) = watching (bus (world s))"

lemma starting_settled: "starting s \<Longrightarrow> settled s"
  by (simp add: starting_def)

lemma grows_refl: "starting s \<Longrightarrow> grows s s"
  by (simp add: grows_def)

lemma grows_trans: "grows s t \<Longrightarrow> grows t v \<Longrightarrow> grows s v"
  by (auto simp: grows_def intro: map_le_trans)

lemma grows_starting: "grows s t \<Longrightarrow> starting t"
  by (simp add: grows_def)

lemma grows_has:
  "grows s t \<Longrightarrow> has_object p d (exported (bus (world s))) \<Longrightarrow> has_object p d (exported (bus (world t)))"
  by (auto simp: grows_def intro: has_object_mono)

lemma grows_store: "grows s t \<Longrightarrow> store (vault_of (world t)) = store (vault_of (world s))"
  by (simp add: grows_def)

lemma export_wp:
  assumes "starting s" and "vault_object P L (store (vault_of (world s))) p d"
  shows "wp (lib_call e (server_at P p d)) (\<lambda>r t. grows s t \<and>
    (is_ok r \<longrightarrow> has_object p d (exported (bus (world t)))) \<and> (bus_smooth P U \<longrightarrow> is_ok r)) s"
proof -
  let ?E = "exported (bus (world s))" and ?st = "store (vault_of (world s))"
  obtain r w where at: "server_at P p d (world s) = (r, w)" by force
  have sm: "bus_smooth P U \<longrightarrow> is_ok r" using at unfolding bus_smooth_def by (metis fst_conv)
  have w: "bus w = (if r = Inr True then (bus (world s))\<lparr>exported := ?E((p, object_interface d) \<mapsto> d)\<rparr> else bus (world s))"
    "r = Inr False \<longrightarrow> ?E (p, object_interface d) \<noteq> None"
    using wpD [OF at_law at] by auto
  have v: "vault_of w = vault_of (world s)" using platform_frame(4) [of p d "world s"] at by simp
  have only: "only_vault P L ?st ?E" using assms(1) by (simp add: starting_def)
  have there: "?E (p, object_interface d) = Some d" if "?E (p, object_interface d) \<noteq> None"
    using that only vault_object_unique [OF assms(2)] unfolding only_vault_def by (metis option.exhaust)
  have "?E \<subseteq>\<^sub>m exported (bus w)" using there w(1) by (auto simp: map_le_def dom_def)
  moreover have "only_vault P L ?st (exported (bus w))"
    using only assms(2) w(1) by (auto simp: only_vault_def)
  moreover have "has_object p d (exported (bus w))" if "is_ok r"
    using that w there by (cases r) (auto simp: has_object_def)
  ultimately show ?thesis using at assms(1) sm w(1) v
    by (cases r) (auto simp: lib_call_def on_world_def wp_def act_simps grows_def starting_def settled_def)
qed

lemma response_grows:
  assumes "starting s" and "operation_value op"
    and same: "\<And>q v. execute L B op (vault_of (world s)) = Some (q, v) \<Longrightarrow> store v = store (vault_of (world s))"
  shows "wp (response P op) (\<lambda>r t. grows s t \<and>
    (\<exists>q v. r = map_err (Err \<circ> Broker) q \<and> execute L B op (vault_of (world s)) = Some (q, v))) s"
proof -
  have "bus (world (snd (response P op s))) = bus (world s)"
    by (simp add: response_def run_err_def act_simps on_world_def call_bus split: prod.splits)
       (metis call_bus snd_conv)
  moreover have "wp (response P op) (\<lambda>r t. settled t \<and> sessions t = sessions s \<and>
    (\<exists>q. r = map_err (Err \<circ> Broker) q \<and> execute L B op (vault_of (world s)) = Some (q, vault_of (world t)))) s"
    using response_wp [OF starting_settled [OF assms(1)] assms(2)] .
  ultimately show ?thesis
    unfolding wp_def grows_def using same assms(1) by (auto simp: starting_def)
qed

lemma listing_wp:
  assumes "starting s" and "operation_value op" and "retry_safe op"
    and ok: "\<And>q v. execute L B op (vault_of (world s)) = Some (q, v) \<Longrightarrow> is_ok q"
    and body: "\<And>y v t. execute L B op (vault_of (world s)) = Some (Inr y, v) \<Longrightarrow>
      wp (f y) (\<lambda>r t'. t' = t \<and> (\<exists>x. r = Inr x \<and> R x)) t"
  shows "wp (act_bind (response P op) f) (\<lambda>r t. grows s t \<and> (\<exists>x. r = Inr x \<and> R x)) s"
proof (rule wp_bindI [OF response_grows], goal_cases)
  case (4 e t)
  then obtain q v where q: "Inl e = map_err (Err \<circ> Broker) q" "execute L B op (vault_of (world s)) = Some (q, v)" by blast
  from ok [OF q(2)] q(1) show ?case by (cases q) simp_all
next
  case (5 y t)
  then obtain q v where q: "Inr y = map_err (Err \<circ> Broker) q" "execute L B op (vault_of (world s)) = Some (q, v)" by blast
  then have "q = Inr y" by (cases q) simp_all
  from body [OF q(2) [unfolded this]] show ?case by (rule wp_mono) (use 5 in auto)
qed (use assms(1-3) retry_safe_reads in \<open>auto simp: starting_def settled_def\<close>)

lemma collections_wp:
  assumes "starting s"
  shows "wp (collections P) (\<lambda>r t. grows s t \<and> (\<exists>cs. r = Inr cs \<and>
    set cs = {c. \<exists>u. store_collection L (store (vault_of (world s))) u = Some c})) s"
  unfolding collections_def
proof (rule listing_wp [OF assms], goal_cases)
  case (3 q v)
  then show ?case using listings_ok(1) assms by (auto simp: starting_def settled_def)
next
  case (4 y v t)
  from list_collections_exact [OF this] assms show ?case by (auto simp: wp_simps starting_def settled_def)
qed simp_all

lemma items_wp:
  assumes "starting s" and "store_collection L (store (vault_of (world s))) c \<noteq> None"
  shows "wp (items P c) (\<lambda>r t. grows s t \<and> (\<exists>ms. r = Inr ms \<and>
    set ms = {m. (\<exists>u. store_item L (store (vault_of (world s))) u = Some m) \<and> i_collection_id m = c})) s"
  unfolding items_def
proof (rule listing_wp [OF assms(1)], goal_cases)
  case (3 q v)
  then show ?case using listings_ok(3) assms by (auto simp: starting_def settled_def)
next
  case (4 y v t)
  from list_items_exact [OF this] assms show ?case by (auto simp: wp_simps starting_def settled_def)
qed simp_all

lemma aliases_wp:
  assumes "starting s"
  shows "wp (aliases P) (\<lambda>r t. grows s t \<and> (\<exists>as. r = Inr as \<and>
    set as = {a. \<exists>n. store_alias L (store (vault_of (world s))) n = Some a \<and>
      store_collection L (store (vault_of (world s))) (a_collection_id a) \<noteq> None})) s"
  unfolding aliases_def
proof (rule listing_wp [OF assms], goal_cases)
  case (3 q v)
  then show ?case using listings_ok(2) assms by (auto simp: starting_def settled_def)
next
  case (4 y v t)
  from list_aliases_exact [OF this] assms obtain as where y: "y = ResponseBody.Aliases as"
    and as: "sorted_wrt (<) (map a_name as)"
      "set as = {a. \<exists>n. store_alias L (store (vault_of (world s))) n = Some a \<and>
        store_collection L (store (vault_of (world s))) (a_collection_id a) \<noteq> None}"
    by (auto simp: starting_def settled_def)
  have "distinct (map a_name (sort_key (\<lambda>a. (a_name a, a_collection_id a)) as))"
    using as(1) by (simp add: strict_sorted_iff distinct_map)
  then show ?case using y as(2) by (simp add: dedup_by_name_distinct wp_simps)
qed simp_all

text \<open>Exporting a list of objects: what is there stays there.\<close>

lemma grows_iter:
  assumes each: "\<And>x t. x \<in> set xs \<Longrightarrow> grows s t \<Longrightarrow> wp (f x) (\<lambda>r t'. grows t t' \<and>
      (is_ok r \<longrightarrow> Q x (exported (bus (world t')))) \<and> (bus_smooth P U \<longrightarrow> is_ok r)) t"
    and mono: "\<And>x E F. Q x E \<Longrightarrow> E \<subseteq>\<^sub>m F \<Longrightarrow> Q x F" and "grows s u"
  shows "wp (act_iter f xs) (\<lambda>r t. grows s t \<and> (is_ok r \<longrightarrow> (\<forall>x \<in> set xs. Q x (exported (bus (world t))))) \<and>
    (bus_smooth P U \<longrightarrow> is_ok r)) u"
proof -
  have "wp (act_iter f xs) (\<lambda>r t. grows s t \<and> (\<forall>x. Q x (exported (bus (world u))) \<longrightarrow> Q x (exported (bus (world t)))) \<and>
      (is_ok r \<longrightarrow> (\<forall>x \<in> set xs. Q x (exported (bus (world t))))) \<and> (bus_smooth P U \<longrightarrow> is_ok r)) u"
  proof (rule wp_iter_all [where P = "\<lambda>x t. Q x (exported (bus (world t)))" and I = "grows s" and c = "bus_smooth P U"])
    fix x t
    assume x: "x \<in> set xs" and t: "grows s t"
    show "wp (f x) (\<lambda>r t'. grows s t' \<and> (\<forall>y. Q y (exported (bus (world t))) \<longrightarrow> Q y (exported (bus (world t')))) \<and>
        (is_ok r \<longrightarrow> Q x (exported (bus (world t')))) \<and> (bus_smooth P U \<longrightarrow> is_ok r)) t"
    proof (rule wp_mono [OF each [OF x t]])
      fix r t'
      assume t': "grows t t' \<and> (is_ok r \<longrightarrow> Q x (exported (bus (world t')))) \<and> (bus_smooth P U \<longrightarrow> is_ok r)"
      then have "exported (bus (world t)) \<subseteq>\<^sub>m exported (bus (world t'))" by (simp add: grows_def)
      then have "\<forall>y. Q y (exported (bus (world t))) \<longrightarrow> Q y (exported (bus (world t')))" using mono by blast
      with t' t grows_trans show "grows s t' \<and> (\<forall>y. Q y (exported (bus (world t))) \<longrightarrow> Q y (exported (bus (world t')))) \<and>
        (is_ok r \<longrightarrow> Q x (exported (bus (world t')))) \<and> (bus_smooth P U \<longrightarrow> is_ok r)" by blast
    qed
  qed (rule assms(3))
  then show ?thesis by (rule wp_mono) auto
qed

text \<open>One collection with its items.\<close>

lemma export_items_wp:
  assumes "starting s"
    and ms: "\<forall>m \<in> set ms. vault_object P L (store (vault_of (world s))) (item_path P (i_id m)) (ItemObject (i_id m))"
  shows "wp (act_iter (\<lambda>m. lib_call Transport (server_at P (item_path P (i_id m)) (ItemObject (i_id m)))) ms)
    (\<lambda>r t. grows s t \<and> (is_ok r \<longrightarrow> (\<forall>m \<in> set ms. has_object (item_path P (i_id m)) (ItemObject (i_id m)) (exported (bus (world t))))) \<and>
       (bus_smooth P U \<longrightarrow> is_ok r)) s"
proof (rule grows_iter [where Q = "\<lambda>m. has_object (item_path P (i_id m)) (ItemObject (i_id m))"])
  fix m t
  assume "m \<in> set ms" and t: "grows s t"
  then show "wp (lib_call Transport (server_at P (item_path P (i_id m)) (ItemObject (i_id m))))
     (\<lambda>r t'. grows t t' \<and> (is_ok r \<longrightarrow> has_object (item_path P (i_id m)) (ItemObject (i_id m)) (exported (bus (world t')))) \<and>
       (bus_smooth P U \<longrightarrow> is_ok r)) t"
    using ms by (intro export_wp) (simp_all only: grows_starting [OF t] grows_store [OF t])
qed (use assms(1) has_object_mono grows_refl in auto)

lemma export_collection_wp:
  assumes "starting s" and there: "store_collection L (store (vault_of (world s))) (c_id c) \<noteq> None"
  shows "wp (act_bind (lib_call Transport (server_at P (collection_path P (c_id c)) (CollectionObject (c_id c)))) (\<lambda>_.
      act_bind (items P (c_id c)) (\<lambda>ms.
      act_iter (\<lambda>m. lib_call Transport (server_at P (item_path P (i_id m)) (ItemObject (i_id m)))) ms)))
    (\<lambda>r t. grows s t \<and> (is_ok r \<longrightarrow> has_object (collection_path P (c_id c)) (CollectionObject (c_id c)) (exported (bus (world t))) \<and>
       (\<forall>u m. store_item L (store (vault_of (world s))) u = Some m \<and> i_collection_id m = c_id c \<longrightarrow>
          has_object (item_path P u) (ItemObject u) (exported (bus (world t))))) \<and> (bus_smooth P U \<longrightarrow> is_ok r)) s"
proof (rule wp_bindI [OF export_wp [OF assms(1)]], goal_cases)
  case 1
  then show ?case using there by simp
next
  case (3 x t)
  let ?c = "has_object (collection_path P (c_id c)) (CollectionObject (c_id c))"
  from 3 have t: "grows s t" "?c (exported (bus (world t)))" by auto
  then have at: "store_collection L (store (vault_of (world t))) (c_id c) \<noteq> None" using there by (simp add: grows_def)
  show ?case
  proof (rule wp_bindI [OF items_wp [OF grows_starting [OF t(1)] at]], goal_cases)
    case (2 ms v)
    then have v: "grows s v" using t(1) grows_trans by blast
    have ms: "set ms = {m. (\<exists>u. store_item L (store (vault_of (world s))) u = Some m) \<and> i_collection_id m = c_id c}"
      using 2 t(1) by (simp add: grows_def)
    have c: "?c (exported (bus (world v)))" using 2 t(2) grows_has by blast
    have "\<forall>m \<in> set ms. vault_object P L (store (vault_of (world v))) (item_path P (i_id m)) (ItemObject (i_id m))"
      using there store_item_id unfolding ms grows_store [OF v] by fastforce
    from export_items_wp [OF grows_starting [OF v] this] show ?case
    proof (rule wp_mono)
      fix r w
      assume w: "grows v w \<and> (is_ok r \<longrightarrow> (\<forall>m \<in> set ms. has_object (item_path P (i_id m)) (ItemObject (i_id m)) (exported (bus (world w))))) \<and>
        (bus_smooth P U \<longrightarrow> is_ok r)"
      have "has_object (item_path P u) (ItemObject u) (exported (bus (world w)))"
        if "is_ok r" "store_item L (store (vault_of (world s))) u = Some m" "i_collection_id m = c_id c" for u m
        using that w ms store_item_id [OF that(2)] by auto
      moreover have "grows s w" "?c (exported (bus (world w)))"
        using w v c grows_trans grows_has by blast+
      ultimately show "grows s w \<and> (is_ok r \<longrightarrow> ?c (exported (bus (world w))) \<and>
         (\<forall>u m. store_item L (store (vault_of (world s))) u = Some m \<and> i_collection_id m = c_id c \<longrightarrow>
            has_object (item_path P u) (ItemObject u) (exported (bus (world w))))) \<and> (bus_smooth P U \<longrightarrow> is_ok r)"
        using w by blast
    qed
  qed auto
qed auto

lemma export_alias_wp:
  assumes "starting s" and "\<And>p. alias_path n = Some p \<Longrightarrow> vault_object P L (store (vault_of (world s))) p d"
  shows "wp (case alias_path n of Some path \<Rightarrow> lib_call Transport (server_at P path d) | None \<Rightarrow> act_return ())
    (\<lambda>r t. grows s t \<and> (is_ok r \<longrightarrow> (\<forall>p. alias_path n = Some p \<longrightarrow> has_object p d (exported (bus (world t))))) \<and>
       (bus_smooth P U \<longrightarrow> is_ok r)) s"
proof (cases "alias_path n")
  case None
  then show ?thesis using grows_refl [OF assms(1)] by (simp add: wp_simps)
next
  case (Some p)
  then show ?thesis using export_wp [OF assms(1) assms(2) [OF Some]] by simp
qed

lemma initialize_wp:
  assumes "starting s"
  shows "wp (initialize P) (\<lambda>r t. grows s t \<and>
    (is_ok r \<longrightarrow> exports_vault P L (store (vault_of (world s))) (exported (bus (world t)))) \<and>
    (bus_smooth P U \<longrightarrow> is_ok r)) s"
  unfolding initialize_def
proof (rule wp_bindI [OF collections_wp [OF assms(1)]], goal_cases)
  case (2 cs t1)
  let ?st = "store (vault_of (world s))"
  let ?C = "\<lambda>c E. has_object (collection_path P (c_id c)) (CollectionObject (c_id c)) E \<and>
    (\<forall>u m. store_item L ?st u = Some m \<and> i_collection_id m = c_id c \<longrightarrow> has_object (item_path P u) (ItemObject u) E)"
  let ?A = "\<lambda>a E. \<forall>p. alias_path (a_name a) = Some p \<longrightarrow> has_object p (CollectionObject (a_collection_id a)) E"
  have t1: "grows s t1" "set cs = {c. \<exists>u. store_collection L ?st u = Some c}" using 2 by auto
  have each: "wp (act_bind (lib_call Transport (server_at P (collection_path P (c_id c)) (CollectionObject (c_id c)))) (\<lambda>_.
       act_bind (items P (c_id c)) (\<lambda>ms.
       act_iter (\<lambda>m. lib_call Transport (server_at P (item_path P (i_id m)) (ItemObject (i_id m)))) ms)))
      (\<lambda>r v. grows t v \<and> (is_ok r \<longrightarrow> ?C c (exported (bus (world v)))) \<and> (bus_smooth P U \<longrightarrow> is_ok r)) t"
    if c: "c \<in> set cs" and t: "grows s t" for c t
  proof -
    have st: "store (vault_of (world t)) = ?st" using t by (simp add: grows_def)
    obtain u where u: "store_collection L ?st u = Some c" using c unfolding t1(2) by auto
    then have "store_collection L (store (vault_of (world t))) (c_id c) \<noteq> None"
      unfolding st store_collection_id [OF u] by simp
    from export_collection_wp [OF grows_starting [OF t] this] show ?thesis unfolding st .
  qed
  show ?case
  proof (rule wp_bindI [OF grows_iter [where Q = ?C, OF each _ t1(1)]], goal_cases)
    case (5 x t2)
    then have t2: "grows s t2" "\<forall>c \<in> set cs. ?C c (exported (bus (world t2)))" by auto
    show ?case
    proof (rule wp_bindI [OF aliases_wp [OF grows_starting [OF t2(1)]]], goal_cases)
      case (2 as t3)
      then have t3: "grows s t3" "set as = {a. \<exists>n. store_alias L ?st n = Some a \<and> store_collection L ?st (a_collection_id a) \<noteq> None}"
        using t2(1) grows_trans by (auto simp: grows_def)
      have c3: "\<forall>c \<in> set cs. ?C c (exported (bus (world t3)))" using t2(2) 2 by (auto dest: grows_has)
      have each_alias: "wp (case alias_path (a_name a) of
             Some path \<Rightarrow> lib_call Transport (server_at P path (CollectionObject (a_collection_id a)))
           | None \<Rightarrow> act_return ())
          (\<lambda>r v. grows t v \<and> (is_ok r \<longrightarrow> ?A a (exported (bus (world v)))) \<and> (bus_smooth P U \<longrightarrow> is_ok r)) t"
        if a: "a \<in> set as" and t: "grows t3 t" for a t
      proof -
        have "grows s t" using t3(1) t grows_trans by blast
        moreover obtain n where "store_alias L ?st n = Some a" "store_collection L ?st (a_collection_id a) \<noteq> None" "a_name a = n"
          using a store_alias_name unfolding t3(2) by blast
        ultimately show ?thesis by (intro export_alias_wp) (auto simp: grows_store grows_starting)
      qed
      show ?case
      proof (rule wp_bindI [OF grows_iter [where s = t3 and Q = ?A, OF each_alias]], goal_cases)
        case (6 y t4)
        then have t4: "grows t3 t4" "\<forall>a \<in> set as. ?A a (exported (bus (world t4)))" by auto
        show ?case
        proof (rule wp_mono [OF export_wp [OF grows_starting [OF t4(1)]]])
          fix r t5
          assume t5: "grows t4 t5 \<and> (is_ok r \<longrightarrow> has_object COMPAT_PROMPT_PATH PromptObject (exported (bus (world t5)))) \<and> (bus_smooth P U \<longrightarrow> is_ok r)"
          have g: "grows t3 t5" "grows s t5" using t5 t4(1) t3(1) grows_trans by blast+
          have "only_vault P L ?st (exported (bus (world t5)))"
            using grows_starting [OF g(2)] grows_store [OF g(2)] by (simp add: starting_def)
          moreover have "\<forall>c \<in> set cs. ?C c (exported (bus (world t5)))" using c3 g(1) by (auto dest: grows_has)
          moreover have "\<forall>a \<in> set as. ?A a (exported (bus (world t5)))" using t4(2) t5 by (auto dest: grows_has)
          ultimately have "exports_vault P L ?st (exported (bus (world t5)))" if "is_ok r"
            using exports_vaultI [OF _ t1(2) t3(2)] that t5 by blast
          then show "grows s t5 \<and> (is_ok r \<longrightarrow> exports_vault P L ?st (exported (bus (world t5)))) \<and> (bus_smooth P U \<longrightarrow> is_ok r)"
            using g(2) t5 by blast
        qed simp
      qed (use t3(1) has_object_mono in \<open>auto intro: grows_refl grows_starting grows_trans\<close>)
    qed (use t2 in \<open>auto intro: grows_trans\<close>)
  qed (use has_object_mono in auto)
qed auto

lemma bus_call_wp:
  assumes "wp m (\<lambda>r w. vault_of w = vault_of (world s) \<and> bus w = (if is_ok r then b else bus (world s))) (world s)"
  shows "wp (bus_call m) (\<lambda>r t. same s t \<and> bus (world t) = (if is_ok r then b else bus (world s)) \<and>
    (is_ok (fst (m (world s))) \<longrightarrow> is_ok r)) s"
  using assms by (auto simp: bus_call_def on_world_def wp_def act_simps same_def split: prod.splits)

lemma smooth:
  "wp (dbus_proxy U) (\<lambda>r _. bus_smooth P U \<longrightarrow> is_ok r) w"
  "wp (receive_name_owner_changed U) (\<lambda>r _. bus_smooth P U \<longrightarrow> is_ok r) w"
  "bus_smooth P U \<Longrightarrow> is_ok (fst (connect_session U w))" "bus_smooth P U \<Longrightarrow> is_ok (fst (serve_root U p w))"
  "bus_smooth P U \<Longrightarrow> is_ok (fst (request_name U n w))"
  by (simp_all add: bus_smooth_def wp_def)

lemma start_monitor_wp:
  "wp (start_monitor U) (\<lambda>r t. same s t \<and>
     bus (world t) = (if is_ok r then (bus (world s))\<lparr>watching := True\<rparr> else bus (world s)) \<and>
     (bus_smooth P U \<longrightarrow> is_ok r)) s"
proof -
  have "wp (act_bind (dbus_proxy U) (\<lambda>_. receive_name_owner_changed U))
    (\<lambda>r w. vault_of w = vault_of (world s) \<and>
       bus w = (if is_ok r then (bus (world s))\<lparr>watching := True\<rparr> else bus (world s)) \<and>
       (bus_smooth P U \<longrightarrow> is_ok r)) (world s)"
  proof (rule wp_bindI [OF wp_conj [OF proxy_law smooth(1)]], goal_cases)
    case (2 x w)
    then show ?case by (intro wp_mono [OF wp_conj [OF watch_law smooth(2)]]) auto
  qed auto
  then show ?thesis by (auto simp: start_monitor_def on_world_def wp_def act_simps same_def split: prod.splits)
qed

lemma initialize_core_wp:
  assumes "starting s"
  shows "wp (act_map_err (map_failure Core) (initialize P)) (\<lambda>r t. grows s t \<and>
    (is_ok r \<longrightarrow> exports_vault P L (store (vault_of (world s))) (exported (bus (world t)))) \<and>
    (bus_smooth P U \<longrightarrow> is_ok r)) s"
  using initialize_wp [OF assms] by (simp add: wp_simps)

lemma ready_wp:
  assumes "settled s" and "\<not> named (bus (world s))" and "exported (bus (world s)) = Map.empty"
  shows "wp (provider_ready P U) (\<lambda>r t. settled t \<and> store (vault_of (world t)) = store (vault_of (world s)) \<and>
    sessions t = sessions s \<and> (named (bus (world t)) \<longleftrightarrow> is_ok r) \<and>
    (is_ok r \<longrightarrow> watching (bus (world t)) \<and> SERVICE_PATH \<in> service_at (bus (world t)) \<and>
       exports_vault P L (store (vault_of (world s))) (exported (bus (world t)))) \<and> (bus_smooth P U \<longrightarrow> is_ok r)) s"
  unfolding provider_ready_def
proof (rule wp_bindI [OF bus_call_wp [where b = "bus (world s)", OF wp_mono [OF connect_law]]], goal_cases)
  case (3 x1 t1)
  then have t1: "same s t1" "bus (world t1) = bus (world s)" by auto
  show ?case
  proof (rule wp_bindI [OF start_monitor_wp], goal_cases)
    case (2 x2 t2)
    then have t2: "same s t2" "bus (world t2) = (bus (world s))\<lparr>watching := True\<rparr>" using t1 same_trans by auto
    show ?case
    proof (rule wp_bindI [OF bus_call_wp [OF root_law]], goal_cases)
      case (2 x3 t3)
      then have t3: "same s t3" "SERVICE_PATH \<in> service_at (bus (world t3))" "watching (bus (world t3))"
          "\<not> named (bus (world t3))" "exported (bus (world t3)) = Map.empty"
        using t2 assms(2,3) same_trans by auto
      have "starting t3"
        using same_settled [OF t3(1) assms(1)] by (simp add: starting_def only_vault_def t3(5))
      from initialize_core_wp [OF this] have core: "wp (act_map_err (map_failure Core) (initialize P)) (\<lambda>r t. grows t3 t \<and>
          (is_ok r \<longrightarrow> exports_vault P L (store (vault_of (world t3))) (exported (bus (world t)))) \<and>
          (bus_smooth P U \<longrightarrow> is_ok r)) t3" .
      show ?case
      proof (rule wp_bindI [OF core], goal_cases)
        case (2 x4 t4)
        then have t4: "grows t3 t4" "exports_vault P L (store (vault_of (world s))) (exported (bus (world t4)))"
          using t3(1) by (auto simp: same_def)
        show ?case
          by (rule wp_mono [OF bus_call_wp [OF name_law]])
             (use t3 t4 smooth(5) in \<open>auto simp: grows_def same_def starting_def settled_def\<close>)
      qed (use t3 in \<open>auto simp: grows_def same_def starting_def\<close>)
    qed (use t2 assms smooth(4) in \<open>auto simp: same_def settled_def\<close>)
  qed (use t1 assms in \<open>auto simp: same_def settled_def\<close>)
qed (use assms smooth(3) in \<open>auto simp: same_def settled_def\<close>)

lemma main_ready:
  assumes "provider_main P U serving w = (0, t)"
  shows "\<exists>u v. provider_ready P U (Provider_new w) = (Inr (), u) \<and> terminate_signal U (world u) = (Inr (), v) \<and>
    world t = broker_shutdown U (world (serving (u\<lparr>world := v\<rparr>))) \<and> sessions t = sessions (serving (u\<lparr>world := v\<rparr>))"
  using assms
  by (auto simp: provider_main_def provider_process_def act_bind_run bus_call_def on_world_def act_map_err_run
      split: prod.splits sum.splits failure.splits)

end

end
