(* ===== verification/Reference_Platform.thy ===== *)
theory Reference_Platform
  imports Provider_Vault Reference_Vault
begin

unbundle bit_operations_syntax

text \<open>
  A concrete platform for the provider: the reference text formats, big integers as numbers, a
  stand-in hash and cipher with the laws the provider relies on, an object tree and a signal log,
  and a broker client that runs the modelled broker on its in-memory backend. It shows that the
  interfaces \<open>path_lib\<close>, \<open>crypto_laws\<close>, \<open>dbus_platform\<close> and \<open>linked_provider\<close> have a common
  implementation, with the broker of this development as the provider's peer.
\<close>

section \<open>Text\<close>

lemma from_digits_Cons: "from_digits base (d # ds) = d * base ^ length ds + from_digits base ds"
proof -
  have "fold (\<lambda>d n. n * base + d) ds a = a * base ^ length ds + fold (\<lambda>d n. n * base + d) ds 0" for a
  proof (induction ds arbitrary: a)
    case (Cons x ds)
    show ?case
      using Cons.IH [of "a * base + x"] Cons.IH [of x] by (simp add: add_mult_distrib)
  qed simp
  from this [of d] show ?thesis by (simp add: from_digits_def)
qed

lemma from_digits_less: "\<forall>d \<in> set ds. d < base \<Longrightarrow> from_digits base ds < base ^ length ds"
proof (induction ds)
  case Nil
  then show ?case by (simp add: from_digits_def)
next
  case (Cons d ds)
  have "d * base ^ length ds + from_digits base ds < (d + 1) * base ^ length ds" using Cons by simp
  also have "\<dots> \<le> base * base ^ length ds" using Cons.prems by (intro mult_right_mono) simp_all
  finally show ?case by (simp add: from_digits_Cons)
qed

lemma digits_from_digits: "\<forall>d \<in> set ds. d < base \<Longrightarrow> digits base (length ds) (from_digits base ds) = ds"
  by (induction ds rule: rev_induct) (auto simp: from_digits_snoc)

lemma hex_value_ascii:
  assumes "is_ascii_hexdigit c"
  shows "\<exists>d < 16. hex_value c = Some d \<and> hex_char d = to_ascii_lower c"
proof -
  have "c \<in> set ''0123456789abcdefABCDEF''"
  proof -
    have "of_char c \<in> {48..<58} \<union> {97..<103} \<union> {65..<71 :: nat}"
      using assms by (auto simp: is_ascii_hexdigit_def is_ascii_digit_def less_eq_char_def)
    then have "of_char c \<in> set ([48..<58] @ [97..<103] @ [65..<71 :: nat])"
      unfolding set_append set_upt by blast
    then have "char_of (of_char c :: nat) \<in> set (map char_of ([48..<58] @ [97..<103] @ [65..<71 :: nat]))"
      by (metis image_eqI set_map)
    moreover have "map char_of ([48..<58] @ [97..<103] @ [65..<71 :: nat]) = ''0123456789abcdefABCDEF''"
      by (simp add: upt_rec char_of_def bit_Suc_0_iff)
    ultimately show ?thesis by (metis char_of_char)
  qed
  then show ?thesis
    by (auto simp: hex_value_def hex_char_def hex_chars_def to_ascii_lower_def less_eq_char_def upt_rec char_of_def bit_Suc_0_iff)
qed

lemma all_values_ascii:
  assumes "list_all is_ascii_hexdigit s"
  shows "\<exists>ds. all_values s = Some ds \<and> map hex_char ds = map to_ascii_lower s \<and> (\<forall>d \<in> set ds. d < 16) \<and>
    length ds = length s"
  using assms
proof (induction s)
  case (Cons c s)
  then obtain ds where "all_values s = Some ds" "map hex_char ds = map to_ascii_lower s"
    "\<forall>d \<in> set ds. d < 16" "length ds = length s" by auto
  moreover obtain d where "d < 16" "hex_value c = Some d" "hex_char d = to_ascii_lower c"
    using hex_value_ascii Cons.prems by auto
  ultimately show ?case by (intro exI [of _ "d # ds"]) simp
qed simp

lemma uuid_hex_parse:
  assumes "length s = 32" and "list_all is_ascii_hexdigit s"
  shows "\<exists>u. uuid_parse s = Some u \<and> uuid_hex u = map to_ascii_lower s"
proof -
  obtain ds where ds: "all_values s = Some ds" "map hex_char ds = map to_ascii_lower s" "\<forall>d \<in> set ds. d < 16"
      "length ds = 32"
    using all_values_ascii [OF assms(2)] assms(1) by auto
  have "from_digits 16 ds < 16 ^ 32" using from_digits_less [OF ds(3)] ds(4) by simp
  then have "unat (of_nat (from_digits 16 ds) :: uuid) = from_digits 16 ds"
    by (simp add: unat_of_nat)
  then have "uuid_hex (of_nat (from_digits 16 ds)) = map to_ascii_lower s"
    using digits_from_digits [OF ds(3)] ds(2,4) by (simp add: uuid_hex_def)
  then show ?thesis using assms(1) ds(1) by (simp add: uuid_parse_def uuid_from_hex_def)
qed

lemma uuid_hex_ascii: "list_all is_ascii_hexdigit (uuid_hex u)"
proof -
  have "is_ascii_hexdigit (hex_char d)" if "d < 16" for d
  proof -
    have "list_all is_ascii_hexdigit hex_chars"
      by (simp add: hex_chars_def is_ascii_hexdigit_def is_ascii_digit_def less_eq_char_def)
    then show ?thesis using that hex_chars_props(1) by (auto simp: hex_char_def list_all_length)
  qed
  then show ?thesis using digits_less [of 16] by (auto simp: uuid_hex_def list_all_iff)
qed


section \<open>Numbers and ciphers\<close>

fun be_bytes :: "nat \<Rightarrow> bytes" where
  "be_bytes n = (if n < 256 then [of_nat n] else be_bytes (n div 256) @ [of_nat (n mod 256)])"

declare be_bytes.simps [simp del]

definition be_number :: "bytes \<Rightarrow> nat" where
  "be_number bs = from_digits 256 (map unat bs)"

lemma be_number_bytes: "be_number (be_bytes n) = n"
proof (induction n rule: be_bytes.induct)
  case (1 n)
  show ?case
  proof (cases "n < 256")
    case True
    then show ?thesis by (subst be_bytes.simps) (simp add: be_number_def from_digits_def unat_of_nat)
  next
    case False
    with 1 show ?thesis
      by (subst be_bytes.simps) (simp add: be_number_def from_digits_snoc unat_of_nat)
  qed
qed

lemma be_bytes_length: "n < 256 ^ k \<Longrightarrow> 0 < k \<Longrightarrow> length (be_bytes n) \<le> k"
proof (induction n arbitrary: k rule: be_bytes.induct)
  case (1 n)
  show ?case
  proof (cases "n < 256")
    case True
    then show ?thesis using 1 by (subst be_bytes.simps) simp
  next
    case False
    then obtain j where j: "k = Suc j" "0 < j" using 1 by (cases k; cases "k - 1") auto
    then have "n div 256 < 256 ^ j" using 1 by (simp add: less_mult_imp_div_less mult.commute)
    then show ?thesis using 1 False j by (subst be_bytes.simps) simp
  qed
qed

definition pad32 :: "bytes \<Rightarrow> bytes" where
  "pad32 bs = take 32 (bs @ replicate 32 0)"

definition stream_xor :: "bytes \<Rightarrow> bytes \<Rightarrow> bytes \<Rightarrow> bytes" where
  "stream_xor key iv bs = map (\<lambda>(i, b). b XOR key ! (i mod 16) XOR iv ! (i mod 16)) (enumerate 0 bs)"

lemma stream_xor_inverse: "stream_xor key iv (stream_xor key iv bs) = bs"
proof -
  have "map (\<lambda>(i, b). b XOR key ! (i mod 16) XOR iv ! (i mod 16))
      (enumerate n (map (\<lambda>(i, b). b XOR key ! (i mod 16) XOR iv ! (i mod 16)) (enumerate n bs))) = bs" for n
    by (induction bs arbitrary: n) (auto simp: xor.assoc xor.left_commute)
  then show ?thesis by (simp add: stream_xor_def)
qed


section \<open>The platform\<close>

datatype demo_value = DString string | DBytes bytes | DStringMap "(string \<times> string) list"

record demo_world =
  dw_vault :: MemoryData
  dw_next :: nat
  dw_objects :: "(string \<times> dbus_object) list"
  dw_signals :: "(string \<times> dbus_signal) list"
  dw_service :: "string list"
  dw_named :: bool
  dw_watching :: bool

definition reference_platform :: "(demo_world, demo_value) platform" where
  "reference_platform =
     \<lparr>uuid_parse_str = uuid_parse, uuid_to_string = \<lambda>u. hyphenate (uuid_hex u), uuid_simple = uuid_hex,
      b64_encode = base64_encode, b64_decode = base64_decode,
      big_parse_hex = \<lambda>s. if s \<noteq> [] \<and> list_all is_ascii_hexdigit s then Some (hex_number s) else None,
      big_from_bytes_be = be_number, big_to_bytes_be = be_bytes, big_modpow = \<lambda>b e p. b ^ e mod p,
      sha256_digest = pad32, aes_cbc_encrypt = stream_xor,
      aes_cbc_decrypt = \<lambda>k iv v. Some (stream_xor k iv v),
      broker_call = \<lambda>op w. (case demo_execute op (dw_vault w) of
          None \<Rightarrow> (Inl Timeout, w)
        | Some (q, v) \<Rightarrow> (map_err Broker q, w\<lparr>dw_vault := v\<rparr>)),
      unix_time = \<lambda>w. (Some 1, w),
      new_v4 = \<lambda>w. (of_nat (dw_next w), w\<lparr>dw_next := dw_next w + 1\<rparr>),
      gen_biguint_range = \<lambda>lo hi w. (lo + 3, w),
      try_fill_bytes = \<lambda>n w. (Inr (replicate n 9), w),
      server_at = \<lambda>p d w. (Inr True, w\<lparr>dw_objects := (p, d) # dw_objects w\<rparr>),
      server_remove = \<lambda>i p w. (Inr True, w\<lparr>dw_objects := filter (\<lambda>(q, _). q \<noteq> p) (dw_objects w)\<rparr>),
      emit_signal = \<lambda>p g w. (Inr (), w\<lparr>dw_signals := (p, g) # dw_signals w\<rparr>),
      valid_object_path = dbus_path_ok,
      variant_string = \<lambda>s. Some (DString s), variant_bytes = \<lambda>b. Some (DBytes b),
      value_string = \<lambda>v. (case v of DString s \<Rightarrow> Some s | _ \<Rightarrow> None),
      value_bytes = \<lambda>v. (case v of DBytes b \<Rightarrow> Some b | _ \<Rightarrow> None),
      value_string_map = \<lambda>v. (case v of DStringMap m \<Rightarrow> Some m | _ \<Rightarrow> None),
      dbus_error_text = \<lambda>_. ''error''\<rparr>"

lemma reference_dbus_platform: "dbus_platform reference_platform"
proof -
  have "path_lib reference_platform"
    by unfold_locales
       (simp_all add: reference_platform_def uuid_parse_hyphenate uuid_text_no_slash base64_decode_encode
         base64_canonical base64_no_slash uuid_hex_ascii uuid_hex_parse,
        simp add: uuid_parse_def uuid_from_hex_hex)
  moreover have "crypto_laws reference_platform"
    by unfold_locales
       (simp_all add: reference_platform_def be_number_bytes be_bytes_length pad32_def stream_xor_inverse)
  ultimately show ?thesis
    by (intro dbus_platform.intro dbus_platform_axioms.intro) (simp_all add: reference_platform_def)
qed

interpretation ref_dbus: dbus_platform reference_platform
  by (rule reference_dbus_platform)

lemma reference_linked:
  "linked_provider reference_platform reference_lib (InMemoryBackend reference_lib) memory_store memory_invar
     memory_up guards dw_vault"
  by (intro linked_provider.intro reference_dbus_platform ref_vault.vault_axioms linked_provider_axioms.intro)
     (simp_all add: reference_platform_def)

interpretation ref_linked: linked_provider reference_platform reference_lib "InMemoryBackend reference_lib"
    memory_store memory_invar memory_up guards dw_vault
  by (rule reference_linked)


section \<open>A concrete provider\<close>

definition demo_session :: SessionRecord where
  "demo_session = \<lparr>sr_owner = '':1.5'', sr_key = Plain\<rparr>"

definition demo_dh_session :: SessionRecord where
  "demo_dh_session = \<lparr>sr_owner = '':1.6'', sr_key = Dh (replicate 16 3)\<rparr>"

definition demo_provider :: "MemoryData \<Rightarrow> demo_world provider" where
  "demo_provider v =
     \<lparr>sessions = [(5, demo_session), (6, demo_dh_session)],
      world = \<lparr>dw_vault = v, dw_next = 11, dw_objects = [], dw_signals = [],
        dw_service = [], dw_named = False, dw_watching = False\<rparr>\<rparr>"

lemma demo_provider_sessions [simp]:
  "sessions (demo_provider v) = [(5, demo_session), (6, demo_dh_session)]"
  "dw_vault (world (demo_provider v)) = v"
  by (simp_all add: demo_provider_def)

lemma demo_sessions_wf: "sessions_wf (sessions (demo_provider v))"
  by (simp add: sessions_wf_def demo_session_def demo_dh_session_def)

lemma demo_settled: "memory_ready v \<Longrightarrow> ref_linked.settled (demo_provider v)"
  by (simp add: ref_linked.settled_def memory_ready_def)

lemma demo_random: "ref_linked.random_ok"
  unfolding ref_linked.random_ok_def by (simp add: reference_platform_def)

definition demo_properties :: "(string \<times> demo_value) list" where
  "demo_properties = [(''Label'', DString ''mail''), (''Attributes'', DStringMap [(''user'', ''me'')])]"

lemma demo_item_properties:
  "item_properties reference_platform demo_properties = Inr (''mail'', [(''user'', ''me'')])"
  by (simp add: item_properties_def demo_properties_def reference_platform_def to_btree_def)

end
