(* ===== verification/Reference_Bus.thy ===== *)
theory Reference_Bus
  imports Provider_Process Reference_Platform
begin

text \<open>
  A bus on which every call succeeds, over the world of the reference platform. The model never
  uses it; it shows that the laws of \<open>provider_bus\<close> can hold and lets the start of the provider run.
\<close>

definition reference_bus :: "demo_world bus_api" where
  "reference_bus =
     \<lparr>connect_session = act_return (), dbus_proxy = act_return (),
      receive_name_owner_changed = \<lambda>w. (Inr (), w\<lparr>dw_watching := True\<rparr>),
      serve_root = \<lambda>p w. (Inr True, w\<lparr>dw_service := p # dw_service w\<rparr>),
      request_name = \<lambda>n w. (Inr (), w\<lparr>dw_named := True\<rparr>),
      terminate_signal = act_return (), broker_shutdown = id\<rparr>"

definition demo_bus :: "demo_world \<Rightarrow> bus_view" where
  "demo_bus w =
     \<lparr>exported = map_of (map (\<lambda>(p, d). ((p, object_interface d), d)) (dw_objects w)),
      service_at = set (dw_service w), named = dw_named w, watching = dw_watching w\<rparr>"

interpretation ref_bus: provider_bus reference_platform reference_lib "InMemoryBackend reference_lib"
    memory_store memory_invar memory_up guards dw_vault reference_bus demo_bus
proof (unfold_locales, goal_cases)
  case (2 op w)
  then show ?case
    by (simp add: reference_platform_def demo_bus_def split: option.splits prod.splits sum.splits)
qed (auto simp: wp_def reference_platform_def reference_bus_def demo_bus_def act_return_run)

lemma reference_smooth: "bus_smooth reference_platform reference_bus"
  by (simp add: bus_smooth_def reference_platform_def reference_bus_def act_return_run)

end
