(* ===== verification/Memory_Broker.thy ===== *)
theory Memory_Broker
  imports Provider_Error Broker_Views
begin

text \<open>
  The provider's in-memory broker (\<^verbatim>\<open>InMemoryBroker\<close> in
  \<^verbatim>\<open>crates/provider/src/broker.rs\<close>), the test double the provider is tested against. It
  is compared with a specification of the protocol on the view of a vault: which requests are
  refused and why (\<open>vault_refusal\<close>), what the others answer (\<open>vault_answer\<close>), and how they change
  the vault (\<open>apply_op\<close>, which the real broker refines too).
\<close>

section \<open>The test double\<close>

record MemoryState =
  ms_collections :: "(uuid, CollectionMetadata) btree"
  ms_items :: "(uuid, ItemMetadata \<times> SecretBytes) btree"
  ms_aliases :: "(string, AliasMetadata) btree"

definition MemoryState_default :: MemoryState where
  "MemoryState_default = \<lparr>ms_collections = [], ms_items = [], ms_aliases = []\<rparr>"

definition memory_not_found :: "string \<Rightarrow> ProviderError" where
  "memory_not_found message = Broker (BrokerError_new NotFound message)"

definition memory_exists :: "string \<Rightarrow> ProviderError" where
  "memory_exists message = Broker (BrokerError_new ErrorCode.AlreadyExists message)"

definition has_attributes :: "(string, string) btree \<Rightarrow> ItemMetadata \<Rightarrow> bool" where
  "has_attributes attributes item =
     list_all (\<lambda>(key, v). map_of (i_attributes item) key = Some v) attributes"

text \<open>The ids a replacing creation removes, in key order.\<close>

definition memory_replaced :: "MemoryState \<Rightarrow> ItemMetadata \<Rightarrow> bool \<Rightarrow> uuid list" where
  "memory_replaced s item replace =
     (if replace then
        map (\<lambda>(_, existing, _). i_id existing)
          (filter (\<lambda>(_, existing, _). i_collection_id existing = i_collection_id item \<and>
             i_attributes existing = i_attributes item) (ms_items s))
      else [])"

fun memory_call :: "Operation \<Rightarrow> (MemoryState, ProviderError, ResponseBody) act" where
  "memory_call Ping s = (Inr Pong, s)"
| "memory_call ListCollections s =
     (Inr (ResponseBody.Collections (map snd (ms_collections s))), s)"
| "memory_call (GetCollection collection_id) s =
     (case map_of (ms_collections s) collection_id of
        Some c \<Rightarrow> (Inr (ResponseBody.Collection c), s)
      | None \<Rightarrow> (Inl (memory_not_found ''collection not found''), s))"
| "memory_call (CreateCollection collection) s =
     (if map_of (ms_collections s) (c_id collection) \<noteq> None then
        (Inl (memory_exists ''collection already exists''), s)
      else
        (Inr (ResponseBody.Collection collection),
         s\<lparr>ms_collections := bt_insert (c_id collection) collection (ms_collections s)\<rparr>))"
| "memory_call (UpdateCollection collection) s =
     (if map_of (ms_collections s) (c_id collection) = None then
        (Inl (memory_not_found ''collection not found''), s)
      else
        (Inr (ResponseBody.Collection collection),
         s\<lparr>ms_collections := bt_insert (c_id collection) collection (ms_collections s)\<rparr>))"
| "memory_call (DeleteCollection collection_id) s =
     (if map_of (ms_collections s) collection_id = None then
        (Inl (memory_not_found ''collection not found''), s)
      else
        (Inr ResponseBody.Empty,
         \<lparr>ms_collections = bt_remove collection_id (ms_collections s),
          ms_items = bt_retain (\<lambda>_ (item, _). i_collection_id item \<noteq> collection_id) (ms_items s),
          ms_aliases = bt_retain (\<lambda>_ alias. a_collection_id alias \<noteq> collection_id) (ms_aliases s)\<rparr>))"
| "memory_call ListAliases s = (Inr (ResponseBody.Aliases (map snd (ms_aliases s))), s)"
| "memory_call (ResolveAlias name) s =
     (Inr (ResponseBody.Alias (map_of (ms_aliases s) name)), s)"
| "memory_call (SetAlias alias) s =
     (if map_of (ms_collections s) (a_collection_id alias) = None then
        (Inl (memory_not_found ''collection not found''), s)
      else
        (Inr (ResponseBody.Alias (Some alias)),
         s\<lparr>ms_aliases := bt_insert (a_name alias) alias (ms_aliases s)\<rparr>))"
| "memory_call (RemoveAlias name) s =
     (Inr ResponseBody.Empty, s\<lparr>ms_aliases := bt_remove name (ms_aliases s)\<rparr>)"
| "memory_call (SearchItems attributes) s =
     (Inr (ResponseBody.Items (map fst
        (filter (\<lambda>(item, _). has_attributes attributes item) (map snd (ms_items s))))), s)"
| "memory_call (ListItems collection_id) s =
     (if map_of (ms_collections s) collection_id = None then
        (Inl (memory_not_found ''collection not found''), s)
      else
        (Inr (ResponseBody.Items (map fst
           (filter (\<lambda>(item, _). i_collection_id item = collection_id) (map snd (ms_items s))))), s))"
| "memory_call (GetItem item_id include_secret) s =
     (case map_of (ms_items s) item_id of
        Some (item, secret) \<Rightarrow>
          (Inr (ResponseBody.Item item (if include_secret then Some secret else None)), s)
      | None \<Rightarrow> (Inl (memory_not_found ''item not found''), s))"
| "memory_call (CreateItem item secret) s =
     (if map_of (ms_collections s) (i_collection_id item) = None then
        (Inl (memory_not_found ''collection not found''), s)
      else if map_of (ms_items s) (i_id item) \<noteq> None then
        (Inl (memory_exists ''item already exists''), s)
      else
        (Inr (ResponseBody.Item item None),
         s\<lparr>ms_items := bt_insert (i_id item) (item, secret) (ms_items s)\<rparr>))"
| "memory_call (CreateOrReplaceItem item secret replace) s =
     (if map_of (ms_collections s) (i_collection_id item) = None then
        (Inl (memory_not_found ''collection not found''), s)
      else if map_of (ms_items s) (i_id item) \<noteq> None then
        (Inl (memory_exists ''item already exists''), s)
      else
        (let replaced_item_ids = memory_replaced s item replace in
         (Inr (ResponseBody.ReplacedItem item replaced_item_ids []),
          s\<lparr>ms_items := fold bt_remove replaced_item_ids
               (bt_insert (i_id item) (item, secret) (ms_items s))\<rparr>)))"
| "memory_call (UpdateItem item secret) s =
     (case map_of (ms_items s) (i_id item) of
        None \<Rightarrow> (Inl (memory_not_found ''item not found''), s)
      | Some (_, stored) \<Rightarrow>
          (Inr (ResponseBody.Item item None),
           s\<lparr>ms_items := bt_insert (i_id item)
               (item, case secret of Some x \<Rightarrow> x | None \<Rightarrow> stored) (ms_items s)\<rparr>))"
| "memory_call (UpdateItemCas item secret expected_modified) s =
     (case map_of (ms_items s) (i_id item) of
        None \<Rightarrow> (Inl (memory_not_found ''item not found''), s)
      | Some (existing, stored) \<Rightarrow>
          if i_modified existing \<noteq> expected_modified then
            (Inl (Broker (BrokerError_new Conflict ''item was modified by another provider'')), s)
          else
            (let item = item\<lparr>i_modified :=
                   max (i_modified item) (saturating_add (i_modified existing) 1)\<rparr> in
             (Inr (ResponseBody.Item item None),
              s\<lparr>ms_items := bt_insert (i_id item)
                  (item, case secret of Some x \<Rightarrow> x | None \<Rightarrow> stored) (ms_items s)\<rparr>)))"
| "memory_call (DeleteItem item_id) s =
     (if map_of (ms_items s) item_id = None then
        (Inl (memory_not_found ''item not found''), s)
      else (Inr ResponseBody.Empty, s\<lparr>ms_items := bt_remove item_id (ms_items s)\<rparr>))"
| "memory_call Reconcile s = (Inr (ResponseBody.Reconciled 0 []), s)"


section \<open>Agreement with the specification\<close>

text \<open>Maps in key order, and every record under its own identifier or name.\<close>

definition keyed :: "('v \<Rightarrow> 'k) \<Rightarrow> ('k, 'v) btree \<Rightarrow> bool" where
  "keyed key m \<longleftrightarrow> (\<forall>(k, v) \<in> set m. key v = k)"

definition memory_wf :: "MemoryState \<Rightarrow> bool" where
  "memory_wf s \<longleftrightarrow>
     bt_keys_sorted (ms_collections s) \<and> bt_keys_sorted (ms_items s) \<and> bt_keys_sorted (ms_aliases s) \<and>
     keyed c_id (ms_collections s) \<and> keyed a_name (ms_aliases s) \<and> keyed (i_id \<circ> fst) (ms_items s)"

definition memory_view :: "MemoryState \<Rightarrow> vault_view" where
  "memory_view s =
     \<lparr>vv_collections = map_of (ms_collections s), vv_aliases = map_of (ms_aliases s),
      vv_items = map_option (map_prod id (\<lambda>x. Some (expose x))) \<circ> map_of (ms_items s)\<rparr>"

text \<open>
  Updates as the provider builds them: from the stored record, with its creation time, without a
  new secret its generation, and, where the broker is to advance the revision itself, a later
  modification time.
\<close>

fun derived_update :: "Operation \<Rightarrow> vault_view \<Rightarrow> bool" where
  "derived_update (UpdateCollection c) v \<longleftrightarrow>
     (\<forall>e. vv_collections v (c_id c) = Some e \<longrightarrow> c_created c = c_created e)"
| "derived_update (UpdateItem m x) v \<longleftrightarrow>
     (\<forall>e b. vv_items v (i_id m) = Some (e, b) \<longrightarrow>
        i_created m = i_created e \<and> saturating_add (i_modified e) 1 \<le> i_modified m \<and>
        (x = None \<longrightarrow> i_current_generation m = i_current_generation e))"
| "derived_update (UpdateItemCas m x r) v \<longleftrightarrow>
     (\<forall>e b. vv_items v (i_id m) = Some (e, b) \<longrightarrow>
        i_created m = i_created e \<and> (x = None \<longrightarrow> i_current_generation m = i_current_generation e))"
| "derived_update _ v \<longleftrightarrow> True"

text \<open>The requests a vault refuses, and the code of the refusal.\<close>

fun vault_refusal :: "Operation \<Rightarrow> vault_view \<Rightarrow> ErrorCode option" where
  "vault_refusal (GetCollection u) v = (if vv_collections v u = None then Some NotFound else None)"
| "vault_refusal (CreateCollection c) v =
     (if vv_collections v (c_id c) \<noteq> None then Some ErrorCode.AlreadyExists else None)"
| "vault_refusal (UpdateCollection c) v = (if vv_collections v (c_id c) = None then Some NotFound else None)"
| "vault_refusal (DeleteCollection u) v = (if vv_collections v u = None then Some NotFound else None)"
| "vault_refusal (SetAlias a) v =
     (if vv_collections v (a_collection_id a) = None then Some NotFound else None)"
| "vault_refusal (ListItems u) v = (if vv_collections v u = None then Some NotFound else None)"
| "vault_refusal (GetItem u _) v = (if vv_items v u = None then Some NotFound else None)"
| "vault_refusal (CreateItem m _) v =
     (if vv_collections v (i_collection_id m) = None then Some NotFound
      else if vv_items v (i_id m) \<noteq> None then Some ErrorCode.AlreadyExists else None)"
| "vault_refusal (CreateOrReplaceItem m _ _) v =
     (if vv_collections v (i_collection_id m) = None then Some NotFound
      else if vv_items v (i_id m) \<noteq> None then Some ErrorCode.AlreadyExists else None)"
| "vault_refusal (UpdateItem m _) v = (if vv_items v (i_id m) = None then Some NotFound else None)"
| "vault_refusal (UpdateItemCas m _ expected) v =
     (case vv_items v (i_id m) of
        None \<Rightarrow> Some NotFound
      | Some (e, _) \<Rightarrow> if i_modified e = expected then None else Some Conflict)"
| "vault_refusal (DeleteItem u) v = (if vv_items v u = None then Some NotFound else None)"
| "vault_refusal _ _ = None"

definition lists_exactly :: "('a \<Rightarrow> 'k::linorder) \<Rightarrow> 'a list \<Rightarrow> 'a set \<Rightarrow> bool" where
  "lists_exactly key xs S \<longleftrightarrow> set xs = S \<and> sorted_wrt (<) (map key xs)"

text \<open>
  What a request that is not refused answers: readings give exactly the records of the view they
  ask for, in the order of their keys, and changes give the record as it is afterwards.
\<close>

fun vault_answer :: "Operation \<Rightarrow> vault_view \<Rightarrow> ResponseBody \<Rightarrow> bool" where
  "vault_answer Ping v y \<longleftrightarrow> y = Pong"
| "vault_answer ListCollections v y \<longleftrightarrow>
     (\<exists>cs. y = ResponseBody.Collections cs \<and> lists_exactly c_id cs (ran (vv_collections v)))"
| "vault_answer (GetCollection u) v y \<longleftrightarrow>
     (\<exists>c. vv_collections v u = Some c \<and> y = ResponseBody.Collection c)"
| "vault_answer (CreateCollection c) v y \<longleftrightarrow> y = ResponseBody.Collection c"
| "vault_answer (UpdateCollection c) v y \<longleftrightarrow>
     (\<exists>c'. vv_collections (apply_op (UpdateCollection c) v) (c_id c) = Some c' \<and> y = ResponseBody.Collection c')"
| "vault_answer ListAliases v y \<longleftrightarrow>
     (\<exists>as. y = ResponseBody.Aliases as \<and> lists_exactly a_name as (ran (vv_aliases v)))"
| "vault_answer (ResolveAlias n) v y \<longleftrightarrow> y = ResponseBody.Alias (vv_aliases v n)"
| "vault_answer (SetAlias a) v y \<longleftrightarrow> y = ResponseBody.Alias (Some a)"
| "vault_answer (SearchItems attributes) v y \<longleftrightarrow>
     (\<exists>ms. y = ResponseBody.Items ms \<and> lists_exactly i_id ms
        {m. (\<exists>u b. vv_items v u = Some (m, b)) \<and>
            (\<forall>k x. (k, x) \<in> set attributes \<longrightarrow> map_of (i_attributes m) k = Some x)})"
| "vault_answer (ListItems c) v y \<longleftrightarrow>
     (\<exists>ms. y = ResponseBody.Items ms \<and> lists_exactly i_id ms
        {m. (\<exists>u b. vv_items v u = Some (m, b)) \<and> i_collection_id m = c})"
| "vault_answer (GetItem u include_secret) v y \<longleftrightarrow>
     (\<exists>m b x. vv_items v u = Some (m, b) \<and> y = ResponseBody.Item m x \<and>
        map_option expose x = (if include_secret then b else None))"
| "vault_answer (CreateItem m _) v y \<longleftrightarrow> y = ResponseBody.Item m None"
| "vault_answer (CreateOrReplaceItem m _ replace) v y \<longleftrightarrow>
     (\<exists>us. y = ResponseBody.ReplacedItem m us [] \<and> lists_exactly (\<lambda>u. u) us
        {u. replace \<and> (\<exists>k b. vv_items v u = Some (k, b) \<and> i_collection_id k = i_collection_id m \<and>
              i_attributes k = i_attributes m)})"
| "vault_answer (UpdateItem m x) v y \<longleftrightarrow>
     (\<exists>m' b. vv_items (apply_op (UpdateItem m x) v) (i_id m) = Some (m', b) \<and> y = ResponseBody.Item m' None)"
| "vault_answer (UpdateItemCas m x e) v y \<longleftrightarrow>
     (\<exists>m' b. vv_items (apply_op (UpdateItemCas m x e) v) (i_id m) = Some (m', b) \<and> y = ResponseBody.Item m' None)"
| "vault_answer Reconcile v y \<longleftrightarrow> y = ResponseBody.Reconciled 0 []"
| "vault_answer _ v y \<longleftrightarrow> y = ResponseBody.Empty"

lemma bt_insert_mem: "q \<in> set (bt_insert k v m) \<Longrightarrow> q = (k, v) \<or> q \<in> set m"
  by (induction k v m rule: bt_insert.induct) (auto split: if_splits)

lemma fold_bt_remove_mem: "q \<in> set (fold bt_remove ks m) \<Longrightarrow> q \<in> set m"
proof (induction ks arbitrary: m)
  case (Cons k ks)
  from Cons.IH [of "bt_remove k m"] Cons.prems have "q \<in> set (bt_remove k m)" by simp
  then show ?case by (simp add: bt_remove_def)
qed simp

lemma fold_bt_remove_sorted: "bt_keys_sorted m \<Longrightarrow> bt_keys_sorted (fold bt_remove ks m)"
  by (induction ks arbitrary: m) auto

lemma map_of_fold_remove: "map_of (fold bt_remove ks m) = map_of m |` (- set ks)"
  by (induction ks arbitrary: m) (auto simp: restrict_map_def fun_eq_iff)

lemma keyed_simps [simp]:
  "keyed key []"
  "keyed key m \<Longrightarrow> key v = k \<Longrightarrow> keyed key (bt_insert k v m)"
  "keyed key m \<Longrightarrow> keyed key (bt_remove k m)"
  "keyed key m \<Longrightarrow> keyed key (bt_retain P m)"
  "keyed key m \<Longrightarrow> keyed key (fold bt_remove ks m)"
  by (auto simp: keyed_def bt_remove_def bt_retain_def dest!: bt_insert_mem fold_bt_remove_mem)

lemma memory_call_wf: "memory_wf s \<Longrightarrow> memory_wf (snd (memory_call op s))"
  by (cases op) (simp_all add: memory_wf_def fold_bt_remove_sorted Let_def split: option.split)

lemma memory_call_error: "memory_call op s = (Inl e, t) \<Longrightarrow> t = s"
  by (cases op) (auto simp: Let_def split: if_splits option.splits)

lemma memory_replaced_keys:
  assumes "memory_wf s"
  shows "memory_replaced s m True = map fst (filter (\<lambda>(_, existing, _).
      i_collection_id existing = i_collection_id m \<and> i_attributes existing = i_attributes m) (ms_items s))"
  using assms by (auto simp: memory_replaced_def memory_wf_def keyed_def)

lemma memory_replaced_set:
  assumes "memory_wf s"
  shows "set (memory_replaced s m True) =
   {u. \<exists>k x. map_of (ms_items s) u = Some (k, x) \<and> i_collection_id k = i_collection_id m \<and>
      i_attributes k = i_attributes m}"
proof -
  have "bt_keys_sorted (ms_items s)" using assms by (simp add: memory_wf_def)
  then show ?thesis
    unfolding memory_replaced_keys [OF assms] by (force simp: bt_mem_iff [symmetric])
qed

lemma updated_item_same:
  assumes "i_created m = i_created e" and "x = None \<longrightarrow> i_current_generation m = i_current_generation e"
  shows "updated_item e m x = m\<lparr>i_modified := max (i_modified m) (saturating_add (i_modified e) 1)\<rparr>"
  using assms by (auto simp: updated_item_def Let_def split: option.splits)

lemma memory_call_refines:
  assumes "memory_wf s" and "memory_call op s = (Inr y, t)" and "derived_update op (memory_view s)"
  shows "memory_view t = apply_op op (memory_view s)"
proof (cases op)
  case (CreateOrReplaceItem m x replace)
  show ?thesis
  proof (cases replace)
    case True
    have new: "i_id m \<notin> set (memory_replaced s m True)"
      using assms(2) memory_replaced_set [OF assms(1)] by (auto simp: CreateOrReplaceItem split: if_splits)
    show ?thesis
      using assms(2) new
      by (auto simp: CreateOrReplaceItem memory_view_def map_of_fold_remove True Let_def fun_eq_iff
          restrict_map_def drop_where_def memory_replaced_set [OF assms(1)] split: if_splits option.splits)
  next
    case False
    then show ?thesis
      using assms(2)
      by (auto simp: CreateOrReplaceItem memory_view_def memory_replaced_def Let_def fun_eq_iff split: if_splits)
  qed
next
  case (UpdateItem m x)
  with assms(2,3) show ?thesis
    by (auto simp: memory_view_def update_view_def updated_item_same fun_eq_iff max_def
        split: option.splits)
next
  case (UpdateItemCas m x r)
  with assms(2,3) show ?thesis
    by (auto simp: memory_view_def update_view_def updated_item_same fun_eq_iff Let_def
        split: option.splits if_splits)
next
  case (DeleteCollection u)
  with assms(1,2) show ?thesis
    by (auto simp: memory_view_def memory_wf_def bt_get_retain drop_where_def fun_eq_iff
        split: option.splits if_splits)
qed (use assms(2,3) in \<open>auto simp: memory_view_def fun_eq_iff split: if_splits option.splits\<close>)


section \<open>Refusals and answers\<close>

lemma bt_values:
  assumes "bt_keys_sorted m"
  shows "set (map snd m) = ran (map_of m)"
  using assms by (force simp: ran_def bt_mem_iff [symmetric])

lemma bt_values_listed:
  assumes "bt_keys_sorted m" and "keyed key m"
  shows "lists_exactly key (map snd m) (ran (map_of m))"
proof -
  have "map key (map snd m) = map fst m" using assms(2) by (auto simp: keyed_def)
  then show ?thesis
    unfolding lists_exactly_def bt_values [OF assms(1)] using assms(1) by (simp only: bt_keys_sorted_def)
qed

lemma lists_exactly_filter:
  "lists_exactly key xs S \<Longrightarrow> lists_exactly key (filter P xs) {x \<in> S. P x}"
  by (auto simp: lists_exactly_def strict_filter)

lemma lists_exactly_map:
  "lists_exactly (key \<circ> f) xs S \<Longrightarrow> lists_exactly key (map f xs) (f ` S)"
  by (simp add: lists_exactly_def)

lemma memory_items_listed:
  assumes "memory_wf s"
  shows "lists_exactly i_id (map fst (filter (\<lambda>(m, _). P m) (map snd (ms_items s))))
    {m. (\<exists>u b. vv_items (memory_view s) u = Some (m, b)) \<and> P m}"
proof -
  have "lists_exactly (i_id \<circ> fst) (map snd (ms_items s)) (ran (map_of (ms_items s)))"
    using assms by (intro bt_values_listed) (auto simp: memory_wf_def)
  from lists_exactly_map [OF lists_exactly_filter [OF this, of "\<lambda>(m, _). P m"]]
  have "lists_exactly i_id (map fst (filter (\<lambda>(m, _). P m) (map snd (ms_items s))))
    (fst ` {q \<in> ran (map_of (ms_items s)). (\<lambda>(m, _). P m) q})" .
  moreover have "fst ` {q \<in> ran (map_of (ms_items s)). (\<lambda>(m, _). P m) q} =
      {m. (\<exists>u b. vv_items (memory_view s) u = Some (m, b)) \<and> P m}"
    by (force simp: memory_view_def ran_def)
  ultimately show ?thesis by simp
qed

lemma memory_replaced_listed:
  assumes "memory_wf s"
  shows "lists_exactly (\<lambda>u. u) (memory_replaced s m replace)
    {u. replace \<and> (\<exists>k b. vv_items (memory_view s) u = Some (k, b) \<and> i_collection_id k = i_collection_id m \<and>
          i_attributes k = i_attributes m)}"
proof (cases replace)
  case True
  have "sorted_wrt (<) (map fst (filter Q (ms_items s)))" for Q
    using assms by (simp add: memory_wf_def bt_keys_sorted_filter flip: bt_keys_sorted_def)
  then have "sorted_wrt (<) (memory_replaced s m True)" by (simp add: memory_replaced_keys [OF assms])
  then show ?thesis
    using True memory_replaced_set [OF assms, of m] by (auto simp: lists_exactly_def memory_view_def)
qed (simp add: lists_exactly_def memory_replaced_def)

lemma has_attributes_iff:
  "has_attributes attributes m \<longleftrightarrow> (\<forall>k v. (k, v) \<in> set attributes \<longrightarrow> map_of (i_attributes m) k = Some v)"
  by (auto simp: has_attributes_def list_all_iff)

lemma memory_call_refused:
  assumes "vault_refusal op (memory_view s) = Some code"
  shows "\<exists>message. memory_call op s = (Inl (Broker (BrokerError_new code message)), s)"
  using assms
  by (cases op) (auto simp: memory_view_def memory_not_found_def memory_exists_def split: if_splits option.splits)

lemma memory_call_accepted:
  assumes "vault_refusal op (memory_view s) = None"
  shows "is_ok (fst (memory_call op s))"
  using assms by (cases op) (auto simp: memory_view_def is_ok_def Let_def split: if_splits option.splits)

lemma memory_call_answer:
  assumes "memory_wf s" and "memory_call op s = (Inr y, t)" and "derived_update op (memory_view s)"
  shows "vault_answer op (memory_view s) y"
proof (cases op)
  case (SearchItems attributes)
  then show ?thesis
    using assms(2) memory_items_listed [OF assms(1), of "has_attributes attributes"]
    by (auto simp: has_attributes_iff)
next
  case (ListItems c)
  then show ?thesis
    using assms(2) memory_items_listed [OF assms(1), of "\<lambda>m. i_collection_id m = c"] by (auto split: if_splits)
next
  case ListCollections
  then show ?thesis
    using assms(1,2) by (auto simp: memory_view_def memory_wf_def intro!: bt_values_listed)
next
  case ListAliases
  then show ?thesis
    using assms(1,2) by (auto simp: memory_view_def memory_wf_def intro!: bt_values_listed)
next
  case (CreateOrReplaceItem m x replace)
  then show ?thesis
    using assms(2) memory_replaced_listed [OF assms(1), of m replace] by (auto simp: Let_def split: if_splits)
next
  case (UpdateItem m x)
  with assms(2,3) show ?thesis
    by (auto simp: memory_view_def update_view_def updated_item_same max_def split: option.splits)
next
  case (UpdateItemCas m x r)
  with assms(2,3) show ?thesis
    by (auto simp: memory_view_def update_view_def updated_item_same Let_def split: option.splits if_splits)
qed (use assms(2,3) in \<open>auto simp: memory_view_def split: if_splits option.splits\<close>)

end
