(* ===== verification/Provider_Properties.thy ===== *)
theory Provider_Properties
  imports Reference_Bus Memory_Broker
begin

text \<open>
  The properties of the provider: its D-Bus objects and sessions on any platform that keeps the
  laws of \<open>dbus_platform\<close>, its client on any process interface, and provider and broker together.
  Each is instantiated on the reference platform.
\<close>

section \<open>The D-Bus objects\<close>

text \<open>
  C18. No method or property of any D-Bus object panics, whatever its arguments, its caller and the
  answers of the broker: every path the provider builds is a valid object path, and the
  Diffie-Hellman padding never runs past its buffer.
\<close>

theorem provider_never_panics:
  assumes "dbus_platform P"
  shows "fst (perform P sender here rq s) = False"
  using dbus_platform.perform_calm [OF assms] by simp

theorem provider_never_panics_witness:
  "fst (perform reference_platform (Some '':1.5'') SERVICE_PATH (OpenSession DH_ALGORITHM (DBytes [8]))
     (demo_provider demo_s1)) = False"
  by (rule provider_never_panics [OF reference_dbus_platform])



text \<open>
  C20. A call leaves every session of another client as it is. The only exception is a session
  opened under an identifier that collides with an existing one.
\<close>

theorem foreign_sessions_untouched:
  assumes "dbus_platform P" and "perform P sender here rq s = (b, t)"
    and "map_of (sessions s) u = Some sr" and "sender \<noteq> Some (sr_owner sr)"
  shows "map_of (sessions t) u = Some sr \<or> (\<exists>a i w. rq = OpenSession a i \<and> fst (new_v4 P w) = u)"
  by (rule dbus_platform.perform_spares [OF assms])

theorem foreign_sessions_untouched_witness:
  "map_of (sessions (snd (perform reference_platform (Some '':1.9'') SERVICE_PATH (SessionClose 5)
     (demo_provider demo_s1)))) 5 = Some demo_session"
  using foreign_sessions_untouched [OF reference_dbus_platform prod.collapse [symmetric],
      of "demo_provider demo_s1" 5 demo_session "Some '':1.9''" SERVICE_PATH "SessionClose 5"]
  by (simp add: demo_session_def)

text \<open>
  When a client leaves the bus all its sessions are gone, with their keys, and no other.
\<close>

lemma vanished_client_forgotten:
  assumes "dbus_platform P" and "sessions_wf (sessions s)" and "remove_owner_sessions P name s = (r, t)"
  shows "map_of (sessions t) u =
    (case map_of (sessions s) u of
       Some sr \<Rightarrow> if sr_owner sr = name then None else Some sr
     | None \<Rightarrow> None)"
  by (rule dbus_platform.vanished_spares [OF assms(1,3,2)])

text \<open>
  C21. A secret leaves the provider only for the owner of the session it is requested in, and
  encrypted under that session: what \<^verbatim>\<open>GetSecret\<close> returns decrypts, with the session's key, to the
  secret the broker returned, and carries the content type of the item.
\<close>

theorem secret_only_in_own_session:
  assumes "dbus_platform P" and "sessions_wf (sessions s)"
    and "item_get_secret P i sender path s = (Inr d, t)"
  shows "\<exists>u sr iv v m x w. session_id P path = Some u \<and> map_of (sessions s) u = Some sr \<and>
    sender = Some (sr_owner sr) \<and> d = (session_path P u, iv, v, i_content_type m) \<and>
    decrypt P (sr_key sr) iv v = Inr (expose x) \<and>
    broker_call P (GetItem i True) (world s) = (Inr (ResponseBody.Item m (Some x)), w)"
proof -
  obtain own u where own: "sender = Some own" and u: "session_id P path = Some u"
    using assms(3) by (auto simp: item_get_secret_def caller_def act_simps err_def split: option.splits)
  obtain m x w where b: "broker_call P (GetItem i True) (world s) = (Inr (ResponseBody.Item m (Some x)), w)"
    and e: "dbus (encode_secret P own u x (i_content_type m)) (s\<lparr>world := w\<rparr>) = (Inr d, t)"
    using assms(3) own u
    by (auto simp: item_get_secret_def caller_def item_def response_def on_world_def run_err_def dbus_def err_def
        act_simps split: prod.splits sum.splits option.splits ResponseBody.splits)
  have "encode_secret P own u x (i_content_type m) (s\<lparr>world := w\<rparr>) = (Inr d, t)"
    using e by (cases "encode_secret P own u x (i_content_type m) (s\<lparr>world := w\<rparr>)")
      (auto simp: dbus_def act_simps)
  from wpD [OF dbus_platform.encode_secret_wp [OF assms(1)] this] assms(2) own u b show ?thesis
    by fastforce
qed

theorem secret_only_in_own_session_witness:
  "\<exists>iv v t. item_get_secret reference_platform 11 (Some '':1.6'') (session_path reference_platform 6)
      (demo_provider demo_s2) = (Inr (session_path reference_platform 6, iv, v, ''text/plain''), t) \<and>
     decrypt reference_platform (Dh (replicate 16 3)) iv v = Inr [1, 2, 3]"
proof -
  have s: "map_of (sessions (demo_provider demo_s2)) 6 = Some demo_dh_session" by simp
  obtain r t where g: "item_get_secret reference_platform 11 (Some '':1.6'') (session_path reference_platform 6)
      (demo_provider demo_s2) = (r, t)" by force
  have r: "\<exists>d. r = Inr d"
    using wpD [OF ref_linked.item_get_secret_ok [OF demo_settled [OF demo_s2_facts(2)] demo_random
        demo_sessions_wf s, of 11 demo_item "[1, 2, 3]"]] g demo_s2_visible(1)
    by (auto simp: demo_dh_session_def limit_defs)
  obtain q v where q: "demo_execute (GetItem 11 True) demo_s2 = Some (q, v)"
    using ref_vault.execute_returns [of demo_s2 "GetItem 11 True"] demo_s2_facts(2) by (auto simp: memory_ready_def)
  then have "q = Inr (ResponseBody.Item demo_item (Some (SecretBytes [1, 2, 3])))"
    using ref_vault.get_item_ok [OF q _ _ demo_s2_visible(1)] demo_s2_facts(2) by (simp add: memory_ready_def limit_defs)
  then have x: "fst (broker_call reference_platform (GetItem 11 True) (world (demo_provider demo_s2))) =
      Inr (ResponseBody.Item demo_item (Some (SecretBytes [1, 2, 3])))"
    using ref_linked.call_law [of "GetItem 11 True" "world (demo_provider demo_s2)"] q by simp
  from r obtain d where d: "r = Inr d" by blast
  from secret_only_in_own_session [OF reference_dbus_platform demo_sessions_wf g [unfolded d]] g d x
  show ?thesis
    by (auto simp: ref_dbus.path_roundtrip demo_dh_session_def demo_item_def)
qed

section \<open>Provider and broker together\<close>

text \<open>
  C22. End to end: a secret that one client encrypts for its session and creates an item with is
  read back by any client, in any session of its own, as the same bytes with the same content type,
  through the provider, the broker and the credential store.
\<close>

theorem secret_roundtrip_end_to_end:
  assumes "linked_provider P L B store invar up held vault_of"
    and "invar (vault_of (world s))" and "up (vault_of (world s))" and "held (vault_of (world s)) = 0"
    and "\<And>n w. \<exists>bs w'. try_fill_bytes P n w = (Inr bs, w') \<and> length bs = n"
    and "sessions_wf (sessions s)" and "map_of (sessions s) u = Some sr"
    and "decrypt P (sr_key sr) iv v = Inr b" and "length b \<le> MAX_SECRET_BYTES"
    and "item_properties P properties = Inr (label, as)" and "is_utf8 label" and "is_utf8 c"
    and "bt_keys_sorted as" and "list_all (\<lambda>(k, v). is_utf8 k \<and> is_utf8 v) as"
    and "collection_create_item P here cid (Some (sr_owner sr)) properties (session_path P u, iv, v, c) replace s =
      (Inr (path, prompt), t)"
    and "map_of (sessions s) u' = Some sr'"
  shows "\<exists>i iv' v' t'. item_id P path = Some i \<and>
    item_get_secret P i (Some (sr_owner sr')) (session_path P u') t = (Inr (session_path P u', iv', v', c), t') \<and>
    decrypt P (sr_key sr') iv' v' = Inr b"
proof -
  have d: "dbus_platform P" using assms(1) by (simp add: linked_provider_def)
  have st: "linked_provider.settled invar up held vault_of s"
    using assms(2-4) by (simp add: linked_provider.settled_def [OF assms(1)])
  have rnd: "linked_provider.random_ok P"
    using assms(5) by (simp add: linked_provider.random_ok_def [OF assms(1)])
  from linked_provider.create_item_then_get [OF assms(1) st rnd assms(6-16)] path_lib.path_roundtrip(2)
  show ?thesis using d by (fastforce simp: dbus_platform_def)
qed

lemma demo_replace:
  "\<exists>d f v. demo_execute (CreateOrReplaceItem demo_item demo_secret False) demo_s1 =
     Some (Inr (ResponseBody.ReplacedItem demo_item d f), v)"
proof -
  let ?op = "CreateOrReplaceItem demo_item demo_secret False"
  have ready: "memory_invar demo_s1" "memory_up demo_s1" "guards demo_s1 = 0"
    using demo_s1_facts(2) by (simp_all add: memory_ready_def)
  obtain q v where q: "demo_execute ?op demo_s1 = Some (q, v)"
    using ref_vault.execute_returns [of demo_s1 ?op] ready by auto
  have "is_ok q"
    using q ready(1)
  proof (rule ref_vault.execute_wp [where Q = "\<lambda>q _. is_ok q"], goal_cases)
    case (2 s')
    then show ?case unfolding dispatch.simps
      by (intro wp_mono [OF ref_vault.create_or_replace_item_wp])
         (use 2 ready demo_values demo_valid(2) demo_encodes(2) demo_s1_store in \<open>auto simp: demo_item_def\<close>)
  qed (use ready demo_values in auto)
  then show ?thesis
    using q vault.replace_result [OF ref_vault.vault_axioms _ ready(1) demo_values(2,4)] by (fastforce simp: is_ok_iff)
qed

lemma demo_creates:
  "\<exists>path prompt t. collection_create_item reference_platform SERVICE_PATH 7 (Some (sr_owner demo_session))
     demo_properties (session_path reference_platform 5, [], [1, 2, 3], ''text/plain'') False (demo_provider demo_s1) =
     (Inr (path, prompt), t)"
proof -
  obtain d f v where q: "demo_execute (CreateOrReplaceItem demo_item demo_secret False) demo_s1 =
      Some (Inr (ResponseBody.ReplacedItem demo_item d f), v)" using demo_replace by blast
  let ?w = "(world (demo_provider demo_s1))\<lparr>dw_next := 13\<rparr>"
  have call: "broker_call reference_platform (CreateOrReplaceItem demo_item demo_secret False) ?w =
      (Inr (ResponseBody.ReplacedItem demo_item d f), ?w\<lparr>dw_vault := v\<rparr>)"
    using q by (simp add: reference_platform_def)
  have ok: "validate_label ''mail'' = Inr ()" "validate_attributes [(''user'', ''me'')] = Inr ()"
    "validate_content_type ''text/plain'' = Inr ()"
    using demo_valid(2) by (simp_all add: validate_item_ok validators_ok flip: unit_result_ok) (simp_all add: demo_item_def)
  have sess: "decode_secret reference_platform (sr_owner demo_session)
      (session_path reference_platform 5, [], [1, 2, 3], ''text/plain'') (demo_provider demo_s1) =
      (Inr (5, demo_secret, ''text/plain''), demo_provider demo_s1)"
    unfolding demo_secret_def
    by (rule ref_dbus.decode_secret_ok [of _ _ demo_session]) (simp_all add: demo_session_def limit_defs)
  have item: "\<lparr>i_schema_version = 1, i_id = 11, i_collection_id = 7, i_label = ''mail'',
      i_attributes = [(''user'', ''me'')], i_content_type = ''text/plain'', i_created = 1,
      i_modified = 1, i_current_generation = 12\<rparr> = demo_item" by (simp add: demo_item_def)
  have draws: "unix_time reference_platform w = (Some 1, w)"
    "new_v4 reference_platform w = (of_nat (dw_next w), w\<lparr>dw_next := dw_next w + 1\<rparr>)" for w
    by (simp_all add: reference_platform_def)
  have bus: "server_remove reference_platform k p w =
      (Inr True, w\<lparr>dw_objects := filter (\<lambda>(q, _). q \<noteq> p) (dw_objects w)\<rparr>)"
    "server_at reference_platform p ob w = (Inr True, w\<lparr>dw_objects := (p, ob) # dw_objects w\<rparr>)"
    "emit_signal reference_platform p g w = (Inr (), w\<lparr>dw_signals := (p, g) # dw_signals w\<rparr>)" for k p ob g w
    by (simp_all add: reference_platform_def)
  have made: "provider_create_item reference_platform 7 ''mail'' [(''user'', ''me'')] ''text/plain'' demo_secret False
      (demo_provider demo_s1) = (Inr (demo_item, d, f), (demo_provider demo_s1)\<lparr>world := ?w\<lparr>dw_vault := v\<rparr>\<rparr>)"
    using call
    by (simp add: provider_create_item_def check_protocol_def run_err_def ok act_simps now_def fresh_uuid_def
        on_world_def draw_def draws response_def demo_provider_def item)
  have quietly: "\<exists>t. act_iter (\<lambda>replaced.
       act_bind (ignore_remove reference_platform ItemIface (item_path reference_platform replaced)) (\<lambda>_.
       act_bind (object_path reference_platform (item_path reference_platform replaced)) (\<lambda>path.
       lib_call (Failed ''unable to emit item signal'') (emit_signal reference_platform SERVICE_PATH (ItemDeleted path)))))
       d s = (Inr () :: SecretServiceError failure + unit, t)" for s
    by (induction d arbitrary: s)
       (auto simp: act_simps ignore_remove_def ignore_def run_err_def on_world_def object_path_def act_expect_def
         lib_call_def bus)
  show ?thesis
    using quietly [of "(demo_provider demo_s1)\<lparr>world := ?w\<lparr>dw_vault := v\<rparr>\<rparr>"]
    by (auto simp: collection_create_item_def caller_def dbus_def run_err_def demo_item_properties sess made ok
        check_protocol_def act_simps on_err_def on_world_def object_path_def act_expect_def lib_call_def bus)
qed

theorem secret_roundtrip_end_to_end_witness:
  "\<exists>path prompt t i iv v t'. collection_create_item reference_platform SERVICE_PATH 7 (Some '':1.5'')
     demo_properties (session_path reference_platform 5, [], [1, 2, 3], ''text/plain'') False (demo_provider demo_s1) =
       (Inr (path, prompt), t) \<and>
     item_get_secret reference_platform i (Some '':1.6'') (session_path reference_platform 6) t =
       (Inr (session_path reference_platform 6, iv, v, ''text/plain''), t') \<and>
     decrypt reference_platform (Dh (replicate 16 3)) iv v = Inr [1, 2, 3]"
proof -
  obtain path prompt t where x: "collection_create_item reference_platform SERVICE_PATH 7 (Some (sr_owner demo_session))
     demo_properties (session_path reference_platform 5, [], [1, 2, 3], ''text/plain'') False (demo_provider demo_s1) =
     (Inr (path, prompt), t)" using demo_creates by blast
  have ready: "memory_invar demo_s1" "memory_up demo_s1" "guards demo_s1 = 0"
    using demo_s1_facts(2) by (simp_all add: memory_ready_def)
  have "\<exists>bs w'. try_fill_bytes reference_platform n w = (Inr bs, w') \<and> length bs = n" for n w
    by (simp add: reference_platform_def)
  from secret_roundtrip_end_to_end [OF reference_linked _ _ _ this demo_sessions_wf _ _ _ demo_item_properties
      _ _ _ _ x, where u' = 6 and sr' = demo_dh_session] x ready
  show ?thesis
    by (auto simp: limit_defs bt_keys_sorted_def is_utf8_def as_bytes_def byte_of_char_def)
       (auto simp: demo_session_def demo_dh_session_def)
qed

text \<open>
  C23. An update built from a reading that is out of date is refused and changes nothing: with
  valid fields the caller gets the broker's conflict, which D-Bus clients see as AlreadyExists.
\<close>

theorem stale_update_refused:
  assumes "linked_provider P L B store invar up held vault_of"
    and "invar (vault_of (world s))" and "up (vault_of (world s))" and "held (vault_of (world s)) = 0"
    and "item_value m" and "\<And>y. x = Some y \<Longrightarrow> secret_wf y"
    and "store_item L (store (vault_of (world s))) (i_id m) = Some m0" and "i_modified m0 \<noteq> i_modified m"
    and "dbus (provider_update_item P m x) s = (r, t)"
  shows "\<not> is_ok r \<and> store (vault_of (world t)) = store (vault_of (world s)) \<and>
    (is_ok (validate_label (i_label m)) \<and> is_ok (validate_attributes (i_attributes m)) \<and>
     is_ok (validate_content_type (i_content_type m)) \<longrightarrow>
       r = Inl (Err (SecretServiceError.AlreadyExists ''item was modified by another provider'')))"
proof -
  have st: "linked_provider.settled invar up held vault_of s"
    using assms(2-4) by (simp add: linked_provider.settled_def [OF assms(1)])
  obtain q where q: "provider_update_item P m x s = (q, t)" and r: "r = map_err (map_failure provider_error_to_dbus) q"
    using assms(9) by (cases "provider_update_item P m x s") (auto simp: dbus_def act_simps)
  from wpD [OF linked_provider.provider_update_stale [OF assms(1) st assms(5-8)] q] r show ?thesis
    by (auto simp: broker_error_to_dbus_def)
qed

theorem stale_update_refused_witness:
  "fst (dbus (provider_update_item reference_platform (demo_item\<lparr>i_modified := 9\<rparr>) None) (demo_provider demo_s2)) =
   Inl (Err (SecretServiceError.AlreadyExists ''item was modified by another provider''))"
proof -
  have "item_value (demo_item\<lparr>i_modified := 9\<rparr>)" using demo_values(2) by (simp add: item_value_def)
  from stale_update_refused [OF reference_linked _ _ _ this _ _ _ prod.collapse [symmetric],
      of "demo_provider demo_s2" None demo_item] demo_s2_visible(2) demo_s2_facts(2) demo_valid(2)
  show ?thesis
    by (simp add: memory_ready_def validators_ok validate_item_ok) (simp add: demo_item_def)
qed



section \<open>The process\<close>

text \<open>
  C24. The provider takes its name on the bus only when it is ready to answer: it watches for clients
  that leave, the service is at its path, and on a new connection the objects on the bus are exactly
  those of the vault: at the path of each collection the object of this collection, at the path of
  each item the object of this item, at the path of each alias the object of the collection it
  stands for, and the prompt. Starting changes neither the vault nor the sessions, fails only if a
  call to the bus does, and the process exits with 0 only after it had started.
\<close>

theorem startup_exports_vault:
  assumes "provider_bus P L B store invar up held vault_of U bus"
    and "invar (vault_of w)" and "up (vault_of w)" and "held (vault_of w) = 0" and "\<not> named (bus w)"
    and "exported (bus w) = Map.empty" and "provider_ready P U (Provider_new w) = (r, t)"
  shows "(named (bus (world t)) \<longleftrightarrow> is_ok r) \<and>
    (is_ok r \<longrightarrow> watching (bus (world t)) \<and> SERVICE_PATH \<in> service_at (bus (world t)) \<and>
       (\<forall>p i d. exported (bus (world t)) (p, i) = Some d \<longleftrightarrow>
          i = object_interface d \<and> vault_object P L (store (vault_of w)) p d)) \<and>
    store (vault_of (world t)) = store (vault_of w) \<and> sessions t = [] \<and> (bus_smooth P U \<longrightarrow> is_ok r) \<and>
    (fst (provider_main P U serving w) = 0 \<longrightarrow> is_ok r)"
proof -
  have l: "linked_provider P L B store invar up held vault_of" using assms(1) by (simp add: provider_bus_def)
  have "linked_provider.settled invar up held vault_of (Provider_new w)"
    using assms(2-4) by (simp add: linked_provider.settled_def [OF l] Provider_new_def)
  from wpD [OF provider_bus.ready_wp [OF assms(1) this] assms(7)] assms(5,6)
  have "(named (bus (world t)) \<longleftrightarrow> is_ok r) \<and>
    (is_ok r \<longrightarrow> watching (bus (world t)) \<and> SERVICE_PATH \<in> service_at (bus (world t)) \<and>
       exports_vault P L (store (vault_of w)) (exported (bus (world t)))) \<and>
    store (vault_of (world t)) = store (vault_of w) \<and> sessions t = [] \<and> (bus_smooth P U \<longrightarrow> is_ok r)"
    by (simp add: Provider_new_def)
  moreover have "is_ok r" if "fst (provider_main P U serving w) = 0"
    using provider_bus.main_ready [OF assms(1), of serving w "snd (provider_main P U serving w)"] that assms(7)
    by (auto simp: prod_eq_iff)
  ultimately show ?thesis unfolding exports_vault_def by blast
qed

theorem startup_exports_vault_witness:
  "exported (demo_bus (world (snd (provider_ready reference_platform reference_bus (Provider_new (world (demo_provider demo_s1)))))))
     (collection_path reference_platform 7, CollectionIface) = Some (CollectionObject 7)"
proof -
  let ?w = "world (demo_provider demo_s1)"
  have ready: "memory_invar demo_s1" "memory_up demo_s1" "guards demo_s1 = 0"
    using demo_s1_facts(2) by (simp_all add: memory_ready_def)
  have "\<not> named (demo_bus ?w)" "exported (demo_bus ?w) = Map.empty" by (simp_all add: demo_bus_def demo_provider_def)
  from startup_exports_vault [OF ref_bus.provider_bus_axioms _ _ _ this prod.collapse [symmetric]] ready reference_smooth
  show ?thesis using demo_s1_store(1) by simp
qed

end
