(* ===== verification/Client_Properties.thy ===== *)
theory Client_Properties
  imports Reference_Platform Memory_Broker
begin

text \<open>
  The properties of the provider's helpers: the handshake of encrypted sessions, the broker client,
  the in-memory broker it is tested with, object paths and the listing of aliases.
\<close>

section \<open>Encrypted sessions\<close>

text \<open>
  C25. Diffie-Hellman sessions agree on a key: when the server side accepts the client's public
  value 2^c, the client derives, from the public value it is sent, the very key the server keeps.
\<close>

theorem dh_key_agreement:
  assumes "crypto_laws K" and "open_dh K gen pub w = (Inr (key, server), w')"
    and "big_from_bytes_be K pub = 2 ^ c mod hex_number DH_PRIME_HEX"
  shows "\<exists>k. key = Dh k \<and> length k = 16 \<and>
    derive_dh_aes_key K (big_from_bytes_be K server ^ c mod hex_number DH_PRIME_HEX) = Some k"
proof -
  obtain k where k: "key = Dh k" "length k = 16"
    using wpD [OF crypto_laws.open_dh_wp [OF assms(1)] assms(2)] by (auto simp: Let_def)
  then have "wp (open_dh K gen pub) (\<lambda>r t. r = Inr (Dh k, server)) w" using assms(2) by (simp add: wp_def)
  from crypto_laws.dh_agreement [OF assms(1) this assms(3)] k show ?thesis by blast
qed

theorem dh_key_agreement_witness:
  "\<exists>k server. fst (open_dh reference_platform (gen_biguint_range reference_platform) [8] (world (demo_provider demo_s1))) = Inr (Dh k, server) \<and>
     derive_dh_aes_key reference_platform
       (big_from_bytes_be reference_platform server ^ 3 mod hex_number DH_PRIME_HEX) = Some k"
proof -
  have eight: "big_from_bytes_be reference_platform [8] = 8"
    by (simp add: reference_platform_def be_number_def from_digits_def)
  have "wp (open_dh reference_platform (gen_biguint_range reference_platform) [8]) (\<lambda>r t. is_ok r) (world (demo_provider demo_s1))"
    by (rule ref_dbus.open_dh_ok) (use dh_prime_bounds(3) in \<open>simp_all add: eight\<close>)
  then obtain key server where x: "fst (open_dh reference_platform (gen_biguint_range reference_platform) [8] (world (demo_provider demo_s1))) =
      Inr (key, server)" by (auto simp: wp_def is_ok_iff)
  have "big_from_bytes_be reference_platform [8] = 2 ^ 3 mod hex_number DH_PRIME_HEX"
    using dh_prime_bounds(3) by (simp add: eight)
  from dh_key_agreement [OF ref_dbus.crypto_laws_axioms _ this] x show ?thesis
    by (metis prod.collapse)
qed


section \<open>The broker client\<close>

text \<open>
  C26. The requests the client sends a second time after a broken connection are harmless: every
  operation \<open>retry_safe\<close> admits leaves the credential store of the broker exactly as it was.
\<close>

theorem retries_only_reads:
  assumes "vault L B store invar up held" and "invar s" and "operation_value op" and "retry_safe op"
    and "execute L B op s = Some (r, t)"
  shows "store t = store s"
  by (rule vault.retry_safe_reads [OF assms(1,5,2-4)])

theorem retries_only_reads_witness:
  "\<exists>r t. demo_execute (GetItem 11 True) demo_s2 = Some (r, t) \<and> memory_store t = memory_store demo_s2"
proof -
  have ready: "memory_invar demo_s2" "guards demo_s2 = 0" using demo_s2_facts(2) by (simp_all add: memory_ready_def)
  obtain r t where x: "demo_execute (GetItem 11 True) demo_s2 = Some (r, t)"
    using ref_vault.execute_returns [OF ready] by blast
  from retries_only_reads [OF ref_vault.vault_axioms ready(1) _ _ x] x show ?thesis by auto
qed

text \<open>A broker process that answers every request with the same response.\<close>

definition echo_process :: "Response \<Rightarrow> (unit, unit) process_api" where
  "echo_process answer =
     \<lparr>spawn = \<lambda>w. (Inr (), w),
      child_stdin = \<lambda>_. \<lparr>write_u32 = \<lambda>_ w. (Inr (), w), write_all = \<lambda>_ w. (Inr (), w), flush = \<lambda>w. (Inr (), w)\<rparr>,
      child_stdout = \<lambda>_. \<lparr>read_u32 = \<lambda>w. (Inr 1, w), read_exact = \<lambda>n w. (Inr (replicate n 0), w)\<rparr>,
      kill_child = \<lambda>_ w. w, deadline = \<lambda>w. (False, w), progress = \<lambda>w. (1, w),
      hello_cbor = \<lparr>cbor_ser = \<lambda>_. Inr [0], cbor_de = \<lambda>_. Inl []\<rparr>,
      ack_cbor = \<lparr>cbor_ser = \<lambda>_. Inr [0], cbor_de = \<lambda>_. Inl []\<rparr>,
      request_cbor = \<lparr>cbor_ser = \<lambda>_. Inr [0], cbor_de = \<lambda>_. Inl []\<rparr>,
      response_cbor = \<lparr>cbor_ser = \<lambda>_. Inr [0], cbor_de = \<lambda>b. Inr (Envelope_current answer, length b)\<rparr>\<rparr>"

definition echo_state :: "(unit, unit) ProcessBroker" where
  "echo_state = \<lparr>pb_running = Some (RunningBroker_new ()), pb_retired = [], pb_world = ()\<rparr>"

lemmas echo_eval = echo_process_def echo_state_def RunningBroker_new_def request_once_def running_def act_simps
  timeout_def write_frame_def read_frame_def enter_request_def deliver_def received_answer_def
  Envelope_current_def validate_version_def PROTOCOL_VERSION_def MAX_FRAME_SIZE_def

text \<open>
  C27. An answer belongs to its request: on a running connection a caller gets the result \<open>x\<close>, a
  refusal of the broker included, exactly when its request was written under its own number within
  the time limit and \<open>x\<close> is the result of the first frame with this number among the frames read
  after that. Frames with other numbers and later frames with the same number do not matter.
\<close>

theorem answers_match_requests:
  assumes "pb_running s = Some rb" and "rb_reading rb"
  shows "fst (request_once A op s) = map_err Broker x \<longleftrightarrow>
    (\<exists>w1 w2 n w3 xs response ys.
       write_frame (child_stdin A (rb_child rb)) (request_cbor A)
         (Envelope_current \<lparr>req_request_id = rb_requests rb, req_operation = op\<rparr>) (pb_world s) = (Inr (), w1) \<and>
       deadline A w1 = (False, w2) \<and> progress A w2 = (n, w3) \<and>
       frames_read (child_stdout A (rb_child rb)) (response_cbor A) n w3 = xs @ response # ys \<and>
       (\<forall>q \<in> set xs. resp_request_id q \<noteq> rb_requests rb) \<and>
       resp_request_id response = rb_requests rb \<and> resp_result response = x)"
  unfolding request_once_running [OF assms] answered_with_def ..

theorem answers_match_requests_witness:
  "fst (request_once (echo_process \<lparr>resp_request_id = 1, resp_result = Inr Pong\<rparr>) Ping echo_state) = Inr Pong"
proof -
  let ?A = "echo_process \<lparr>resp_request_id = 1, resp_result = Inr Pong\<rparr>"
  have "pb_running echo_state = Some (RunningBroker_new ())" "rb_reading (RunningBroker_new ())"
    by (simp_all add: echo_state_def RunningBroker_new_def)
  note answers_match_requests [OF this, of ?A Ping "Inr Pong"]
  moreover have "frames_read (child_stdout ?A ()) (response_cbor ?A) 1 () =
      [] @ \<lparr>resp_request_id = 1, resp_result = Inr Pong\<rparr> # []"
    by (simp add: echo_eval is_ok_def)
  moreover have "write_frame (child_stdin ?A ()) (request_cbor ?A)
      (Envelope_current \<lparr>req_request_id = 1, req_operation = Ping\<rparr>) () = (Inr (), ())"
    by (simp add: echo_eval)
  ultimately show ?thesis
    by (fastforce simp: RunningBroker_new_def echo_process_def)
qed

text \<open>
  A process that is started again: the connection of the state is broken, every process spawned
  from it completes the handshake and answers.
\<close>

definition flaky_process :: "(unit, bool) process_api" where
  "flaky_process =
     \<lparr>spawn = \<lambda>w. (Inr True, w),
      child_stdin = \<lambda>_. \<lparr>write_u32 = \<lambda>_ w. (Inr (), w), write_all = \<lambda>_ w. (Inr (), w), flush = \<lambda>w. (Inr (), w)\<rparr>,
      child_stdout = \<lambda>fresh. \<lparr>read_u32 = \<lambda>w. (Inr (if fresh then 1 else 0), w), read_exact = \<lambda>n w. (Inr (replicate n 0), w)\<rparr>,
      kill_child = \<lambda>_ w. w, deadline = \<lambda>w. (False, w), progress = \<lambda>w. (1, w),
      hello_cbor = \<lparr>cbor_ser = \<lambda>_. Inr [0], cbor_de = \<lambda>_. Inl []\<rparr>,
      ack_cbor = \<lparr>cbor_ser = \<lambda>_. Inr [0],
        cbor_de = \<lambda>b. Inr (Envelope_current \<lparr>ack_version = PROTOCOL_VERSION, ack_capabilities = {AtomicItemMutations}\<rparr>, length b)\<rparr>,
      request_cbor = \<lparr>cbor_ser = \<lambda>_. Inr [0], cbor_de = \<lambda>_. Inl []\<rparr>,
      response_cbor = \<lparr>cbor_ser = \<lambda>_. Inr [0],
        cbor_de = \<lambda>b. Inr (Envelope_current \<lparr>resp_request_id = 1, resp_result = Inr Pong\<rparr>, length b)\<rparr>\<rparr>"

definition flaky_state :: "(unit, bool) ProcessBroker" where
  "flaky_state = \<lparr>pb_running = Some (RunningBroker_new False), pb_retired = [], pb_world = ()\<rparr>"

text \<open>
  C28. A transport failure during a reading request causes one restart and one more attempt: the
  old process is killed and all its waiting callers are told, and the outcome is decided by a newly
  started process alone, as the first of its requests. When it does not start, that is the error.
\<close>

theorem failed_read_retried:
  assumes "retry_safe op" and "request_once A op s = (Inl e, s')" and "e \<in> {Transport, Timeout}"
    and "process_call A op s = (r, t)"
  shows "(\<forall>old. pb_running s' = Some old \<longrightarrow>
      (\<exists>told. pb_retired t = told # pb_retired s' \<and> rb_pending told = {} \<and>
         (\<forall>k \<in> rb_pending old. rb_answers told k = Some (Inl Transport)))) \<and>
    (case start A (case pb_running s' of None \<Rightarrow> pb_world s'
                   | Some old \<Rightarrow> kill_child A (rb_child old) (pb_world s')) of
       (Inl failure, _) \<Rightarrow> r = Inl failure
     | (Inr fresh, w) \<Rightarrow> \<exists>child. fresh = RunningBroker_new child \<and>
         (\<forall>x. r = map_err Broker x \<longleftrightarrow> answered_with A child 1 op w x))"
proof (rule conjI, goal_cases)
  let ?u = "restart A s'"
  have call: "request_once A op ?u = (r, t)" using process_call_again [OF assms(1-3)] assms(4) by simp
  case 1
  show ?case using request_once_retired [of A op ?u] call by (auto simp: restart_def)
  case 2
  have "pb_world ?u = (case pb_running s' of None \<Rightarrow> pb_world s' | Some old \<Rightarrow> kill_child A (rb_child old) (pb_world s'))"
    by (simp add: restart_def split: option.splits)
  then show ?case using request_once_fresh [of ?u A op] call by (simp split: prod.splits sum.splits)
qed

theorem failed_read_retried_witness:
  "\<exists>r t. process_call flaky_process Ping flaky_state = (r, t) \<and>
     (\<forall>x. r = map_err Broker x \<longleftrightarrow> answered_with flaky_process True 1 Ping () x)"
proof -
  obtain r t where c: "process_call flaky_process Ping flaky_state = (r, t)" by force
  obtain q s' where once: "request_once flaky_process Ping flaky_state = (q, s')" by force
  have q: "q = Inl Transport"
    using once by (simp add: echo_eval flaky_process_def flaky_state_def drain_pending_def)
  have start: "start flaky_process w = (Inr (RunningBroker_new True), ())" for w
    by (simp add: start_def echo_eval flaky_process_def is_ok_def)
  have "\<forall>x. r = map_err Broker x \<longleftrightarrow> answered_with flaky_process True 1 Ping () x"
    using failed_read_retried [OF _ once [unfolded q] _ c] by (auto simp: start RunningBroker_new_def)
  with c show ?thesis by blast
qed


section \<open>The in-memory broker\<close>

text \<open>
  C29. The test double keeps the protocol on the view of its vault, for every request of the shape
  the provider sends: it refuses exactly the requests the specification refuses, with that code and
  without a change; every other request answers what the specification says (listings and searches
  exactly the asked-for records in key order, \<open>GetItem\<close> the secret when it is asked for) and
  changes the vault as \<open>apply_op\<close> does.
\<close>

theorem memory_broker_refines:
  assumes "memory_wf s" and "memory_call op s = (r, t)" and "derived_update op (memory_view s)"
  shows "memory_wf t \<and>
    (case vault_refusal op (memory_view s) of
       Some code \<Rightarrow> t = s \<and> (\<exists>message. r = Inl (Broker (BrokerError_new code message)))
     | None \<Rightarrow> memory_view t = apply_op op (memory_view s) \<and>
         (\<exists>y. r = Inr y \<and> vault_answer op (memory_view s) y))"
proof (cases "vault_refusal op (memory_view s)")
  case None
  then obtain y where y: "r = Inr y" using memory_call_accepted [OF None] assms(2) by (auto simp: is_ok_iff)
  then show ?thesis
    using None memory_call_refines [OF assms(1) _ assms(3)] memory_call_answer [OF assms(1) _ assms(3)]
      memory_call_wf [OF assms(1), of op] assms(2) by simp
next
  case (Some code)
  then show ?thesis using memory_call_refused [OF Some] assms(1,2) by auto
qed

theorem memory_broker_refines_witness:
  "\<exists>y. fst (memory_call ListCollections
         (snd (memory_call (CreateCollection demo_collection) MemoryState_default))) = Inr y \<and>
     vault_answer ListCollections
       (memory_view (snd (memory_call (CreateCollection demo_collection) MemoryState_default))) y"
proof -
  let ?s = "snd (memory_call (CreateCollection demo_collection) MemoryState_default)"
  have "memory_wf ?s" by (rule memory_call_wf) (simp add: memory_wf_def MemoryState_default_def)
  from memory_broker_refines [OF this prod.collapse [symmetric], of ListCollections] show ?thesis by auto
qed


section \<open>Object paths and aliases\<close>

text \<open>
  Object paths identify objects: each parser reads back the identifier its printer wrote,
  accepts only the path of that identifier up to the case of the digits, and the paths of
  collections, items, sessions and aliases never coincide.
\<close>

lemma object_paths_identify:
  assumes "path_lib L"
  shows "collection_id L (collection_path L u) = Some u \<and> item_id L (item_path L u) = Some u \<and>
    session_id L (session_path L u) = Some u \<and>
    (\<forall>p v. item_id L p = Some v \<longrightarrow>
       (\<exists>s. p = SERVICE_PATH @ ''/item/i'' @ s \<and> map to_ascii_lower s = uuid_simple L v)) \<and>
    distinct [collection_path L u, item_path L v, session_path L w] \<and>
    (\<forall>n p. alias_path n = Some p \<longrightarrow> p \<notin> {collection_path L u, item_path L v, session_path L w, SERVICE_PATH})"
proof -
  have "\<exists>s. p = SERVICE_PATH @ ''/item/i'' @ s \<and> map to_ascii_lower s = uuid_simple L v"
    if "item_id L p = Some v" for p v
    using path_lib.parse_path_Some [OF assms, of p "''item''" "CHR ''i''" v] that by (auto simp: item_id_def)
  moreover have "distinct [collection_path L u, item_path L v, session_path L w]"
    using path_lib.path_kinds [OF assms] by (metis distinct_length_2_or_more distinct_singleton)
  ultimately show ?thesis
    using path_lib.path_roundtrip [OF assms] alias_path_kinds(1-3) [where L = L] alias_path_kinds(5) by blast
qed

lemma dedup_by_name_set: "set (dedup_by_name as) \<subseteq> set as"
  by (induction as rule: dedup_by_name.induct) auto

lemma dedup_by_name_hd: "as \<noteq> [] \<Longrightarrow> dedup_by_name as \<noteq> [] \<and> hd (dedup_by_name as) = hd as"
  by (induction as rule: dedup_by_name.induct) auto

lemma dedup_by_name_sorted:
  assumes "sorted (map (\<lambda>a. (a_name a, a_collection_id a)) as)"
  shows "sorted_wrt (<) (map a_name (dedup_by_name as)) \<and>
    (\<forall>a \<in> set as. \<exists>b \<in> set (dedup_by_name as). a_name b = a_name a \<and> a_collection_id b \<le> a_collection_id a)"
  using assms
proof (induction as rule: dedup_by_name.induct)
  case (3 a b as)
  show ?case
  proof (cases "a_name b = a_name a")
    case True
    have "a_collection_id a \<le> a_collection_id b" using 3(3) True by (simp add: less_eq_prod_def)
    moreover have "a \<in> set (dedup_by_name (a # as))"
      using dedup_by_name_hd [of "a # as"] by (metis list.distinct(1) list.sel(1) list.set_sel(1))
    ultimately show ?thesis using 3 True by fastforce
  next
    case False
    have lt: "a_name a < a_name x" if "x \<in> set (b # as)" for x
    proof -
      have "a_name a < a_name b" using 3(3) False by (auto simp: less_eq_prod_def)
      moreover have "a_name b \<le> a_name x" using 3(3) that by (auto simp: less_eq_prod_def)
      ultimately show ?thesis by simp
    qed
    then have "\<forall>x \<in> set (dedup_by_name (b # as)). a_name a < a_name x"
      using dedup_by_name_set [of "b # as"] by blast
    then show ?thesis using 3 False by auto
  qed
qed auto

text \<open>
  The aliases the provider works with are sorted by name without repetition, each is one the
  broker listed, and of several with one name it is the one with the least collection.
\<close>

lemma aliases_canonical:
  assumes "aliases P s = (Inr as, t)"
  shows "\<exists>listed w. broker_call P ListAliases (world s) = (Inr (ResponseBody.Aliases listed), w) \<and>
    sorted_wrt (<) (map a_name as) \<and> set as \<subseteq> set listed \<and>
    (\<forall>a \<in> set listed. \<exists>b \<in> set as. a_name b = a_name a \<and> a_collection_id b \<le> a_collection_id a)"
proof -
  obtain listed w where b: "broker_call P ListAliases (world s) = (Inr (ResponseBody.Aliases listed), w)"
    and as: "as = dedup_by_name (sort_key (\<lambda>a. (a_name a, a_collection_id a)) listed)"
    using assms
    by (auto simp: aliases_def response_def on_world_def run_err_def err_def act_simps
        split: prod.splits sum.splits ResponseBody.splits)
  have "set as \<subseteq> set listed" using dedup_by_name_set as by fastforce
  then show ?thesis
    using b dedup_by_name_sorted [of "sort_key (\<lambda>a. (a_name a, a_collection_id a)) listed"] by (auto simp: as)
qed

end
