(* ===== verification/Broker_Serve.thy ===== *)
theory Broker_Serve
  imports Broker_Operations Frames
begin

text \<open>
  The broker process (\<^verbatim>\<open>crates/broker/src/main.rs\<close>): recovery at start, the handshake, and the
  loop that reads requests from standard input and answers them on standard output. The loop runs
  until its input ends or a stream fails; it is a partial function whose value \<^const>\<open>None\<close> is a
  process that never stops serving, or waits for the lock for ever.
\<close>

section \<open>The process\<close>

text \<open>The streams and the message codecs the process is started with.\<close>

record ('r, 'w) stdio =
  io_stdin :: "'r reader"
  io_stdout :: "'w writer"
  io_hello :: "Hello Envelope cbor"
  io_ack :: "HelloAck Envelope cbor"
  io_request :: "Request Envelope cbor"
  io_response :: "Response Envelope cbor"

text \<open>What the process works on: what is left of its input, what it has output, its backend.\<close>

record ('r, 'w, 's) serving =
  sv_in :: 'r
  sv_out :: 'w
  sv_backend :: 's

definition on_in :: "('r, 'e, 'a) act \<Rightarrow> (('r, 'w, 's) serving, 'e, 'a) act" where
  "on_in m st = (case m (sv_in st) of (r, i) \<Rightarrow> (r, st\<lparr>sv_in := i\<rparr>))"

definition on_out :: "('w, 'e, 'a) act \<Rightarrow> (('r, 'w, 's) serving, 'e, 'a) act" where
  "on_out m st = (case m (sv_out st) of (r, w) \<Rightarrow> (r, st\<lparr>sv_out := w\<rparr>))"

definition broker_capabilities :: CapabilitySet where
  "broker_capabilities =
     {BinarySecrets, Capability.Collections, Capability.Aliases, GenerationCommits, Reconciliation,
      AtomicItemMutations}"

definition version_refused :: BrokerError where
  "version_refused =
     BrokerError_new ErrorCode.UnsupportedVersion ''request protocol version was not negotiated''"

text \<open>The end of the input between two frames, or within one, is how the peer stops the broker.\<close>

definition is_eof :: "ProtocolError \<Rightarrow> bool" where
  "is_eof e = (case e of Io (IoError UnexpectedEof _) \<Rightarrow> True | _ \<Rightarrow> False)"

definition answer_request ::
  "'x broker_lib_scheme \<Rightarrow> 's backend \<Rightarrow> u16 \<Rightarrow> Request Envelope \<Rightarrow> 's \<Rightarrow>
   ((BrokerError + ResponseBody) \<times> 's) option" where
  "answer_request L B version envelope s =
     (if env_version envelope = version then execute L B (req_operation (env_payload envelope)) s
      else Some (Inl version_refused, s))"

partial_function (option) serve_loop ::
  "'x broker_lib_scheme \<Rightarrow> 's backend \<Rightarrow> ('r, 'w) stdio \<Rightarrow> u16 \<Rightarrow> ('r, 'w, 's) serving \<Rightarrow>
   ((ProtocolError + unit) \<times> ('r, 'w, 's) serving) option" where
  "serve_loop L B io version st =
     (case on_in (read_frame (io_stdin io) (io_request io)) st of
        (Inl error, st) \<Rightarrow> Some (if is_eof error then Inr () else Inl error, st)
      | (Inr envelope, st) \<Rightarrow>
          (case answer_request L B version envelope (sv_backend st) of
             None \<Rightarrow> None
           | Some (result, s) \<Rightarrow>
               (case on_out (write_frame (io_stdout io) (io_response io)
                   (Envelope_current \<lparr>resp_request_id = req_request_id (env_payload envelope), resp_result = result\<rparr>))
                   (st\<lparr>sv_backend := s\<rparr>) of
                  (Inl error, st) \<Rightarrow> Some (Inl error, st)
                | (Inr _, st) \<Rightarrow> serve_loop L B io version st)))"

definition handshake :: "('r, 'w) stdio \<Rightarrow> (('r, 'w, 's) serving, ProtocolError, HelloAck) act" where
  "handshake io =
     act_bind (on_in (read_frame (io_stdin io) (io_hello io))) (\<lambda>hello.
     act_bind (act_lift (validate_version hello)) (\<lambda>_.
     act_bind (act_lift (negotiate (env_payload hello) VersionRange_current broker_capabilities)) (\<lambda>acknowledgement.
     act_bind (on_out (write_frame (io_stdout io) (io_ack io) (Envelope_current acknowledgement))) (\<lambda>_.
     act_return acknowledgement))))"

definition serve ::
  "'x broker_lib_scheme \<Rightarrow> 's backend \<Rightarrow> ('r, 'w) stdio \<Rightarrow> ('r, 'w, 's) serving \<Rightarrow>
   ((ProtocolError + unit) \<times> ('r, 'w, 's) serving) option" where
  "serve L B io st =
     (case handshake io st of
        (Inl error, st) \<Rightarrow> Some (Inl error, st)
      | (Inr acknowledgement, st) \<Rightarrow> serve_loop L B io (ack_version acknowledgement) st)"

text \<open>A failure of the recovery at start is logged and otherwise ignored.\<close>

definition broker_main ::
  "'x broker_lib_scheme \<Rightarrow> 's backend \<Rightarrow> ('r, 'w) stdio \<Rightarrow> ('r, 'w, 's) serving \<Rightarrow>
   ((ProtocolError + unit) \<times> ('r, 'w, 's) serving) option" where
  "broker_main L B io st =
     (case reconcile L B (sv_backend st) of
        None \<Rightarrow> None
      | Some (_, s) \<Rightarrow> serve L B io (st\<lparr>sv_backend := s\<rparr>))"


section \<open>What the process does\<close>

text \<open>A loop that reads from a pipe ends: every frame takes at least five bytes off it.\<close>

lemma on_in_run: "on_in m st = (fst (m (sv_in st)), st\<lparr>sv_in := snd (m (sv_in st))\<rparr>)"
  by (simp add: on_in_def split: prod.splits)

lemma on_out_run: "on_out m st = (fst (m (sv_out st)), st\<lparr>sv_out := snd (m (sv_out st))\<rparr>)"
  by (simp add: on_out_def split: prod.splits)

lemma read_frame_shorter: "read_frame pipe_reader C s = (Inr v, t) \<Longrightarrow> length t < length s"
  by (drule read_frame_Inr) auto

lemma broker_run_trans: "broker_run L B t u \<Longrightarrow> broker_run L B s t \<Longrightarrow> broker_run L B s u"
  by (induction rule: broker_run.induct) (auto intro: broker_run.request)

context vault
begin

lemma answer_request_run:
  assumes "invar s" and "up s" and "held s = 0" and "operation_value (req_operation (env_payload e))"
  shows "\<exists>r t. answer_request L B v e s = Some (r, t) \<and> invar t \<and> up t \<and> held t = 0 \<and>
    (\<forall>s0. broker_run L B s0 s \<longrightarrow> broker_run L B s0 t)"
proof (cases "env_version e = v")
  case True
  obtain r t where x: "execute L B (req_operation (env_payload e)) s = Some (r, t)" "held t = 0" "up t" "invar t"
    using execute_unlocks [OF assms] by blast
  then have "broker_run L B s0 t" if "broker_run L B s0 s" for s0
    using broker_run.request [OF that assms(4)] by blast
  then show ?thesis using x True by (simp add: answer_request_def)
next
  case False
  then show ?thesis using assms by (simp add: answer_request_def)
qed

lemma serve_loop_returns:
  assumes "io_stdin io = pipe_reader"
    and "\<And>b e n. cbor_de (io_request io) b = Inr (e, n) \<Longrightarrow> operation_value (req_operation (env_payload e))"
    and "invar (sv_backend st)" and "up (sv_backend st)" and "held (sv_backend st) = 0"
  shows "\<exists>r t. serve_loop L B io v st = Some (r, t) \<and> broker_run L B (sv_backend st) (sv_backend t)"
  using assms(3-5)
proof (induction "length (sv_in st)" arbitrary: st rule: less_induct)
  case less
  obtain q i where q: "read_frame pipe_reader (io_request io) (sv_in st) = (q, i)" by force
  show ?case
  proof (cases q)
    case (Inl e)
    then show ?thesis
      using q assms(1) by (subst serve_loop.simps) (simp add: on_in_run broker_run.start)
  next
    case (Inr e)
    have op: "operation_value (req_operation (env_payload e))"
      using read_frame_Inr [OF q [unfolded Inr]] assms(2) by blast
    obtain r s where s: "answer_request L B v e (sv_backend st) = Some (r, s)" "invar s" "up s" "held s = 0"
      and run: "\<And>s0. broker_run L B s0 (sv_backend st) \<Longrightarrow> broker_run L B s0 s"
      using answer_request_run [OF less.prems op] by blast
    define st' where "st' = st\<lparr>sv_in := i, sv_backend := s,
      sv_out := snd (write_frame (io_stdout io) (io_response io)
        (Envelope_current \<lparr>resp_request_id = req_request_id (env_payload e), resp_result = r\<rparr>) (sv_out st))\<rparr>"
    have "\<exists>r t. serve_loop L B io v st' = Some (r, t) \<and> broker_run L B (sv_backend st') (sv_backend t)"
      by (rule less.hyps) (use q Inr s in \<open>auto simp: st'_def dest: read_frame_shorter\<close>)
    then show ?thesis
      using q Inr s run [OF broker_run.start] assms(1)
      by (subst serve_loop.simps)
         (auto simp: on_in_run on_out_run st'_def split: prod.splits sum.splits intro: broker_run_trans)
  qed
qed

lemma handshake_backend: "handshake io st = (r, t) \<Longrightarrow> sv_backend t = sv_backend st"
  by (auto simp: handshake_def act_simps on_in_run on_out_run split: sum.splits prod.splits)

lemma broker_main_returns:
  assumes "io_stdin io = pipe_reader"
    and "\<And>b e n. cbor_de (io_request io) b = Inr (e, n) \<Longrightarrow> operation_value (req_operation (env_payload e))"
    and "invar (sv_backend st)" and "up (sv_backend st)" and "held (sv_backend st) = 0"
  shows "\<exists>r t. broker_main L B io st = Some (r, t) \<and> broker_run L B (sv_backend st) (sv_backend t)"
proof -
  obtain q s where x: "execute L B Reconcile (sv_backend st) = Some (q, s)" "held s = 0" "up s" "invar s"
    using execute_unlocks [OF assms(3-5), of Reconcile] by auto
  then have run: "broker_run L B (sv_backend st) s"
    by (intro broker_run.request [OF broker_run.start]) auto
  obtain h st' where h: "handshake io (st\<lparr>sv_backend := s\<rparr>) = (h, st')" by force
  then have b: "sv_backend st' = s" using handshake_backend by fastforce
  have main: "broker_main L B io st = serve L B io (st\<lparr>sv_backend := s\<rparr>)"
    using x(1) by (simp add: broker_main_def reconcile_def execute_def)
  show ?thesis
  proof (cases h)
    case (Inl e)
    then show ?thesis using h main run b by (simp add: serve_def)
  next
    case (Inr ack)
    have "\<exists>r t. serve_loop L B io (ack_version ack) st' = Some (r, t) \<and> broker_run L B (sv_backend st') (sv_backend t)"
      by (rule serve_loop_returns [OF assms(1)]) (use assms(2) x b in auto)
    then show ?thesis using h main Inr b broker_run_trans [OF _ run] by (auto simp: serve_def)
  qed
qed

end

text \<open>Answering requests one after the other, as a specification of the loop.\<close>

fun answers ::
  "'x broker_lib_scheme \<Rightarrow> 's backend \<Rightarrow> u16 \<Rightarrow> Request Envelope list \<Rightarrow> 's \<Rightarrow> (Response list \<times> 's) option" where
  "answers L B v [] s = Some ([], s)"
| "answers L B v (e # es) s =
     (case answer_request L B v e s of
        None \<Rightarrow> None
      | Some (result, s') \<Rightarrow>
          map_option (\<lambda>(rs, t). (\<lparr>resp_request_id = req_request_id (env_payload e), resp_result = result\<rparr> # rs, t))
            (answers L B v es s'))"

lemma answers_numbers:
  "answers L B v es s = Some (rs, t) \<Longrightarrow> map resp_request_id rs = map (\<lambda>e. req_request_id (env_payload e)) es"
  by (induction es arbitrary: s rs) (auto split: option.splits)

lemma read_frame_end: "read_frame pipe_reader C [] = (Inl (Io (IoError UnexpectedEof ''early eof'')), [])"
  by (simp add: read_frame_def pipe_reader_def pipe_take_def act_simps)

lemma read_frame_next:
  assumes "cbor_codec C ok" and "ok v" and "cbor_ser C v = Inr p" and "length p \<le> MAX_FRAME_SIZE"
  shows "read_frame pipe_reader C (frame_bytes p @ tail) = (Inr v, tail)"
  using pipe_in.read_frame_bytes [OF assms refl, of tail] by (simp add: wp_def prod_eq_iff)

lemma serve_loop_answers:
  assumes "io_stdin io = pipe_reader" and "cbor_codec (io_request io) ok"
    and "list_all2 (\<lambda>e p. ok e \<and> cbor_ser (io_request io) e = Inr p \<and> length p \<le> MAX_FRAME_SIZE) es ps"
    and "sv_in st = concat (map frame_bytes ps)"
    and "answers L B v es (sv_backend st) = Some (rs, s)"
    and "act_iter (write_frame (io_stdout io) (io_response io)) (map Envelope_current rs) (sv_out st) = (Inr (), out)"
  shows "serve_loop L B io v st = Some (Inr (), \<lparr>sv_in = [], sv_out = out, sv_backend = s\<rparr>)"
  using assms(3-6)
proof (induction es ps arbitrary: st rs rule: list_all2_induct)
  case Nil
  then show ?case
    using assms(1)
    by (subst serve_loop.simps) (simp add: on_in_run read_frame_end is_eof_def act_simps)
next
  case (Cons e es p ps)
  obtain r s' rs' where r: "answer_request L B v e (sv_backend st) = Some (r, s')"
    and rs': "answers L B v es s' = Some (rs', s)"
    and rs: "rs = \<lparr>resp_request_id = req_request_id (env_payload e), resp_result = r\<rparr> # rs'"
    using Cons.prems(2) by (auto split: option.splits)
  let ?q = "Envelope_current \<lparr>resp_request_id = req_request_id (env_payload e), resp_result = r\<rparr>"
  obtain w where w: "write_frame (io_stdout io) (io_response io) ?q (sv_out st) = (Inr (), w)"
    and ws: "act_iter (write_frame (io_stdout io) (io_response io)) (map Envelope_current rs') w = (Inr (), out)"
    using Cons.prems(3) by (auto simp: rs act_simps split: prod.splits sum.splits)
  have "read_frame pipe_reader (io_request io) (sv_in st) = (Inr e, concat (map frame_bytes ps))"
    using Cons.hyps Cons.prems(1) read_frame_next [OF assms(2)] by simp
  moreover have "serve_loop L B io v (st\<lparr>sv_in := concat (map frame_bytes ps), sv_backend := s', sv_out := w\<rparr>) =
      Some (Inr (), \<lparr>sv_in = [], sv_out = out, sv_backend = s\<rparr>)"
    using rs' ws by (intro Cons.IH) auto
  ultimately show ?case
    using assms(1) r w by (subst serve_loop.simps) (simp add: on_in_run on_out_run)
qed

text \<open>An answer too long for a frame stops the process after the operation was carried out.\<close>

lemma serve_loop_oversized:
  assumes "io_stdin io = pipe_reader" and "io_stdout io = pipe_writer"
    and "read_frame pipe_reader (io_request io) (sv_in st) = (Inr e, i)"
    and "answer_request L B v e (sv_backend st) = Some (r, s)"
    and "cbor_ser (io_response io)
      (Envelope_current \<lparr>resp_request_id = req_request_id (env_payload e), resp_result = r\<rparr>) = Inr p"
    and "MAX_FRAME_SIZE < length p"
  shows "serve_loop L B io v st =
    Some (Inl (FrameTooLarge (length p) MAX_FRAME_SIZE), st\<lparr>sv_in := i, sv_backend := s\<rparr>)"
proof -
  have "p \<noteq> []" using assms(6) by auto
  then have "write_frame pipe_writer (io_response io)
      (Envelope_current \<lparr>resp_request_id = req_request_id (env_payload e), resp_result = r\<rparr>) (sv_out st) =
      (Inl (FrameTooLarge (length p) MAX_FRAME_SIZE), sv_out st)"
    using assms(5,6) by (simp add: write_frame_def act_simps)
  then show ?thesis
    using assms(1-4) by (subst serve_loop.simps) (simp add: on_in_run on_out_run)
qed

end
