(* ===== verification/Wide_Strings.thy ===== *)
theory Wide_Strings
  imports Prelude
begin

text \<open>
  Strings across the Windows API: \<^verbatim>\<open>str::encode_utf16\<close> of the standard library, and
  \<^verbatim>\<open>String::from_utf16\<close> as the decoding it inverts. Both pass through the scalar values of
  the characters.
\<close>

section \<open>Characters\<close>

definition scalar :: "nat \<Rightarrow> bool" where
  "scalar n \<longleftrightarrow> n < 0xD800 \<or> 0xE000 \<le> n \<and> n < 0x110000"

fun utf8_scalars :: "bytes \<Rightarrow> nat list" where
  "utf8_scalars [] = []"
| "utf8_scalars (b # bs) =
     (if b < 0x80 then unat b # utf8_scalars bs
      else if b \<le> 0xDF then
        (case bs of c # r \<Rightarrow> ((unat b - 0xC0) * 64 + (unat c - 0x80)) # utf8_scalars r | _ \<Rightarrow> [])
      else if b \<le> 0xEF then
        (case bs of c # d # r \<Rightarrow>
           (((unat b - 0xE0) * 64 + (unat c - 0x80)) * 64 + (unat d - 0x80)) # utf8_scalars r
         | _ \<Rightarrow> [])
      else
        (case bs of c # d # e # r \<Rightarrow>
           ((((unat b - 0xF0) * 64 + (unat c - 0x80)) * 64 + (unat d - 0x80)) * 64 + (unat e - 0x80)) #
             utf8_scalars r
         | _ \<Rightarrow> []))"

definition utf8_bytes :: "nat \<Rightarrow> bytes" where
  "utf8_bytes n =
     (if n < 0x80 then [of_nat n]
      else if n < 0x800 then [of_nat (0xC0 + n div 64), of_nat (0x80 + n mod 64)]
      else if n < 0x10000 then
        [of_nat (0xE0 + n div 64 div 64), of_nat (0x80 + n div 64 mod 64), of_nat (0x80 + n mod 64)]
      else
        [of_nat (0xF0 + n div 64 div 64 div 64), of_nat (0x80 + n div 64 div 64 mod 64),
         of_nat (0x80 + n div 64 mod 64), of_nat (0x80 + n mod 64)])"

definition utf16_units :: "nat \<Rightarrow> u16 list" where
  "utf16_units n =
     (if n < 0x10000 then [of_nat n]
      else [of_nat (0xD800 + (n - 0x10000) div 1024), of_nat (0xDC00 + (n - 0x10000) mod 1024)])"

fun utf16_scalars :: "u16 list \<Rightarrow> nat list option" where
  "utf16_scalars [] = Some []"
| "utf16_scalars (k # ks) =
     (if unat k < 0xD800 \<or> 0xE000 \<le> unat k then map_option ((#) (unat k)) (utf16_scalars ks)
      else if unat k < 0xDC00 then
        (case ks of
           l # r \<Rightarrow>
             if 0xDC00 \<le> unat l \<and> unat l < 0xE000
             then map_option ((#) (0x10000 + (unat k - 0xD800) * 1024 + (unat l - 0xDC00))) (utf16_scalars r)
             else None
         | [] \<Rightarrow> None)
      else None)"

definition encode_utf16 :: "string \<Rightarrow> u16 list" where
  "encode_utf16 s = concat (map utf16_units (utf8_scalars (as_bytes s)))"

definition from_utf16 :: "u16 list \<Rightarrow> string option" where
  "from_utf16 ks = map_option (\<lambda>cs. bytes_to_str (concat (map utf8_bytes cs))) (utf16_scalars ks)"


section \<open>UTF-8 and scalar values\<close>

lemma digits64: "y < (64::nat) \<Longrightarrow> (x * 64 + y) div 64 = x" "y < (64::nat) \<Longrightarrow> (x * 64 + y) mod 64 = y"
  by simp_all

lemma of_nat_u8: "unat b = n \<Longrightarrow> of_nat n = (b :: u8)"
  by auto

lemma u8_compare:
  "(b :: u8) < 0x80 \<longleftrightarrow> unat b < 0x80" "b \<le> 0xDF \<longleftrightarrow> unat b \<le> 0xDF" "b \<le> 0xEF \<longleftrightarrow> unat b \<le> 0xEF"
  "0xC2 \<le> b \<longleftrightarrow> 0xC2 \<le> unat b" "0xE0 \<le> b \<longleftrightarrow> 0xE0 \<le> unat b" "0xF0 \<le> b \<longleftrightarrow> 0xF0 \<le> unat b"
  "b \<le> 0xF4 \<longleftrightarrow> unat b \<le> 0xF4" "0x80 \<le> b \<longleftrightarrow> 0x80 \<le> unat b" "b \<le> 0xBF \<longleftrightarrow> unat b \<le> 0xBF"
  "0xA0 \<le> b \<longleftrightarrow> 0xA0 \<le> unat b" "b \<le> 0x9F \<longleftrightarrow> unat b \<le> 0x9F" "0x90 \<le> b \<longleftrightarrow> 0x90 \<le> unat b"
  "b \<le> 0x8F \<longleftrightarrow> unat b \<le> 0x8F"
  "b = 0xE0 \<longleftrightarrow> unat b = 0xE0" "b = 0xED \<longleftrightarrow> unat b = 0xED" "b = 0xF0 \<longleftrightarrow> unat b = 0xF0"
  "b = 0xF4 \<longleftrightarrow> unat b = 0xF4"
  by (simp_all add: word_le_nat_alt word_less_nat_alt word_unat_eq_iff)

lemma utf8_scalars_2:
  assumes "0xC2 \<le> b" and "b \<le> 0xDF" and "0x80 \<le> c" and "c \<le> 0xBF"
  defines "n \<equiv> (b - 0xC0) * 64 + (c - 0x80)"
  shows "scalar n \<and> utf8_bytes n = [of_nat b, of_nat c]"
proof -
  have "n div 64 = b - 0xC0" "n mod 64 = c - 0x80"
    unfolding n_def by (rule digits64, use assms in simp)+
  moreover have "0x80 \<le> n" "n < 0x800" using assms by simp_all
  ultimately show ?thesis using assms(1-4) by (simp add: utf8_bytes_def scalar_def)
qed

lemma utf8_scalars_3:
  assumes "0xE0 \<le> b" and "b \<le> 0xEF" and "0x80 \<le> c" and "c \<le> 0xBF" and "0x80 \<le> d" and "d \<le> 0xBF"
    and "b = 0xE0 \<longrightarrow> 0xA0 \<le> c" and "b = 0xED \<longrightarrow> c \<le> 0x9F"
  defines "n \<equiv> ((b - 0xE0) * 64 + (c - 0x80)) * 64 + (d - 0x80)"
  shows "scalar n \<and> utf8_bytes n = [of_nat b, of_nat c, of_nat d]"
proof -
  have d1: "n div 64 = (b - 0xE0) * 64 + (c - 0x80)" "n mod 64 = d - 0x80"
    unfolding n_def by (rule digits64, use assms in simp)+
  have d2: "n div 64 div 64 = b - 0xE0" "n div 64 mod 64 = c - 0x80"
    unfolding d1 by (rule digits64, use assms in simp)+
  have "0x800 \<le> n" "n < 0x10000" using assms by (cases "b = 0xE0"; simp)+
  moreover have "n < 0xD800 \<or> 0xE000 \<le> n"
  proof (cases "b \<le> 0xED")
    case True
    then have "n < 0xD800" using assms by (cases "b = 0xED") simp_all
    then show ?thesis ..
  next
    case False
    then have "0xE000 \<le> n" using assms by simp
    then show ?thesis ..
  qed
  ultimately show ?thesis using assms(1-6) d1(2) d2 by (simp add: utf8_bytes_def scalar_def)
qed

lemma utf8_scalars_4:
  assumes "0xF0 \<le> b" and "b \<le> 0xF4" and "0x80 \<le> c" and "c \<le> 0xBF" and "0x80 \<le> d" and "d \<le> 0xBF"
    and "0x80 \<le> e" and "e \<le> 0xBF" and "b = 0xF0 \<longrightarrow> 0x90 \<le> c" and "b = 0xF4 \<longrightarrow> c \<le> 0x8F"
  defines "n \<equiv> (((b - 0xF0) * 64 + (c - 0x80)) * 64 + (d - 0x80)) * 64 + (e - 0x80)"
  shows "scalar n \<and> utf8_bytes n = [of_nat b, of_nat c, of_nat d, of_nat e]"
proof -
  have d1: "n div 64 = ((b - 0xF0) * 64 + (c - 0x80)) * 64 + (d - 0x80)" "n mod 64 = e - 0x80"
    unfolding n_def by (rule digits64, use assms in simp)+
  have d2: "n div 64 div 64 = (b - 0xF0) * 64 + (c - 0x80)" "n div 64 mod 64 = d - 0x80"
    unfolding d1 by (rule digits64, use assms in simp)+
  have d3: "n div 64 div 64 div 64 = b - 0xF0" "n div 64 div 64 mod 64 = c - 0x80"
    unfolding d2 by (rule digits64, use assms in simp)+
  have "0x10000 \<le> n" using assms by (cases "b = 0xF0"; simp)
  moreover have "n < 0x110000" using assms by (cases "b = 0xF4"; simp)
  ultimately show ?thesis using assms(1-8) d1(2) d2(2) d3 by (simp add: utf8_bytes_def scalar_def)
qed

lemma utf8_scalars_valid:
  "utf8_valid bs \<Longrightarrow> list_all scalar (utf8_scalars bs) \<and> concat (map utf8_bytes (utf8_scalars bs)) = bs"
proof (induction bs rule: utf8_valid.induct)
  case (2 b bs)
  consider (one) "b < 0x80" | (two) "0xC2 \<le> b" "b \<le> 0xDF" | (three) "0xE0 \<le> b" "b \<le> 0xEF"
    | (four) "0xF0 \<le> b" "b \<le> 0xF4"
    using 2(5) by (auto split: if_splits)
  then show ?case
  proof cases
    case one
    then show ?thesis using 2 by (simp add: utf8_bytes_def scalar_def u8_compare(1))
  next
    case two
    then have big: "\<not> b < 0x80" by (simp add: u8_compare)
    then obtain c r where bs: "bs = c # r" "utf8_cont c" "utf8_valid r"
      using 2(5) two by (auto split: list.splits)
    define n where "n = (unat b - 0xC0) * 64 + (unat c - 0x80)"
    have "scalar n \<and> utf8_bytes n = [of_nat (unat b), of_nat (unat c)]"
      unfolding n_def using two bs(2) by (intro utf8_scalars_2) (simp_all add: utf8_cont_def u8_compare)
    moreover have "utf8_scalars (b # bs) = n # utf8_scalars r" using two big bs(1) by (simp add: n_def)
    ultimately show ?thesis using 2(2) two big bs by simp
  next
    case three
    then have big: "\<not> b < 0x80" "\<not> b \<le> 0xDF" by (simp_all add: u8_compare)
    then obtain c d r where bs: "bs = c # d # r" "utf8_second3 b c" "utf8_cont d" "utf8_valid r"
      using 2(5) three by (auto split: list.splits)
    define n where "n = ((unat b - 0xE0) * 64 + (unat c - 0x80)) * 64 + (unat d - 0x80)"
    have "scalar n \<and> utf8_bytes n = [of_nat (unat b), of_nat (unat c), of_nat (unat d)]"
      unfolding n_def using three bs(2,3)
      by (intro utf8_scalars_3) (auto simp: utf8_cont_def utf8_second3_def u8_compare split: if_splits)
    moreover have "utf8_scalars (b # bs) = n # utf8_scalars r" using three big bs(1) by (simp add: n_def)
    ultimately show ?thesis using 2(3) three big bs by simp
  next
    case four
    then have big: "\<not> b < 0x80" "\<not> b \<le> 0xDF" "\<not> b \<le> 0xEF" by (simp_all add: u8_compare)
    then obtain c d e r where bs: "bs = c # d # e # r" "utf8_second4 b c" "utf8_cont d" "utf8_cont e" "utf8_valid r"
      using 2(5) four by (auto split: list.splits)
    define n where "n = (((unat b - 0xF0) * 64 + (unat c - 0x80)) * 64 + (unat d - 0x80)) * 64 + (unat e - 0x80)"
    have "scalar n \<and> utf8_bytes n = [of_nat (unat b), of_nat (unat c), of_nat (unat d), of_nat (unat e)]"
      unfolding n_def using four bs(2-4)
      by (intro utf8_scalars_4) (auto simp: utf8_cont_def utf8_second4_def u8_compare split: if_splits)
    moreover have "utf8_scalars (b # bs) = n # utf8_scalars r" using four big bs(1) by (simp add: n_def)
    ultimately show ?thesis using 2(4) four big bs by simp
  qed
qed simp

lemma digit64: obtains x y where "(n::nat) = x * 64 + y" "y < 64"
  by (rule that [of "n div 64" "n mod 64"]) simp_all

lemma unat_u8: "m < 256 \<Longrightarrow> unat (of_nat m :: u8) = m"
  by (simp add: unat_of_nat)

lemma utf8_bytes_scalar:
  assumes "scalar n"
  shows "utf8_valid (utf8_bytes n @ r) = utf8_valid r \<and> utf8_scalars (utf8_bytes n @ r) = n # utf8_scalars r"
proof -
  obtain q z where n: "n = q * 64 + z" "z < 64" by (rule digit64)
  obtain p y where q: "q = p * 64 + y" "y < 64" by (rule digit64)
  obtain w x where p: "p = w * 64 + x" "x < 64" by (rule digit64)
  note d = digits64 [OF n(2), of q] digits64 [OF q(2), of p] digits64 [OF p(2), of w]
  consider (one) "n < 0x80" | (two) "0x80 \<le> n" "n < 0x800" | (three) "0x800 \<le> n" "n < 0x10000"
    | (four) "0x10000 \<le> n" "n < 0x110000"
    using assms by (force simp: scalar_def)
  then show ?thesis
  proof cases
    case one
    then show ?thesis by (simp add: utf8_bytes_def u8_compare(1) unat_u8)
  next
    case two
    then have lim: "2 \<le> q" "q < 32" using n by simp_all
    have "utf8_bytes n = [of_nat (0xC0 + q), of_nat (0x80 + z)]" using two d n(1) by (simp add: utf8_bytes_def)
    moreover have "unat (of_nat (0xC0 + q) :: u8) = 0xC0 + q" "unat (of_nat (0x80 + z) :: u8) = 0x80 + z"
      using lim n(2) by (simp_all only: unat_u8)
    ultimately show ?thesis
      using lim n by (simp add: u8_compare utf8_cont_def del: of_nat_add)
  next
    case three
    then have lim: "p = 0 \<longrightarrow> 32 \<le> y" "p < 16" using n q by auto
    have "y < 32" if "p = 13" using assms that n q by (auto simp: scalar_def)
    note lim = lim this
    have "utf8_bytes n = [of_nat (0xE0 + p), of_nat (0x80 + y), of_nat (0x80 + z)]"
      using three d n(1) q(1) by (simp add: utf8_bytes_def)
    moreover have "unat (of_nat (0xE0 + p) :: u8) = 0xE0 + p" "unat (of_nat (0x80 + y) :: u8) = 0x80 + y"
      "unat (of_nat (0x80 + z) :: u8) = 0x80 + z"
      by (rule unat_u8, use lim n(2) q(2) in simp)+
    ultimately show ?thesis
      using lim n q by (auto simp: u8_compare utf8_cont_def utf8_second3_def simp del: of_nat_add)
  next
    case four
    then have lim: "w = 0 \<longrightarrow> 16 \<le> x" "w \<le> 4" "w = 4 \<longrightarrow> x < 16" using n q p by auto
    have "utf8_bytes n = [of_nat (0xF0 + w), of_nat (0x80 + x), of_nat (0x80 + y), of_nat (0x80 + z)]"
      using four d n(1) q(1) p(1) by (simp add: utf8_bytes_def)
    moreover have "unat (of_nat (0xF0 + w) :: u8) = 0xF0 + w" "unat (of_nat (0x80 + x) :: u8) = 0x80 + x"
      "unat (of_nat (0x80 + y) :: u8) = 0x80 + y" "unat (of_nat (0x80 + z) :: u8) = 0x80 + z"
      by (rule unat_u8, use lim n(2) q(2) p(2) in simp)+
    ultimately show ?thesis
      using lim n q p by (auto simp: u8_compare utf8_cont_def utf8_second4_def simp del: of_nat_add)
  qed
qed

lemma utf8_bytes_scalars:
  "list_all scalar cs \<Longrightarrow>
   utf8_valid (concat (map utf8_bytes cs)) \<and> utf8_scalars (concat (map utf8_bytes cs)) = cs"
  by (induction cs) (auto simp: utf8_bytes_scalar)


section \<open>UTF-16 and scalar values\<close>

lemma unat_u16: "m < 65536 \<Longrightarrow> unat (of_nat m :: u16) = m"
  by (simp add: unat_of_nat)

lemma utf16_units_scalar:
  assumes "scalar n"
  shows "utf16_scalars (utf16_units n @ r) = map_option ((#) n) (utf16_scalars r)"
proof (cases "n < 0x10000")
  case True
  then have "unat (of_nat n :: u16) = n" by (simp only: unat_u16)
  then show ?thesis using True assms by (auto simp: utf16_units_def scalar_def)
next
  case False
  define m where "m = n - 0x10000"
  have n: "n = 0x10000 + (m div 1024 * 1024 + m mod 1024)" and m: "m < 0x100000"
    using False assms by (auto simp: m_def scalar_def)
  have "unat (of_nat (0xD800 + m div 1024) :: u16) = 0xD800 + m div 1024"
    "unat (of_nat (0xDC00 + m mod 1024) :: u16) = 0xDC00 + m mod 1024"
    by (rule unat_u16, use m in simp)+
  moreover have "utf16_units n = [of_nat (0xD800 + m div 1024), of_nat (0xDC00 + m mod 1024)]"
    using False by (simp add: utf16_units_def m_def)
  moreover have "m div 1024 < 1024" "m mod 1024 < 1024" using m by auto
  ultimately show ?thesis using n by (simp add: add.commute del: of_nat_add)
qed

lemma utf16_units_scalars: "list_all scalar cs \<Longrightarrow> utf16_scalars (concat (map utf16_units cs)) = Some cs"
  by (induction cs) (simp_all add: utf16_units_scalar)

lemma utf16_scalars_units:
  "utf16_scalars ks = Some cs \<Longrightarrow> list_all scalar cs \<and> concat (map utf16_units cs) = ks"
proof (induction ks arbitrary: cs rule: utf16_scalars.induct)
  case (2 k ks)
  have k: "unat k < 65536" using unsigned_less [of k] by simp
  show ?case
  proof (cases "unat k < 0xD800 \<or> 0xE000 \<le> unat k")
    case True
    then show ?thesis using 2 k by (auto simp: utf16_units_def scalar_def)
  next
    case False
    then obtain l r ds where ks: "ks = l # r" and l: "0xDC00 \<le> unat l" "unat l < 0xE000" and k': "unat k < 0xDC00"
      and r: "utf16_scalars r = Some ds" and cs: "cs = (0x10000 + (unat k - 0xD800) * 1024 + (unat l - 0xDC00)) # ds"
      using 2(3) by (auto split: if_splits list.splits)
    define x y where "x = unat k - 0xD800" and "y = unat l - 0xDC00"
    have xy: "x < 1024" "y < 1024" and w: "unat k = 0xD800 + x" "unat l = 0xDC00 + y"
      using False k' l by (auto simp: x_def y_def)
    have "utf16_units (0x10000 + x * 1024 + y) = [of_nat (0xD800 + x), of_nat (0xDC00 + y)]"
      using xy by (simp add: utf16_units_def)
    also have "\<dots> = [k, l]" by (simp flip: w)
    finally show ?thesis
      using 2(2) False k' ks l r cs xy by (auto simp: scalar_def x_def y_def)
  qed
qed simp

text \<open>Decoding and encoding are inverse to each other on the values a \<^verbatim>\<open>String\<close> can take.\<close>

lemma from_utf16_iff: "from_utf16 ks = Some s \<longleftrightarrow> is_utf8 s \<and> encode_utf16 s = ks"
proof
  assume "from_utf16 ks = Some s"
  then obtain cs where cs: "utf16_scalars ks = Some cs" and s: "as_bytes s = concat (map utf8_bytes cs)"
    by (auto simp: from_utf16_def)
  show "is_utf8 s \<and> encode_utf16 s = ks"
    using utf16_scalars_units [OF cs] utf8_bytes_scalars [of cs] by (simp add: is_utf8_def encode_utf16_def s)
next
  assume s: "is_utf8 s \<and> encode_utf16 s = ks"
  then have "list_all scalar (utf8_scalars (as_bytes s))"
    and b: "concat (map utf8_bytes (utf8_scalars (as_bytes s))) = as_bytes s"
    using utf8_scalars_valid by (auto simp: is_utf8_def)
  from this(1) have "utf16_scalars (concat (map utf16_units (utf8_scalars (as_bytes s)))) = Some (utf8_scalars (as_bytes s))"
    by (rule utf16_units_scalars)
  then show "from_utf16 ks = Some s" using s b by (auto simp: from_utf16_def encode_utf16_def)
qed

end
