(* ===== verification/Wincred_Backend.thy ===== *)
theory Wincred_Backend
  imports Backend Wide_Strings
begin

text \<open>
  The production backend over the Windows Credential Manager (\<^verbatim>\<open>crates/broker/src/wincred.rs\<close>).
  The Win32 functions are parameters (the record \<open>win32\<close>): each either succeeds or returns an
  \<^verbatim>\<open>HRESULT\<close>. A pointer that may be null is an option, a buffer is its content, and the drops of
  the owning wrappers (\<^verbatim>\<open>OwnedHandle\<close>, \<^verbatim>\<open>CredAllocation\<close>, \<^verbatim>\<open>LocalSecurityDescriptor\<close>,
  \<^verbatim>\<open>MutexLock\<close>) are explicit calls where the scopes end. The locale \<open>credential_manager\<close>
  states what the functions are documented to do. Names need not be compared unit by unit: which
  ones the Credential Manager takes for the same is the parameter \<open>norm\<close> of the locale. The backend
  is a store of named blobs for every name that has no other spelling in use, and it keeps the
  contract \<open>vault_backend\<close> the broker is verified against when \<open>norm\<close> tells all target names apart.
\<close>

section \<open>The Win32 interface\<close>

type_synonym HANDLE = u64
type_synonym HRESULT = u32

definition ERROR_ACCESS_DENIED :: u32 where "ERROR_ACCESS_DENIED = 5"
definition ERROR_NOT_FOUND :: u32 where "ERROR_NOT_FOUND = 1168"
definition WAIT_OBJECT_0 :: u32 where "WAIT_OBJECT_0 = 0"
definition WAIT_ABANDONED :: u32 where "WAIT_ABANDONED = 0x80"
definition WAIT_TIMEOUT :: u32 where "WAIT_TIMEOUT = 0x102"
definition CRED_TYPE_GENERIC :: u32 where "CRED_TYPE_GENERIC = 1"
definition CRED_PERSIST_LOCAL_MACHINE :: u32 where "CRED_PERSIST_LOCAL_MACHINE = 2"

lemmas win32_constants =
  ERROR_ACCESS_DENIED_def ERROR_NOT_FOUND_def WAIT_OBJECT_0_def WAIT_ABANDONED_def WAIT_TIMEOUT_def
  CRED_TYPE_GENERIC_def CRED_PERSIST_LOCAL_MACHINE_def

text \<open>
  A credential as the API passes it: the name is the buffer \<^verbatim>\<open>TargetName\<close> points to, the blob
  the memory \<^verbatim>\<open>CredentialBlob\<close> points to.
\<close>

record CREDENTIALW =
  cred_Type :: u32
  cred_TargetName :: "u16 list"
  cred_CredentialBlobSize :: u32
  cred_CredentialBlob :: "bytes option"
  cred_Persist :: u32

record 'w win32 =
  OpenProcessToken :: "('w, HRESULT, HANDLE) act"  \<comment> \<open>of the current process, for \<^verbatim>\<open>TOKEN_QUERY\<close>\<close>
  TokenUserLength :: "HANDLE \<Rightarrow> 'w \<Rightarrow> u32 \<times> 'w"  \<comment> \<open>\<^verbatim>\<open>GetTokenInformation\<close> without a buffer\<close>
  TokenUserSid :: "HANDLE \<Rightarrow> u32 \<Rightarrow> ('w, HRESULT, bytes) act"  \<comment> \<open>\<^verbatim>\<open>GetTokenInformation\<close> with one\<close>
  ConvertSidToStringSidW :: "bytes \<Rightarrow> ('w, HRESULT, HANDLE \<times> u16 list) act"
  ConvertStringSecurityDescriptor :: "u16 list \<Rightarrow> ('w, HRESULT, HANDLE) act"
  LocalFree :: "HANDLE \<Rightarrow> 'w \<Rightarrow> 'w"
  CreateMutexW :: "HANDLE \<Rightarrow> u16 list \<Rightarrow> ('w, HRESULT, HANDLE) act"
  WaitForSingleObject :: "HANDLE \<Rightarrow> u32 \<Rightarrow> 'w \<Rightarrow> u32 \<times> 'w"
  ReleaseMutex :: "HANDLE \<Rightarrow> 'w \<Rightarrow> 'w"
  CloseHandle :: "HANDLE \<Rightarrow> 'w \<Rightarrow> 'w"
  CredReadW :: "u16 list \<Rightarrow> u32 \<Rightarrow> ('w, HRESULT, CREDENTIALW option) act"
  CredWriteW :: "CREDENTIALW \<Rightarrow> ('w, HRESULT, unit) act"
  CredDeleteW :: "u16 list \<Rightarrow> u32 \<Rightarrow> ('w, HRESULT, unit) act"
  CredEnumerateW :: "u16 list \<Rightarrow> ('w, HRESULT, CREDENTIALW option list option) act"
  CredFree :: "CREDENTIALW option list \<Rightarrow> 'w \<Rightarrow> 'w"
  pwstr_to_string :: "u16 list \<Rightarrow> string option"  \<comment> \<open>\<^verbatim>\<open>PCWSTR::to_string\<close> of the crate \<^verbatim>\<open>windows\<close>\<close>
  from_win32 :: "u32 \<Rightarrow> HRESULT"  \<comment> \<open>\<^verbatim>\<open>HRESULT::from_win32\<close>\<close>


section \<open>The backend\<close>

definition LOCK_WAIT_MILLISECONDS :: u32 where
  "LOCK_WAIT_MILLISECONDS = 5000"

definition MUTEX_PREFIX :: string where
  "MUTEX_PREFIX = ''Global'' @ [CHR 0x5C] @ ''WinCredLibSecret-v1-''"

definition mutex_name :: "string \<Rightarrow> string" where
  "mutex_name sid = MUTEX_PREFIX @ sid"

definition mutex_sddl :: "string \<Rightarrow> string" where
  "mutex_sddl sid = ''D:(A;;GA;;;SY)(A;;GA;;;BA)(A;;GA;;;'' @ sid @ '')''"

definition wide :: "string \<Rightarrow> u16 list" where
  "wide s = encode_utf16 s @ [0]"

definition wide_target :: "'x text_lib_scheme \<Rightarrow> TargetName \<Rightarrow> u16 list" where
  "wide_target L target = wide (target_to_string L target)"

definition is_not_found :: "'w win32 \<Rightarrow> HRESULT \<Rightarrow> bool" where
  "is_not_found A code \<longleftrightarrow> code = from_win32 A ERROR_NOT_FOUND"

definition map_windows_error :: "'w win32 \<Rightarrow> HRESULT \<Rightarrow> BrokerError" where
  "map_windows_error A code =
     BrokerError_new
       (if code = from_win32 A ERROR_ACCESS_DENIED then PermissionDenied else BackendUnavailable)
       ''Windows Credential Manager operation failed''"

text \<open>Running a drop after the rest of its scope, on every way out.\<close>

definition scoped :: "('w \<Rightarrow> 'w) \<Rightarrow> ('w, 'e, 'a) act \<Rightarrow> ('w, 'e, 'a) act" where
  "scoped dropped m w = (case m w of (r, w') \<Rightarrow> (r, dropped w'))"

definition LocalSecurityDescriptor_drop :: "'w win32 \<Rightarrow> HANDLE \<Rightarrow> 'w \<Rightarrow> 'w" where
  "LocalSecurityDescriptor_drop A p w = (if p = 0 then w else LocalFree A p w)"

definition sid_unavailable :: BrokerError where
  "sid_unavailable = BrokerError_new BackendUnavailable ''current user SID unavailable''"

definition current_user_sid :: "'w win32 \<Rightarrow> ('w, BrokerError, string) act" where
  "current_user_sid A =
     act_bind (act_map_err (map_windows_error A) (OpenProcessToken A)) (\<lambda>token.
     scoped (CloseHandle A token)
       (act_bind (effect (TokenUserLength A token)) (\<lambda>len.
        if len = 0 then act_throw sid_unavailable
        else
          act_bind (act_map_err (map_windows_error A) (TokenUserSid A token len)) (\<lambda>user.
          act_bind (act_map_err (map_windows_error A) (ConvertSidToStringSidW A user)) (\<lambda>(p, sid).
          scoped (LocalSecurityDescriptor_drop A p)
            (act_lift (ok_or sid_unavailable (pwstr_to_string A sid))))))))"

definition security_descriptor_for_sid :: "'w win32 \<Rightarrow> string \<Rightarrow> ('w, BrokerError, HANDLE) act" where
  "security_descriptor_for_sid A sid =
     act_map_err (map_windows_error A) (ConvertStringSecurityDescriptor A (wide (mutex_sddl sid)))"

record MutexLock =
  ml_handle :: HANDLE
  ml_owns_mutex :: bool

definition wait_for_mutex :: "'w win32 \<Rightarrow> HANDLE \<Rightarrow> ('w, BrokerError, MutexLock) act" where
  "wait_for_mutex A handle =
     act_bind (effect (WaitForSingleObject A handle LOCK_WAIT_MILLISECONDS)) (\<lambda>r.
     if r = WAIT_OBJECT_0 \<or> r = WAIT_ABANDONED
     then act_return \<lparr>ml_handle = handle, ml_owns_mutex = True\<rparr>
     else
       scoped (CloseHandle A handle)
         (act_throw
            (if r = WAIT_TIMEOUT then BrokerError_new Conflict ''credential vault is busy''
             else BrokerError_new BackendUnavailable ''credential vault lock failed'')))"

definition take_mutex :: "'w win32 \<Rightarrow> ('w, BrokerError, MutexLock) act" where
  "take_mutex A =
     act_bind (current_user_sid A) (\<lambda>sid.
     act_bind (security_descriptor_for_sid A sid) (\<lambda>descriptor.
     scoped (LocalSecurityDescriptor_drop A descriptor)
       (act_bind (act_map_err (map_windows_error A) (CreateMutexW A descriptor (wide (mutex_name sid))))
          (wait_for_mutex A))))"

text \<open>The guards that are alive, the youngest first, beside the world they were taken in.\<close>

record 'w wincred =
  wc_world :: 'w
  wc_guards :: "MutexLock list"

definition on_win32 :: "('w, 'e, 'a) act \<Rightarrow> ('w wincred, 'e, 'a) act" where
  "on_win32 m s = (case m (wc_world s) of (r, w) \<Rightarrow> (r, s\<lparr>wc_world := w\<rparr>))"

definition wincred_acquire_lock :: "'w win32 \<Rightarrow> 'w wincred \<Rightarrow> ((BrokerError + unit) \<times> 'w wincred) option" where
  "wincred_acquire_lock A s =
     Some (case on_win32 (take_mutex A) s of
             (Inl e, s') \<Rightarrow> (Inl e, s')
           | (Inr lock, s') \<Rightarrow> (Inr (), s'\<lparr>wc_guards := lock # wc_guards s'\<rparr>))"

definition MutexLock_drop :: "'w win32 \<Rightarrow> MutexLock \<Rightarrow> 'w \<Rightarrow> 'w" where
  "MutexLock_drop A lock w =
     CloseHandle A (ml_handle lock) (if ml_owns_mutex lock then ReleaseMutex A (ml_handle lock) w else w)"

definition wincred_release_lock :: "'w win32 \<Rightarrow> 'w wincred \<Rightarrow> 'w wincred" where
  "wincred_release_lock A s =
     (case wc_guards s of
        [] \<Rightarrow> s
      | lock # rest \<Rightarrow> s\<lparr>wc_world := MutexLock_drop A lock (wc_world s), wc_guards := rest\<rparr>)"

definition credential_blob :: "CREDENTIALW \<Rightarrow> bytes" where
  "credential_blob credential =
     (let len = unat (cred_CredentialBlobSize credential) in
      if len = 0 then []
      else case cred_CredentialBlob credential of None \<Rightarrow> [] | Some memory \<Rightarrow> take len memory)"

definition wipe_credential_blob :: "CREDENTIALW \<Rightarrow> CREDENTIALW" where
  "wipe_credential_blob credential =
     (let len = unat (cred_CredentialBlobSize credential) in
      case cred_CredentialBlob credential of
        Some memory \<Rightarrow>
          if len \<noteq> 0 then credential\<lparr>cred_CredentialBlob := Some (replicate len 0 @ drop len memory)\<rparr>
          else credential
      | None \<Rightarrow> credential)"

definition wincred_read ::
  "'x text_lib_scheme \<Rightarrow> 'w win32 \<Rightarrow> TargetName \<Rightarrow> ('w, BrokerError, bytes option) act" where
  "wincred_read L A target =
     act_bind (act_try (CredReadW A (wide_target L target) CRED_TYPE_GENERIC)) (\<lambda>r.
     case r of
       Inr None \<Rightarrow>
         act_throw (BrokerError_new BackendUnavailable ''credential manager returned an empty credential'')
     | Inr (Some credential) \<Rightarrow>
         scoped (CredFree A [Some (wipe_credential_blob credential)])
           (act_return (Some (credential_blob credential)))
     | Inl error \<Rightarrow>
         if is_not_found A error then act_return None else act_throw (map_windows_error A error))"

definition wincred_write ::
  "'x text_lib_scheme \<Rightarrow> 'w win32 \<Rightarrow> TargetName \<Rightarrow> bytes \<Rightarrow> ('w, BrokerError, unit) act" where
  "wincred_write L A target blob =
     (if 2 ^ 32 \<le> length blob then
        act_throw (BrokerError_new ErrorCode.SecretTooLarge ''credential blob exceeds WinCred limit'')
      else
        act_map_err (map_windows_error A)
          (CredWriteW A
             \<lparr>cred_Type = CRED_TYPE_GENERIC, cred_TargetName = wide_target L target,
              cred_CredentialBlobSize = of_nat (length blob), cred_CredentialBlob = Some blob,
              cred_Persist = CRED_PERSIST_LOCAL_MACHINE\<rparr>))"

definition wincred_delete ::
  "'x text_lib_scheme \<Rightarrow> 'w win32 \<Rightarrow> TargetName \<Rightarrow> ('w, BrokerError, unit) act" where
  "wincred_delete L A target =
     act_bind (act_try (CredDeleteW A (wide_target L target) CRED_TYPE_GENERIC)) (\<lambda>r.
     case r of
       Inr _ \<Rightarrow> act_return ()
     | Inl error \<Rightarrow>
         if is_not_found A error then act_return () else act_throw (map_windows_error A error))"

definition enumerated_entry ::
  "'x text_lib_scheme \<Rightarrow> 'w win32 \<Rightarrow> CREDENTIALW option \<Rightarrow> (string \<times> bytes) option" where
  "enumerated_entry L A pointer =
     (case pointer of
        None \<Rightarrow> None
      | Some credential \<Rightarrow>
          if cred_Type credential \<noteq> CRED_TYPE_GENERIC then None
          else case pwstr_to_string A (cred_TargetName credential) of
              None \<Rightarrow> None
            | Some name \<Rightarrow>
                if \<not> starts_with CREDENTIAL_PREFIX name then None
                else case target_from_str L name of
                    Inr (TargetName.ItemSecret _ _) \<Rightarrow> Some (name, [])
                  | _ \<Rightarrow> Some (name, credential_blob credential))"

definition wincred_enumerate ::
  "'x text_lib_scheme \<Rightarrow> 'w win32 \<Rightarrow> ('w, BrokerError, (string \<times> bytes) list) act" where
  "wincred_enumerate L A =
     act_bind (act_try (CredEnumerateW A (wide (CREDENTIAL_PREFIX @ ''*'')))) (\<lambda>r.
     case r of
       Inl error \<Rightarrow>
         if is_not_found A error then act_return [] else act_throw (map_windows_error A error)
     | Inr None \<Rightarrow>
         act_throw (BrokerError_new BackendUnavailable ''credential manager returned an empty enumeration'')
     | Inr (Some pointers) \<Rightarrow>
         scoped (CredFree A (map (map_option wipe_credential_blob) pointers))
           (act_return (List.map_filter (enumerated_entry L A) pointers)))"

definition WinCredBackend :: "'x text_lib_scheme \<Rightarrow> 'w win32 \<Rightarrow> 'w wincred backend" where
  "WinCredBackend L A =
     \<lparr>acquire_lock = wincred_acquire_lock A, release_lock = wincred_release_lock A,
      b_read = \<lambda>t. on_win32 (wincred_read L A t), b_write = \<lambda>t b. on_win32 (wincred_write L A t b),
      b_delete = \<lambda>t. on_win32 (wincred_delete L A t), b_enumerate = on_win32 (wincred_enumerate L A)\<rparr>"


section \<open>What the Credential Manager does\<close>

text \<open>A buffer that is passed as a string ends at its first zero.\<close>

definition units_of :: "u16 list \<Rightarrow> u16 list" where
  "units_of k = takeWhile (\<lambda>u. u \<noteq> 0) k"

text \<open>The blob fields of a credential hold these bytes.\<close>

definition blob_holds :: "CREDENTIALW \<Rightarrow> bytes \<Rightarrow> bool" where
  "blob_holds c b \<longleftrightarrow> unat (cred_CredentialBlobSize c) = length b \<and>
     (b \<noteq> [] \<longrightarrow> (\<exists>m. cred_CredentialBlob c = Some m \<and> take (length b) m = b))"

lemma credential_blob_holds: "blob_holds c b \<Longrightarrow> credential_blob c = b"
  by (auto simp: blob_holds_def credential_blob_def Let_def)

definition generic_credentials :: "CREDENTIALW option list \<Rightarrow> CREDENTIALW list" where
  "generic_credentials cs = filter (\<lambda>c. cred_Type c = CRED_TYPE_GENERIC) (List.map_filter id cs)"

text \<open>A call that leaves the credentials alone, and from a healthy state succeeds into one.\<close>

definition stays :: "('w \<Rightarrow> 'c) \<Rightarrow> ('w \<Rightarrow> bool) \<Rightarrow> 'w \<Rightarrow> 'e + 'a \<Rightarrow> 'w \<Rightarrow> bool" where
  "stays creds healthy w r w' \<longleftrightarrow> creds w' = creds w \<and> (healthy w \<longrightarrow> healthy w' \<and> is_ok r)"

definition neutral :: "('w \<Rightarrow> 'c) \<Rightarrow> ('w \<Rightarrow> bool) \<Rightarrow> ('w, 'e, 'a) act \<Rightarrow> bool" where
  "neutral creds healthy m \<longleftrightarrow> (\<forall>w. wp m (stays creds healthy w) w)"

definition neutral_drop :: "('w \<Rightarrow> 'c) \<Rightarrow> ('w \<Rightarrow> bool) \<Rightarrow> ('w \<Rightarrow> 'w) \<Rightarrow> bool" where
  "neutral_drop creds healthy f \<longleftrightarrow> (\<forall>w. creds (f w) = creds w \<and> (healthy w \<longrightarrow> healthy (f w)))"

text \<open>Text made of the characters of target names is passed to the API unchanged.\<close>

definition ascii_text :: "string \<Rightarrow> bool" where
  "ascii_text s = list_all (\<lambda>c. 0 < (of_char c :: nat) \<and> (of_char c :: nat) < 128) s"

lemma ascii_text_simps [simp]:
  "ascii_text (s @ t) \<longleftrightarrow> ascii_text s \<and> ascii_text t" "ascii_text []"
  "ascii_text (c # s) \<longleftrightarrow> 0 < (of_char c :: nat) \<and> (of_char c :: nat) < 128 \<and> ascii_text s"
  by (auto simp: ascii_text_def)

text \<open>
  The Credential Manager may take different spellings for one name (it does not distinguish upper
  and lower case): \<open>norm n\<close> is what it compares. \<open>other_names\<close> are the credentials of other names,
  and a name is \<open>unclashed\<close> if no credential is stored under another spelling of it.
\<close>

definition other_names :: "(u16 list \<Rightarrow> 'k) \<Rightarrow> (u16 list \<rightharpoonup> bytes) \<Rightarrow> u16 list \<Rightarrow> u16 list \<rightharpoonup> bytes" where
  "other_names norm C k = (\<lambda>n. if norm n = norm k then None else C n)"

definition unclashed :: "(u16 list \<Rightarrow> 'k) \<Rightarrow> (u16 list \<rightharpoonup> bytes) \<Rightarrow> u16 list \<Rightarrow> bool" where
  "unclashed norm C k \<longleftrightarrow> (\<forall>n. C n \<noteq> None \<and> norm n = norm k \<longrightarrow> n = k)"

lemma unclashed_others: "unclashed norm C k \<Longrightarrow> other_names norm C k = C(k := None)"
  by (auto simp: unclashed_def other_names_def fun_eq_iff) (metis option.exhaust)

text \<open>
  \<open>creds\<close> are the generic credentials of the user, under the spelling they were created with; a
  write may keep the spelling of the credential it replaces. \<open>healthy\<close> are the states from which
  the functions serve: no call is refused, and no other process keeps the mutex for longer than the
  wait.
\<close>

locale credential_manager =
  fixes A :: "'w win32" and norm :: "u16 list \<Rightarrow> 'k" and creds :: "'w \<Rightarrow> u16 list \<rightharpoonup> bytes"
    and healthy :: "'w \<Rightarrow> bool"
  assumes token: "neutral creds healthy (OpenProcessToken A)"
    and token_length: "\<And>h. neutral_drop creds healthy (\<lambda>w. snd (TokenUserLength A h w))"
      "\<And>h w. healthy w \<Longrightarrow> fst (TokenUserLength A h w) \<noteq> 0"
    and token_user: "\<And>h n. neutral creds healthy (TokenUserSid A h n)"
    and sid_string: "\<And>b. neutral creds healthy (ConvertSidToStringSidW A b)"
      "\<And>b w p k w'. healthy w \<Longrightarrow> ConvertSidToStringSidW A b w = (Inr (p, k), w') \<Longrightarrow> pwstr_to_string A k \<noteq> None"
    and descriptor: "\<And>k. neutral creds healthy (ConvertStringSecurityDescriptor A k)"
    and mutex: "\<And>d k. neutral creds healthy (CreateMutexW A d k)"
    and wait: "\<And>h n. neutral_drop creds healthy (\<lambda>w. snd (WaitForSingleObject A h n w))"
      "\<And>h n w. healthy w \<Longrightarrow> fst (WaitForSingleObject A h n w) \<in> {WAIT_OBJECT_0, WAIT_ABANDONED}"
    and drops: "\<And>p. neutral_drop creds healthy (LocalFree A p)" "\<And>h. neutral_drop creds healthy (ReleaseMutex A h)"
      "\<And>h. neutral_drop creds healthy (CloseHandle A h)" "\<And>cs. neutral_drop creds healthy (CredFree A cs)"
    and cred_read: "\<And>k w. wp (CredReadW A k CRED_TYPE_GENERIC)
      (\<lambda>r w'. creds w' = creds w \<and>
         (healthy w \<longrightarrow> healthy w' \<and> ((\<exists>c. r = Inr (Some c)) \<or> r = Inl (from_win32 A ERROR_NOT_FOUND))) \<and>
         (\<forall>c. r = Inr (Some c) \<longrightarrow> (\<exists>n b. norm n = norm (units_of k) \<and> creds w n = Some b \<and> blob_holds c b)) \<and>
         (r = Inl (from_win32 A ERROR_NOT_FOUND) \<longrightarrow> (\<forall>n. norm n = norm (units_of k) \<longrightarrow> creds w n = None))) w"
    and cred_write: "\<And>c b w. cred_Type c = CRED_TYPE_GENERIC \<Longrightarrow> blob_holds c b \<Longrightarrow> wp (CredWriteW A c)
      (\<lambda>r w'. (if is_ok r
          then \<exists>n. norm n = norm (units_of (cred_TargetName c)) \<and> (n = units_of (cred_TargetName c) \<or> creds w n \<noteq> None) \<and>
                 creds w' = (other_names norm (creds w) (units_of (cred_TargetName c)))(n \<mapsto> b)
          else creds w' = creds w) \<and>
         (healthy w \<longrightarrow> healthy w' \<and> (length b \<le> MAX_SECRET_BYTES \<longrightarrow> is_ok r))) w"
    and cred_delete: "\<And>k w. wp (CredDeleteW A k CRED_TYPE_GENERIC)
      (\<lambda>r w'. creds w' = (if is_ok r then other_names norm (creds w) (units_of k) else creds w) \<and>
         (healthy w \<longrightarrow> healthy w' \<and> (is_ok r \<or> r = Inl (from_win32 A ERROR_NOT_FOUND))) \<and>
         (r = Inl (from_win32 A ERROR_NOT_FOUND) \<longrightarrow> (\<forall>n. norm n = norm (units_of k) \<longrightarrow> creds w n = None))) w"
    and cred_enumerate: "\<And>p w. ascii_text p \<Longrightarrow> CHR ''*'' \<notin> set p \<Longrightarrow> wp (CredEnumerateW A (wide (p @ ''*'')))
      (\<lambda>r w'. creds w' = creds w \<and>
         (healthy w \<longrightarrow> healthy w' \<and> ((\<exists>cs. r = Inr (Some cs)) \<or> r = Inl (from_win32 A ERROR_NOT_FOUND))) \<and>
         (\<forall>cs. r = Inr (Some cs) \<longrightarrow>
            distinct (map cred_TargetName (generic_credentials cs)) \<and>
            (\<forall>c \<in> set (generic_credentials cs). \<exists>b. creds w (cred_TargetName c) = Some b \<and> blob_holds c b) \<and>
            (\<forall>k. starts_with (encode_utf16 p) k \<longrightarrow> creds w k \<noteq> None \<longrightarrow>
               k \<in> cred_TargetName ` set (generic_credentials cs))) \<and>
         (r = Inl (from_win32 A ERROR_NOT_FOUND) \<longrightarrow>
            (\<forall>k. starts_with (encode_utf16 p) k \<longrightarrow> creds w k = None))) w"
    and names: "creds w k \<noteq> None \<Longrightarrow> 0 \<notin> set k"
    and to_string: "pwstr_to_string A k = Some s \<longleftrightarrow> is_utf8 s \<and> encode_utf16 s = units_of k"


section \<open>The lock\<close>

lemma stays_neutral:
  assumes "neutral C H m" and "C t = C w" and "H w \<Longrightarrow> H t"
  shows "wp m (stays C H w) t"
  using assms by (auto simp: neutral_def stays_def wp_def)

lemma stays_bind:
  assumes "wp m (stays C H w) t"
    and "\<And>x u. m t = (Inr x, u) \<Longrightarrow> C u = C w \<Longrightarrow> (H w \<Longrightarrow> H u) \<Longrightarrow> wp (f x) (stays C H w) u"
  shows "wp (act_bind m f) (stays C H w) t"
  using assms by (cases "m t") (auto simp: wp_def stays_def act_simps is_ok_iff split: sum.splits)

lemma stays_map_err: "wp m (stays C H w) t \<Longrightarrow> wp (act_map_err g m) (stays C H w) t"
  by (simp add: wp_def act_simps stays_def)

lemma stays_effect:
  assumes "neutral_drop C H (\<lambda>w. snd (f w))" and "C t = C w" and "H w \<Longrightarrow> H t"
  shows "wp (effect f) (stays C H w) t"
  using assms by (auto simp: wp_def effect_def stays_def neutral_drop_def case_prod_beta)

lemma stays_scoped:
  assumes "wp m (stays C H w) t" and "neutral_drop C H f"
  shows "wp (scoped f m) (stays C H w) t"
  using assms by (auto simp: wp_def scoped_def stays_def neutral_drop_def split: prod.splits)

context credential_manager
begin

lemma drop_descriptor: "neutral_drop creds healthy (LocalSecurityDescriptor_drop A p)"
  using drops(1) by (auto simp: neutral_drop_def LocalSecurityDescriptor_drop_def)

lemma current_user_sid_stays: "wp (current_user_sid A) (stays creds healthy w) w"
  unfolding current_user_sid_def
proof (intro stays_bind stays_map_err stays_scoped, goal_cases)
  case 1
  show ?case by (rule stays_neutral [OF token]) auto
next
  case (2 token u)
  then show ?case by (intro stays_effect [OF token_length(1)]) auto
next
  case (3 token u len v)
  then have len: "healthy w \<Longrightarrow> len \<noteq> 0" using token_length(2) [of u token] by (auto simp: effect_def split: prod.splits)
  show ?case
  proof (cases "len = 0")
    case True
    then show ?thesis using 3 len by (auto simp: wp_simps stays_def)
  next
    case False
    have "wp (act_bind (act_map_err (map_windows_error A) (ConvertSidToStringSidW A user)) (\<lambda>(p, sid).
        scoped (LocalSecurityDescriptor_drop A p) (act_lift (ok_or sid_unavailable (pwstr_to_string A sid)))))
        (stays creds healthy w) x" if x: "creds x = creds w" "healthy w \<Longrightarrow> healthy x" for user x
    proof (intro stays_bind stays_map_err, goal_cases)
      case 1
      show ?case using x by (intro stays_neutral [OF sid_string(1)])
    next
      case (2 y z)
      obtain p k where y: "y = (p, k)" by force
      have "pwstr_to_string A k \<noteq> None" if "healthy w"
        using 2(1) x(2) [OF that] sid_string(2) [of x user p k z] y
        by (auto simp: act_simps prod_eq_iff)
      then show ?case unfolding y prod.case
        using 2 by (intro stays_scoped drop_descriptor) (auto simp: wp_simps stays_def split: option.splits)
    qed
    then show ?thesis using 3 False
      by (simp, intro stays_bind [where m = "act_map_err (map_windows_error A) (TokenUserSid A token len)"]
          stays_map_err stays_neutral [OF token_user]) auto
  qed
next
  case (4 token u)
  show ?case by (rule drops(3))
qed

lemma take_mutex_stays: "wp (take_mutex A) (stays creds healthy w) w"
proof -
  have wait_stays: "wp (wait_for_mutex A h) (stays creds healthy w) t"
    if "creds t = creds w" "healthy w \<Longrightarrow> healthy t" for h t
    unfolding wait_for_mutex_def
  proof (rule stays_bind)
    show "wp (effect (WaitForSingleObject A h LOCK_WAIT_MILLISECONDS)) (stays creds healthy w) t"
      using that by (intro stays_effect [OF wait(1)])
  next
    fix r u
    assume "effect (WaitForSingleObject A h LOCK_WAIT_MILLISECONDS) t = (Inr r, u)"
      and u: "creds u = creds w" "healthy w \<Longrightarrow> healthy u"
    then have "healthy w \<Longrightarrow> r = WAIT_OBJECT_0 \<or> r = WAIT_ABANDONED"
      using that(2) wait(2) [of t h LOCK_WAIT_MILLISECONDS] by (auto simp: effect_def split: prod.splits)
    then show "wp (if r = WAIT_OBJECT_0 \<or> r = WAIT_ABANDONED then act_return \<lparr>ml_handle = h, ml_owns_mutex = True\<rparr>
        else scoped (CloseHandle A h) (act_throw (if r = WAIT_TIMEOUT
          then BrokerError_new Conflict ''credential vault is busy''
          else BrokerError_new BackendUnavailable ''credential vault lock failed''))) (stays creds healthy w) u"
      using u drops(3) [of h]
      by (auto simp: wp_def act_simps stays_def scoped_def neutral_drop_def)
  qed
  show ?thesis
    unfolding take_mutex_def security_descriptor_for_sid_def
    by (intro stays_bind stays_scoped stays_map_err wait_stays current_user_sid_stays drop_descriptor)
       (auto intro: stays_neutral [OF descriptor] stays_neutral [OF mutex])
qed

end


section \<open>The contract\<close>

lemma ascii_utf16:
  "ascii_text s \<Longrightarrow> encode_utf16 (s @ t) = map (\<lambda>c. of_nat (of_char c)) s @ encode_utf16 t"
  by (induction s)
     (auto simp: ascii_text_def encode_utf16_def as_bytes_def u8_compare(1) unat_byte_of_char utf16_units_def)

lemma ascii_append: "ascii_text s \<Longrightarrow> encode_utf16 (s @ t) = encode_utf16 s @ encode_utf16 t"
  using ascii_utf16 [of s t] ascii_utf16 [of s "[]"] by (simp add: encode_utf16_def [of "[]"] as_bytes_def)

lemma ascii_utf8: "ascii_text s \<Longrightarrow> is_utf8 (s @ t) = is_utf8 t"
  by (induction s) (auto simp: ascii_text_def is_utf8_def as_bytes_def u8_compare(1) unat_byte_of_char)

lemma ascii_units:
  assumes "ascii_text s"
  shows "is_utf8 s" and "0 \<notin> set (encode_utf16 s)" and "units_of (wide s) = encode_utf16 s"
proof -
  show "is_utf8 s" using ascii_utf8 [OF assms, of "[]"] by (simp add: is_utf8_def as_bytes_def)
  have "encode_utf16 s = map (\<lambda>c. of_nat (of_char c)) s"
    using ascii_utf16 [OF assms, of "[]"] by (simp add: encode_utf16_def as_bytes_def)
  moreover have "of_nat (of_char c) \<noteq> (0 :: u16)" if "c \<in> set s" for c
  proof -
    have "0 < (of_char c :: nat)" "(of_char c :: nat) < 128" using assms that by (auto simp: ascii_text_def list_all_iff)
    then have "unat (of_nat (of_char c) :: u16) \<noteq> 0" by (simp add: unat_u16)
    then show ?thesis by auto
  qed
  ultimately show z: "0 \<notin> set (encode_utf16 s)" by auto
  then show "units_of (wide s) = encode_utf16 s"
    unfolding units_of_def wide_def by (subst takeWhile_append2) auto
qed

lemma prefix_ascii: "ascii_text CREDENTIAL_PREFIX" "CHR ''*'' \<notin> set CREDENTIAL_PREFIX"
  by (simp_all add: ascii_text_def CREDENTIAL_PREFIX_def)

definition wincred_store :: "('w \<Rightarrow> u16 list \<rightharpoonup> bytes) \<Rightarrow> 'w wincred \<Rightarrow> string \<rightharpoonup> bytes" where
  "wincred_store creds s n = (if is_utf8 n then creds (wc_world s) (encode_utf16 n) else None)"

locale wincred_host = credential_manager A norm creds healthy
  for A :: "'w win32" and norm :: "u16 list \<Rightarrow> 'k" and creds healthy +
  fixes L :: "'x text_lib_scheme"
  assumes uuid_ascii: "ascii_text (uuid_to_string L u)" and b64_ascii: "ascii_text (b64_encode L b)"
begin

lemma target_ascii: "ascii_text (target_to_string L t)"
  by (cases t) (simp_all add: target_to_string.simps uuid_ascii b64_ascii prefix_ascii(1))

lemma store_target: "wincred_store creds s (target_to_string L t) = creds (wc_world s) (units_of (wide_target L t))"
  using ascii_units [OF target_ascii, of t] by (simp add: wincred_store_def wide_target_def)

text \<open>A change under the name of a target is a change at that target only.\<close>

lemma store_update:
  assumes "creds (wc_world s') = (creds (wc_world s))(units_of (wide_target L t) := v)"
  shows "wincred_store creds s' = (wincred_store creds s)(target_to_string L t := v)"
proof
  fix n
  have "encode_utf16 n \<noteq> encode_utf16 (target_to_string L t)" if "is_utf8 n" "n \<noteq> target_to_string L t"
    using that ascii_units(1) [OF target_ascii, of t] from_utf16_iff by (metis option.inject)
  then show "wincred_store creds s' n = ((wincred_store creds s)(target_to_string L t := v)) n"
    using assms ascii_units [OF target_ascii, of t] by (auto simp: wincred_store_def wide_target_def)
qed

lemma wp_win32:
  "wp (on_win32 m) Q s = wp m (\<lambda>r w. Q r (s\<lparr>wc_world := w\<rparr>)) (wc_world s)"
  by (simp add: wp_def on_win32_def split: prod.splits)

lemma store_same: "creds w = creds (wc_world s) \<Longrightarrow> wincred_store creds (s\<lparr>wc_world := w\<rparr>) = wincred_store creds s"
  by (simp add: wincred_store_def fun_eq_iff)

lemma free_same:
  "creds (CredFree A cs w) = creds w" "healthy w \<Longrightarrow> healthy (CredFree A cs w)"
  using drops(4) by (simp_all add: neutral_drop_def)

text \<open>A target none of whose other spellings is in use.\<close>

definition unclashed_target :: "'w \<Rightarrow> TargetName \<Rightarrow> bool" where
  "unclashed_target w t \<longleftrightarrow> unclashed norm (creds w) (units_of (wide_target L t))"

lemma unclashed_name:
  "unclashed_target w t \<Longrightarrow> norm n = norm (units_of (wide_target L t)) \<Longrightarrow> creds w n = Some b \<Longrightarrow>
   n = units_of (wide_target L t)"
  by (simp add: unclashed_target_def unclashed_def)

lemma wincred_read_wp:
  assumes "unclashed_target w t"
  shows "wp (wincred_read L A t)
     (\<lambda>r w'. creds w' = creds w \<and> (healthy w \<longrightarrow> healthy w' \<and> is_ok r) \<and>
        (\<forall>v. r = Inr v \<longrightarrow> v = creds w (units_of (wide_target L t)))) w"
  unfolding wincred_read_def wp_simps
  by (rule wp_mono [OF cred_read])
     (auto simp: wp_def act_simps scoped_def is_not_found_def free_same credential_blob_holds
       split: sum.splits option.splits dest!: unclashed_name [OF assms])

lemma wincred_write_wp:
  assumes "unclashed_target w t"
  shows "wp (wincred_write L A t b)
     (\<lambda>r w'. creds w' = (if is_ok r then (creds w)(units_of (wide_target L t) \<mapsto> b) else creds w) \<and>
        (healthy w \<longrightarrow> healthy w' \<and> (length b \<le> MAX_SECRET_BYTES \<longrightarrow> is_ok r))) w"
proof (cases "2 ^ 32 \<le> length b")
  case True
  then show ?thesis by (simp add: wincred_write_def wp_simps limit_defs)
next
  case False
  let ?c = "\<lparr>cred_Type = CRED_TYPE_GENERIC, cred_TargetName = wide_target L t,
    cred_CredentialBlobSize = of_nat (length b), cred_CredentialBlob = Some b, cred_Persist = CRED_PERSIST_LOCAL_MACHINE\<rparr>"
  have "blob_holds ?c b" using False by (simp add: blob_holds_def unat_of_nat)
  have same: "other_names norm (creds w) (units_of (wide_target L t)) = (creds w)(units_of (wide_target L t) := None)"
    using assms by (simp add: unclashed_target_def unclashed_others)
  have "wp (CredWriteW A ?c)
     (\<lambda>r w'. creds w' = (if is_ok r then (creds w)(units_of (wide_target L t) \<mapsto> b) else creds w) \<and>
        (healthy w \<longrightarrow> healthy w' \<and> (length b \<le> MAX_SECRET_BYTES \<longrightarrow> is_ok r))) w"
  proof (rule wp_mono [OF cred_write [OF _ \<open>blob_holds ?c b\<close>]], simp, goal_cases)
    case (1 r w')
    show ?case
    proof (cases "is_ok r")
      case True
      with 1 obtain n where "n = units_of (wide_target L t) \<or> creds w n \<noteq> None" "norm n = norm (units_of (wide_target L t))"
        and w': "creds w' = (other_names norm (creds w) (units_of (wide_target L t)))(n \<mapsto> b)" by auto
      then have "n = units_of (wide_target L t)" using unclashed_name [OF assms] by blast
      then show ?thesis using 1 True w' by (simp add: same)
    qed (use 1 in auto)
  qed
  then show ?thesis using False by (simp add: wincred_write_def wp_simps)
qed

lemma wincred_delete_wp:
  assumes "unclashed_target w t"
  shows "wp (wincred_delete L A t)
     (\<lambda>r w'. creds w' = (if is_ok r then (creds w)(units_of (wide_target L t) := None) else creds w) \<and>
        (healthy w \<longrightarrow> healthy w' \<and> is_ok r)) w"
  unfolding wincred_delete_def wp_simps
  by (rule wp_mono [OF cred_delete])
     (use assms in \<open>auto simp: wp_simps is_not_found_def unclashed_target_def unclashed_others fun_eq_iff split: sum.splits\<close>)

lemma enumerated_entry_Some:
  "enumerated_entry L A (Some c) = Some e \<longleftrightarrow>
   cred_Type c = CRED_TYPE_GENERIC \<and>
   (\<exists>n. pwstr_to_string A (cred_TargetName c) = Some n \<and> starts_with CREDENTIAL_PREFIX n \<and>
      e = hide_secret_blob L (n, credential_blob c))"
  by (auto simp: enumerated_entry_def hide_secret_blob_def split: option.splits sum.splits TargetName.splits)

lemma enumerated_generic:
  "List.map_filter (enumerated_entry L A) cs =
   List.map_filter (\<lambda>c. enumerated_entry L A (Some c)) (generic_credentials cs)"
  by (induction cs)
     (auto simp: generic_credentials_def List.map_filter_simps enumerated_entry_def split: option.splits)

text \<open>The entries of an enumeration are the credentials of the namespace, secrets left out.\<close>

lemma enumerated_entries:
  assumes "distinct (map cred_TargetName (generic_credentials cs))"
    and "\<And>c. c \<in> set (generic_credentials cs) \<Longrightarrow> \<exists>b. creds w (cred_TargetName c) = Some b \<and> blob_holds c b"
    and "\<And>k. starts_with (encode_utf16 CREDENTIAL_PREFIX) k \<Longrightarrow> creds w k \<noteq> None \<Longrightarrow>
      k \<in> cred_TargetName ` set (generic_credentials cs)"
  defines "es \<equiv> List.map_filter (enumerated_entry L A) cs"
  shows "distinct (map fst es)"
    and "set es = hide_secret_blob L ` {(n, b). is_utf8 n \<and> creds w (encode_utf16 n) = Some b \<and>
      starts_with CREDENTIAL_PREFIX n}"
proof -
  have units: "units_of (cred_TargetName c) = cred_TargetName c" if "c \<in> set (generic_credentials cs)" for c
    using assms(2) [OF that] names by (fastforce simp: units_of_def takeWhile_eq_all_conv)
  show "distinct (map fst es)"
    unfolding es_def enumerated_generic
  proof (rule distinct_map_filter [where k = "\<lambda>c. units_of (cred_TargetName c)" and h = encode_utf16])
    show "distinct (map (\<lambda>c. units_of (cred_TargetName c)) (generic_credentials cs))"
      using assms(1) units by (simp cong: map_cong)
  next
    fix c e
    assume "enumerated_entry L A (Some c) = Some e"
    then show "units_of (cred_TargetName c) = encode_utf16 (fst e)"
      by (auto simp: enumerated_entry_Some to_string hide_secret_blob_def)
  qed
  show "set es = hide_secret_blob L ` {(n, b). is_utf8 n \<and> creds w (encode_utf16 n) = Some b \<and>
      starts_with CREDENTIAL_PREFIX n}" (is "_ = hide_secret_blob L ` ?S")
  proof (intro equalityI subsetI)
    fix e
    assume "e \<in> set es"
    then obtain c n where c: "c \<in> set (generic_credentials cs)"
      and n: "is_utf8 n" "encode_utf16 n = cred_TargetName c" "starts_with CREDENTIAL_PREFIX n"
      and e: "e = hide_secret_blob L (n, credential_blob c)"
      using units by (auto simp: es_def enumerated_generic set_map_filter enumerated_entry_Some to_string)
    then show "e \<in> hide_secret_blob L ` ?S"
      using assms(2) [OF c] credential_blob_holds by fastforce
  next
    fix e
    assume "e \<in> hide_secret_blob L ` ?S"
    then obtain n b where n: "is_utf8 n" "creds w (encode_utf16 n) = Some b" "starts_with CREDENTIAL_PREFIX n"
      and e: "e = hide_secret_blob L (n, b)" by auto
    obtain r where "n = CREDENTIAL_PREFIX @ r" using n(3) by (auto simp: starts_with_iff)
    then have "starts_with (encode_utf16 CREDENTIAL_PREFIX) (encode_utf16 n)"
      using ascii_append [OF prefix_ascii(1)] by simp
    then have "encode_utf16 n \<in> cred_TargetName ` set (generic_credentials cs)"
      using n(2) by (intro assms(3)) simp_all
    then obtain c where c: "c \<in> set (generic_credentials cs)" "cred_TargetName c = encode_utf16 n"
      by auto
    have "enumerated_entry L A (Some c) = Some e"
      using c n e assms(2) [OF c(1)] units [OF c(1)]
      by (auto simp: enumerated_entry_Some to_string credential_blob_holds generic_credentials_def)
    then show "e \<in> set es" using c(1) by (auto simp: es_def enumerated_generic set_map_filter)
  qed
qed

lemma wincred_enumerate_wp:
  "wp (wincred_enumerate L A)
     (\<lambda>r w'. creds w' = creds w \<and> (healthy w \<longrightarrow> healthy w' \<and> is_ok r) \<and>
        (\<forall>es. r = Inr es \<longrightarrow> distinct (map fst es) \<and>
           set es = hide_secret_blob L ` {(n, b). is_utf8 n \<and> creds w (encode_utf16 n) = Some b \<and>
             starts_with CREDENTIAL_PREFIX n})) w"
  unfolding wincred_enumerate_def wp_simps
proof (rule wp_mono [OF cred_enumerate [OF prefix_ascii]], goal_cases)
  case (1 r w')
  have none: "{(n, b). is_utf8 n \<and> creds w (encode_utf16 n) = Some b \<and> starts_with CREDENTIAL_PREFIX n} = {}"
    if "\<forall>k. starts_with (encode_utf16 CREDENTIAL_PREFIX) k \<longrightarrow> creds w k = None"
    using that ascii_append [OF prefix_ascii(1)] by (auto simp: starts_with_iff)
  consider (failed) e where "r = Inl e" | (null) "r = Inr None" | (listed) cs where "r = Inr (Some cs)"
    by (cases r) auto
  then show ?case
  proof cases
    case (failed e)
    then show ?thesis using 1 none by (auto simp: wp_simps is_not_found_def)
  next
    case null
    then show ?thesis using 1 by (auto simp: wp_simps)
  next
    case (listed cs)
    then show ?thesis
      using 1 enumerated_entries [of cs w]
      by (auto simp: wp_def act_simps scoped_def free_same)
  qed
qed

text \<open>The operations of the backend on the store of named blobs.\<close>

lemma backend_read_wp:
  assumes "unclashed_target (wc_world s) t"
  shows "wp (b_read (WinCredBackend L A) t)
      (\<lambda>r s'. wc_guards s' = wc_guards s \<and> creds (wc_world s') = creds (wc_world s) \<and>
         wincred_store creds s' = wincred_store creds s \<and>
         (healthy (wc_world s) \<longrightarrow> healthy (wc_world s') \<and> is_ok r) \<and>
         (\<forall>v. r = Inr v \<longrightarrow> v = wincred_store creds s (target_to_string L t))) s"
  by (simp add: WinCredBackend_def wp_win32)
     (rule wp_mono [OF wincred_read_wp [OF assms]], auto simp: store_same store_target)

lemma backend_write_wp:
  assumes "unclashed_target (wc_world s) t"
  shows "wp (b_write (WinCredBackend L A) t b)
      (\<lambda>r s'. wc_guards s' = wc_guards s \<and>
         (healthy (wc_world s) \<longrightarrow> healthy (wc_world s') \<and> (length b \<le> MAX_SECRET_BYTES \<longrightarrow> is_ok r)) \<and>
         creds (wc_world s') =
           (if is_ok r then (creds (wc_world s))(units_of (wide_target L t) \<mapsto> b) else creds (wc_world s)) \<and>
         wincred_store creds s' =
           (if is_ok r then (wincred_store creds s)(target_to_string L t \<mapsto> b) else wincred_store creds s)) s"
  by (simp add: WinCredBackend_def wp_win32)
     (rule wp_mono [OF wincred_write_wp [OF assms]], auto simp: store_same store_update)

lemma backend_delete_wp:
  assumes "unclashed_target (wc_world s) t"
  shows "wp (b_delete (WinCredBackend L A) t)
      (\<lambda>r s'. wc_guards s' = wc_guards s \<and> (healthy (wc_world s) \<longrightarrow> healthy (wc_world s') \<and> is_ok r) \<and>
         creds (wc_world s') =
           (if is_ok r then (creds (wc_world s))(units_of (wide_target L t) := None) else creds (wc_world s)) \<and>
         wincred_store creds s' =
           (if is_ok r then (wincred_store creds s)(target_to_string L t := None) else wincred_store creds s)) s"
  by (simp add: WinCredBackend_def wp_win32)
     (rule wp_mono [OF wincred_delete_wp [OF assms]], auto simp: store_same store_update)

lemma backend_enumerate_wp:
  "wp (b_enumerate (WinCredBackend L A))
      (\<lambda>r s'. wc_guards s' = wc_guards s \<and> creds (wc_world s') = creds (wc_world s) \<and>
         wincred_store creds s' = wincred_store creds s \<and>
         (healthy (wc_world s) \<longrightarrow> healthy (wc_world s') \<and> is_ok r) \<and>
         (\<forall>es. r = Inr es \<longrightarrow> distinct (map fst es) \<and>
            set es = hide_secret_blob L `
              {(n, b). wincred_store creds s n = Some b \<and> starts_with CREDENTIAL_PREFIX n})) s"
proof -
  have "{(n, b). is_utf8 n \<and> creds (wc_world s) (encode_utf16 n) = Some b \<and> starts_with CREDENTIAL_PREFIX n} =
      {(n, b). wincred_store creds s n = Some b \<and> starts_with CREDENTIAL_PREFIX n}"
    by (auto simp: wincred_store_def split: if_splits)
  then show ?thesis
    by (simp add: WinCredBackend_def wp_win32)
       (rule wp_mono [OF wincred_enumerate_wp], auto simp: store_same)
qed

lemma backend_acquire:
  assumes "acquire_lock (WinCredBackend L A) s = Some (r, s')"
  shows "creds (wc_world s') = creds (wc_world s) \<and> wincred_store creds s' = wincred_store creds s \<and>
      (healthy (wc_world s) \<longrightarrow> healthy (wc_world s') \<and> is_ok r) \<and>
      length (wc_guards s') = (if is_ok r then Suc (length (wc_guards s)) else length (wc_guards s))"
  using assms take_mutex_stays [of "wc_world s"]
  by (auto simp: WinCredBackend_def wincred_acquire_lock_def on_win32_def wp_def stays_def wincred_store_def fun_eq_iff
      split: prod.splits sum.splits)

lemma backend_release:
  "creds (wc_world (release_lock (WinCredBackend L A) s)) = creds (wc_world s) \<and>
   wincred_store creds (release_lock (WinCredBackend L A) s) = wincred_store creds s \<and>
   (healthy (wc_world s) \<longrightarrow> healthy (wc_world (release_lock (WinCredBackend L A) s))) \<and>
   length (wc_guards (release_lock (WinCredBackend L A) s)) = length (wc_guards s) - 1"
  using drops(2,3)
  by (auto simp: WinCredBackend_def wincred_release_lock_def MutexLock_drop_def neutral_drop_def wincred_store_def
      fun_eq_iff split: list.splits)

end

text \<open>
  Target names the Credential Manager tells apart. This holds of the names of collections and
  items, which are in lower case; for aliases it depends on their encoding, and the base64 letters
  of two aliases may differ in case only.
\<close>

locale wincred_separated = wincred_host A norm creds healthy L
  for A :: "'w win32" and norm :: "u16 list \<Rightarrow> 'k" and creds healthy and L :: "'x text_lib_scheme" +
  assumes separated: "norm (units_of (wide_target L t)) = norm (units_of (wide_target L t')) \<Longrightarrow> t = t'"
begin

definition unclashed_all :: "'w wincred \<Rightarrow> bool" where
  "unclashed_all s \<longleftrightarrow> (\<forall>t. unclashed_target (wc_world s) t)"

lemma unclashed_all_update:
  assumes "unclashed_all s" and "creds (wc_world s') = (creds (wc_world s))(units_of (wide_target L t) := v)"
  shows "unclashed_all s'"
  using assms by (auto simp: unclashed_all_def unclashed_target_def unclashed_def dest!: separated split: if_splits)

lemma unclashed_all_same:
  "unclashed_all s \<Longrightarrow> creds (wc_world s') = creds (wc_world s) \<Longrightarrow> unclashed_all s'"
  by (simp add: unclashed_all_def unclashed_target_def)

lemma unclashed_allD: "unclashed_all s \<Longrightarrow> unclashed_target (wc_world s) t"
  by (simp add: unclashed_all_def)

lemma wincred_vault_backend:
  "vault_backend L (WinCredBackend L A) (wincred_store creds) unclashed_all (\<lambda>s. healthy (wc_world s))
     (\<lambda>s. length (wc_guards s))"
proof (unfold_locales, goal_cases)
  case (1 s t)
  then show ?case
    by (intro wp_mono [OF backend_read_wp [OF unclashed_allD]]) (auto intro: unclashed_all_same)
next
  case (2 s t b)
  then show ?case
    by (intro wp_mono [OF backend_write_wp [OF unclashed_allD]])
       (auto intro: unclashed_all_same unclashed_all_update split: if_splits)
next
  case (3 s t)
  then show ?case
    by (intro wp_mono [OF backend_delete_wp [OF unclashed_allD]])
       (auto intro: unclashed_all_same unclashed_all_update split: if_splits)
next
  case (4 s)
  then show ?case by (intro wp_mono [OF backend_enumerate_wp]) (auto intro: unclashed_all_same)
next
  case (5 s r s')
  then show ?case using backend_acquire [OF 5(2)] unclashed_all_same by blast
next
  case (6 s)
  then show ?case by (simp add: WinCredBackend_def wincred_acquire_lock_def)
next
  case (7 s)
  then show ?case using backend_release [of s] unclashed_all_same by blast
qed

end

end
