(* ===== verification/Reference_Wincred.thy ===== *)
theory Reference_Wincred
  imports Wincred_Backend Reference_Vault
begin

text \<open>
  A concrete Credential Manager that keeps the laws of \<open>credential_manager\<close>, for any comparison of
  names: a table of credentials by name, and whether another process holds the mutex. A write keeps
  the spelling of the credential it replaces. With the comparison that ignores the case of letters
  it stands for the one of Windows; where names are told apart exactly, the broker runs on it with
  everything shown of the broker on a backend.
\<close>

record cred_world =
  cw_table :: "(u16 list \<times> bytes) list"
  cw_busy :: bool

definition storable :: "u16 list \<times> bytes \<Rightarrow> bool" where
  "storable = (\<lambda>(k, b). 0 \<notin> set k \<and> length b < 2 ^ 32)"

definition cw_creds :: "cred_world \<Rightarrow> u16 list \<rightharpoonup> bytes" where
  "cw_creds w = map_of (filter storable (cw_table w))"

definition cw_credential :: "u16 list \<Rightarrow> bytes \<Rightarrow> CREDENTIALW" where
  "cw_credential k b =
     \<lparr>cred_Type = CRED_TYPE_GENERIC, cred_TargetName = k, cred_CredentialBlobSize = of_nat (length b),
      cred_CredentialBlob = Some b, cred_Persist = CRED_PERSIST_LOCAL_MACHINE\<rparr>"

definition cw_code :: "u32 \<Rightarrow> HRESULT" where
  "cw_code e = 0x80070000 + e"

definition cw_matches :: "u16 list \<Rightarrow> cred_world \<Rightarrow> CREDENTIALW option list" where
  "cw_matches flt w =
     map (\<lambda>k. Some (cw_credential k (the (cw_creds w k))))
       (filter (starts_with (take (length flt - 2) flt)) (remdups (map fst (filter storable (cw_table w)))))"

text \<open>The name a credential is stored under, if any spelling of it is.\<close>

definition cw_spelling :: "(u16 list \<Rightarrow> 'k) \<Rightarrow> cred_world \<Rightarrow> u16 list \<Rightarrow> u16 list option" where
  "cw_spelling norm w k = find (\<lambda>n. norm n = norm k) (map fst (filter storable (cw_table w)))"

definition cw_without :: "(u16 list \<Rightarrow> 'k) \<Rightarrow> u16 list \<Rightarrow> cred_world \<Rightarrow> (u16 list \<times> bytes) list" where
  "cw_without norm k w = filter (\<lambda>(n, _). norm n \<noteq> norm k) (cw_table w)"

definition reference_win32 :: "(u16 list \<Rightarrow> 'k) \<Rightarrow> cred_world win32" where
  "reference_win32 norm =
     \<lparr>OpenProcessToken = act_return 1,
      TokenUserLength = \<lambda>_ w. (28, w),
      TokenUserSid = \<lambda>_ _. act_return [1, 2, 3],
      ConvertSidToStringSidW = \<lambda>_. act_return (2, encode_utf16 ''S-1-5-21-1''),
      ConvertStringSecurityDescriptor = \<lambda>_. act_return 3,
      LocalFree = \<lambda>_ w. w,
      CreateMutexW = \<lambda>_ _. act_return 4,
      WaitForSingleObject = \<lambda>_ _ w. (if cw_busy w then WAIT_TIMEOUT else WAIT_OBJECT_0, w),
      ReleaseMutex = \<lambda>_ w. w,
      CloseHandle = \<lambda>_ w. w,
      CredReadW = \<lambda>k _ w. (case cw_spelling norm w (units_of k) of
          None \<Rightarrow> Inl (cw_code ERROR_NOT_FOUND)
        | Some n \<Rightarrow> Inr (Some (cw_credential n (the (cw_creds w n)))), w),
      CredWriteW = \<lambda>c w.
        (if length (credential_blob c) \<le> MAX_SECRET_BYTES
         then (Inr (), w\<lparr>cw_table :=
           (case cw_spelling norm w (units_of (cred_TargetName c)) of
              None \<Rightarrow> units_of (cred_TargetName c) | Some n \<Rightarrow> n, credential_blob c) #
           cw_without norm (units_of (cred_TargetName c)) w\<rparr>)
         else (Inl (cw_code 1783), w)),
      CredDeleteW = \<lambda>k _ w.
        (if cw_spelling norm w (units_of k) = None then (Inl (cw_code ERROR_NOT_FOUND), w)
         else (Inr (), w\<lparr>cw_table := cw_without norm (units_of k) w\<rparr>)),
      CredEnumerateW = \<lambda>flt w.
        (if cw_matches flt w = [] then Inl (cw_code ERROR_NOT_FOUND) else Inr (Some (cw_matches flt w)), w),
      CredFree = \<lambda>_ w. w,
      pwstr_to_string = \<lambda>k. from_utf16 (units_of k),
      from_win32 = cw_code\<rparr>"

abbreviation cw_healthy :: "cred_world \<Rightarrow> bool" where
  "cw_healthy w \<equiv> \<not> cw_busy w"

lemma cw_creds_Some: "cw_creds w k = Some b \<Longrightarrow> 0 \<notin> set k \<and> length b < 2 ^ 32"
  by (auto simp: cw_creds_def storable_def dest!: map_of_SomeD)

lemma cw_credential_name [simp]: "cred_TargetName (cw_credential k b) = k"
  by (simp add: cw_credential_def)

lemma cw_credential_holds: "length b < 2 ^ 32 \<Longrightarrow> blob_holds (cw_credential k b) b"
  by (simp add: blob_holds_def cw_credential_def unat_of_nat)

lemma units_of_nonzero: "0 \<notin> set (units_of k)"
  by (auto simp: units_of_def dest: set_takeWhileD)

lemma find_found: "find Q xs = Some x \<Longrightarrow> Q x \<and> x \<in> set xs"
  by (induction xs) (auto split: if_splits)

lemma cw_spelling_Some:
  assumes "cw_spelling norm w k = Some n"
  shows "norm n = norm k" and "\<exists>b. cw_creds w n = Some b"
proof -
  have n: "norm n = norm k \<and> n \<in> fst ` set (filter storable (cw_table w))"
    using assms find_found [of "\<lambda>n. norm n = norm k"] unfolding cw_spelling_def set_map [symmetric] by blast
  then show "norm n = norm k" by simp
  from n show "\<exists>b. cw_creds w n = Some b" unfolding cw_creds_def by (metis map_of_eq_None_iff option.exhaust)
qed

lemma cw_spelling_None:
  assumes "cw_spelling norm w k = None" and "norm n = norm k"
  shows "cw_creds w n = None"
  using assms unfolding cw_spelling_def find_None_iff cw_creds_def map_of_eq_None_iff set_map by metis

lemma cw_without_creds: "map_of (filter storable (cw_without norm k w)) = other_names norm (cw_creds w) k"
proof -
  have "map_of (filter storable (filter (\<lambda>(n, _). norm n \<noteq> norm k) xs)) =
      (\<lambda>n. if norm n = norm k then None else map_of (filter storable xs) n)" for xs
    by (induction xs) (auto simp: fun_eq_iff)
  then show ?thesis by (simp add: cw_creds_def cw_without_def other_names_def)
qed

lemma generic_matches:
  "generic_credentials (cw_matches flt w) = map the (cw_matches flt w)"
proof -
  have "generic_credentials (map (\<lambda>k. Some (cw_credential k (f k))) ks) = map (\<lambda>k. cw_credential k (f k)) ks" for f ks
    by (induction ks) (simp_all add: generic_credentials_def List.map_filter_simps cw_credential_def)
  then show ?thesis by (simp add: cw_matches_def comp_def)
qed

lemma cw_matches_names:
  "map cred_TargetName (generic_credentials (cw_matches flt w)) =
   filter (starts_with (take (length flt - 2) flt)) (remdups (map fst (filter storable (cw_table w))))"
  unfolding generic_matches by (simp add: cw_matches_def comp_def cw_credential_def)

lemma cw_matches_keys: "cw_creds w k \<noteq> None \<longleftrightarrow> k \<in> set (remdups (map fst (filter storable (cw_table w))))"
  by (auto simp: cw_creds_def map_of_eq_None_iff)

lemma cw_matches_holds:
  assumes "c \<in> set (generic_credentials (cw_matches flt w))"
  shows "\<exists>b. cw_creds w (cred_TargetName c) = Some b \<and> blob_holds c b"
proof -
  obtain k where k: "k \<in> set (remdups (map fst (filter storable (cw_table w))))"
    and c: "c = cw_credential k (the (cw_creds w k))"
    using assms unfolding generic_matches by (auto simp: cw_matches_def)
  from k obtain b where b: "cw_creds w k = Some b" using cw_matches_keys by blast
  then show ?thesis using cw_creds_Some [OF b] cw_credential_holds c by simp
qed

lemma cw_filter:
  assumes "ascii_text p"
  shows "take (length (wide (p @ ''*'')) - 2) (wide (p @ ''*'')) = encode_utf16 p"
proof -
  have "encode_utf16 ''*'' = [42]"
    by (simp add: encode_utf16_def as_bytes_def byte_of_char_def utf16_units_def)
  then show ?thesis by (simp add: wide_def ascii_append [OF assms])
qed

lemma cw_enumerate_law:
  assumes "ascii_text p" and "cw_matches (wide (p @ ''*'')) w = cs"
  shows "distinct (map cred_TargetName (generic_credentials cs))"
    and "c \<in> set (generic_credentials cs) \<Longrightarrow> \<exists>b. cw_creds w (cred_TargetName c) = Some b \<and> blob_holds c b"
    and "starts_with (encode_utf16 p) k \<Longrightarrow> cw_creds w k \<noteq> None \<Longrightarrow>
      k \<in> cred_TargetName ` set (generic_credentials cs)"
proof -
  note names = cw_matches_names [of "wide (p @ ''*'')" w, unfolded cw_filter [OF assms(1)] assms(2)]
  show "distinct (map cred_TargetName (generic_credentials cs))" by (simp add: names)
  show "c \<in> set (generic_credentials cs) \<Longrightarrow> \<exists>b. cw_creds w (cred_TargetName c) = Some b \<and> blob_holds c b"
    using cw_matches_holds assms(2) by blast
  show "k \<in> cred_TargetName ` set (generic_credentials cs)"
    if "starts_with (encode_utf16 p) k" "cw_creds w k \<noteq> None"
    using that unfolding set_map [symmetric] names cw_matches_keys by simp
qed

lemma reference_sid: "from_utf16 (units_of (encode_utf16 ''S-1-5-21-1'')) \<noteq> None"
proof -
  have t: "ascii_text ''S-1-5-21-1''" by simp
  then have "units_of (encode_utf16 ''S-1-5-21-1'') = encode_utf16 ''S-1-5-21-1''"
    using ascii_units(2) by (fastforce simp: units_of_def takeWhile_eq_all_conv)
  then show ?thesis using from_utf16_iff [of _ "''S-1-5-21-1''"] ascii_units(1) [OF t] by auto
qed

lemma reference_credential_manager: "credential_manager (reference_win32 norm) norm cw_creds cw_healthy"
proof (unfold_locales, goal_cases)
  case (6 b w p k w')
  then show ?case using reference_sid by (simp add: reference_win32_def act_simps)
next
  case (15 k w)
  show ?case
  proof (cases "cw_spelling norm w (units_of k)")
    case None
    then show ?thesis using cw_spelling_None [OF None] by (simp add: reference_win32_def wp_def)
  next
    case (Some n)
    with cw_spelling_Some [OF Some] cw_creds_Some cw_credential_holds show ?thesis
      by (auto simp: reference_win32_def wp_def)
  qed
next
  case (16 c b w)
  then have b: "credential_blob c = b" by (simp add: credential_blob_holds)
  let ?k = "units_of (cred_TargetName c)"
  let ?n = "case cw_spelling norm w ?k of None \<Rightarrow> ?k | Some n \<Rightarrow> n"
  have n: "norm ?n = norm ?k" "?n = ?k \<or> cw_creds w ?n \<noteq> None" "0 \<notin> set ?n"
    using cw_spelling_Some [of norm w ?k] cw_creds_Some units_of_nonzero by (fastforce split: option.splits)+
  have "storable (?n, b)" if "length b \<le> MAX_SECRET_BYTES"
    using that n(3) by (simp add: storable_def limit_defs)
  then show ?case using b n
    by (auto simp: reference_win32_def wp_def cw_creds_def [of "cw_table_update f w" for f] cw_without_creds
        intro!: exI [of _ ?n])
next
  case (17 k w)
  then show ?case
    using cw_spelling_None [of norm w "units_of k"]
    by (auto simp: reference_win32_def wp_def cw_creds_def [of "cw_table_update f w" for f] cw_without_creds)
next
  case (18 p w)
  note law = cw_enumerate_law [OF 18(1) refl, where w = w]
  have "cw_creds w k = None" if "cw_matches (wide (p @ ''*'')) w = []" "starts_with (encode_utf16 p) k" for k
    using law(3) [OF that(2)] that(1) by (cases "cw_creds w k") (auto simp: generic_credentials_def List.map_filter_simps)
  then show ?case using law by (auto simp: reference_win32_def wp_def)
next
  case (19 w k)
  then show ?case using cw_creds_Some by blast
next
  case (20 k s)
  then show ?case by (simp add: reference_win32_def from_utf16_iff)
qed (auto simp: reference_win32_def neutral_def neutral_drop_def stays_def wp_def act_simps win32_constants)

text \<open>The comparison of Windows, on the letters of target names.\<close>

definition lower_unit :: "u16 \<Rightarrow> u16" where
  "lower_unit u = (if 65 \<le> u \<and> u \<le> 90 then u + 32 else u)"

interpretation ref_win32: credential_manager "reference_win32 (map lower_unit)" "map lower_unit" cw_creds cw_healthy
  by (rule reference_credential_manager)

text \<open>The reference text formats are ASCII.\<close>

lemma ascii_subset: "set s \<subseteq> set xs \<Longrightarrow> ascii_text xs \<Longrightarrow> ascii_text s"
  by (auto simp: ascii_text_def list_all_iff)

lemma reference_ascii: "ascii_text (uuid_to_string reference_lib u)" "ascii_text (b64_encode reference_lib b)"
proof -
  have "hex_char d \<in> set hex_chars" if "d \<in> set (digits 16 32 (unat u))" for d
    using digits_less [of 16 d] that hex_chars_props(1) by (auto simp: hex_char_def intro!: nth_mem)
  then have "set (uuid_hex u) \<subseteq> set hex_chars" by (auto simp: uuid_hex_def)
  then have "set (hyphenate (uuid_hex u)) \<subseteq> set (CHR ''-'' # hex_chars)"
    by (auto simp: hyphenate_def dest!: in_set_takeD in_set_dropD)
  moreover have "ascii_text (CHR ''-'' # hex_chars)" by (simp add: hex_chars_def)
  ultimately show "ascii_text (uuid_to_string reference_lib u)"
    using ascii_subset [of "hyphenate (uuid_hex u)" "CHR ''-'' # hex_chars"] by (simp add: reference_lib_def)
  have "b64_char v \<in> set b64_chars" if "v \<in> set (b64_enc (map unat b))" for v
    using b64_enc_less [OF _ that] unat_u8_less
    by (auto simp: b64_char_def b64_chars_props intro!: nth_mem)
  then have "set (base64_encode b) \<subseteq> set b64_chars" by (auto simp: base64_encode_def)
  moreover have "ascii_text b64_chars" by (simp add: b64_chars_def)
  ultimately show "ascii_text (b64_encode reference_lib b)" using ascii_subset by (simp add: reference_lib_def)
qed

interpretation ref_wincred: wincred_host "reference_win32 (map lower_unit)" "map lower_unit" cw_creds cw_healthy reference_lib
  by (intro wincred_host.intro wincred_host_axioms.intro reference_credential_manager reference_ascii)

lemma reference_separated: "wincred_separated (reference_win32 id) id cw_creds cw_healthy reference_lib"
proof -
  have host: "wincred_host (reference_win32 id) id cw_creds cw_healthy reference_lib"
    by (intro wincred_host.intro wincred_host_axioms.intro reference_credential_manager reference_ascii)
  have "t = t'" if "id (units_of (wide_target reference_lib t)) = id (units_of (wide_target reference_lib t'))" for t t'
  proof -
    have "encode_utf16 (target_to_string reference_lib t) = encode_utf16 (target_to_string reference_lib t')"
      using that ascii_units(3) [OF wincred_host.target_ascii [OF host]] by (simp add: wide_target_def)
    then have "target_to_string reference_lib t = target_to_string reference_lib t'"
      using ascii_units(1) [OF wincred_host.target_ascii [OF host]] from_utf16_iff by (metis option.inject)
    then show ?thesis by (simp add: ref_lib.to_string_inj)
  qed
  then show ?thesis by (intro wincred_separated.intro host wincred_separated_axioms.intro)
qed

interpretation ref_wincred_exact: wincred_separated "reference_win32 id" id cw_creds cw_healthy reference_lib
  by (rule reference_separated)

interpretation ref_wincred_vault: vault reference_lib "WinCredBackend reference_lib (reference_win32 id)"
    "wincred_store cw_creds" ref_wincred_exact.unclashed_all "\<lambda>s. cw_healthy (wc_world s)" "\<lambda>s. length (wc_guards s)"
  by (rule vault.intro [OF ref_wincred_exact.wincred_vault_backend ref_lib.broker_lib_laws_axioms])

text \<open>Two aliases whose names the Credential Manager of Windows takes for one.\<close>

lemma alias_base64: "base64_encode (as_bytes ''aaa'') = ''YWFh''" "base64_encode (as_bytes ''aaG'') = ''YWFH''"
  by code_simp+

lemma alias_names_clash:
  "map lower_unit (encode_utf16 (target_to_string reference_lib (TargetName.Alias ''aaa''))) =
   map lower_unit (encode_utf16 (target_to_string reference_lib (TargetName.Alias ''aaG'')))"
proof -
  have t: "target_to_string reference_lib (TargetName.Alias ''aaa'') = CREDENTIAL_PREFIX @ ''alias/'' @ ''YWFh''"
    "target_to_string reference_lib (TargetName.Alias ''aaG'') = CREDENTIAL_PREFIX @ ''alias/'' @ ''YWFH''"
    using alias_base64 by (simp_all add: target_to_string.simps reference_lib_def)
  have u: "encode_utf16 s = map (\<lambda>c. of_nat (of_char c)) s" if "ascii_text s" for s
    using ascii_utf16 [OF that, of "[]"] by (simp add: encode_utf16_def as_bytes_def)
  have "ascii_text (CREDENTIAL_PREFIX @ ''alias/'' @ ''YWFh'')" "ascii_text (CREDENTIAL_PREFIX @ ''alias/'' @ ''YWFH'')"
    by (simp_all add: prefix_ascii)
  then show ?thesis unfolding t by (simp only: u map_append) (simp add: lower_unit_def)
qed

end
