(* ===== verification/Process_Properties.thy ===== *)
theory Process_Properties
  imports Broker_Serve Reference_Wincred
begin

text \<open>
  The properties of the broker as a process: its loop over standard input and output, and the
  production backend it runs on.
\<close>

section \<open>Serving\<close>

text \<open>A codec that knows a single value, for the concrete instances below.\<close>

definition single_cbor :: "'a \<Rightarrow> 'a cbor" where
  "single_cbor v = \<lparr>cbor_ser = \<lambda>_. Inr [1], cbor_de = \<lambda>b. if b = [] then Inl ''eof'' else Inr (v, 1)\<rparr>"

lemma single_cbor_codec: "cbor_codec (single_cbor v) (\<lambda>x. x = v)"
  by unfold_locales (auto simp: single_cbor_def Suc_le_eq split: if_splits)

definition ping :: "Request Envelope" where
  "ping = Envelope_current \<lparr>req_request_id = 4, req_operation = Ping\<rparr>"

definition demo_hello :: "Hello Envelope" where
  "demo_hello = Envelope_current \<lparr>h_versions = VersionRange_current, h_capabilities = {}\<rparr>"

definition demo_stdio :: "(bytes, bytes) stdio" where
  "demo_stdio =
     \<lparr>io_stdin = pipe_reader, io_stdout = pipe_writer, io_hello = single_cbor demo_hello,
      io_ack = single_cbor (Envelope_current \<lparr>ack_version = 1, ack_capabilities = {}\<rparr>),
      io_request = single_cbor ping,
      io_response = single_cbor (Envelope_current \<lparr>resp_request_id = 4, resp_result = Inr Pong\<rparr>)\<rparr>"

text \<open>
  C30. The broker process ends: on a healthy backend whose lock is free, whatever bytes are sent to
  it and however the peer breaks off, it stops after its input, and what it did to the backend is a
  history of requests, to which the properties of such histories apply.
\<close>

theorem broker_main_terminates:
  assumes "vault L B store invar up held" and "io_stdin io = pipe_reader"
    and "\<And>b e n. cbor_de (io_request io) b = Inr (e, n) \<Longrightarrow> operation_value (req_operation (env_payload e))"
    and "invar (sv_backend st)" and "up (sv_backend st)" and "held (sv_backend st) = 0"
  shows "\<exists>r t. broker_main L B io st = Some (r, t) \<and> broker_run L B (sv_backend st) (sv_backend t)"
  by (rule vault.broker_main_returns [OF assms])

theorem broker_main_terminates_witness:
  "\<exists>r t. broker_main reference_lib (WinCredBackend reference_lib (reference_win32 id)) demo_stdio
     \<lparr>sv_in = [0, 0, 0, 1, 1, 0, 0, 0, 1, 1, 7], sv_out = [],
      sv_backend = \<lparr>wc_world = \<lparr>cw_table = [], cw_busy = False\<rparr>, wc_guards = []\<rparr>\<rparr> = Some (r, t)"
  (is "\<exists>r t. broker_main ?L ?B _ ?st = Some (r, t)")
proof -
  have "operation_value (req_operation (env_payload e))" if "cbor_de (io_request demo_stdio) b = Inr (e, n)" for b e n
    using that by (auto simp: demo_stdio_def single_cbor_def ping_def Envelope_current_def split: if_splits)
  then have "\<exists>r t. broker_main ?L ?B demo_stdio ?st = Some (r, t) \<and> broker_run ?L ?B (sv_backend ?st) (sv_backend t)"
    by (intro broker_main_terminates [OF ref_wincred_vault.vault_axioms])
       (auto simp: demo_stdio_def ref_wincred_exact.unclashed_all_def ref_wincred_exact.unclashed_target_def
         unclashed_def cw_creds_def)
  then show ?thesis by blast
qed

text \<open>
  C31. Requests are answered in their order, each once and under its own number: when a client has
  written its greeting and a list of requests and closed the pipe, the broker writes the
  acknowledgement and then exactly the answers that executing the requests one after the other
  gives, and stops without an error.
\<close>

theorem serve_answers_in_order:
  assumes "io_stdin io = pipe_reader" and "cbor_codec (io_hello io) hello_ok" and "cbor_codec (io_request io) request_ok"
    and "hello_ok hello" and "\<And>e. e \<in> set es \<Longrightarrow> request_ok e"
    and "write_frame pipe_writer (io_hello io) hello [] = (Inr (), greeting)"
    and "act_iter (write_frame pipe_writer (io_request io)) es greeting = (Inr (), sv_in st)"
    and "env_version hello = PROTOCOL_VERSION"
    and "negotiate (env_payload hello) VersionRange_current broker_capabilities = Inr ack"
    and "answers L B (ack_version ack) es (sv_backend st) = Some (rs, s)"
    and "write_frame (io_stdout io) (io_ack io) (Envelope_current ack) (sv_out st) = (Inr (), out)"
    and "act_iter (write_frame (io_stdout io) (io_response io)) (map Envelope_current rs) out = (Inr (), out')"
  shows "serve L B io st = Some (Inr (), \<lparr>sv_in = [], sv_out = out', sv_backend = s\<rparr>) \<and>
    map resp_request_id rs = map (\<lambda>e. req_request_id (env_payload e)) es"
proof -
  obtain p where p: "cbor_ser (io_hello io) hello = Inr p" "length p \<le> MAX_FRAME_SIZE" "greeting = frame_bytes p"
    using wpD [OF pipe_out.write_frame_bytes assms(6)] by auto
  obtain ps where ps: "list_all2 (\<lambda>e p. cbor_ser (io_request io) e = Inr p \<and> length p \<le> MAX_FRAME_SIZE) es ps"
    and "sv_in st = frame_bytes p @ concat (map frame_bytes ps)"
    using wpD [OF pipe_out.write_frames_bytes assms(7)] p(3) by auto
  then have "read_frame pipe_reader (io_hello io) (sv_in st) = (Inr hello, concat (map frame_bytes ps))"
    using read_frame_next [OF assms(2,4) p(1,2)] by simp
  then have "handshake io st = (Inr ack, st\<lparr>sv_in := concat (map frame_bytes ps), sv_out := out\<rparr>)"
    using assms(1,8,9,11) by (simp add: handshake_def act_simps on_in_run on_out_run validate_version_def)
  moreover have "serve_loop L B io (ack_version ack) (st\<lparr>sv_in := concat (map frame_bytes ps), sv_out := out\<rparr>) =
      Some (Inr (), \<lparr>sv_in = [], sv_out = out', sv_backend = s\<rparr>)"
  proof (rule serve_loop_answers [OF assms(1,3)])
    show "list_all2 (\<lambda>e p. request_ok e \<and> cbor_ser (io_request io) e = Inr p \<and> length p \<le> MAX_FRAME_SIZE) es ps"
      using ps by (rule list.rel_mono_strong) (simp add: assms(5))
  qed (use assms(10,12) in simp_all)
  ultimately show ?thesis using answers_numbers [OF assms(10)] by (simp add: serve_def)
qed

theorem serve_answers_in_order_witness:
  "\<exists>t. serve reference_lib (InMemoryBackend reference_lib) demo_stdio
     \<lparr>sv_in = [0, 0, 0, 1, 1, 0, 0, 0, 1, 1], sv_out = [], sv_backend = MemoryData_default\<rparr> =
   Some (Inr (), \<lparr>sv_in = [], sv_out = [0, 0, 0, 1, 1, 0, 0, 0, 1, 1], sv_backend = t\<rparr>)"
proof -
  let ?st = "\<lparr>sv_in = [0, 0, 0, 1, 1, 0, 0, 0, 1, 1], sv_out = [], sv_backend = MemoryData_default\<rparr>
    :: (bytes, bytes, MemoryData) serving"
  let ?ack = "\<lparr>ack_version = 1, ack_capabilities = {}\<rparr>"
  have w: "write_frame pipe_writer (single_cbor v) x b = (Inr (), b @ [0, 0, 0, 1, 1])" for v x :: 'v and b
    by (simp add: write_frame_def single_cbor_def pipe_writer_def pipe_put_def act_simps MAX_FRAME_SIZE_def u32_to_be_def)
  have n: "negotiate (env_payload demo_hello) VersionRange_current broker_capabilities = Inr ?ack"
    by (simp add: negotiate_def demo_hello_def Envelope_current_def VersionRange_current_def PROTOCOL_VERSION_def)
  obtain t where a: "answers reference_lib (InMemoryBackend reference_lib) (ack_version ?ack) [ping] (sv_backend ?st) =
      Some ([\<lparr>resp_request_id = 4, resp_result = Inr Pong\<rparr>], t)"
    by (simp add: answer_request_def ping_def Envelope_current_def PROTOCOL_VERSION_def execute_def with_lock_def
        InMemoryBackend_def memory_acquire_lock_def MemoryData_default_def act_simps)
  show ?thesis
    using serve_answers_in_order [of demo_stdio "\<lambda>x. x = demo_hello" "\<lambda>x. x = ping" demo_hello "[ping]"
        "[0, 0, 0, 1, 1]" ?st ?ack, OF _ _ _ _ _ _ _ _ n a]
    by (simp add: demo_stdio_def w single_cbor_codec act_simps demo_hello_def [THEN arg_cong, of env_version]
        Envelope_current_def)
qed


section \<open>The production backend\<close>

text \<open>
  C32. The Windows backend is a store of named blobs, whatever spellings the Credential Manager takes
  for one name (\<open>norm\<close>), at every target that no credential is stored under another spelling of: a
  read gives the blob of this target or none, a write and a deletion change this target and nothing
  else, and an operation that reports an error has changed nothing. An enumeration lists the
  namespace of the project exactly, without secrets; the lock guards are balanced; and from a
  healthy state no operation within the size limit fails.
\<close>

theorem wincred_keeps_contract:
  assumes "credential_manager A norm creds healthy"
    and "\<And>u. ascii_text (uuid_to_string L u)" and "\<And>b. ascii_text (b64_encode L b)"
    and "\<And>n. creds (wc_world s) n \<noteq> None \<Longrightarrow> norm n = norm (encode_utf16 (target_to_string L t)) \<Longrightarrow>
      n = encode_utf16 (target_to_string L t)"
  shows "wp (b_read (WinCredBackend L A) t)
      (\<lambda>r s'. wincred_store creds s' = wincred_store creds s \<and> wc_guards s' = wc_guards s \<and>
         (healthy (wc_world s) \<longrightarrow> healthy (wc_world s') \<and> is_ok r) \<and>
         (\<forall>v. r = Inr v \<longrightarrow> v = wincred_store creds s (target_to_string L t))) s \<and>
    wp (b_write (WinCredBackend L A) t b)
      (\<lambda>r s'. wc_guards s' = wc_guards s \<and> wincred_store creds s' =
           (if is_ok r then (wincred_store creds s)(target_to_string L t \<mapsto> b) else wincred_store creds s) \<and>
         (healthy (wc_world s) \<longrightarrow> healthy (wc_world s') \<and> (length b \<le> MAX_SECRET_BYTES \<longrightarrow> is_ok r))) s \<and>
    wp (b_delete (WinCredBackend L A) t)
      (\<lambda>r s'. wc_guards s' = wc_guards s \<and> wincred_store creds s' =
           (if is_ok r then (wincred_store creds s)(target_to_string L t := None) else wincred_store creds s) \<and>
         (healthy (wc_world s) \<longrightarrow> healthy (wc_world s') \<and> is_ok r)) s \<and>
    wp (b_enumerate (WinCredBackend L A))
      (\<lambda>r s'. wincred_store creds s' = wincred_store creds s \<and> wc_guards s' = wc_guards s \<and>
         (healthy (wc_world s) \<longrightarrow> healthy (wc_world s') \<and> is_ok r) \<and>
         (\<forall>es. r = Inr es \<longrightarrow> distinct (map fst es) \<and> set es = hide_secret_blob L `
            {(n, b). wincred_store creds s n = Some b \<and> starts_with CREDENTIAL_PREFIX n})) s \<and>
    (\<forall>r s'. acquire_lock (WinCredBackend L A) s = Some (r, s') \<longrightarrow>
       wincred_store creds s' = wincred_store creds s \<and> (healthy (wc_world s) \<longrightarrow> is_ok r) \<and>
       length (wc_guards s') = (if is_ok r then Suc (length (wc_guards s)) else length (wc_guards s)) \<and>
       length (wc_guards (release_lock (WinCredBackend L A) s')) = length (wc_guards s') - 1)"
proof -
  have host: "wincred_host A norm creds healthy L"
    by (intro wincred_host.intro wincred_host_axioms.intro) (rule assms)+
  have units: "units_of (wide_target L t) = encode_utf16 (target_to_string L t)"
    using ascii_units(3) [OF wincred_host.target_ascii [OF host]] by (simp add: wide_target_def)
  have free: "wincred_host.unclashed_target norm creds L (wc_world s) t"
    using assms(4) by (simp add: wincred_host.unclashed_target_def [OF host] unclashed_def units)
  have lock: "wincred_store creds s' = wincred_store creds s \<and> (healthy (wc_world s) \<longrightarrow> is_ok r) \<and>
       length (wc_guards s') = (if is_ok r then Suc (length (wc_guards s)) else length (wc_guards s)) \<and>
       length (wc_guards (release_lock (WinCredBackend L A) s')) = length (wc_guards s') - 1"
    if "acquire_lock (WinCredBackend L A) s = Some (r, s')" for r s'
    using wincred_host.backend_acquire [OF host that] wincred_host.backend_release [OF host, of s'] by metis
  show ?thesis
    by (intro conjI allI impI wp_mono [OF wincred_host.backend_read_wp [OF host free]]
        wp_mono [OF wincred_host.backend_write_wp [OF host free]]
        wp_mono [OF wincred_host.backend_delete_wp [OF host free]]
        wp_mono [OF wincred_host.backend_enumerate_wp [OF host]])
       (auto dest: lock)
qed

theorem wincred_keeps_contract_witness:
  "fst (b_read (WinCredBackend reference_lib (reference_win32 (map lower_unit))) (TargetName.Collection 7)
     \<lparr>wc_world = \<lparr>cw_table = [(encode_utf16 (target_to_string reference_lib (TargetName.Collection 7)), [5])],
        cw_busy = False\<rparr>, wc_guards = []\<rparr>) = Inr (Some [5])"
proof -
  let ?n = "target_to_string reference_lib (TargetName.Collection 7)"
  let ?s = "\<lparr>wc_world = \<lparr>cw_table = [(encode_utf16 ?n, [5])], cw_busy = False\<rparr>, wc_guards = []\<rparr>"
  have n: "is_utf8 ?n" "0 \<notin> set (encode_utf16 ?n)"
    using ascii_units(1,2) [OF ref_wincred.target_ascii] by blast+
  then have c: "cw_creds (wc_world ?s) = [encode_utf16 ?n \<mapsto> [5]]" by (simp add: cw_creds_def storable_def fun_eq_iff)
  have free: "m = encode_utf16 ?n" if "cw_creds (wc_world ?s) m \<noteq> None" for m
    using that unfolding c by (auto split: if_splits)
  have "wp (b_read (WinCredBackend reference_lib (reference_win32 (map lower_unit))) (TargetName.Collection 7))
      (\<lambda>r s'. is_ok r \<and> (\<forall>v. r = Inr v \<longrightarrow> v = wincred_store cw_creds ?s ?n)) ?s"
    using wincred_keeps_contract [OF ref_win32.credential_manager_axioms reference_ascii free, THEN conjunct1]
    by (rule wp_mono) auto
  then show ?thesis using n c by (auto simp: wp_def is_ok_iff wincred_store_def)
qed

end
