(* ===== verification/Cli_Plan.thy ===== *)
theory Cli_Plan
  imports Target_Name "HOL-Library.Product_Lexorder"
begin

text \<open>
  The planning and parsing part of the management command (\<^verbatim>\<open>crates/cli/src/lib.rs\<close>): reading
  the output of \<^verbatim>\<open>wsl.exe\<close>, choosing a release, and enabling or disabling a distribution through
  the interface \<^verbatim>\<open>ProvisioningSystem\<close>, which is a parameter with the laws of the locale
  \<open>provisioning\<close>. Versions of releases come from the crate \<^verbatim>\<open>semver\<close>: a linearly ordered type
  and its parser.
\<close>

section \<open>Text\<close>

text \<open>The characters with the property \<open>White_Space\<close>, in UTF-8.\<close>

definition white_space :: "string list" where
  "white_space =
     [[CHR 0x09], [CHR 0x0A], [CHR 0x0B], [CHR 0x0C], [CHR 0x0D], [CHR 0x20],
      [CHR 0xC2, CHR 0x85], [CHR 0xC2, CHR 0xA0], [CHR 0xE1, CHR 0x9A, CHR 0x80]] @
     map (\<lambda>c. [CHR 0xE2, CHR 0x80, c])
       [CHR 0x80, CHR 0x81, CHR 0x82, CHR 0x83, CHR 0x84, CHR 0x85, CHR 0x86, CHR 0x87, CHR 0x88, CHR 0x89,
        CHR 0x8A, CHR 0xA8, CHR 0xA9, CHR 0xAF] @
     [[CHR 0xE2, CHR 0x81, CHR 0x9F], [CHR 0xE3, CHR 0x80, CHR 0x80]]"

function trim_by :: "string list \<Rightarrow> string \<Rightarrow> string" where
  "trim_by ws s =
     (case find (\<lambda>w. w \<noteq> [] \<and> starts_with w s) ws of
        Some w \<Rightarrow> trim_by ws (drop (length w) s)
      | None \<Rightarrow> s)"
  by pat_completeness auto
termination
  by (relation "measure (\<lambda>(ws, s). length s)") (auto simp: find_Some_iff starts_with_iff)

declare trim_by.simps [simp del]

definition trim_start :: "string \<Rightarrow> string" where
  "trim_start = trim_by white_space"

definition trim_end :: "string \<Rightarrow> string" where
  "trim_end s = rev (trim_by (map rev white_space) (rev s))"

definition trim :: "string \<Rightarrow> string" where
  "trim s = trim_end (trim_start s)"

definition trim_start_matches :: "string \<Rightarrow> string \<Rightarrow> string" where
  "trim_start_matches p = trim_by [p]"

definition trim_end_while :: "(char \<Rightarrow> bool) \<Rightarrow> string \<Rightarrow> string" where
  "trim_end_while p s = rev (dropWhile p (rev s))"

fun until_white :: "string \<Rightarrow> string" where
  "until_white [] = []"
| "until_white (c # s) =
     (if \<exists>w \<in> set white_space. starts_with w (c # s) then [] else c # until_white s)"

text \<open>\<^verbatim>\<open>split_whitespace().next().unwrap_or_default()\<close>\<close>

definition first_word :: "string \<Rightarrow> string" where
  "first_word s = until_white (trim_start s)"

text \<open>\<^verbatim>\<open>str::lines\<close>: a carriage return goes with the line feed after it, not with the end of the text.\<close>

definition strip_cr :: "string \<Rightarrow> string" where
  "strip_cr l = (if l \<noteq> [] \<and> last l = CHR 0x0D then butlast l else l)"

function lines :: "string \<Rightarrow> string list" where
  "lines s =
     (if s = [] then []
      else case dropWhile (\<lambda>c. c \<noteq> CHR 0x0A) s of
          [] \<Rightarrow> [s]
        | _ # rest \<Rightarrow> strip_cr (takeWhile (\<lambda>c. c \<noteq> CHR 0x0A) s) # lines rest)"
  by pat_completeness auto
termination
proof (relation "measure length")
  fix s :: string and x rest
  assume "dropWhile (\<lambda>c. c \<noteq> CHR 0x0A) s = x # rest"
  then have "length (x # rest) \<le> length s" using length_dropWhile_le by metis
  then show "(rest, s) \<in> measure length" by simp
qed simp

declare lines.simps [simp del]

text \<open>\<^verbatim>\<open>u32::from_str\<close>: an optional plus sign and at least one digit, refused on overflow.\<close>

definition decimal_value :: "string \<Rightarrow> nat" where
  "decimal_value s = foldl (\<lambda>n c. n * 10 + (of_char c - 48)) 0 s"

definition parse_u32 :: "string \<Rightarrow> u32 option" where
  "parse_u32 s =
     (let ds = (case s of c # r \<Rightarrow> if c = CHR ''+'' then r else s | [] \<Rightarrow> []) in
      if ds = [] \<or> \<not> list_all is_ascii_digit ds then None
      else if decimal_value ds < 2 ^ 32 then Some (of_nat (decimal_value ds)) else None)"


section \<open>The version of WSL\<close>

record WslVersion =
  major :: u32
  minor :: u32
  patch :: u32

definition MINIMUM_WSL_VERSION :: WslVersion where
  "MINIMUM_WSL_VERSION = \<lparr>major = 2, minor = 5, patch = 1\<rparr>"

definition WslVersion_to_string :: "WslVersion \<Rightarrow> string" where
  "WslVersion_to_string v =
     show_nat (unat (major v)) @ ''.'' @ show_nat (unat (minor v)) @ ''.'' @ show_nat (unat (patch v))"

datatype Ordering = Less | Equal | Greater

text \<open>The derived order compares the fields in their order.\<close>

definition compare_versions :: "WslVersion \<Rightarrow> WslVersion \<Rightarrow> Ordering" where
  "compare_versions actual minimum =
     (let a = (major actual, minor actual, patch actual); m = (major minimum, minor minimum, patch minimum)
      in if a < m then Less else if a = m then Equal else Greater)"

datatype ParseError = NoWslVersion | InvalidWslVersion string

fun ParseError_to_string :: "ParseError \<Rightarrow> string" where
  "ParseError_to_string NoWslVersion = ''WSL version output did not contain a version''"
| "ParseError_to_string (InvalidWslVersion v) = ''invalid WSL version '' @ [CHR 0x27] @ v @ [CHR 0x27]"

definition parse_version_line :: "string \<Rightarrow> WslVersion option" where
  "parse_version_line line =
     (let normalized_line = map to_ascii_lower line in
      if \<not> contains_str ''wsl'' normalized_line \<or> \<not> contains_str ''version'' normalized_line then None
      else
        let candidate = trim_start_matches ''v'' (trim
              (case dropWhile (\<lambda>c. c \<noteq> CHR '':'') line of [] \<Rightarrow> line | _ # v \<Rightarrow> v))
        in if \<not> (case candidate of [] \<Rightarrow> False | c # _ \<Rightarrow> is_ascii_digit c) then None
        else
          let numeric = trim_end_while (\<lambda>c. \<not> is_ascii_digit c \<and> c \<noteq> CHR ''.'') (first_word candidate);
              components = split_char (CHR ''.'') numeric
          in if \<not> (2 \<le> length components \<and> length components \<le> 4) then None
          else case those (map parse_u32 components) of
              Some parsed \<Rightarrow>
                Some \<lparr>major = parsed ! 0, minor = parsed ! 1,
                      patch = if 2 < length parsed then parsed ! 2 else 0\<rparr>
            | None \<Rightarrow> None)"

fun parse_version_lines :: "string list \<Rightarrow> ParseError + WslVersion" where
  "parse_version_lines [] = Inl NoWslVersion"
| "parse_version_lines (line # rest) =
     (case parse_version_line line of Some v \<Rightarrow> Inr v | None \<Rightarrow> parse_version_lines rest)"

definition parse_wsl_version :: "string \<Rightarrow> ParseError + WslVersion" where
  "parse_wsl_version text = parse_version_lines (lines text)"

definition BYTE_ORDER_MARK :: string where
  "BYTE_ORDER_MARK = bytes_to_str [0xEF, 0xBB, 0xBF]"

definition parse_wsl_distribution_names :: "string \<Rightarrow> string list" where
  "parse_wsl_distribution_names text =
     filter (\<lambda>line. line \<noteq> [])
       (map (\<lambda>line. trim_start_matches BYTE_ORDER_MARK (trim_end_while (\<lambda>c. c = CHR 0x0D) line)) (lines text))"


section \<open>Conflicts and releases\<close>

record Conflict =
  conflict_path :: string
  project_owned :: bool

datatype ConflictDecision = Proceed | ReplaceAndBackup | Refuse

definition conflict_decision :: "Conflict list \<Rightarrow> bool \<Rightarrow> ConflictDecision" where
  "conflict_decision conflicts replace =
     (if list_all project_owned conflicts then Proceed
      else if replace then ReplaceAndBackup
      else Refuse)"

record ReleaseCandidate =
  rc_tag_name :: string
  rc_draft :: bool
  rc_prerelease :: bool

record 'v AvailableRelease =
  ar_tag_name :: string
  ar_version :: 'v

definition version_text :: "string \<Rightarrow> string" where
  "version_text tag =
     (case strip_prefix ''v'' tag of
        Some s \<Rightarrow> s
      | None \<Rightarrow> (case strip_prefix ''V'' tag of Some s \<Rightarrow> s | None \<Rightarrow> tag))"

text \<open>\<^verbatim>\<open>Iterator::max_by\<close> keeps the last of several greatest elements.\<close>

definition max_by_version :: "('v::linorder) AvailableRelease list \<Rightarrow> 'v AvailableRelease option" where
  "max_by_version rs =
     fold (\<lambda>y best. case best of
         None \<Rightarrow> Some y
       | Some x \<Rightarrow> if ar_version y < ar_version x then Some x else Some y) rs None"

definition newest_public_release ::
  "(string \<Rightarrow> ('v::linorder) option) \<Rightarrow> ReleaseCandidate list \<Rightarrow> bool \<Rightarrow> 'v AvailableRelease option" where
  "newest_public_release version_parse releases include_prereleases =
     max_by_version
       (List.map_filter
          (\<lambda>release. map_option (\<lambda>v. \<lparr>ar_tag_name = rc_tag_name release, ar_version = v\<rparr>)
             (version_parse (version_text (rc_tag_name release))))
          (filter (\<lambda>release. \<not> rc_draft release \<and> (include_prereleases \<or> \<not> rc_prerelease release)) releases))"


section \<open>Findings of the doctor\<close>

record DoctorFinding =
  df_check :: string
  df_ok :: bool
  df_warning :: bool
  df_detail :: string
  df_remedy :: "string option"

definition DoctorFinding_ok :: "string \<Rightarrow> string \<Rightarrow> DoctorFinding" where
  "DoctorFinding_ok check detail =
     \<lparr>df_check = check, df_ok = True, df_warning = False, df_detail = detail, df_remedy = None\<rparr>"

definition DoctorFinding_warning :: "string \<Rightarrow> string \<Rightarrow> string \<Rightarrow> DoctorFinding" where
  "DoctorFinding_warning check detail remedy =
     \<lparr>df_check = check, df_ok = True, df_warning = True, df_detail = detail, df_remedy = Some remedy\<rparr>"

definition DoctorFinding_fail :: "string \<Rightarrow> string \<Rightarrow> string \<Rightarrow> DoctorFinding" where
  "DoctorFinding_fail check detail remedy =
     \<lparr>df_check = check, df_ok = False, df_warning = False, df_detail = detail, df_remedy = Some remedy\<rparr>"


section \<open>Enabling and disabling a distribution\<close>

definition BACKSLASH :: string where
  "BACKSLASH = [CHR 0x5C]"

definition DISTRIBUTION_ENABLEMENT_PREFIX :: string where
  "DISTRIBUTION_ENABLEMENT_PREFIX =
     ''Software'' @ BACKSLASH @ ''wincred-libsecret'' @ BACKSLASH @ ''WSLPlugin'' @ BACKSLASH @
     ''Distributions'' @ BACKSLASH"

definition DISTRIBUTION_ENABLEMENT_VALUE :: string where
  "DISTRIBUTION_ENABLEMENT_VALUE = ''Enabled''"

definition PLUGIN_REGISTRY_PATH :: string where
  "PLUGIN_REGISTRY_PATH =
     ''SOFTWARE'' @ BACKSLASH @ ''Microsoft'' @ BACKSLASH @ ''Windows'' @ BACKSLASH @ ''CurrentVersion'' @ BACKSLASH @
     ''Lxss'' @ BACKSLASH @ ''Plugins''"

definition PLUGIN_VALUE_NAME :: string where
  "PLUGIN_VALUE_NAME = ''wincred-libsecret-wsl-plugin''"

definition distribution_registry_path :: "'x text_lib_scheme \<Rightarrow> uuid \<Rightarrow> string" where
  "distribution_registry_path L uid = DISTRIBUTION_ENABLEMENT_PREFIX @ ''{'' @ uuid_to_string L uid @ ''}''"

record CommandResult =
  cr_success :: bool
  cr_stdout :: string
  cr_stderr :: string

record ('s, 'e) provisioning_system =
  run :: "string \<Rightarrow> string list \<Rightarrow> ('s, 'e, CommandResult) act"
  registry_dword :: "string \<Rightarrow> string \<Rightarrow> 's \<Rightarrow> 'e + u32 option"
  set_registry_dword :: "string \<Rightarrow> string \<Rightarrow> u32 \<Rightarrow> ('s, 'e, unit) act"
  remove_registry_tree :: "string \<Rightarrow> ('s, 'e, unit) act"
  file_exists :: "string \<Rightarrow> 's \<Rightarrow> 'e + bool"

datatype 'e ProvisioningError = Command string | System 'e

record LifecycleState =
  ls_enabled :: bool
  ls_provisioned :: bool

datatype EnablePlan = NoChange | ProvisionAndEnable | EnableOnly

definition enable_plan :: "LifecycleState \<Rightarrow> EnablePlan" where
  "enable_plan state =
     (if \<not> ls_provisioned state then ProvisionAndEnable
      else if ls_enabled state then NoChange
      else EnableOnly)"

definition enable_with ::
  "'x text_lib_scheme \<Rightarrow> ('s, 'e) provisioning_system \<Rightarrow> string \<Rightarrow> uuid \<Rightarrow> string list \<Rightarrow> string \<Rightarrow>
   ('s, 'e ProvisioningError, EnablePlan) act" where
  "enable_with L S distribution distribution_id provision_args provisioned_marker =
     (let registry_key = distribution_registry_path L distribution_id in
      act_bind (act_map_err System (look (registry_dword S registry_key DISTRIBUTION_ENABLEMENT_VALUE))) (\<lambda>v.
      act_bind (act_map_err System (look (file_exists S provisioned_marker))) (\<lambda>provisioned.
      let plan = enable_plan \<lparr>ls_enabled = (case v of Some x \<Rightarrow> x \<noteq> 0 | None \<Rightarrow> False), ls_provisioned = provisioned\<rparr> in
      act_bind
        (if plan = ProvisionAndEnable then
           act_bind (act_map_err System (run S ''wsl.exe'' provision_args)) (\<lambda>result.
           if \<not> cr_success result then
             act_throw (Command (''could not provision '' @ [CHR 0x27] @ distribution @ [CHR 0x27] @ '': '' @
               trim (cr_stderr result)))
           else act_return ())
         else act_return ()) (\<lambda>_.
      act_bind
        (if plan \<noteq> NoChange
         then act_map_err System (set_registry_dword S registry_key DISTRIBUTION_ENABLEMENT_VALUE 1)
         else act_return ()) (\<lambda>_.
      act_return plan)))))"

definition disable_with ::
  "'x text_lib_scheme \<Rightarrow> ('s, 'e) provisioning_system \<Rightarrow> string \<Rightarrow> uuid \<Rightarrow> string list \<Rightarrow> string \<Rightarrow>
   ('s, 'e ProvisioningError, unit) act" where
  "disable_with L S distribution distribution_id disable_args provisioned_marker =
     act_bind (act_map_err System (look (file_exists S provisioned_marker))) (\<lambda>provisioned.
     act_bind
       (if provisioned then
          act_bind (act_map_err System (run S ''wsl.exe'' disable_args)) (\<lambda>result.
          if \<not> cr_success result then
            act_throw (Command (''could not disable '' @ [CHR 0x27] @ distribution @ [CHR 0x27] @ '': '' @
              trim (cr_stderr result)))
          else act_return ())
        else act_return ()) (\<lambda>_.
     act_map_err System (remove_registry_tree S (distribution_registry_path L distribution_id))))"


section \<open>Versions read back\<close>

lemma digit_char: "d < 10 \<Longrightarrow> is_ascii_digit (char_of (48 + d)) \<and> of_char (char_of (48 + d) :: char) = 48 + (d::nat)"
  by (simp add: is_ascii_digit_def less_eq_char_def)

lemma decimal_value_append: "decimal_value (s @ [c]) = decimal_value s * 10 + (of_char c - 48)"
  by (simp add: decimal_value_def)

lemma decimal_value_show: "decimal_value (show_nat n) = n"
proof (induction n rule: show_nat.induct)
  case (1 n)
  show ?case
  proof (cases "n < 10")
    case True
    then show ?thesis by (subst show_nat.simps) (simp add: decimal_value_def digit_char)
  next
    case False
    then show ?thesis using 1 by (subst show_nat.simps) (simp add: decimal_value_append digit_char)
  qed
qed

lemma show_nat_all_digits: "list_all is_ascii_digit (show_nat n)"
  using show_nat_digits digit_char by (fastforce simp: list_all_iff)

lemma parse_show: "parse_u32 (show_nat (unat w)) = Some w"
proof -
  have "unat w < 2 ^ 32" using unsigned_less [of w] by simp
  moreover have "\<not> is_ascii_digit (CHR ''+'')" by (simp add: is_ascii_digit_def less_eq_char_def)
  then have "(case show_nat n of c # r \<Rightarrow> if c = CHR ''+'' then r else show_nat n | [] \<Rightarrow> []) = show_nat n" for n
    using show_nat_all_digits [of n] by (auto split: list.splits)
  ultimately show ?thesis
    by (simp add: parse_u32_def decimal_value_show show_nat_all_digits)
qed

lemma trim_by_id: "(\<And>w. w \<in> set ws \<Longrightarrow> w \<noteq> [] \<Longrightarrow> \<not> starts_with w s) \<Longrightarrow> trim_by ws s = s"
  by (subst trim_by.simps) (auto simp: find_None_iff split: option.splits dest: find_Some_iff [THEN iffD1])

text \<open>The characters of a version are not white space, so it is neither trimmed nor cut.\<close>

definition version_char :: "char \<Rightarrow> bool" where
  "version_char c \<longleftrightarrow> is_ascii_digit c \<or> c = CHR ''.''"

lemma white_not_version:
  assumes "w \<in> set white_space"
  shows "w \<noteq> []" and "\<not> version_char (hd w)" and "\<not> version_char (last w)"
proof -
  have "list_all (\<lambda>w. w \<noteq> [] \<and> \<not> version_char (hd w) \<and> \<not> version_char (last w)) white_space"
    by (simp add: white_space_def version_char_def is_ascii_digit_def less_eq_char_def)
  then show "w \<noteq> []" "\<not> version_char (hd w)" "\<not> version_char (last w)" using assms by (auto simp: list_all_iff)
qed

lemma no_white_start: "version_char (hd s) \<Longrightarrow> w \<in> set white_space \<Longrightarrow> \<not> starts_with w s"
  using white_not_version [of w] by (auto simp: starts_with_iff hd_append)

lemma trim_version:
  assumes "s \<noteq> []" and "version_char (hd s)" and "version_char (last s)"
  shows "trim s = s" and "trim_start s = s"
proof -
  show t: "trim_start s = s"
    unfolding trim_start_def using no_white_start [OF assms(2)] by (intro trim_by_id) auto
  have "trim_by (map rev white_space) (rev s) = rev s"
  proof (rule trim_by_id)
    fix w
    assume "w \<in> set (map rev white_space)"
    then obtain v where v: "v \<in> set white_space" "w = rev v" by auto
    then show "\<not> starts_with w (rev s)"
      using white_not_version [OF v(1)] assms(1,3)
      by (auto simp: starts_with_iff) (metis last_appendR rev_append rev_rev_ident)
  qed
  then show "trim s = s" by (simp add: trim_def trim_end_def t)
qed

lemma until_white_version: "list_all version_char s \<Longrightarrow> until_white s = s"
  by (induction s) (use no_white_start in \<open>fastforce\<close>)+

lemma split_join_char:
  "ps \<noteq> [] \<Longrightarrow> (\<And>p. p \<in> set ps \<Longrightarrow> c \<notin> set p) \<Longrightarrow> split_char c (join_char c ps) = ps"
proof (induction ps)
  case (Cons p ps)
  then show ?case
    by (cases "ps = []") (simp_all add: join_char_Cons split_char_append split_char_no_sep)
qed simp

text \<open>Printing the components of a version.\<close>

definition dotted :: "u32 list \<Rightarrow> string" where
  "dotted ws = join_char (CHR ''.'') (map (\<lambda>w. show_nat (unat w)) ws)"

lemma dotted_Cons: "dotted (w # ws) = show_nat (unat w) @ (if ws = [] then [] else CHR ''.'' # dotted ws)"
  by (simp add: dotted_def join_char_Cons)

lemma dotted_ne: "ws \<noteq> [] \<Longrightarrow> dotted ws \<noteq> []"
  by (cases ws) (simp_all add: dotted_Cons)

lemma dotted_chars:
  assumes "ws \<noteq> []"
  shows "list_all version_char (dotted ws)" and "is_ascii_digit (hd (dotted ws))" and "is_ascii_digit (last (dotted ws))"
  using assms
proof (induction ws)
  case (Cons w ws)
  note d = show_nat_all_digits [of "unat w"]
  have h: "is_ascii_digit (hd (show_nat (unat w)))" "is_ascii_digit (last (show_nat (unat w)))"
    using d by (auto simp: list_all_iff)
  have v: "list_all version_char (show_nat (unat w))"
    using d by (rule list.pred_mono_strong) (simp add: version_char_def)
  have dot: "version_char (CHR ''.'')" by (simp add: version_char_def)
  { case 1 then show ?case using Cons.IH(1) v dot by (auto simp: dotted_Cons) }
  { case 2 then show ?case using h by (simp add: dotted_Cons) }
  { case 3 then show ?case using Cons.IH(3) h dotted_ne by (simp add: dotted_Cons) }
qed simp_all

lemma dotted_split: "ws \<noteq> [] \<Longrightarrow> split_char (CHR ''.'') (dotted ws) = map (\<lambda>w. show_nat (unat w)) ws"
  unfolding dotted_def
proof (rule split_join_char)
  fix p
  assume "p \<in> set (map (\<lambda>w. show_nat (unat w)) ws)"
  moreover have "\<not> is_ascii_digit (CHR ''.'')" by (simp add: is_ascii_digit_def less_eq_char_def)
  ultimately show "CHR ''.'' \<notin> set p" using show_nat_all_digits by (auto simp: list_all_iff)
qed simp

lemma those_parse: "those (map parse_u32 (map (\<lambda>w. show_nat (unat w)) ws)) = Some ws"
  by (induction ws) (simp_all add: parse_show)

lemma parse_version_line_dotted:
  assumes "2 \<le> length ws" and "length ws \<le> 4"
  shows "parse_version_line (''WSL version: '' @ dotted ws) =
    Some \<lparr>major = ws ! 0, minor = ws ! 1, patch = if 2 < length ws then ws ! 2 else 0\<rparr>"
proof -
  have ne: "ws \<noteq> []" using assms(1) by auto
  note dot = dotted_ne [OF ne] dotted_chars [OF ne]
  have v: "version_char (hd (dotted ws))" "version_char (last (dotted ws))"
    using dot(3,4) by (simp_all add: version_char_def)
  have blank: "find (\<lambda>w. w \<noteq> [] \<and> starts_with w ('' '' @ x)) white_space = Some '' ''" for x
    by (simp add: white_space_def starts_with_def)
  have start: "trim_start ('' '' @ dotted ws) = dotted ws"
    unfolding trim_start_def using blank [of "dotted ws"] trim_version(2) [OF dot(1) v, unfolded trim_start_def]
    by (subst trim_by.simps) simp
  have cut: "trim ('' '' @ dotted ws) = dotted ws"
    using start trim_version [OF dot(1) v] by (simp add: trim_def)
  have "hd (dotted ws) \<noteq> CHR ''v''" using dot(3) by (auto simp: is_ascii_digit_def less_eq_char_def)
  then have tsm: "trim_start_matches ''v'' (dotted ws) = dotted ws"
    unfolding trim_start_matches_def by (intro trim_by_id) (auto simp: starts_with_iff)
  have fw: "first_word (dotted ws) = dotted ws"
    using trim_version(2) [OF dot(1) v] until_white_version [OF dot(2)] by (simp add: first_word_def)
  have te: "trim_end_while (\<lambda>c. \<not> is_ascii_digit c \<and> c \<noteq> CHR ''.'') (dotted ws) = dotted ws"
    using dot(1,4) by (simp add: trim_end_while_def) (metis (mono_tags, lifting) dropWhile_eq_self_iff hd_rev rev_is_Nil_conv rev_rev_ident)
  define l where "l = ''WSL version: '' @ dotted ws"
  have dw: "dropWhile (\<lambda>c. c \<noteq> CHR '':'') l = CHR '':'' # '' '' @ dotted ws" by (simp add: l_def)
  have cs: "contains_str ''wsl'' (map to_ascii_lower l)" "contains_str ''version'' (map to_ascii_lower l)"
    by (simp_all add: l_def to_ascii_lower_def less_eq_char_def starts_with_def char_of_def bit_Suc_0_iff)
  have digit: "case dotted ws of [] \<Rightarrow> False | c # _ \<Rightarrow> is_ascii_digit c"
    using dot(1,3) by (auto split: list.splits)
  have "parse_version_line l = Some \<lparr>major = ws ! 0, minor = ws ! 1, patch = if 2 < length ws then ws ! 2 else 0\<rparr>"
    unfolding parse_version_line_def Let_def dw list.case cut tsm fw te dotted_split [OF ne] those_parse
    using cs digit assms by simp
  then show ?thesis by (simp add: l_def)
qed

lemma lines_first:
  assumes "CHR 0x0A \<notin> set l" and "l = [] \<or> last l \<noteq> CHR 0x0D"
  shows "lines (l @ CHR 0x0A # r) = l # lines r"
proof -
  have "dropWhile (\<lambda>c. c \<noteq> CHR 0x0A) (l @ CHR 0x0A # r) = CHR 0x0A # r"
    using assms(1) by (subst dropWhile_append2) auto
  moreover have "takeWhile (\<lambda>c. c \<noteq> CHR 0x0A) (l @ CHR 0x0A # r) = l"
    using assms(1) by (subst takeWhile_append2) auto
  ultimately show ?thesis using assms(2) by (subst lines.simps) (auto simp: strip_cr_def)
qed

lemma lines_last: "CHR 0x0A \<notin> set l \<Longrightarrow> l \<noteq> [] \<Longrightarrow> lines l = [l]"
proof -
  assume "CHR 0x0A \<notin> set l" and ne: "l \<noteq> []"
  then have "dropWhile (\<lambda>c. c \<noteq> CHR 0x0A) l = []" by (auto simp: dropWhile_eq_Nil_conv)
  then show ?thesis using ne by (subst lines.simps) (simp del: dropWhile_eq_Nil_conv)
qed

lemma parse_wsl_version_dotted:
  assumes "2 \<le> length ws" and "length ws \<le> 4" and "rest = [] \<or> hd rest = CHR 0x0A"
  shows "parse_wsl_version (''WSL version: '' @ dotted ws @ rest) =
    Inr \<lparr>major = ws ! 0, minor = ws ! 1, patch = if 2 < length ws then ws ! 2 else 0\<rparr>"
proof -
  let ?l = "''WSL version: '' @ dotted ws"
  have ne: "ws \<noteq> []" using assms(1) by auto
  have "version_char c \<Longrightarrow> c \<noteq> CHR 0x0A" "is_ascii_digit c \<Longrightarrow> c \<noteq> CHR 0x0D" for c
    by (auto simp: version_char_def is_ascii_digit_def less_eq_char_def)
  then have l: "CHR 0x0A \<notin> set ?l" "last ?l \<noteq> CHR 0x0D"
    using dotted_chars [OF ne] dotted_ne [OF ne] by (auto simp: list_all_iff)
  have "\<exists>more. lines (?l @ rest) = ?l # more"
  proof (cases rest)
    case Nil
    then show ?thesis using lines_last [OF l(1)] by simp
  next
    case (Cons c r)
    then show ?thesis using lines_first [OF l(1), of r] l(2) assms(3) by auto
  qed
  then show ?thesis
    using parse_version_line_dotted [OF assms(1,2)] by (auto simp: parse_wsl_version_def)
qed

text \<open>Printed names of distributions are read back, whatever characters they have but line ends.\<close>

lemma distribution_names_back:
  assumes "\<And>n. n \<in> set ns \<Longrightarrow> n \<noteq> [] \<and> set n \<inter> {CHR 0x0A, CHR 0x0D} = {} \<and> \<not> starts_with BYTE_ORDER_MARK n"
  shows "parse_wsl_distribution_names (concat (map (\<lambda>n. n @ [CHR 0x0D, CHR 0x0A]) ns)) = ns"
  using assms
proof (induction ns)
  case Nil
  then show ?case by (simp add: parse_wsl_distribution_names_def lines.simps)
next
  case (Cons n ns)
  have n: "n \<noteq> []" "CHR 0x0A \<notin> set n" "CHR 0x0D \<notin> set n" "\<not> starts_with BYTE_ORDER_MARK n"
    using Cons.prems [of n] by auto
  let ?r = "concat (map (\<lambda>n. n @ [CHR 0x0D, CHR 0x0A]) ns)"
  have ls: "lines ((n @ [CHR 0x0D]) @ CHR 0x0A # ?r) = n # lines ?r"
  proof -
    have "dropWhile (\<lambda>c. c \<noteq> CHR 0x0A) ((n @ [CHR 0x0D]) @ CHR 0x0A # ?r) = CHR 0x0A # ?r"
      using n(2) by (subst dropWhile_append2) auto
    moreover have "takeWhile (\<lambda>c. c \<noteq> CHR 0x0A) ((n @ [CHR 0x0D]) @ CHR 0x0A # ?r) = n @ [CHR 0x0D]"
      using n(2) by (subst takeWhile_append2) auto
    ultimately show ?thesis by (subst lines.simps) (simp add: strip_cr_def)
  qed
  have "last n \<noteq> CHR 0x0D"
  proof
    assume eq: "last n = CHR 0x0D"
    from last_in_set [OF n(1)] n(3) show False unfolding eq by contradiction
  qed
  then have "dropWhile (\<lambda>c. c = CHR 0x0D) (rev n) = rev n"
    by (simp add: dropWhile_eq_self_iff hd_rev)
  then have te: "trim_end_while (\<lambda>c. c = CHR 0x0D) n = n" by (simp add: trim_end_while_def)
  have "trim_start_matches BYTE_ORDER_MARK n = n"
    unfolding trim_start_matches_def using n(4) by (intro trim_by_id) auto
  then show ?case using Cons n(1) ls te by (simp add: parse_wsl_distribution_names_def)
qed


section \<open>The newest release\<close>

lemma max_by_version_fold:
  "fold (\<lambda>y best. case best of None \<Rightarrow> Some y
       | Some x \<Rightarrow> if ar_version y < ar_version x then Some x else Some y) rs (Some b) = Some m \<Longrightarrow>
   m \<in> set (b # rs) \<and> (\<forall>r \<in> set (b # rs). ar_version r \<le> ar_version (m :: ('v::linorder) AvailableRelease))"
  by (induction rs arbitrary: b) (fastforce split: if_splits)+

lemma max_by_version_Some:
  "max_by_version rs = Some m \<Longrightarrow> m \<in> set rs \<and> (\<forall>r \<in> set rs. ar_version r \<le> ar_version m)"
  unfolding max_by_version_def by (cases rs) (use max_by_version_fold in force)+

lemma max_by_version_None: "max_by_version rs = None \<longleftrightarrow> rs = []"
proof -
  have "fold (\<lambda>y best. case best of None \<Rightarrow> Some y
       | Some x \<Rightarrow> if ar_version y < ar_version x then Some x else Some y) xs (Some b) \<noteq> None"
    for b :: "'a AvailableRelease" and xs
    by (induction xs arbitrary: b) auto
  then show ?thesis by (cases rs) (auto simp: max_by_version_def)
qed


section \<open>Provisioning\<close>

text \<open>
  The registry as the implementations of the interface see it: commands do not change it, a failed
  change leaves it alone, and removing a key touches only the key and what is below it.
\<close>

locale provisioning =
  fixes S :: "('s, 'e) provisioning_system" and registry :: "'s \<Rightarrow> string \<times> string \<rightharpoonup> u32"
  assumes run_law: "wp (run S p a) (\<lambda>_ t. registry t = registry s) s"
    and dword_law: "registry_dword S k v s = Inr x \<Longrightarrow> x = registry s (k, v)"
    and set_law: "wp (set_registry_dword S k v d)
      (\<lambda>r t. registry t = (if is_ok r then (registry s)((k, v) \<mapsto> d) else registry s)) s"
    and remove_law: "wp (remove_registry_tree S k)
      (\<lambda>r t. if is_ok r then (\<forall>v. registry t (k, v) = None) \<and>
                (\<forall>k' v. \<not> starts_with k k' \<longrightarrow> registry t (k', v) = registry s (k', v))
             else registry t = registry s) s"
begin

text \<open>The distribution is enabled only after it is provisioned; any failure leaves the registry as it was.\<close>

lemma enable_with_wp:
  "wp (enable_with L S distribution uid args marker)
     (\<lambda>r t. (registry t = registry s \<or>
         registry t = (registry s)((distribution_registry_path L uid, DISTRIBUTION_ENABLEMENT_VALUE) \<mapsto> 1) \<and>
         (file_exists S marker s = Inr True \<or> (\<exists>res u. run S ''wsl.exe'' args s = (Inr res, u) \<and> cr_success res))) \<and>
       (is_ok r \<longrightarrow> (\<exists>x. registry t (distribution_registry_path L uid, DISTRIBUTION_ENABLEMENT_VALUE) = Some x \<and> x \<noteq> 0)) \<and>
       (\<not> is_ok r \<longrightarrow> registry t = registry s) \<and>
       (r = Inr NoChange \<longrightarrow> t = s)) s"
proof -
  let ?k = "distribution_registry_path L uid"
  obtain vr where vr: "registry_dword S ?k DISTRIBUTION_ENABLEMENT_VALUE s = vr" by simp
  obtain fr where fr: "file_exists S marker s = fr" by simp
  show ?thesis
  proof (cases vr)
    case (Inl e)
    then show ?thesis using vr by (simp add: enable_with_def Let_def wp_def act_simps look_def)
  next
    case v: (Inr v)
    then have reg: "registry s (?k, DISTRIBUTION_ENABLEMENT_VALUE) = v" using dword_law vr by auto
    show ?thesis
    proof (cases fr)
      case (Inl e)
      then show ?thesis using vr v fr by (simp add: enable_with_def Let_def wp_def act_simps look_def)
    next
      case f: (Inr provisioned)
      let ?on = "case v of Some x \<Rightarrow> x \<noteq> 0 | None \<Rightarrow> False"
      let ?set = "set_registry_dword S ?k DISTRIBUTION_ENABLEMENT_VALUE 1"
      note start = enable_with_def Let_def wp_def act_simps look_def vr v fr f enable_plan_def
      have set: "registry u = (if is_ok q then (registry t)((?k, DISTRIBUTION_ENABLEMENT_VALUE) \<mapsto> 1) else registry t)"
        if "?set t = (q, u)" for q t u
        using wpD [OF set_law that] .
      consider (none) "\<not> provisioned" | (same) "provisioned" "?on" | (only) "provisioned" "\<not> ?on" by blast
      then show ?thesis
      proof cases
        case none
        obtain q t where q: "run S ''wsl.exe'' args s = (q, t)" by force
        then have t: "registry t = registry s" using wpD [OF run_law] by blast
        obtain a u where a: "?set t = (a, u)" by force
        show ?thesis using none q t set [OF a] a by (cases q; cases a) (auto simp: start split: sum.splits)
      next
        case same
        then show ?thesis using reg by (auto simp: start split: option.splits)
      next
        case only
        obtain a u where a: "?set s = (a, u)" by force
        then show ?thesis using only set [OF a] by (cases a) (auto simp: start split: sum.splits)
      qed
    qed
  qed
qed

text \<open>Enabling again, once the marker is there, changes nothing.\<close>

lemma enable_with_again:
  assumes "registry_dword S (distribution_registry_path L uid) DISTRIBUTION_ENABLEMENT_VALUE s = Inr v"
    and "registry s (distribution_registry_path L uid, DISTRIBUTION_ENABLEMENT_VALUE) = Some x" and "x \<noteq> 0"
    and "file_exists S marker s = Inr True"
  shows "enable_with L S distribution uid args marker s = (Inr NoChange, s)"
  using dword_law [OF assms(1)] assms by (simp add: enable_with_def Let_def act_simps look_def enable_plan_def)

text \<open>
  The registry key goes only after the files in the distribution: when these cannot be removed the
  registry is as it was.
\<close>

lemma disable_with_wp:
  "wp (disable_with L S distribution uid args marker)
     (\<lambda>r t. (is_ok r \<longrightarrow>
          (\<forall>v. registry t (distribution_registry_path L uid, v) = None) \<and>
          (\<forall>k v. \<not> starts_with (distribution_registry_path L uid) k \<longrightarrow> registry t (k, v) = registry s (k, v)) \<and>
          (file_exists S marker s = Inr False \<or> (\<exists>res u. run S ''wsl.exe'' args s = (Inr res, u) \<and> cr_success res))) \<and>
        (\<not> is_ok r \<longrightarrow> registry t = registry s)) s"
proof -
  let ?k = "distribution_registry_path L uid"
  note start = disable_with_def wp_def act_simps look_def
  show ?thesis
  proof (cases "file_exists S marker s")
    case (Inl e)
    then show ?thesis by (simp add: start)
  next
    case f: (Inr provisioned)
    obtain q t where q: "run S ''wsl.exe'' args s = (q, t)" by force
    then have t: "registry t = registry s" using wpD [OF run_law] by blast
    obtain a u where a: "remove_registry_tree S ?k (if provisioned then t else s) = (a, u)" by force
    note removed = wpD [OF remove_law a]
    show ?thesis
      using f q t a removed by (cases q; cases a; cases provisioned) (auto simp: start split: sum.splits)
  qed
qed

end


section \<open>The recorded system\<close>

text \<open>The implementation of the interface the crate's tests run on: it records the commands.\<close>

record FakeSystem =
  fs_commands :: "(string \<times> string list) list"
  fs_registry :: "(string \<times> string, u32) btree"
  fs_files :: "string set"

definition fake_run :: "string \<Rightarrow> string list \<Rightarrow> (FakeSystem, unit, CommandResult) act" where
  "fake_run program args s =
     (Inr \<lparr>cr_success = True, cr_stdout = [], cr_stderr = []\<rparr>, s\<lparr>fs_commands := fs_commands s @ [(program, args)]\<rparr>)"

definition fake_system :: "(FakeSystem, unit) provisioning_system" where
  "fake_system =
     \<lparr>run = fake_run,
      registry_dword = \<lambda>key v s. Inr (map_of (fs_registry s) (key, v)),
      set_registry_dword = \<lambda>key v d s. (Inr (), s\<lparr>fs_registry := bt_insert (key, v) d (fs_registry s)\<rparr>),
      remove_registry_tree = \<lambda>key s.
        (Inr (), s\<lparr>fs_registry := bt_retain (\<lambda>(existing, _) _. existing \<noteq> key) (fs_registry s)\<rparr>),
      file_exists = \<lambda>path s. Inr (path \<in> fs_files s)\<rparr>"

lemma map_of_retain_key:
  "map_of (bt_retain (\<lambda>(existing, _) _. existing \<noteq> k) m) (k', v) = (if k' = k then None else map_of m (k', v))"
  by (induction m) (auto simp: bt_retain_def)

interpretation fake: provisioning fake_system "\<lambda>s. map_of (fs_registry s)"
  by unfold_locales (auto simp: fake_system_def fake_run_def wp_def map_of_retain_key starts_with_def)

end
