(* ===== verification/Lossy_Text.thy ===== *)
theory Lossy_Text
  imports Wide_Strings
begin

text \<open>
  Text that need not be well formed, as the management command meets it: the output of other
  programs, decoded with replacement characters, and the paths of Windows, which are sequences of
  16-bit units kept as WTF-8 (UTF-8 in which an unpaired surrogate may stand). These are functions
  of the standard library.
\<close>

section \<open>Decoding\<close>

text \<open>\<^verbatim>\<open>char::decode_utf16\<close>: the characters, and the surrogates that are not part of a pair.\<close>

fun decode_utf16 :: "u16 list \<Rightarrow> (u16 + nat) list" where
  "decode_utf16 [] = []"
| "decode_utf16 (k # ks) =
     (if unat k < 0xD800 \<or> 0xE000 \<le> unat k then Inr (unat k) # decode_utf16 ks
      else if 0xDC00 \<le> unat k then Inl k # decode_utf16 ks
      else (case ks of
          l # r \<Rightarrow>
            if 0xDC00 \<le> unat l \<and> unat l < 0xE000
            then Inr (0x10000 + (unat k - 0xD800) * 1024 + (unat l - 0xDC00)) # decode_utf16 r
            else Inl k # decode_utf16 ks
        | [] \<Rightarrow> [Inl k]))"

definition REPLACEMENT_CHARACTER :: nat where
  "REPLACEMENT_CHARACTER = 0xFFFD"

definition from_utf16_lossy :: "u16 list \<Rightarrow> string" where
  "from_utf16_lossy ks =
     bytes_to_str (concat (map (\<lambda>c. utf8_bytes (case c of Inl _ \<Rightarrow> REPLACEMENT_CHARACTER | Inr n \<Rightarrow> n))
       (decode_utf16 ks)))"

text \<open>
  \<^verbatim>\<open>String::from_utf8_lossy\<close>: the longest beginning of a character that cannot be continued is
  replaced as a whole.
\<close>

definition replacement :: bytes where
  "replacement = utf8_bytes REPLACEMENT_CHARACTER"

fun utf8_more :: "bytes \<Rightarrow> (u8 \<Rightarrow> bool) list \<Rightarrow> bytes \<Rightarrow> bytes \<times> bytes" where
  "utf8_more got [] r = (got, r)"
| "utf8_more got (p # ps) r =
     (case r of
        c # q \<Rightarrow> if p c then utf8_more (got @ [c]) ps q else (replacement, r)
      | [] \<Rightarrow> (replacement, []))"

definition utf8_chunk :: "u8 \<Rightarrow> bytes \<Rightarrow> bytes \<times> bytes" where
  "utf8_chunk b bs =
     (if b < 0x80 then ([b], bs)
      else if 0xC2 \<le> b \<and> b \<le> 0xDF then utf8_more [b] [utf8_cont] bs
      else if 0xE0 \<le> b \<and> b \<le> 0xEF then utf8_more [b] [utf8_second3 b, utf8_cont] bs
      else if 0xF0 \<le> b \<and> b \<le> 0xF4 then utf8_more [b] [utf8_second4 b, utf8_cont, utf8_cont] bs
      else (replacement, bs))"

lemma utf8_more_length: "length (snd (utf8_more got ps r)) \<le> length r"
  by (induction got ps r rule: utf8_more.induct) (auto split: list.splits intro: le_SucI)

lemma utf8_chunk_length: "length (snd (utf8_chunk b bs)) \<le> length bs"
  by (auto simp: utf8_chunk_def simp del: utf8_more.simps intro: utf8_more_length)

function utf8_lossy :: "bytes \<Rightarrow> bytes" where
  "utf8_lossy [] = []"
| "utf8_lossy (b # bs) = fst (utf8_chunk b bs) @ utf8_lossy (snd (utf8_chunk b bs))"
  by pat_completeness auto
termination by (relation "measure length") (auto simp: le_imp_less_Suc utf8_chunk_length)

definition from_utf8_lossy :: "bytes \<Rightarrow> string" where
  "from_utf8_lossy bs = bytes_to_str (utf8_lossy bs)"


section \<open>Paths as text\<close>

text \<open>
  \<^verbatim>\<open>OsStrExt::encode_wide\<close> is \<^const>\<open>encode_utf16\<close> also where the string has unpaired surrogates;
  \<^verbatim>\<open>OsStringExt::from_wide\<close> keeps them.
\<close>

definition from_wide :: "u16 list \<Rightarrow> string" where
  "from_wide ks = bytes_to_str (concat (map (\<lambda>c. utf8_bytes (case c of Inl k \<Rightarrow> unat k | Inr n \<Rightarrow> n)) (decode_utf16 ks)))"

text \<open>\<^verbatim>\<open>OsStr::to_string_lossy\<close>, also what \<^verbatim>\<open>Path::display\<close> prints: unpaired surrogates are replaced.\<close>

fun wtf8_lossy :: "bytes \<Rightarrow> bytes" where
  "wtf8_lossy (b # c # d # r) =
     (if b = 0xED \<and> 0xA0 \<le> c then replacement @ wtf8_lossy r else b # wtf8_lossy (c # d # r))"
| "wtf8_lossy bs = bs"

definition to_string_lossy :: "string \<Rightarrow> string" where
  "to_string_lossy p = bytes_to_str (wtf8_lossy (as_bytes p))"

definition to_str :: "string \<Rightarrow> string option" where
  "to_str p = from_utf8 (as_bytes p)"

definition eq_ignore_ascii_case :: "string \<Rightarrow> string \<Rightarrow> bool" where
  "eq_ignore_ascii_case a b \<longleftrightarrow> map to_ascii_lower a = map to_ascii_lower b"


section \<open>Well-formed text is kept\<close>

lemma decode_utf16_units:
  assumes "scalar n"
  shows "decode_utf16 (utf16_units n @ r) = Inr n # decode_utf16 r"
proof (cases "n < 0x10000")
  case True
  then have "unat (of_nat n :: u16) = n" by (simp only: unat_u16)
  then show ?thesis using True assms by (auto simp: utf16_units_def scalar_def)
next
  case False
  then obtain x y where n: "n = 0x10000 + x * 1024 + y" and lim: "x < 1024" "y < 1024" and
    u: "utf16_units n = [of_nat (0xD800 + x), of_nat (0xDC00 + y)]"
    using assms that [of "(n - 0x10000) div 1024" "(n - 0x10000) mod 1024"]
    by (auto simp: scalar_def utf16_units_def)
  have "unat (of_nat (0xD800 + x) :: u16) = 0xD800 + x" "unat (of_nat (0xDC00 + y) :: u16) = 0xDC00 + y"
    by (rule unat_u16, use lim in simp)+
  then show ?thesis unfolding u using n lim by (simp del: of_nat_add)
qed

lemma decode_utf16_scalars: "list_all scalar cs \<Longrightarrow> decode_utf16 (concat (map utf16_units cs)) = map Inr cs"
  by (induction cs) (simp_all add: decode_utf16_units)

lemma utf8_scalars_text:
  assumes "is_utf8 s"
  shows "list_all scalar (utf8_scalars (as_bytes s))" and "bytes_to_str (concat (map utf8_bytes (utf8_scalars (as_bytes s)))) = s"
  using assms utf8_scalars_valid [of "as_bytes s"] by (auto simp: is_utf8_def)

lemma from_utf16_lossy_encode: "is_utf8 s \<Longrightarrow> from_utf16_lossy (encode_utf16 s) = s"
  using utf8_scalars_text [of s]
  by (simp add: from_utf16_lossy_def encode_utf16_def decode_utf16_scalars comp_def)

lemma from_wide_encode: "is_utf8 s \<Longrightarrow> from_wide (encode_utf16 s) = s"
  using utf8_scalars_text [of s]
  by (simp add: from_wide_def encode_utf16_def decode_utf16_scalars comp_def)

lemma utf8_chunk_valid:
  "utf8_valid (b # bs) \<Longrightarrow> fst (utf8_chunk b bs) @ snd (utf8_chunk b bs) = b # bs \<and> utf8_valid (snd (utf8_chunk b bs))"
  by (subst (asm) utf8_valid.simps(2))
     (auto simp: utf8_chunk_def simp del: utf8_valid.simps(2) split: if_splits list.splits)

lemma utf8_lossy_valid: "utf8_valid bs \<Longrightarrow> utf8_lossy bs = bs"
  by (induction bs rule: utf8_lossy.induct) (use utf8_chunk_valid in \<open>fastforce simp del: utf8_valid.simps(2)\<close>)+

lemma from_utf8_lossy_valid: "is_utf8 s \<Longrightarrow> from_utf8_lossy (as_bytes s) = s"
  by (simp add: from_utf8_lossy_def utf8_lossy_valid is_utf8_def)

text \<open>Whatever the input, the result is a \<^verbatim>\<open>String\<close>.\<close>

lemma utf8_valid_replacement [simp]: "utf8_valid (replacement @ bs) = utf8_valid bs"
  using utf8_bytes_scalar [of REPLACEMENT_CHARACTER bs]
  by (simp add: replacement_def REPLACEMENT_CHARACTER_def scalar_def)

lemma utf8_valid_replacement0 [simp]: "utf8_valid replacement"
  using utf8_valid_replacement [of "[]"] by simp

lemma utf8_valid_chunk: "utf8_valid (fst (utf8_chunk b bs) @ r) = utf8_valid r"
  by (auto simp: utf8_chunk_def u8_compare split: list.splits)

lemma utf8_valid_lossy: "utf8_valid (utf8_lossy bs)"
  by (induction bs rule: utf8_lossy.induct) (simp_all add: utf8_valid_chunk)

lemma is_utf8_from_utf8_lossy: "is_utf8 (from_utf8_lossy bs)"
  by (simp add: is_utf8_def from_utf8_lossy_def utf8_valid_lossy)

lemma wtf8_lossy_skip:
  "b \<noteq> 0xED \<Longrightarrow> wtf8_lossy (b # r) = b # wtf8_lossy r"
  "c < 0xA0 \<Longrightarrow> wtf8_lossy (0xED # c # r) = 0xED # wtf8_lossy (c # r)"
  by (cases "b # r" rule: wtf8_lossy.cases; simp) (cases "0xED # c # r" rule: wtf8_lossy.cases; auto)

lemma not_ED: "b < 0x80 \<Longrightarrow> b \<noteq> (0xED::u8)" "b \<le> 0xDF \<Longrightarrow> b \<noteq> 0xED" "0xF0 \<le> b \<Longrightarrow> b \<noteq> 0xED" "utf8_cont b \<Longrightarrow> b \<noteq> 0xED"
  by (auto simp: utf8_cont_def u8_compare)

lemma wtf8_lossy_three:
  assumes "utf8_second3 b c" and "utf8_cont d"
  shows "wtf8_lossy (b # c # d # r) = b # c # d # wtf8_lossy r"
proof -
  have "c \<noteq> 0xED" "b = 0xED \<longrightarrow> c < 0xA0"
    using assms(1) by (auto simp: utf8_second3_def utf8_cont_def u8_compare word_less_nat_alt split: if_splits)
  then show ?thesis
    using not_ED(4) [OF assms(2)] by (cases "b = 0xED") (simp_all add: wtf8_lossy_skip del: wtf8_lossy.simps)
qed

lemma utf8_second4_not_ED: "utf8_second4 b c \<Longrightarrow> c \<noteq> 0xED"
  by (auto simp: utf8_second4_def utf8_cont_def u8_compare split: if_splits)

lemma wtf8_lossy_valid: "utf8_valid bs \<Longrightarrow> wtf8_lossy bs = bs"
proof (induction bs rule: utf8_valid.induct)
  case (2 b bs)
  note skip = wtf8_lossy_skip(1) wtf8_lossy_three not_ED utf8_second4_not_ED
  from 2(5) show ?case
    by (subst (asm) utf8_valid.simps(2))
       (use 2(1-4) in \<open>auto simp: skip simp del: utf8_valid.simps(2) wtf8_lossy.simps split: if_splits list.splits\<close>)
qed simp

lemma to_string_lossy_valid: "is_utf8 s \<Longrightarrow> to_string_lossy s = s"
  by (simp add: to_string_lossy_def is_utf8_def wtf8_lossy_valid)

end
