(* ===== verification/Windows_Path.thy ===== *)
theory Windows_Path
  imports Lossy_Text
begin

text \<open>
  \<^verbatim>\<open>std::path\<close> on Windows, as far as the management command uses it: prefixes, roots and components
  of a path, and joining, parents and file names. A path is the string of its WTF-8 bytes.
\<close>

section \<open>Prefixes\<close>

definition SLASH :: char where "SLASH = CHR ''/''"
definition BACK :: char where "BACK = CHR 0x5C"

definition is_sep_byte :: "char \<Rightarrow> bool" where
  "is_sep_byte c \<longleftrightarrow> c = SLASH \<or> c = BACK"

definition is_verbatim_sep :: "char \<Rightarrow> bool" where
  "is_verbatim_sep c \<longleftrightarrow> c = BACK"

datatype Prefix =
    Verbatim string
  | VerbatimUNC string string
  | VerbatimDisk char
  | DeviceNS string
  | UNC string string
  | Disk char

fun prefix_len :: "Prefix \<Rightarrow> nat" where
  "prefix_len (Verbatim x) = 4 + length x"
| "prefix_len (VerbatimUNC x y) = 8 + length x + (if y = [] then 0 else 1 + length y)"
| "prefix_len (VerbatimDisk _) = 6"
| "prefix_len (UNC x y) = 2 + length x + (if y = [] then 0 else 1 + length y)"
| "prefix_len (DeviceNS x) = 4 + length x"
| "prefix_len (Disk _) = 2"

fun is_verbatim :: "Prefix \<Rightarrow> bool" where
  "is_verbatim (Verbatim _) = True"
| "is_verbatim (VerbatimUNC _ _) = True"
| "is_verbatim (VerbatimDisk _) = True"
| "is_verbatim _ = False"

fun is_drive :: "Prefix \<Rightarrow> bool" where
  "is_drive (Disk _) = True"
| "is_drive _ = False"

abbreviation has_implicit_root :: "Prefix \<Rightarrow> bool" where
  "has_implicit_root x \<equiv> \<not> is_drive x"

definition to_ascii_upper :: "char \<Rightarrow> char" where
  "to_ascii_upper c = (if CHR ''a'' \<le> c \<and> c \<le> CHR ''z'' then char_of (of_char c - 32 :: nat) else c)"

definition is_ascii_alphabetic :: "char \<Rightarrow> bool" where
  "is_ascii_alphabetic c \<longleftrightarrow> CHR ''a'' \<le> to_ascii_lower c \<and> to_ascii_lower c \<le> CHR ''z''"

fun parse_drive :: "string \<Rightarrow> char option" where
  "parse_drive (d # c # _) = (if c = CHR '':'' \<and> is_ascii_alphabetic d then Some (to_ascii_upper d) else None)"
| "parse_drive _ = None"

definition parse_drive_exact :: "string \<Rightarrow> char option" where
  "parse_drive_exact p = (if length p \<le> 2 \<or> is_sep_byte (p ! 2) then parse_drive p else None)"

text \<open>The start of the path against a pattern with backslashes; a slash counts as one.\<close>

definition strip_seps :: "string \<Rightarrow> string \<Rightarrow> string option" where
  "strip_seps pat p =
     (if map (\<lambda>c. if c = SLASH then BACK else c) (take (length pat) p) = pat then Some (drop (length pat) p) else None)"

definition next_component :: "bool \<Rightarrow> string \<Rightarrow> string \<times> string" where
  "next_component verbatim p =
     (let sep = (if verbatim then is_verbatim_sep else is_sep_byte) in
      (takeWhile (\<lambda>c. \<not> sep c) p, tl (dropWhile (\<lambda>c. \<not> sep c) p)))"

definition parse_verbatim :: "string \<Rightarrow> Prefix" where
  "parse_verbatim r =
     (case strip_seps (''UNC'' @ [BACK]) r of
        Some u \<Rightarrow>
          (let (server, v) = next_component True u; (share, _) = next_component True v in VerbatimUNC server share)
      | None \<Rightarrow>
          (case parse_drive_exact r of
             Some d \<Rightarrow> VerbatimDisk d
           | None \<Rightarrow> Verbatim (fst (next_component True r))))"

definition parse_prefix :: "string \<Rightarrow> Prefix option" where
  "parse_prefix p =
     (case strip_seps [BACK, BACK] p of
        Some q \<Rightarrow>
          (case (if SLASH \<in> set (take 4 p) then None else strip_seps [CHR ''?'', BACK] q) of
             Some r \<Rightarrow> Some (parse_verbatim r)
           | None \<Rightarrow>
               (case strip_seps [CHR ''.'', BACK] q of
                  Some r \<Rightarrow> Some (DeviceNS (fst (next_component False r)))
                | None \<Rightarrow>
                    (let (server, v) = next_component False q; (share, _) = next_component False v in
                     if server \<noteq> [] \<and> share \<noteq> [] then Some (UNC server share) else None)))
      | None \<Rightarrow> map_option Disk (parse_drive p))"


section \<open>Components\<close>

datatype Component = PrefixComponent string | RootDir | CurDir | ParentDir | Normal string

definition prefix_length :: "string \<Rightarrow> nat" where
  "prefix_length p = (case parse_prefix p of Some x \<Rightarrow> prefix_len x | None \<Rightarrow> 0)"

definition prefix_verbatim :: "string \<Rightarrow> bool" where
  "prefix_verbatim p = (case parse_prefix p of Some x \<Rightarrow> is_verbatim x | None \<Rightarrow> False)"

definition path_sep :: "string \<Rightarrow> char \<Rightarrow> bool" where
  "path_sep p = (if prefix_verbatim p then is_verbatim_sep else is_sep_byte)"

definition has_physical_root :: "string \<Rightarrow> bool" where
  "has_physical_root p = (case drop (prefix_length p) p of c # _ \<Rightarrow> is_sep_byte c | [] \<Rightarrow> False)"

definition has_root :: "string \<Rightarrow> bool" where
  "has_root p \<longleftrightarrow> has_physical_root p \<or> (case parse_prefix p of Some x \<Rightarrow> has_implicit_root x | None \<Rightarrow> False)"

definition is_absolute :: "string \<Rightarrow> bool" where
  "is_absolute p \<longleftrightarrow> has_root p \<and> parse_prefix p \<noteq> None"

definition include_cur_dir :: "string \<Rightarrow> bool" where
  "include_cur_dir p \<longleftrightarrow> \<not> has_root p \<and>
     (case drop (prefix_length p) p of
        [c] \<Rightarrow> c = CHR ''.''
      | c # d # _ \<Rightarrow> c = CHR ''.'' \<and> path_sep p d
      | [] \<Rightarrow> False)"

definition len_before_body :: "string \<Rightarrow> nat" where
  "len_before_body p = prefix_length p + (if has_physical_root p then 1 else 0) + (if include_cur_dir p then 1 else 0)"

fun split_by :: "(char \<Rightarrow> bool) \<Rightarrow> string \<Rightarrow> string list" where
  "split_by sep [] = [[]]"
| "split_by sep (x # xs) =
     (if sep x then [] # split_by sep xs
      else (case split_by sep xs of [] \<Rightarrow> [[x]] | p # ps \<Rightarrow> (x # p) # ps))"

definition parse_single_component :: "bool \<Rightarrow> string \<Rightarrow> Component option" where
  "parse_single_component verbatim seg =
     (if seg = ''.'' then (if verbatim then Some CurDir else None)
      else if seg = ''..'' then Some ParentDir
      else if seg = [] then None
      else Some (Normal seg))"

definition components :: "string \<Rightarrow> Component list" where
  "components p =
     (let n = prefix_length p in
      (if 0 < n then [PrefixComponent (take n p)] else []) @
      (if has_physical_root p then [RootDir]
       else case parse_prefix p of
           Some x \<Rightarrow> if has_implicit_root x \<and> \<not> is_verbatim x then [RootDir] else []
         | None \<Rightarrow> if include_cur_dir p then [CurDir] else []) @
      List.map_filter (parse_single_component (prefix_verbatim p))
        (split_by (path_sep p)
          (drop (if parse_prefix p = None then len_before_body p else n + (if has_physical_root p then 1 else 0)) p)))"

definition file_name :: "string \<Rightarrow> string option" where
  "file_name p =
     (if components p = [] then None
      else case last (components p) of Normal x \<Rightarrow> Some x | _ \<Rightarrow> None)"

text \<open>Taking components off the end of the body, for \<^verbatim>\<open>Components::next_back\<close> and \<^verbatim>\<open>trim_right\<close>.\<close>

definition last_segment :: "(char \<Rightarrow> bool) \<Rightarrow> string \<Rightarrow> string \<times> string" where
  "last_segment sep b =
     (let seg = rev (takeWhile (\<lambda>c. \<not> sep c) (rev b)) in (take (length b - length seg - 1) b, seg))"

function trim_right :: "bool \<Rightarrow> (char \<Rightarrow> bool) \<Rightarrow> string \<Rightarrow> string" where
  "trim_right verbatim sep b =
     (if b = [] then []
      else if parse_single_component verbatim (snd (last_segment sep b)) = None
      then trim_right verbatim sep (fst (last_segment sep b))
      else b)"
  by pat_completeness auto
termination
  by (relation "measure (\<lambda>(v, sep, b). length b)") (auto simp: last_segment_def Let_def min_def neq_Nil_conv)

declare trim_right.simps [simp del]

definition parent :: "string \<Rightarrow> string option" where
  "parent p =
     (let n = len_before_body p; v = prefix_verbatim p; b = trim_right v (path_sep p) (drop n p) in
      if b \<noteq> [] then Some (take n p @ trim_right v (path_sep p) (fst (last_segment (path_sep p) b)))
      else if \<not> has_physical_root p \<and> parse_prefix p = None \<and> include_cur_dir p then Some []
      else None)"


section \<open>Joining\<close>

definition push_component :: "Component list \<Rightarrow> Component \<Rightarrow> Component list" where
  "push_component buf c =
     (case c of
        RootDir \<Rightarrow> take 1 buf @ [c]
      | CurDir \<Rightarrow> buf
      | ParentDir \<Rightarrow> (if buf \<noteq> [] \<and> (case last buf of Normal _ \<Rightarrow> True | _ \<Rightarrow> False) then butlast buf else buf)
      | _ \<Rightarrow> buf @ [c])"

fun component_str :: "Component \<Rightarrow> string" where
  "component_str (PrefixComponent x) = x"
| "component_str RootDir = [BACK]"
| "component_str CurDir = ''.''"
| "component_str ParentDir = ''..''"
| "component_str (Normal x) = x"

fun glue :: "bool \<Rightarrow> Component list \<Rightarrow> string" where
  "glue need_sep [] = []"
| "glue need_sep (c # cs) =
     (if need_sep \<and> c \<noteq> RootDir then [BACK] else []) @ component_str c @
     glue (case c of
         RootDir \<Rightarrow> False
       | PrefixComponent x \<Rightarrow> (case parse_prefix x of Some q \<Rightarrow> has_implicit_root q | None \<Rightarrow> False)
       | _ \<Rightarrow> True) cs"

definition join :: "string \<Rightarrow> string \<Rightarrow> string" where
  "join p q =
     (let need_sep = p \<noteq> [] \<and> \<not> is_sep_byte (last p) \<and>
            \<not> (prefix_length p = length p \<and> (case parse_prefix p of Some x \<Rightarrow> is_drive x | None \<Rightarrow> False))
      in if is_absolute q \<or> parse_prefix q \<noteq> None then q
         else if prefix_verbatim p \<and> q \<noteq> [] then glue False (foldl push_component (components p) (components q))
         else if has_root q then take (prefix_length p) p @ q
         else if need_sep then p @ [BACK] @ q
         else p @ q)"


section \<open>Paths below a root\<close>

text \<open>What is left of a path below an ordinary root when it has no prefix and no root of its own.\<close>

lemma join_relative:
  assumes "parse_prefix q = None" and "\<not> has_root q" and "\<not> prefix_verbatim p"
  shows "join p q = p @ q \<or> join p q = p @ [BACK] @ q"
  using assms by (simp add: join_def Let_def is_absolute_def)

lemma join_prefixed: "parse_prefix q \<noteq> None \<Longrightarrow> join p q = q"
  by (simp add: join_def)

lemma has_root_component:
  "parse_prefix p = None \<or> is_drive (the (parse_prefix p)) \<Longrightarrow> has_root p \<longleftrightarrow> RootDir \<in> set (components p)"
proof -
  have "RootDir \<notin> set (List.map_filter (parse_single_component v) cs)" for v cs
    by (auto simp: map_filter_def parse_single_component_def split: if_splits)
  then show "parse_prefix p = None \<or> is_drive (the (parse_prefix p)) \<Longrightarrow> ?thesis"
    by (auto simp: components_def has_root_def Let_def split: option.splits)
qed

end
