(* ===== verification/Cli_Host.thy ===== *)
theory Cli_Host
  imports Cli_Plan Windows_Path
begin

text \<open>
  The machine the management command (\<^verbatim>\<open>crates/cli/src/main.rs\<close>) works on: registry, files,
  child processes, standard output, Authenticode and the release server, as parameters (the record
  \<open>cli_host\<close>), the errors of the crate \<^verbatim>\<open>anyhow\<close>, and the functions of the file that run
  programs and read their output.
\<close>

section \<open>Errors\<close>

text \<open>
  An \<^verbatim>\<open>anyhow::Error\<close> is the chain of its texts, the outermost first. Panics are kept apart: no
  caller handles them.
\<close>

datatype fault = Failed "string list" | Panicked string

text \<open>\<^verbatim>\<open>format!\<close>\<close>

definition format :: "string list \<Rightarrow> string" where
  "format = concat"

definition QUOTED :: "string \<Rightarrow> string" where
  "QUOTED s = [CHR 0x27] @ s @ [CHR 0x27]"

definition NEWLINE :: string where
  "NEWLINE = [CHR 0x0A]"

definition bail :: "string \<Rightarrow> ('w, fault, 'a) act" where
  "bail message = act_throw (Failed [message])"

definition ensure :: "bool \<Rightarrow> string \<Rightarrow> ('w, fault, unit) act" where
  "ensure condition message = (if condition then act_return () else bail message)"

fun err_context :: "string \<Rightarrow> fault \<Rightarrow> fault" where
  "err_context c (Failed chain) = Failed (c # chain)"
| "err_context c (Panicked p) = Panicked p"

text \<open>\<^verbatim>\<open>Context::context\<close> on the error of the standard library and on the error of the command.\<close>

definition io_context :: "string \<Rightarrow> ('w, io_error, 'a) act \<Rightarrow> ('w, fault, 'a) act" where
  "io_context c = act_map_err (\<lambda>e. Failed [c, io_text e])"

definition context_of :: "string \<Rightarrow> ('w, fault, 'a) act \<Rightarrow> ('w, fault, 'a) act" where
  "context_of c = act_map_err (err_context c)"

text \<open>A \<^verbatim>\<open>Result\<close> that is inspected; \<^verbatim>\<open>error.to_string()\<close> is the head of the chain.\<close>

definition attempt :: "('w, fault, 'a) act \<Rightarrow> ('w, fault, string list + 'a) act" where
  "attempt m s =
     (case m s of
        (Inl (Failed chain), t) \<Rightarrow> (Inr (Inl chain), t)
      | (Inl (Panicked p), t) \<Rightarrow> (Inl (Panicked p), t)
      | (Inr x, t) \<Rightarrow> (Inr (Inr x), t))"

fun to_string_of :: "string list \<Rightarrow> string" where
  "to_string_of [] = []"
| "to_string_of (c # _) = c"

text \<open>The alternate form \<^verbatim>\<open>{error:#}\<close> has the whole chain.\<close>

fun alternate_of :: "string list \<Rightarrow> string" where
  "alternate_of [] = []"
| "alternate_of [c] = c"
| "alternate_of (c # cs) = c @ '': '' @ alternate_of cs"


section \<open>The machine\<close>

datatype Hive = HKEY_LOCAL_MACHINE | HKEY_CURRENT_USER
datatype RegKey = RegKey (rk_hive: Hive) (rk_path: string)
datatype Access = KEY_READ | KEY_READ_WRITE

record Output =
  out_success :: bool  \<comment> \<open>\<^verbatim>\<open>status.success()\<close>\<close>
  out_stdout :: bytes
  out_stderr :: bytes

record GitHubRelease =
  gr_tag_name :: string
  gr_draft :: bool
  gr_prerelease :: bool

record HttpResponse =
  resp_status :: nat
  resp_body :: bytes

datatype StateAction = WTD_STATEACTION_VERIFY | WTD_STATEACTION_CLOSE

text \<open>The data passed to \<^verbatim>\<open>WinVerifyTrustEx\<close>: no user interface, the whole chain, a file.\<close>

record WINTRUST_DATA =
  wt_file_path :: "u16 list"
  wt_state_action :: StateAction

record ('w, 'v) cli_host = text_lib +
  reg_open :: "RegKey \<Rightarrow> Access \<Rightarrow> 'w \<Rightarrow> io_error + unit"
  reg_get_string :: "RegKey \<Rightarrow> string \<Rightarrow> 'w \<Rightarrow> io_error + string"
  reg_get_u32 :: "RegKey \<Rightarrow> string \<Rightarrow> 'w \<Rightarrow> io_error + u32"
  reg_enum_keys :: "RegKey \<Rightarrow> 'w \<Rightarrow> (io_error + string) list"
  reg_enum_values :: "RegKey \<Rightarrow> 'w \<Rightarrow> (io_error + string) list"
  reg_create :: "RegKey \<Rightarrow> ('w, io_error, unit) act"
  reg_set_string :: "RegKey \<Rightarrow> string \<Rightarrow> string \<Rightarrow> ('w, io_error, unit) act"
  reg_set_u32 :: "RegKey \<Rightarrow> string \<Rightarrow> u32 \<Rightarrow> ('w, io_error, unit) act"
  reg_delete_value :: "RegKey \<Rightarrow> string \<Rightarrow> ('w, io_error, unit) act"
  reg_delete_tree :: "RegKey \<Rightarrow> ('w, io_error, unit) act"  \<comment> \<open>\<^verbatim>\<open>delete_subkey_all\<close>\<close>
  command_output :: "string \<Rightarrow> string list \<Rightarrow> ('w, io_error, Output) act"
  command_spawn :: "string \<Rightarrow> string list \<Rightarrow> ('w, io_error, unit) act"
  process_id :: u32
  current_exe :: "'w \<Rightarrow> io_error + string"
  canonicalize :: "string \<Rightarrow> 'w \<Rightarrow> io_error + string"
  is_file :: "string \<Rightarrow> 'w \<Rightarrow> bool"
  is_dir :: "string \<Rightarrow> 'w \<Rightarrow> bool"
  read_file :: "string \<Rightarrow> 'w \<Rightarrow> io_error + bytes"
  write_stdout :: "string \<Rightarrow> ('w, io_error, unit) act"
  write_stderr :: "string \<Rightarrow> ('w, io_error, unit) act"
  WinVerifyTrustEx :: "WINTRUST_DATA \<Rightarrow> 'w \<Rightarrow> 32 word \<times> 'w"
  sha256 :: "bytes \<Rightarrow> bytes"
  version_parse :: "string \<Rightarrow> 'v option"  \<comment> \<open>\<^verbatim>\<open>semver::Version::parse\<close>\<close>
  http_build :: "string \<Rightarrow> 'w \<Rightarrow> string list + unit"  \<comment> \<open>a client with this user agent\<close>
  http_send :: "string \<Rightarrow> (string \<times> string) list \<Rightarrow> ('w, string list, HttpResponse) act"
  http_status_error :: "nat \<Rightarrow> string list"  \<comment> \<open>the texts of the error \<^verbatim>\<open>error_for_status\<close> makes\<close>
  json_release :: "bytes \<Rightarrow> string list + GitHubRelease"
  json_releases :: "bytes \<Rightarrow> string list + GitHubRelease list"
  uuid_error :: "string \<Rightarrow> string"  \<comment> \<open>the text of the error \<^verbatim>\<open>Uuid::parse_str\<close> returns\<close>
  hash_order :: "uuid list \<Rightarrow> uuid list"  \<comment> \<open>the order in which a \<^verbatim>\<open>HashSet\<close> is iterated\<close>
  printable :: "nat \<Rightarrow> bool"  \<comment> \<open>Unicode tables behind \<^verbatim>\<open>{:?}\<close>, for characters beyond ASCII\<close>

text \<open>\<^verbatim>\<open>env!("CARGO_PKG_VERSION")\<close>, the version in the workspace's \<^verbatim>\<open>Cargo.toml\<close>.\<close>

definition CARGO_PKG_VERSION :: string where
  "CARGO_PKG_VERSION = ''0.2.0''"

text \<open>Writing to a closed standard output makes \<^verbatim>\<open>println!\<close> panic.\<close>

definition print_text :: "('w, 'v) cli_host \<Rightarrow> string \<Rightarrow> ('w, fault, unit) act" where
  "print_text H s =
     act_map_err (\<lambda>e. Panicked (format [''failed printing to stdout: '', io_text e])) (write_stdout H s)"

definition println :: "('w, 'v) cli_host \<Rightarrow> string list \<Rightarrow> ('w, fault, unit) act" where
  "println H parts = print_text H (format (parts @ [NEWLINE]))"

definition eprintln :: "('w, 'v) cli_host \<Rightarrow> string list \<Rightarrow> ('w, fault, unit) act" where
  "eprintln H parts =
     act_map_err (\<lambda>e. Panicked (format [''failed printing to stderr: '', io_text e]))
       (write_stderr H (format (parts @ [NEWLINE])))"

text \<open>\<^verbatim>\<open>{:?}\<close> of a string.\<close>

definition hex_lower :: "nat \<Rightarrow> char" where
  "hex_lower d = char_of (if d < 10 then 48 + d else 87 + d)"

fun show_hex :: "nat \<Rightarrow> string" where
  "show_hex n = (if n < 16 then [hex_lower n] else show_hex (n div 16) @ [hex_lower (n mod 16)])"

declare show_hex.simps [simp del]

definition escape_debug :: "('w, 'v) cli_host \<Rightarrow> nat \<Rightarrow> string" where
  "escape_debug H n =
     (if n = 0 then [CHR 0x5C, CHR ''0'']
      else if n = 9 then [CHR 0x5C, CHR ''t'']
      else if n = 13 then [CHR 0x5C, CHR ''r'']
      else if n = 10 then [CHR 0x5C, CHR ''n'']
      else if n = 0x22 \<or> n = 0x5C then [CHR 0x5C, char_of n]
      else if 0x20 \<le> n \<and> n < 0x7F \<or> 0x80 \<le> n \<and> printable H n then bytes_to_str (utf8_bytes n)
      else [CHR 0x5C] @ ''u{'' @ show_hex n @ ''}'')"

definition debug_str :: "('w, 'v) cli_host \<Rightarrow> string \<Rightarrow> string" where
  "debug_str H s = [CHR 0x22] @ concat (map (escape_debug H) (utf8_scalars (as_bytes s))) @ [CHR 0x22]"

definition show_bool :: "bool \<Rightarrow> string" where
  "show_bool b = (if b then ''true'' else ''false'')"

definition show_version :: "string \<Rightarrow> u32 option \<Rightarrow> string" where
  "show_version unknown v = (case v of Some n \<Rightarrow> show_nat (unat n) | None \<Rightarrow> unknown)"


section \<open>The registry\<close>

definition subkey :: "RegKey \<Rightarrow> string \<Rightarrow> RegKey" where
  "subkey k name = RegKey (rk_hive k) (rk_path k @ BACKSLASH @ name)"

text \<open>Opening a key that may be absent; other errors are reported with a context.\<close>

definition open_optional :: "('w, 'v) cli_host \<Rightarrow> RegKey \<Rightarrow> Access \<Rightarrow> string \<Rightarrow> ('w, fault, RegKey option) act" where
  "open_optional H key access message =
     act_bind (act_try (look (reg_open H key access))) (\<lambda>r.
       case r of
         Inr _ \<Rightarrow> act_return (Some key)
       | Inl e \<Rightarrow> if io_kind e = NotFoundIo then act_return None else act_throw (Failed [message, io_text e]))"

definition registry_string :: "('w, 'v) cli_host \<Rightarrow> RegKey \<Rightarrow> string \<Rightarrow> ('w, fault, string option) act" where
  "registry_string H key name =
     act_bind (act_try (look (reg_get_string H key name))) (\<lambda>r.
       case r of
         Inr v \<Rightarrow> act_return (Some v)
       | Inl e \<Rightarrow>
           if io_kind e = NotFoundIo then act_return None
           else act_throw (Failed [''registry value is not a readable string'', io_text e]))"


section \<open>Processes\<close>

record ProcessResult =
  pr_success :: bool
  pr_stdout :: string
  pr_stderr :: string

definition display_error :: "ProcessResult \<Rightarrow> string" where
  "display_error result =
     (let text = (if trim (pr_stderr result) = [] then trim (pr_stdout result) else trim (pr_stderr result))
      in if text = [] then ''command returned a non-zero exit status'' else text)"

fun chunks_exact2 :: "'a list \<Rightarrow> ('a \<times> 'a) list" where
  "chunks_exact2 (a # b # r) = (a, b) # chunks_exact2 r"
| "chunks_exact2 _ = []"

definition from_le_bytes :: "u8 \<times> u8 \<Rightarrow> u16" where
  "from_le_bytes p = of_nat (unat (fst p) + 256 * unat (snd p))"

definition decode_process_output :: "bytes \<Rightarrow> string" where
  "decode_process_output bs =
     (let marked = starts_with [0xFF, 0xFE] bs;
          pairs = take 64 (chunks_exact2 bs);
          utf16_le = marked \<or>
            (4 \<le> length bs \<and> even (length bs) \<and>
             length pairs * 3 \<le> length (filter (\<lambda>pair. snd pair = 0) pairs) * 4)
      in if utf16_le
         then from_utf16_lossy (map from_le_bytes (chunks_exact2 (drop (if marked then 2 else 0) bs)))
         else from_utf8_lossy bs)"

definition process_result :: "Output \<Rightarrow> ProcessResult" where
  "process_result output =
     \<lparr>pr_success = out_success output,
      pr_stdout = decode_process_output (out_stdout output),
      pr_stderr = decode_process_output (out_stderr output)\<rparr>"

definition run_process :: "('w, 'v) cli_host \<Rightarrow> string \<Rightarrow> string list \<Rightarrow> ('w, fault, ProcessResult) act" where
  "run_process H program arguments =
     act_bind (io_context (format [''could not launch '', program]) (command_output H program arguments)) (\<lambda>output.
     act_return (process_result output))"

definition wsl_root_arguments :: "string \<Rightarrow> string list \<Rightarrow> string list" where
  "wsl_root_arguments distribution arguments = [''-d'', distribution, ''-u'', ''root'', ''--''] @ arguments"

definition run_wsl_root :: "('w, 'v) cli_host \<Rightarrow> string \<Rightarrow> string list \<Rightarrow> ('w, fault, ProcessResult) act" where
  "run_wsl_root H distribution arguments =
     act_bind (io_context ''could not launch wsl.exe''
       (command_output H ''wsl.exe'' (wsl_root_arguments distribution arguments))) (\<lambda>output.
     act_return (process_result output))"

definition ensure_wsl_success :: "('w, 'v) cli_host \<Rightarrow> string \<Rightarrow> string list \<Rightarrow> string \<Rightarrow> ('w, fault, unit) act" where
  "ensure_wsl_success H distribution arguments operation =
     act_bind (run_wsl_root H distribution arguments) (\<lambda>result.
     ensure (pr_success result) (format [operation, '' failed: '', display_error result]))"

definition wslpath_argument :: "string \<Rightarrow> string" where
  "wslpath_argument path = from_wide (map (\<lambda>unit. if unit = 0x5C then 0x2F else unit) (encode_utf16 path))"

definition strip_suffix :: "string \<Rightarrow> string \<Rightarrow> string option" where
  "strip_suffix suf s = map_option rev (strip_prefix (rev suf) (rev s))"

definition strip_line_end :: "string \<Rightarrow> string" where
  "strip_line_end s =
     (case strip_suffix [CHR 0x0D, CHR 0x0A] s of
        Some r \<Rightarrow> r
      | None \<Rightarrow> (case strip_suffix NEWLINE s of Some r \<Rightarrow> r | None \<Rightarrow> s))"

definition wslpath_arguments :: "string \<Rightarrow> string \<Rightarrow> string list" where
  "wslpath_arguments distribution path =
     [''-d'', distribution, ''--'', ''wslpath'', ''-a'', wslpath_argument path]"

definition wsl_path :: "('w, 'v) cli_host \<Rightarrow> string \<Rightarrow> string \<Rightarrow> ('w, fault, string) act" where
  "wsl_path H distribution path =
     act_bind (io_context ''could not invoke wslpath''
       (command_output H ''wsl.exe'' (wslpath_arguments distribution path))) (\<lambda>output.
     let result = process_result output in
     act_bind (ensure (pr_success result \<and> trim (pr_stdout result) \<noteq> [])
       (format [''could not translate '', QUOTED (to_string_lossy path), '' for WSL: '', display_error result])) (\<lambda>_.
     act_return (strip_line_end (pr_stdout result))))"


section \<open>Elevation and signatures\<close>

definition administrator_script :: string where
  "administrator_script =
     format [''$principal = [Security.Principal.WindowsPrincipal] '',
       ''[Security.Principal.WindowsIdentity]::GetCurrent(); '',
       ''$principal.IsInRole([Security.Principal.WindowsBuiltInRole]::Administrator)'']"

definition is_administrator :: "('w, 'v) cli_host \<Rightarrow> ('w, fault, bool) act" where
  "is_administrator H =
     act_bind (context_of ''could not determine whether the process is elevated''
       (run_process H ''powershell.exe''
         [''-NoLogo'', ''-NoProfile'', ''-NonInteractive'', ''-Command'', administrator_script])) (\<lambda>result.
     act_bind (ensure (pr_success result) ''could not determine whether the process is elevated'') (\<lambda>_.
     act_return (eq_ignore_ascii_case (trim (pr_stdout result)) ''true'')))"

definition require_administrator :: "('w, 'v) cli_host \<Rightarrow> ('w, fault, unit) act" where
  "require_administrator H =
     act_bind (is_administrator H) (\<lambda>elevated.
     ensure elevated ''administrator privileges are required. Start an elevated terminal and retry.'')"

definition require_non_administrator :: "('w, 'v) cli_host \<Rightarrow> string \<Rightarrow> ('w, fault, unit) act" where
  "require_non_administrator H command =
     act_bind (is_administrator H) (\<lambda>elevated.
     ensure (\<not> elevated)
       (format [''run `wincred-libsecret '', command,
         ''` from a non-elevated terminal; it performs WSL work before requesting elevation when needed'']))"

datatype SignatureStatus = Valid | NotValid

fun SignatureStatus_to_string :: "SignatureStatus \<Rightarrow> string" where
  "SignatureStatus_to_string Valid = ''Valid''"
| "SignatureStatus_to_string NotValid = ''not valid''"

definition signature_status_from_winverifytrust :: "32 word \<Rightarrow> SignatureStatus" where
  "signature_status_from_winverifytrust result = (if result = 0 then Valid else NotValid)"

definition signature_status :: "('w, 'v) cli_host \<Rightarrow> string \<Rightarrow> ('w, fault, SignatureStatus) act" where
  "signature_status H path =
     (let trust_data = \<lparr>wt_file_path = encode_utf16 path @ [0], wt_state_action = WTD_STATEACTION_VERIFY\<rparr> in
      act_bind (effect (WinVerifyTrustEx H trust_data)) (\<lambda>result.
      act_bind (effect (WinVerifyTrustEx H (trust_data\<lparr>wt_state_action := WTD_STATEACTION_CLOSE\<rparr>))) (\<lambda>_.
      act_return (signature_status_from_winverifytrust result))))"


section \<open>Reading the output of programs\<close>

text \<open>Text as a program writes it in UTF-16, low byte first.\<close>

definition utf16_le :: "string \<Rightarrow> bytes" where
  "utf16_le s = concat (map (\<lambda>k. [of_nat (unat k mod 256), of_nat (unat k div 256)]) (encode_utf16 s))"

lemma le_bytes: "from_le_bytes (of_nat (unat k mod 256), of_nat (unat k div 256)) = k"
proof -
  have "unat k < 65536" using unsigned_less [of k] by simp
  then have "unat k div 256 < 256" by (simp add: less_mult_imp_div_less)
  then have "unat (of_nat (unat k div 256) :: u8) = unat k div 256" by (rule unat_u8)
  moreover have "unat (of_nat (unat k mod 256) :: u8) = unat k mod 256" by (rule unat_u8) simp
  ultimately show ?thesis by (simp add: from_le_bytes_def)
qed

lemma chunks_utf16_le:
  "chunks_exact2 (concat (map (\<lambda>k. [of_nat (unat k mod 256), of_nat (unat k div 256)]) ks)) =
   map (\<lambda>k. (of_nat (unat k mod 256), of_nat (unat k div 256))) (ks :: u16 list)"
  by (induction ks) simp_all

lemma units_utf16_le: "map from_le_bytes (chunks_exact2 (utf16_le s)) = encode_utf16 s"
  by (simp add: utf16_le_def chunks_utf16_le comp_def le_bytes)

lemma decode_marked: "is_utf8 s \<Longrightarrow> decode_process_output ([0xFF, 0xFE] @ utf16_le s) = s"
  by (simp add: decode_process_output_def units_utf16_le from_utf16_lossy_encode starts_with_def)

text \<open>Without a mark, text in ASCII is recognized by its zero bytes.\<close>

lemma encode_utf16_ascii:
  assumes "list_all (\<lambda>c. of_char c < (128::nat)) s"
  shows "encode_utf16 s = map (\<lambda>c. of_nat (of_char c)) s" and "is_utf8 s"
proof -
  have b: "byte_of_char c < 0x80 \<longleftrightarrow> of_char c < (128::nat)" for c
    by (simp add: u8_compare(1) unat_byte_of_char)
  show "encode_utf16 s = map (\<lambda>c. of_nat (of_char c)) s"
    using assms by (induction s) (auto simp: encode_utf16_def as_bytes_def b utf16_units_def unat_byte_of_char)
  show "is_utf8 s" using assms by (induction s) (auto simp: is_utf8_def as_bytes_def b)
qed

lemma decode_unmarked:
  assumes ascii: "list_all (\<lambda>c. of_char c < (128::nat)) s" and "2 \<le> length s"
  shows "decode_process_output (utf16_le s) = s"
proof -
  have small: "unat (of_nat (of_char c) :: u16) = of_char c" for c :: char
    by (rule unat_u16) (use nat_of_char_less_256 [of c] in linarith)
  have le: "utf16_le s = concat (map (\<lambda>c. [byte_of_char c, 0]) s)"
    using ascii unfolding utf16_le_def encode_utf16_ascii(1) [OF ascii]
    by (induction s) (auto simp: small byte_of_char_def)
  have pairs: "chunks_exact2 (concat (map (\<lambda>c. [byte_of_char c, 0]) t)) = map (\<lambda>c. (byte_of_char c, 0)) t" for t
    by (induction t) simp_all
  have zero: "filter (\<lambda>p. snd p = 0) (take 64 (map (\<lambda>c. (byte_of_char c, 0 :: u8)) s)) = take 64 (map (\<lambda>c. (byte_of_char c, 0)) s)"
    by (rule filter_True) (auto dest: in_set_takeD)
  have len: "length (concat (map (\<lambda>c. [byte_of_char c, 0 :: u8]) t)) = 2 * length t" for t
    by (induction t) simp_all
  have "\<not> starts_with [0xFF, 0xFE] (utf16_le s)"
    using assms(2) unfolding le by (cases s) (auto simp: starts_with_def)
  then have "decode_process_output (utf16_le s) = from_utf16_lossy (map from_le_bytes (chunks_exact2 (utf16_le s)))"
    using assms(2) by (simp add: decode_process_output_def Let_def le pairs zero len)
  then show ?thesis
    unfolding units_utf16_le from_utf16_lossy_encode [OF encode_utf16_ascii(2) [OF ascii]] .
qed

lemma decode_utf8:
  assumes "is_utf8 s" and "CHR 0x00 \<notin> set s"
  shows "decode_process_output (as_bytes s) = s"
proof -
  have "byte_of_char c \<noteq> 0" if "c \<in> set s" for c
  proof
    assume "byte_of_char c = 0"
    then have "char_of_byte (byte_of_char c) = CHR 0x00" by (simp add: char_of_byte_def char_of_def)
    then show False using that assms(2) by simp
  qed
  then have nz: "0 \<notin> set (as_bytes s)" by (force simp: as_bytes_def)
  have mem: "p \<in> set (chunks_exact2 bs) \<Longrightarrow> snd p \<in> set bs" for p and bs :: bytes
    by (induction bs rule: chunks_exact2.induct) auto
  have "filter (\<lambda>p. snd p = 0) (take 64 (chunks_exact2 (as_bytes s))) = []"
    using nz mem by (auto simp: filter_empty_conv dest!: in_set_takeD)
  moreover have "0 < length (take 64 (chunks_exact2 bs))" if "4 \<le> length bs" for bs :: bytes
    using that by (cases bs rule: chunks_exact2.cases) auto
  moreover have "\<not> starts_with [0xFF, 0xFE] (as_bytes s)"
    using assms(1) by (auto simp: starts_with_iff is_utf8_def)
  ultimately have "decode_process_output (as_bytes s) = from_utf8_lossy (as_bytes s)"
    by (simp add: decode_process_output_def Let_def del: length_take take_eq_Nil) fastforce
  then show ?thesis by (simp add: from_utf8_lossy_valid assms(1))
qed


end
