(* ===== verification/Cli_Payload.thy ===== *)
theory Cli_Payload
  imports Cli_Host
begin

text \<open>
  Paths and payloads of the management command (\<^verbatim>\<open>crates/cli/src/main.rs\<close>): normalising and
  comparing Windows paths, the files a command may be given, and the verification of the Linux
  payload against its manifest before any of it is run as root.
\<close>

section \<open>Paths\<close>

definition VERBATIM :: string where
  "VERBATIM = [BACK, BACK, CHR ''?'', BACK]"

definition normalize_windows_path :: "string \<Rightarrow> string" where
  "normalize_windows_path path =
     (let text = to_string_lossy path in
      case strip_prefix (VERBATIM @ ''UNC'' @ [BACK]) text of
        Some unc \<Rightarrow> [BACK, BACK] @ unc
      | None \<Rightarrow> (case strip_prefix VERBATIM text of Some p \<Rightarrow> p | None \<Rightarrow> path))"

definition windows_paths_equal :: "string \<Rightarrow> string \<Rightarrow> bool" where
  "windows_paths_equal left right =
     eq_ignore_ascii_case (to_string_lossy (normalize_windows_path left))
       (to_string_lossy (normalize_windows_path right))"

definition absolute_existing_file :: "('w, 'v) cli_host \<Rightarrow> string \<Rightarrow> string \<Rightarrow> ('w, fault, string) act" where
  "absolute_existing_file H path description =
     act_bind (ensure (is_absolute path)
       (format [description, '' path must be absolute: '', to_string_lossy path])) (\<lambda>_.
     act_bind (io_context (format [description, '' does not exist: '', to_string_lossy path])
       (look (canonicalize H path))) (\<lambda>canonical.
     let canonical = normalize_windows_path canonical in
     act_bind (peek (is_file H canonical)) (\<lambda>file.
     act_bind (ensure file (format [description, '' is not a file: '', to_string_lossy canonical])) (\<lambda>_.
     act_return canonical))))"

definition absolute_existing_directory :: "('w, 'v) cli_host \<Rightarrow> string \<Rightarrow> string \<Rightarrow> ('w, fault, string) act" where
  "absolute_existing_directory H path description =
     act_bind (ensure (is_absolute path)
       (format [description, '' path must be absolute: '', to_string_lossy path])) (\<lambda>_.
     act_bind (io_context (format [description, '' does not exist: '', to_string_lossy path])
       (look (canonicalize H path))) (\<lambda>canonical.
     let canonical = normalize_windows_path canonical in
     act_bind (peek (is_dir H canonical)) (\<lambda>dir.
     act_bind (ensure dir (format [description, '' is not a directory: '', to_string_lossy canonical])) (\<lambda>_.
     act_return canonical))))"

definition is_named :: "string \<Rightarrow> string \<Rightarrow> bool" where
  "is_named name path = (case file_name path of Some n \<Rightarrow> eq_ignore_ascii_case n name | None \<Rightarrow> False)"

definition PLUGIN_DLL_NAME :: string where
  "PLUGIN_DLL_NAME = ''wincred-libsecret-wsl-plugin.dll''"

definition BROKER_NAME :: string where
  "BROKER_NAME = ''wincred-libsecret-broker.exe''"

definition validate_plugin_dll :: "('w, 'v) cli_host \<Rightarrow> string \<Rightarrow> ('w, fault, string) act" where
  "validate_plugin_dll H path =
     act_bind (absolute_existing_file H path ''plugin DLL'') (\<lambda>canonical.
     act_bind (ensure (is_named PLUGIN_DLL_NAME canonical)
       (format [''plugin DLL must be named '', PLUGIN_DLL_NAME])) (\<lambda>_.
     act_return canonical))"

definition validate_broker :: "('w, 'v) cli_host \<Rightarrow> string \<Rightarrow> ('w, fault, string) act" where
  "validate_broker H path =
     act_bind (absolute_existing_file H path ''broker executable'') (\<lambda>canonical.
     act_bind (ensure (is_named BROKER_NAME canonical)
       (format [''broker executable must be named '', BROKER_NAME])) (\<lambda>_.
     act_return canonical))"

definition beside_executable :: "('w, 'v) cli_host \<Rightarrow> string \<Rightarrow> 'w \<Rightarrow> string option" where
  "beside_executable H name w =
     (case current_exe H w of
        Inr path \<Rightarrow> map_option (\<lambda>directory. join directory name) (parent path)
      | Inl _ \<Rightarrow> None)"

definition INSTALL_ROOT :: string where
  "INSTALL_ROOT = ''C:'' @ [BACK] @ ''Program Files'' @ [BACK] @ ''WinCredLibsecret'' @ [BACK]"

definition default_payload_root :: "('w, 'v) cli_host \<Rightarrow> 'w \<Rightarrow> string" where
  "default_payload_root H w =
     (case beside_executable H ''linux'' w of Some p \<Rightarrow> p | None \<Rightarrow> INSTALL_ROOT @ ''linux'')"

definition default_broker_path :: "('w, 'v) cli_host \<Rightarrow> 'w \<Rightarrow> string" where
  "default_broker_path H w =
     (case beside_executable H BROKER_NAME w of Some p \<Rightarrow> p | None \<Rightarrow> INSTALL_ROOT @ BROKER_NAME)"


section \<open>The payload\<close>

definition LINUX_PAYLOAD_MANIFEST :: string where
  "LINUX_PAYLOAD_MANIFEST = ''manifest.sha256''"

definition LINUX_BOOTSTRAP :: string where
  "LINUX_BOOTSTRAP = ''wincred-libsecret-bootstrap.sh''"

definition required_files :: "string list" where
  "required_files =
     [LINUX_BOOTSTRAP, ''wincred-libsecret-provider'', ''org.freedesktop.secrets.service'',
      ''wincred-libsecret.service'', ''wincred-libsecret-refresh.service'']"

fun split_once :: "string \<Rightarrow> string \<Rightarrow> (string \<times> string) option" where
  "split_once pat [] = (if pat = [] then Some ([], []) else None)"
| "split_once pat (c # s) =
     (if starts_with pat (c # s) then Some ([], drop (length pat) (c # s))
      else map_option (\<lambda>(a, b). (c # a, b)) (split_once pat s))"

definition is_ascii_hexdigit :: "char \<Rightarrow> bool" where
  "is_ascii_hexdigit c \<longleftrightarrow>
     is_ascii_digit c \<or> CHR ''a'' \<le> to_ascii_lower c \<and> to_ascii_lower c \<le> CHR ''f''"

definition hex_of :: "bytes \<Rightarrow> string" where
  "hex_of bs = concat (map (\<lambda>b. [hex_lower (unat b div 16), hex_lower (unat b mod 16)]) bs)"

definition safe_relative :: "string \<Rightarrow> bool" where
  "safe_relative relative \<longleftrightarrow>
     \<not> is_absolute relative \<and> list_all (\<lambda>c. c \<noteq> ParentDir \<and> c \<noteq> RootDir) (components relative)"

definition read_to_string :: "('w, 'v) cli_host \<Rightarrow> string \<Rightarrow> 'w \<Rightarrow> io_error + string" where
  "read_to_string H path w =
     res_bind (read_file H path w) (\<lambda>bs.
     ok_or (IoError OtherIo ''stream did not contain valid UTF-8'') (from_utf8 bs))"

definition verify_entry :: "('w, 'v) cli_host \<Rightarrow> string \<Rightarrow> string \<Rightarrow> ('w, fault, unit) act" where
  "verify_entry H root line =
     (case split_once ''  '' line of
        None \<Rightarrow> bail ''invalid payload manifest entry''
      | Some (expected, relative) \<Rightarrow>
          act_bind (ensure (length expected = 64 \<and> list_all is_ascii_hexdigit expected) ''invalid payload hash'') (\<lambda>_.
          act_bind (ensure (safe_relative relative) ''payload manifest contains an unsafe path'') (\<lambda>_.
          act_bind (io_context (format [''payload file is missing: '', to_string_lossy relative])
            (look (read_file H (join root relative)))) (\<lambda>contents.
          ensure (eq_ignore_ascii_case (hex_of (sha256 H contents)) expected)
            (format [''payload hash mismatch: '', to_string_lossy relative])))))"

definition manifest_lines :: "string \<Rightarrow> string list" where
  "manifest_lines text = filter (\<lambda>line. trim line \<noteq> []) (lines text)"

definition verify_payload :: "('w, 'v) cli_host \<Rightarrow> string \<Rightarrow> ('w, fault, unit) act" where
  "verify_payload H root =
     (let manifest = join root LINUX_PAYLOAD_MANIFEST in
      act_bind (io_context (format [''payload manifest is missing: '', to_string_lossy manifest])
        (look (read_to_string H manifest))) (\<lambda>manifest_text.
      act_bind (act_iter (verify_entry H root) (manifest_lines manifest_text)) (\<lambda>_.
      act_bind (ensure (0 < length (manifest_lines manifest_text)) ''payload manifest contains no files'') (\<lambda>_.
      act_iter (\<lambda>required.
        act_bind (peek (is_file H (join root required))) (\<lambda>file.
        ensure file (format [''payload is missing '', required]))) required_files))))"


section \<open>What a verified payload has\<close>

lemma wp_bail [wp_simps]: "wp (bail m) Q s = Q (Inl (Failed [m])) s"
  by (simp add: bail_def wp_simps)

lemma wp_ensure [wp_simps]: "wp (ensure c m) Q s = (if c then Q (Inr ()) s else Q (Inl (Failed [m])) s)"
  by (simp add: ensure_def wp_simps)

lemma wp_io_context [wp_simps]:
  "wp (io_context c m) Q s = wp m (\<lambda>r t. Q (map_err (\<lambda>e. Failed [c, io_text e]) r) t) s"
  by (simp add: io_context_def wp_simps)

text \<open>The manifest line \<open>line\<close> names a file below \<open>root\<close> with the digest it has.\<close>

definition entry_holds :: "('w, 'v) cli_host \<Rightarrow> string \<Rightarrow> 'w \<Rightarrow> string \<Rightarrow> bool" where
  "entry_holds H root w line =
     (case split_once ''  '' line of
        None \<Rightarrow> False
      | Some (expected, relative) \<Rightarrow>
          length expected = 64 \<and> list_all is_ascii_hexdigit expected \<and> safe_relative relative \<and>
          (case read_file H (join root relative) w of
             Inl _ \<Rightarrow> False
           | Inr contents \<Rightarrow> eq_ignore_ascii_case (hex_of (sha256 H contents)) expected))"

definition payload_holds :: "('w, 'v) cli_host \<Rightarrow> string \<Rightarrow> 'w \<Rightarrow> bool" where
  "payload_holds H root w =
     (case read_to_string H (join root LINUX_PAYLOAD_MANIFEST) w of
        Inl _ \<Rightarrow> False
      | Inr text \<Rightarrow>
          manifest_lines text \<noteq> [] \<and> list_all (entry_holds H root w) (manifest_lines text) \<and>
          list_all (\<lambda>name. is_file H (join root name) w) required_files)"

text \<open>An action that leaves the state alone and fails, without a panic, exactly when \<open>P\<close> does not hold.\<close>

definition decides :: "('w, fault, unit) act \<Rightarrow> 'w \<Rightarrow> bool \<Rightarrow> bool" where
  "decides m s P \<longleftrightarrow> wp m (\<lambda>r t. t = s \<and> (if P then r = Inr () else (\<exists>chain. r = Inl (Failed chain)))) s"

lemma decides_bind:
  "decides m s P \<Longrightarrow> decides n s Q \<Longrightarrow> decides (act_bind m (\<lambda>_. n)) s (P \<and> Q)"
  unfolding decides_def by (elim wp_bindI) (auto simp: wp_def split: if_splits)

lemma decides_iter:
  "(\<And>x. x \<in> set xs \<Longrightarrow> decides (f x) s (P x)) \<Longrightarrow> decides (act_iter f xs) s (list_all P xs)"
proof (induction xs)
  case Nil
  then show ?case by (simp add: decides_def wp_simps)
next
  case (Cons x xs)
  then show ?case using decides_bind [of "f x" s "P x" "act_iter f xs"] by simp
qed

lemma decides_ensure: "decides (ensure c m) s c"
  by (simp add: decides_def wp_simps)

lemma decides_read: "f s = Inr x \<Longrightarrow> decides (act_bind (io_context c (look f)) g) s P = decides (g x) s P"
  by (simp add: decides_def wp_bind wp_io_context wp_look)

lemma verify_entry_decides: "decides (verify_entry H root line) s (entry_holds H root s line)"
  by (auto simp: decides_def verify_entry_def entry_holds_def wp_simps split: option.splits sum.splits)

lemma verify_payload_decides: "decides (verify_payload H root) s (payload_holds H root s)"
proof (cases "read_to_string H (join root LINUX_PAYLOAD_MANIFEST) s")
  case (Inl e)
  then show ?thesis by (simp add: decides_def verify_payload_def payload_holds_def Let_def wp_simps)
next
  case (Inr body)
  let ?ls = "manifest_lines body"
  have files: "decides (act_iter (\<lambda>required. act_bind (peek (is_file H (join root required)))
      (\<lambda>file. ensure file (format [''payload is missing '', required]))) required_files) s
      (list_all (\<lambda>name. is_file H (join root name) s) required_files)"
    by (rule decides_iter) (simp add: decides_def wp_simps)
  have entries: "decides (act_iter (verify_entry H root) ?ls) s (list_all (entry_holds H root s) ?ls)"
    by (rule decides_iter) (rule verify_entry_decides)
  have "decides (act_bind (act_iter (verify_entry H root) ?ls) (\<lambda>_.
      act_bind (ensure (0 < length ?ls) ''payload manifest contains no files'') (\<lambda>_.
      act_iter (\<lambda>required. act_bind (peek (is_file H (join root required)))
      (\<lambda>file. ensure file (format [''payload is missing '', required]))) required_files))) s
      (list_all (entry_holds H root s) ?ls \<and> 0 < length ?ls \<and> list_all (\<lambda>name. is_file H (join root name) s) required_files)"
    by (intro decides_bind files entries decides_ensure)
  then show ?thesis
    unfolding verify_payload_def Let_def decides_read [where f = "read_to_string H (join root LINUX_PAYLOAD_MANIFEST)", OF Inr] using Inr
    by (simp add: payload_holds_def conj_commute conj_left_commute)
qed

text \<open>A path the manifest may name stays below the root, unless it starts with a drive.\<close>

lemma safe_relative_iff:
  "safe_relative p \<longleftrightarrow>
     (parse_prefix p = None \<or> (\<exists>d. parse_prefix p = Some (Disk d))) \<and> \<not> has_root p \<and> ParentDir \<notin> set (components p)"
proof -
  have drive: "(\<exists>d. x = Disk d) \<longleftrightarrow> is_drive x" for x by (cases x) auto
  show ?thesis
    using has_root_component [of p]
    by (cases "parse_prefix p") (auto simp: safe_relative_def is_absolute_def list_all_iff drive has_root_def)
qed

end
