(* ===== verification/Cli_Distributions.thy ===== *)
theory Cli_Distributions
  imports Cli_Payload
begin

text \<open>
  The distributions of the current user (\<^verbatim>\<open>crates/cli/src/main.rs\<close>): the ones WSL has registered,
  the enablement keys of the project, and the helpers that run inside a distribution.
\<close>

section \<open>WSL\<close>

definition check_wsl_version :: "('w, 'v) cli_host \<Rightarrow> ('w, fault, WslVersion) act" where
  "check_wsl_version H =
     act_bind (context_of ''could not run wsl.exe --version; install WSL first''
       (run_process H ''wsl.exe'' [''--version''])) (\<lambda>result.
     act_bind (ensure (pr_success result) (format [''wsl.exe --version failed: '', display_error result])) (\<lambda>_.
     act_bind (act_lift (map_err (\<lambda>e. Failed [''could not parse `wsl.exe --version` output'', ParseError_to_string e])
       (parse_wsl_version (pr_stdout result)))) (\<lambda>version.
     act_bind (ensure (compare_versions version MINIMUM_WSL_VERSION \<noteq> Less)
       (format [''WSL '', WslVersion_to_string version, '' is too old; version '',
         WslVersion_to_string MINIMUM_WSL_VERSION, '' or newer is required''])) (\<lambda>_.
     act_return version))))"

record Distribution =
  dist_id :: uuid
  dist_name :: string
  dist_version :: "u32 option"

definition trim_braces :: "string \<Rightarrow> string" where
  "trim_braces s = trim_end_while (\<lambda>c. c = CHR ''{'' \<or> c = CHR ''}'') (dropWhile (\<lambda>c. c = CHR ''{'' \<or> c = CHR ''}'') s)"

definition LXSS :: RegKey where
  "LXSS = RegKey HKEY_CURRENT_USER
     (''Software'' @ BACKSLASH @ ''Microsoft'' @ BACKSLASH @ ''Windows'' @ BACKSLASH @ ''CurrentVersion'' @ BACKSLASH @ ''Lxss'')"

definition read_distribution :: "('w, 'v) cli_host \<Rightarrow> 'w \<Rightarrow> io_error + string \<Rightarrow> Distribution option" where
  "read_distribution H w entry =
     (case entry of
        Inl _ \<Rightarrow> None
      | Inr name \<Rightarrow>
          (case uuid_parse_str H (trim_braces name) of
             None \<Rightarrow> None
           | Some uid \<Rightarrow>
               (case reg_open H (subkey LXSS name) KEY_READ w of
                  Inl _ \<Rightarrow> None
                | Inr _ \<Rightarrow>
                    (case reg_get_string H (subkey LXSS name) ''DistributionName'' w of
                       Inl _ \<Rightarrow> None
                     | Inr distribution_name \<Rightarrow>
                         Some \<lparr>dist_id = uid, dist_name = distribution_name,
                           dist_version = (case reg_get_u32 H (subkey LXSS name) ''Version'' w of
                             Inr v \<Rightarrow> Some v | Inl _ \<Rightarrow> None)\<rparr>))))"

text \<open>
  The names \<^verbatim>\<open>wsl.exe --list\<close> reports are looked up and not used further: entries that only the
  registry has stay visible.
\<close>

definition enumerate_distributions :: "('w, 'v) cli_host \<Rightarrow> ('w, fault, Distribution list) act" where
  "enumerate_distributions H =
     act_bind (open_optional H LXSS KEY_READ ''could not enumerate WSL distribution registry'') (\<lambda>lxss.
       case lxss of
         None \<Rightarrow> act_return []
       | Some _ \<Rightarrow>
           act_bind (attempt (run_process H ''wsl.exe'' [''--list'', ''--quiet''])) (\<lambda>_.
           act_bind (peek (\<lambda>w. List.map_filter (read_distribution H w) (reg_enum_keys H LXSS w))) (\<lambda>distributions.
           act_return (sort_key dist_name distributions))))"

definition find_distribution :: "('w, 'v) cli_host \<Rightarrow> string \<Rightarrow> ('w, fault, Distribution) act" where
  "find_distribution H name =
     act_bind (enumerate_distributions H) (\<lambda>distributions.
       case filter (\<lambda>distribution. eq_ignore_ascii_case (dist_name distribution) name) distributions of
         [distribution] \<Rightarrow> act_return distribution
       | [] \<Rightarrow> bail (format [''WSL distribution '', QUOTED name, '' was not found for this Windows user''])
       | _ \<Rightarrow> bail (format [''multiple WSL distributions match '', QUOTED name, ''; use its exact registered name'']))"


section \<open>Enablement\<close>

definition distribution_key :: "('w, 'v) cli_host \<Rightarrow> uuid \<Rightarrow> RegKey" where
  "distribution_key H uid = RegKey HKEY_CURRENT_USER (distribution_registry_path H uid)"

definition distribution_enabled :: "('w, 'v) cli_host \<Rightarrow> uuid \<Rightarrow> ('w, fault, bool) act" where
  "distribution_enabled H uid =
     act_bind (open_optional H (distribution_key H uid) KEY_READ ''could not read distribution enablement'') (\<lambda>key.
       case key of
         None \<Rightarrow> act_return False
       | Some k \<Rightarrow>
           peek (\<lambda>w. case reg_get_u32 H k DISTRIBUTION_ENABLEMENT_VALUE w of Inr v \<Rightarrow> v \<noteq> 0 | Inl _ \<Rightarrow> False))"

definition set_distribution_enabled :: "('w, 'v) cli_host \<Rightarrow> uuid \<Rightarrow> bool \<Rightarrow> ('w, fault, unit) act" where
  "set_distribution_enabled H uid enabled =
     (let key = distribution_key H uid in
      if enabled then
        act_bind (io_context ''could not create distribution enablement key'' (reg_create H key)) (\<lambda>_.
        io_context ''could not enable the distribution callback'' (reg_set_u32 H key DISTRIBUTION_ENABLEMENT_VALUE 1))
      else
        act_bind (act_try (reg_delete_tree H key)) (\<lambda>r.
          case r of
            Inr _ \<Rightarrow> act_return ()
          | Inl e \<Rightarrow>
              if io_kind e = NotFoundIo then act_return ()
              else act_throw (Failed [''could not remove distribution enablement'', io_text e])))"

fun keep_enabled :: "('w, 'v) cli_host \<Rightarrow> Distribution list \<Rightarrow> ('w, fault, Distribution list) act" where
  "keep_enabled H [] = act_return []"
| "keep_enabled H (d # ds) =
     act_bind (distribution_enabled H (dist_id d)) (\<lambda>enabled.
     act_bind (keep_enabled H ds) (\<lambda>rest.
     act_return (if enabled then d # rest else rest)))"

definition enabled_distributions :: "('w, 'v) cli_host \<Rightarrow> ('w, fault, Distribution list) act" where
  "enabled_distributions H = act_bind (enumerate_distributions H) (keep_enabled H)"

definition DISTRIBUTIONS :: RegKey where
  "DISTRIBUTIONS = RegKey HKEY_CURRENT_USER (trim_end_while (\<lambda>c. c = BACK) DISTRIBUTION_ENABLEMENT_PREFIX)"

definition project_id :: "('w, 'v) cli_host \<Rightarrow> io_error + string \<Rightarrow> fault + uuid" where
  "project_id H entry =
     (case entry of
        Inl e \<Rightarrow> Inl (Failed [''could not read a project distro enablement key'', io_text e])
      | Inr name \<Rightarrow>
          (case uuid_parse_str H (trim_braces name) of
             Some uid \<Rightarrow> Inr uid
           | None \<Rightarrow> Inl (Failed [format [''project distro enablement key has an invalid GUID: '', name],
               uuid_error H (trim_braces name)])))"

fun project_ids :: "('w, 'v) cli_host \<Rightarrow> (io_error + string) list \<Rightarrow> fault + uuid list" where
  "project_ids H [] = Inr []"
| "project_ids H (entry # rest) =
     res_bind (project_id H entry) (\<lambda>uid. res_bind (project_ids H rest) (\<lambda>uids. Inr (uid # uids)))"

text \<open>The \<^verbatim>\<open>HashSet\<close> is the list in which it is iterated.\<close>

definition project_distribution_ids :: "('w, 'v) cli_host \<Rightarrow> ('w, fault, uuid list) act" where
  "project_distribution_ids H =
     act_bind (open_optional H DISTRIBUTIONS KEY_READ ''could not enumerate project distro enablement'') (\<lambda>key.
       case key of
         None \<Rightarrow> act_return []
       | Some k \<Rightarrow>
           act_bind (peek (reg_enum_keys H k)) (\<lambda>entries.
           act_bind (act_lift (project_ids H entries)) (\<lambda>uids.
           act_return (hash_order H (remdups uids)))))"


section \<open>Helpers in the distribution\<close>

definition LINUX_STATUS_HELPER :: string where
  "LINUX_STATUS_HELPER = ''/usr/libexec/wincred-libsecret/wincred-libsecret-refresh''"

definition remote_status :: "('w, 'v) cli_host \<Rightarrow> string \<Rightarrow> ('w, fault, ProcessResult) act" where
  "remote_status H distribution = run_wsl_root H distribution [LINUX_STATUS_HELPER, ''--status'']"

definition remote_doctor :: "('w, 'v) cli_host \<Rightarrow> string \<Rightarrow> ('w, fault, ProcessResult) act" where
  "remote_doctor H distribution = run_wsl_root H distribution [LINUX_STATUS_HELPER, ''--doctor'']"

definition SERVICE :: string where
  "SERVICE = ''org.freedesktop.secrets.service''"

definition service_directories :: "string list" where
  "service_directories =
     [''/usr/share/dbus-1/services'', ''/etc/xdg/dbus-1/services'', ''/usr/local/share/dbus-1/services'',
      ''/root/.local/share/dbus-1/services'']"

text \<open>The loop over the directories: it returns early when one has the service.\<close>

fun service_in :: "('w, 'v) cli_host \<Rightarrow> string \<Rightarrow> string list \<Rightarrow> ('w, fault, bool) act" where
  "service_in H distribution [] = act_return False"
| "service_in H distribution (directory # rest) =
     act_bind (run_wsl_root H distribution [''/usr/bin/test'', ''-e'', format [directory, ''/'', SERVICE]]) (\<lambda>result.
     if pr_success result then act_return True
     else if trim (pr_stdout result) \<noteq> [] \<or> trim (pr_stderr result) \<noteq> [] then bail (display_error result)
     else service_in H distribution rest)"

definition common_service_conflict :: "('w, 'v) cli_host \<Rightarrow> string \<Rightarrow> ('w, fault, bool option) act" where
  "common_service_conflict H distribution =
     act_bind (service_in H distribution service_directories) (\<lambda>found.
     if found then act_return (Some True)
     else
       act_bind (run_wsl_root H distribution [''/usr/bin/test'', ''-d'', ''/home'']) (\<lambda>home_exists.
       if \<not> pr_success home_exists then act_return (Some False)
       else
         act_bind (run_wsl_root H distribution
           [''/usr/bin/find'', ''/home'', ''-path'', format [''*/.local/share/dbus-1/services/'', SERVICE],
            ''-type'', ''f'', ''-print'']) (\<lambda>result.
         act_bind (ensure (pr_success result)
           (format [''could not inspect common user D-Bus service definitions: '', display_error result])) (\<lambda>_.
         act_return (Some (pr_stdout result \<noteq> []))))))"

end
