(* ===== verification/Cli_Doctor.thy ===== *)
theory Cli_Doctor
  imports Cli_Distributions
begin

text \<open>
  The diagnosis of an installation (\<^verbatim>\<open>crates/cli/src/main.rs\<close>): the release check, the findings
  about WSL, the plugin and each distribution, and the report.
\<close>

section \<open>Releases\<close>

datatype 'v ReleaseUpdate = Current | Available "'v AvailableRelease" | NoSuitableRelease

text \<open>The installed version is parsed with \<^verbatim>\<open>expect\<close>.\<close>

definition compare_release_update ::
  "('w, 'v::linorder) cli_host \<Rightarrow> 'v AvailableRelease option \<Rightarrow> fault + 'v ReleaseUpdate" where
  "compare_release_update H latest =
     (case version_parse H CARGO_PKG_VERSION of
        None \<Rightarrow> Inl (Panicked ''the Cargo package version must be valid SemVer'')
      | Some installed \<Rightarrow>
          Inr (case latest of
              Some release \<Rightarrow> if installed < ar_version release then Available release else Current
            | None \<Rightarrow> NoSuitableRelease))"

definition releases_url :: "bool \<Rightarrow> string" where
  "releases_url include_prerelease =
     format [''https://api.github.com'', ''/repos/'', ''bmiddha/wincred-libsecret-wsl-plugin'',
       if include_prerelease then ''/releases?per_page=100'' else ''/releases/latest'']"

definition chain_context :: "string \<Rightarrow> string list \<Rightarrow> fault" where
  "chain_context c chain = Failed (c # chain)"

definition error_for_status :: "('w, 'v) cli_host \<Rightarrow> HttpResponse \<Rightarrow> string list + HttpResponse" where
  "error_for_status H response =
     (if 400 \<le> resp_status response \<and> resp_status response < 600
      then Inl (http_status_error H (resp_status response)) else Inr response)"

definition find_release_update ::
  "('w, 'v::linorder) cli_host \<Rightarrow> bool \<Rightarrow> ('w, fault, 'v ReleaseUpdate) act" where
  "find_release_update H include_prerelease =
     act_bind (act_map_err (chain_context ''could not initialize the GitHub Releases client'')
       (look (http_build H (format [''wincred-libsecret/'', CARGO_PKG_VERSION])))) (\<lambda>_.
     act_bind (act_map_err (chain_context ''could not contact GitHub'')
       (http_send H (releases_url include_prerelease)
         [(''Accept'', ''application/vnd.github+json''), (''X-GitHub-Api-Version'', ''2022-11-28'')])) (\<lambda>response.
     act_bind (act_lift (map_err (chain_context ''GitHub Releases API returned an error'')
       (error_for_status H response))) (\<lambda>response.
     act_bind (act_lift (map_err (chain_context ''GitHub Releases API returned an invalid response'')
       (if include_prerelease then json_releases H (resp_body response)
        else map_sum id (\<lambda>r. [r]) (json_release H (resp_body response))))) (\<lambda>releases.
     act_lift (compare_release_update H
       (newest_public_release (version_parse H)
         (map (\<lambda>release. \<lparr>rc_tag_name = gr_tag_name release, rc_draft = gr_draft release,
            rc_prerelease = gr_prerelease release\<rparr>) releases)
         include_prerelease))))))"

definition release_update_finding_from_result :: "string + 'v ReleaseUpdate \<Rightarrow> bool \<Rightarrow> DoctorFinding" where
  "release_update_finding_from_result result include_prerelease =
     (let upgrade_command =
            (if include_prerelease then ''`wincred-libsecret upgrade --include-prerelease`''
             else ''`wincred-libsecret upgrade`'')
      in case result of
          Inr Current \<Rightarrow> DoctorFinding_ok ''release-update'' (format [''v'', CARGO_PKG_VERSION, '' is current''])
        | Inr (Available release) \<Rightarrow>
            DoctorFinding_warning ''release-update''
              (format [ar_tag_name release, '' is available (installed: v'', CARGO_PKG_VERSION, '')''])
              (format [''Run '', upgrade_command, ''.''])
        | Inr NoSuitableRelease \<Rightarrow>
            DoctorFinding_warning ''release-update'' ''no suitable public GitHub Release could be compared''
              ''Retry later or inspect the project Releases page.''
        | Inl error \<Rightarrow>
            DoctorFinding_warning ''release-update'' (format [''could not query GitHub Releases: '', error])
              ''Retry later; this does not affect local diagnostics.'')"

definition release_update_finding :: "('w, 'v::linorder) cli_host \<Rightarrow> bool \<Rightarrow> ('w, fault, DoctorFinding) act" where
  "release_update_finding H include_prerelease =
     act_bind (attempt (find_release_update H include_prerelease)) (\<lambda>result.
     act_return (release_update_finding_from_result (map_err to_string_of result) include_prerelease))"


section \<open>WSL and the plugin\<close>

definition wsl_version_finding :: "('w, 'v) cli_host \<Rightarrow> ('w, fault, DoctorFinding) act" where
  "wsl_version_finding H =
     act_bind (attempt (check_wsl_version H)) (\<lambda>r.
     act_return (case r of
         Inr version \<Rightarrow> DoctorFinding_ok ''wsl-version'' (format [''WSL '', WslVersion_to_string version])
       | Inl error \<Rightarrow> DoctorFinding_fail ''wsl-version'' (to_string_of error)
           ''Install or update WSL to version 2.5.1 or newer.''))"

definition PLUGINS :: RegKey where
  "PLUGINS = RegKey HKEY_LOCAL_MACHINE PLUGIN_REGISTRY_PATH"

definition install_remedy :: string where
  "install_remedy = ''Run `wincred-libsecret plugin install --dll <absolute-path>` from an elevated terminal.''"

definition foreign_plugins :: "('w, 'v) cli_host \<Rightarrow> 'w \<Rightarrow> string list" where
  "foreign_plugins H w =
     filter (\<lambda>name. name \<noteq> PLUGIN_VALUE_NAME)
       (List.map_filter (\<lambda>r. case r of Inr name \<Rightarrow> Some name | Inl _ \<Rightarrow> None) (reg_enum_values H PLUGINS w))"

fun join_comma :: "string \<Rightarrow> string list \<Rightarrow> string" where
  "join_comma sep [] = []"
| "join_comma sep [x] = x"
| "join_comma sep (x # xs) = x @ sep @ join_comma sep xs"

definition absent_plugin_findings :: "string list \<Rightarrow> DoctorFinding list" where
  "absent_plugin_findings foreign =
     (if foreign = []
      then [DoctorFinding_fail ''plugin-registry'' ''project lifecycle plugin is absent'' install_remedy]
      else [DoctorFinding_ok ''plugin-registry''
        (format [''project lifecycle plugin is intentionally absent; preserving existing WSL plugin(s): '',
          join_comma '', '' foreign])])"

definition plugin_path_finding :: "bool \<Rightarrow> string \<Rightarrow> DoctorFinding" where
  "plugin_path_finding good path =
     (if good then DoctorFinding_ok ''plugin-path'' (to_string_lossy path)
      else DoctorFinding_fail ''plugin-path''
        (format [to_string_lossy path, '' is not an existing absolute DLL path''])
        ''Reinstall the plugin using an existing absolute DLL path.'')"

definition plugin_signature_finding :: "SignatureStatus \<Rightarrow> DoctorFinding" where
  "plugin_signature_finding status =
     (case status of
        Valid \<Rightarrow> DoctorFinding_ok ''plugin-signature'' ''Authenticode Valid''
      | NotValid \<Rightarrow> DoctorFinding_fail ''plugin-signature'' (SignatureStatus_to_string status)
          ''Install a signed release DLL.'')"

definition plugin_findings :: "('w, 'v) cli_host \<Rightarrow> ('w, fault, DoctorFinding list) act" where
  "plugin_findings H =
     act_bind (open_optional H PLUGINS KEY_READ ''could not inspect the plugin registry'') (\<lambda>plugins.
       case plugins of
         None \<Rightarrow> act_return [DoctorFinding_fail ''plugin-registry'' ''project plugin value is absent'' install_remedy]
       | Some key \<Rightarrow>
           act_bind (registry_string H key PLUGIN_VALUE_NAME) (\<lambda>v.
             case v of
               None \<Rightarrow> act_bind (peek (foreign_plugins H)) (\<lambda>foreign. act_return (absent_plugin_findings foreign))
             | Some path \<Rightarrow>
                 act_bind (peek (is_file H path)) (\<lambda>file.
                 let findings = [plugin_path_finding (is_absolute path \<and> file) path] in
                 if file then
                   act_bind (signature_status H path) (\<lambda>status.
                   act_return (findings @ [plugin_signature_finding status]))
                 else act_return findings)))"


section \<open>Distributions\<close>

definition distro_enable_command :: "('w, 'v) cli_host \<Rightarrow> string \<Rightarrow> string" where
  "distro_enable_command H distribution =
     format [''`wincred-libsecret distro enable '', debug_str H distribution, ''`'']"

definition distro_enable_remedy :: "('w, 'v) cli_host \<Rightarrow> string \<Rightarrow> string" where
  "distro_enable_remedy H distribution = format [''Run '', distro_enable_command H distribution, ''.'']"

text \<open>\<^verbatim>\<open>splitn(3, ' ')\<close> of a line: the second and the third field.\<close>

definition check_fields :: "string \<Rightarrow> string \<times> string" where
  "check_fields line =
     (case split_once '' '' line of
        None \<Rightarrow> (''distro'', [])
      | Some (_, rest) \<Rightarrow> (case split_once '' '' rest of Some (check, detail) \<Rightarrow> (check, detail) | None \<Rightarrow> (rest, [])))"

definition check_finding :: "('w, 'v) cli_host \<Rightarrow> Distribution \<Rightarrow> string \<Rightarrow> DoctorFinding" where
  "check_finding H distribution line =
     (let (check, detail) = check_fields line in
      if starts_with ''ok '' detail
      then DoctorFinding_ok ''distro-runtime'' (format [check, '': '', trim_start_matches ''ok '' detail])
      else DoctorFinding_fail ''distro-runtime'' (format [check, '': '', detail])
        (format [''Run '', distro_enable_command H (dist_name distribution),
          '' after resolving the reported prerequisite.'']))"

definition check_lines :: "string \<Rightarrow> string list" where
  "check_lines stdout = filter (starts_with ''CHECK '') (lines stdout)"

definition runtime_findings ::
  "('w, 'v) cli_host \<Rightarrow> Distribution \<Rightarrow> string + ProcessResult \<Rightarrow> DoctorFinding list" where
  "runtime_findings H distribution remote =
     (case remote of
        Inr result \<Rightarrow>
          if pr_success result then
            map (check_finding H distribution) (check_lines (pr_stdout result)) @
            (if check_lines (pr_stdout result) = []
             then [DoctorFinding_fail ''distro-runtime'' ''the installed refresh helper returned no diagnostics''
               (format [''Re-run '', distro_enable_command H (dist_name distribution), '' to repair the installation.''])]
             else [])
          else [DoctorFinding_fail ''distro-runtime'' (display_error result)
            (distro_enable_remedy H (dist_name distribution))]
      | Inl error \<Rightarrow>
          [DoctorFinding_fail ''distro-runtime'' error
            (format [''Start the distribution with `wsl -d '', debug_str H (dist_name distribution), ''` and retry.''])])"

record DistributionDiagnostics =
  dd_name :: string
  dd_enabled :: "bool option"
  dd_wsl2 :: bool
  dd_runtime_ok :: bool
  dd_findings :: "DoctorFinding list"

definition DistributionDiagnostics_state :: "DistributionDiagnostics \<Rightarrow> string" where
  "DistributionDiagnostics_state d =
     (case dd_enabled d of
        Some True \<Rightarrow> if dd_wsl2 d \<and> dd_runtime_ok d then ''enabled, working'' else ''enabled, degraded''
      | Some False \<Rightarrow> ''disabled''
      | None \<Rightarrow> ''enablement unknown'')"

definition wsl2_finding :: "('w, 'v) cli_host \<Rightarrow> Distribution \<Rightarrow> DoctorFinding" where
  "wsl2_finding H distribution =
     (if dist_version distribution = Some 2
      then DoctorFinding_ok ''distro-wsl2'' (format [''WSL 2 ('', uuid_to_string H (dist_id distribution), '')''])
      else DoctorFinding_fail ''distro-wsl2''
        (format [''WSL '', show_version ''unknown'' (dist_version distribution)])
        (format [''Convert the distribution with `wsl --set-version '', debug_str H (dist_name distribution), '' 2`.'']))"

definition enablement_finding :: "('w, 'v) cli_host \<Rightarrow> Distribution \<Rightarrow> string + bool \<Rightarrow> DoctorFinding" where
  "enablement_finding H distribution enablement =
     (case enablement of
        Inr True \<Rightarrow> DoctorFinding_ok ''distro-enablement'' ''enabled: HKCU enablement is set''
      | Inr False \<Rightarrow> DoctorFinding_fail ''distro-enablement'' ''disabled: HKCU enablement is absent''
          (distro_enable_remedy H (dist_name distribution))
      | Inl error \<Rightarrow> DoctorFinding_fail ''distro-enablement'' error ''Check the current-user registry permissions.'')"

definition distribution_diagnostics ::
  "('w, 'v) cli_host \<Rightarrow> Distribution \<Rightarrow> string + bool \<Rightarrow> (string + ProcessResult) option \<Rightarrow> DistributionDiagnostics" where
  "distribution_diagnostics H distribution enablement remote =
     (let runtime = (case remote of Some r \<Rightarrow> runtime_findings H distribution r | None \<Rightarrow> []) in
      \<lparr>dd_name = dist_name distribution,
       dd_enabled = (case enablement of Inr b \<Rightarrow> Some b | Inl _ \<Rightarrow> None),
       dd_wsl2 = (dist_version distribution = Some 2),
       dd_runtime_ok = (remote \<noteq> None \<and> list_all df_ok runtime),
       dd_findings = [wsl2_finding H distribution, enablement_finding H distribution enablement] @ runtime\<rparr>)"

definition should_check_runtime :: "string + bool \<Rightarrow> bool" where
  "should_check_runtime enablement = (case enablement of Inr enabled \<Rightarrow> enabled | Inl _ \<Rightarrow> False)"

definition distribution_findings :: "('w, 'v) cli_host \<Rightarrow> Distribution \<Rightarrow> ('w, fault, DistributionDiagnostics) act" where
  "distribution_findings H distribution =
     act_bind (attempt (distribution_enabled H (dist_id distribution))) (\<lambda>r.
     let enablement = map_err to_string_of r in
     if should_check_runtime enablement then
       act_bind (attempt (remote_doctor H (dist_name distribution))) (\<lambda>remote.
       act_return (distribution_diagnostics H distribution enablement (Some (map_err to_string_of remote))))
     else act_return (distribution_diagnostics H distribution enablement None))"


section \<open>The report\<close>

definition finding_status :: "DoctorFinding \<Rightarrow> string" where
  "finding_status finding = (if df_warning finding then ''WARN'' else if df_ok finding then ''OK'' else ''FAIL'')"

definition finding_text :: "string option \<Rightarrow> DoctorFinding \<Rightarrow> string" where
  "finding_text distribution finding =
     (let check = (case distribution of
            None \<Rightarrow> df_check finding
          | Some name \<Rightarrow> format [df_check finding, '' ('', name, '')''])
      in format [''['', finding_status finding, ''] '', check, '': '', df_detail finding, NEWLINE] @
         (case df_remedy finding of Some remedy \<Rightarrow> format [''       remedy: '', remedy, NEWLINE] | None \<Rightarrow> []))"

definition append_doctor_findings :: "string \<Rightarrow> DoctorFinding list \<Rightarrow> string option \<Rightarrow> string" where
  "append_doctor_findings report findings distribution =
     foldl (\<lambda>report finding. report @ finding_text distribution finding) report findings"

definition format_doctor_report :: "DoctorFinding list \<Rightarrow> DistributionDiagnostics list \<Rightarrow> string" where
  "format_doctor_report findings distributions =
     foldl (\<lambda>report distribution.
         append_doctor_findings
           (report @ format [''[DISTRO] '', dd_name distribution, '': '', DistributionDiagnostics_state distribution, NEWLINE])
           (dd_findings distribution) (Some (dd_name distribution)))
       (append_doctor_findings [] findings None) distributions"

record DoctorArguments =
  da_distro :: "string option"
  da_include_prerelease :: bool

definition failed_findings :: "DoctorFinding list \<Rightarrow> DistributionDiagnostics list \<Rightarrow> DoctorFinding list" where
  "failed_findings findings distributions =
     filter (\<lambda>finding. \<not> df_ok finding) (findings @ concat (map dd_findings distributions))"

definition doctor :: "('w, 'v::linorder) cli_host \<Rightarrow> DoctorArguments \<Rightarrow> ('w, fault, unit) act" where
  "doctor H arguments =
     act_bind (wsl_version_finding H) (\<lambda>wsl.
     act_bind (plugin_findings H) (\<lambda>plugin.
     act_bind (release_update_finding H (da_include_prerelease arguments)) (\<lambda>release.
     let findings = [wsl] @ plugin @ [release] in
     act_bind (case da_distro arguments of
         Some name \<Rightarrow> act_bind (find_distribution H name) (\<lambda>d. act_return [d])
       | None \<Rightarrow> enumerate_distributions H) (\<lambda>distributions.
     act_bind (act_collect (\<lambda>d. act_bind (distribution_findings H d) (\<lambda>x. act_return [x])) distributions) (\<lambda>distributions.
     let failures = length (failed_findings findings distributions) in
     act_bind (print_text H (format_doctor_report findings distributions)) (\<lambda>_.
     if 0 < failures then bail (format [show_nat failures, '' diagnostic check(s) failed''])
     else act_return ()))))))"

end
