(* ===== verification/Cli_Commands.thy ===== *)
theory Cli_Commands
  imports Cli_Doctor Messages
begin

text \<open>
  The commands of the management command line (\<^verbatim>\<open>crates/cli/src/main.rs\<close>): registering the plugin,
  provisioning, refreshing and disabling distributions, upgrading and uninstalling. The arguments
  are as \<^verbatim>\<open>clap\<close> delivers them.
\<close>

section \<open>Arguments\<close>

record RestartArguments =
  ra_restart_wslservice :: bool

record PluginInstallArguments =
  pi_dll :: string
  pi_allow_unsigned :: bool
  pi_restart :: RestartArguments

record PluginUninstallArguments =
  pu_dll :: "string option"
  pu_restart :: RestartArguments

record DistroNameArguments =
  dn_name :: string

record DistroEnableArguments =
  de_name :: string
  de_payload_root :: "string option"
  de_broker :: "string option"
  de_replace_conflicts :: bool

record DistroRefreshArguments =
  dr_name :: "string option"
  dr_all :: bool
  dr_payload_root :: "string option"
  dr_broker :: "string option"

record UpgradeArguments =
  ug_include_prerelease :: bool

record UninstallArguments =
  un_keep_distro_provisioning :: bool

datatype PluginCommand = Install PluginInstallArguments | Uninstall PluginUninstallArguments | Status

datatype DistroCommand =
    Enable DistroEnableArguments
  | Disable DistroNameArguments
  | Refresh DistroRefreshArguments
  | ListDistros

datatype TopLevelCommand =
    Plugin PluginCommand
  | Distro DistroCommand
  | Upgrade UpgradeArguments
  | UninstallProduct UninstallArguments
  | Doctor DoctorArguments

record Cli =
  cli_command :: TopLevelCommand


section \<open>The plugin\<close>

definition restart_or_instruct :: "('w, 'v) cli_host \<Rightarrow> RestartArguments \<Rightarrow> ('w, fault, unit) act" where
  "restart_or_instruct H arguments =
     (if \<not> ra_restart_wslservice arguments then
        println H [''Restart wslservice (or restart WSL) before opening a new distribution. '',
          ''Re-run with --restart-wslservice to do this now.'']
      else
        act_bind (run_process H ''sc.exe'' [''stop'', ''wslservice'']) (\<lambda>stop.
        if \<not> pr_success stop \<and> \<not> contains_str ''1062'' (pr_stdout stop)
        then bail (format [''could not stop wslservice: '', display_error stop])
        else
          act_bind (run_process H ''sc.exe'' [''start'', ''wslservice'']) (\<lambda>start.
          if \<not> pr_success start \<and> \<not> contains_str ''1056'' (pr_stdout start)
          then bail (format [''could not start wslservice: '', display_error start])
          else println H [''Requested a safe wslservice restart.''])))"

text \<open>The value is written when there is none, and normalised when it names the same path.\<close>

definition register_plugin ::
  "('w, 'v) cli_host \<Rightarrow> string \<Rightarrow> string \<Rightarrow> string option \<Rightarrow> ('w, fault, unit) act" where
  "register_plugin H dll dll_text existing =
     (case existing of
        Some existing \<Rightarrow>
          if windows_paths_equal existing dll then
            act_bind (if existing \<noteq> dll_text
              then io_context ''could not normalize the WSL plugin DLL value''
                (reg_set_string H PLUGINS PLUGIN_VALUE_NAME dll_text)
              else act_return ()) (\<lambda>_.
            println H [''Plugin is already registered: '', dll_text])
          else
            bail (format [''refusing to overwrite '', PLUGIN_VALUE_NAME, '' at '', to_string_lossy existing,
              ''. Remove or inspect the existing project value first.''])
      | None \<Rightarrow>
          act_bind (io_context ''could not write the WSL plugin DLL value''
            (reg_set_string H PLUGINS PLUGIN_VALUE_NAME dll_text)) (\<lambda>_.
          println H [''Registered plugin DLL: '', dll_text]))"

definition plugin_install :: "('w, 'v) cli_host \<Rightarrow> PluginInstallArguments \<Rightarrow> ('w, fault, unit) act" where
  "plugin_install H arguments =
     act_bind (require_administrator H) (\<lambda>_.
     act_bind (validate_plugin_dll H (pi_dll arguments)) (\<lambda>dll.
     act_bind (signature_status H dll) (\<lambda>signature.
     if signature \<noteq> Valid \<and> \<not> pi_allow_unsigned arguments then
       bail (format [''DLL signature is '', SignatureStatus_to_string signature,
         ''; refuse to register it. Use a signed release or '',
         ''pass --allow-unsigned only for a local development build.''])
     else
       act_bind (io_context ''could not open the WSL plugin registry key'' (reg_create H PLUGINS)) (\<lambda>_.
       act_bind (registry_string H PLUGINS PLUGIN_VALUE_NAME) (\<lambda>existing.
       act_bind (act_lift (ok_or (Failed [''plugin DLL path is not valid Unicode'']) (to_str dll))) (\<lambda>dll_text.
       act_bind (register_plugin H dll dll_text existing) (\<lambda>_.
       restart_or_instruct H (pi_restart arguments))))))))"

text \<open>With \<^verbatim>\<open>--dll\<close> the value is removed only when it names this path.\<close>

definition names_product :: "string option \<Rightarrow> string \<Rightarrow> fault + bool" where
  "names_product dll v =
     (case dll of
        None \<Rightarrow> Inr True
      | Some expected_dll \<Rightarrow>
          res_bind (ok_or (Failed [''expected plugin DLL path is not valid Unicode'']) (to_str expected_dll))
            (\<lambda>expected. Inr (windows_paths_equal v expected)))"

definition unregister_plugin :: "('w, 'v) cli_host \<Rightarrow> PluginUninstallArguments \<Rightarrow> string \<Rightarrow> ('w, fault, unit) act" where
  "unregister_plugin H arguments v =
     act_bind (act_lift (names_product (pu_dll arguments) v)) (\<lambda>ours.
     if \<not> ours then
       println H [''Preserved plugin registration because it no longer points to this product DLL: '', v]
     else
       act_bind (io_context ''could not remove the project plugin value''
         (reg_delete_value H PLUGINS PLUGIN_VALUE_NAME)) (\<lambda>_.
       println H [''Removed project plugin registration: '', v]))"

definition plugin_uninstall :: "('w, 'v) cli_host \<Rightarrow> PluginUninstallArguments \<Rightarrow> ('w, fault, unit) act" where
  "plugin_uninstall H arguments =
     act_bind (require_administrator H) (\<lambda>_.
     act_bind (open_optional H PLUGINS KEY_READ_WRITE ''could not open the WSL plugin registry key'') (\<lambda>plugins.
     act_bind
       (case plugins of
          None \<Rightarrow> println H [''Project plugin registry value is already absent.'']
        | Some key \<Rightarrow>
            act_bind (registry_string H key PLUGIN_VALUE_NAME) (\<lambda>v.
              case v of
                None \<Rightarrow> println H [''Project plugin registry value is already absent.'']
              | Some v \<Rightarrow> unregister_plugin H arguments v)) (\<lambda>_.
     restart_or_instruct H (pu_restart arguments))))"

definition print_plugin_status :: "('w, 'v) cli_host \<Rightarrow> ('w, fault, unit) act" where
  "print_plugin_status H =
     act_bind (open_optional H PLUGINS KEY_READ ''could not read the WSL plugin registry key'') (\<lambda>plugins.
       case plugins of
         None \<Rightarrow> println H [''plugin: not registered (WSL plugin registry key is absent)'']
       | Some key \<Rightarrow>
           act_bind (registry_string H key PLUGIN_VALUE_NAME) (\<lambda>v.
             case v of
               None \<Rightarrow> println H [''plugin: not registered'']
             | Some path \<Rightarrow>
                 act_bind (peek (is_file H path)) (\<lambda>exists.
                 act_bind (if exists then act_bind (signature_status H path) (\<lambda>st. act_return (SignatureStatus_to_string st))
                   else act_return ''not checked (file is absent)'') (\<lambda>signature.
                 act_bind (println H [''plugin: registered'']) (\<lambda>_.
                 act_bind (println H [''  value: '', PLUGIN_VALUE_NAME]) (\<lambda>_.
                 act_bind (println H [''  path: '', to_string_lossy path]) (\<lambda>_.
                 act_bind (println H [''  absolute: '', show_bool (is_absolute path)]) (\<lambda>_.
                 act_bind (println H [''  exists: '', show_bool exists]) (\<lambda>_.
                 println H [''  signature: '', signature])))))))))"


section \<open>Provisioning\<close>

definition wsl2_required :: "Distribution \<Rightarrow> string" where
  "wsl2_required distribution =
     format [QUOTED (dist_name distribution), '' is WSL'',
       show_version '' with unknown version'' (dist_version distribution), ''; WinCred requires a WSL 2 distribution'']"

definition bootstrap_arguments :: "string \<Rightarrow> string \<Rightarrow> bool \<Rightarrow> string list" where
  "bootstrap_arguments source broker_wsl replace_conflicts =
     [format [source, ''/'', LINUX_BOOTSTRAP], ''--source'', source, ''--broker'', broker_wsl, ''--protocol'',
      show_nat (unat PROTOCOL_VERSION), ''--version'', CARGO_PKG_VERSION] @
     (if replace_conflicts then [''--replace-conflicts''] else [])"

definition or_default :: "'a option \<Rightarrow> ('w \<Rightarrow> 'a) \<Rightarrow> 'w \<Rightarrow> 'a" where
  "or_default v d w = (case v of Some x \<Rightarrow> x | None \<Rightarrow> d w)"

definition provision_distribution ::
  "('w, 'v) cli_host \<Rightarrow> Distribution \<Rightarrow> DistroEnableArguments \<Rightarrow> ('w, fault, unit) act" where
  "provision_distribution H distribution arguments =
     act_bind (check_wsl_version H) (\<lambda>_.
     act_bind (ensure (dist_version distribution = Some 2) (wsl2_required distribution)) (\<lambda>_.
     act_bind (peek (or_default (de_payload_root arguments) (default_payload_root H))) (\<lambda>payload_argument.
     act_bind (absolute_existing_directory H payload_argument ''Linux payload root'') (\<lambda>payload_root.
     act_bind (verify_payload H payload_root) (\<lambda>_.
     act_bind (peek (or_default (de_broker arguments) (default_broker_path H))) (\<lambda>broker_argument.
     act_bind (validate_broker H broker_argument) (\<lambda>broker.
     act_bind (wsl_path H (dist_name distribution) payload_root) (\<lambda>source.
     act_bind (wsl_path H (dist_name distribution) broker) (\<lambda>broker_wsl.
     let common_arguments = bootstrap_arguments source broker_wsl (de_replace_conflicts arguments) in
     act_bind (ensure_wsl_success H (dist_name distribution) (common_arguments @ [''--check''])
       ''distribution prerequisite/conflict check'') (\<lambda>_.
     ensure_wsl_success H (dist_name distribution) (common_arguments @ [''--install''])
       ''atomic provider installation''))))))))))"

definition distro_enable :: "('w, 'v) cli_host \<Rightarrow> DistroEnableArguments \<Rightarrow> ('w, fault, unit) act" where
  "distro_enable H arguments =
     act_bind (find_distribution H (de_name arguments)) (\<lambda>distribution.
     act_bind (provision_distribution H distribution arguments) (\<lambda>_.
     act_bind (set_distribution_enabled H (dist_id distribution) True) (\<lambda>_.
     println H [''Enabled WinCred Secret Service for '', QUOTED (dist_name distribution), '' ('',
       uuid_to_string H (dist_id distribution), '').''])))"

definition validate_refreshed_distribution :: "('w, 'v) cli_host \<Rightarrow> Distribution \<Rightarrow> ('w, fault, unit) act" where
  "validate_refreshed_distribution H distribution =
     act_bind (context_of (format [''could not validate '', QUOTED (dist_name distribution)])
       (remote_doctor H (dist_name distribution))) (\<lambda>result.
     act_bind (ensure (pr_success result)
       (format [''post-refresh diagnostics failed for '', QUOTED (dist_name distribution), '': '', display_error result])) (\<lambda>_.
     let failures = map df_detail (filter (\<lambda>finding. \<not> df_ok finding) (runtime_findings H distribution (Inr result))) in
     ensure (failures = [])
       (format [''post-refresh diagnostics failed for '', QUOTED (dist_name distribution), '': '', join_comma ''; '' failures])))"

definition refresh_arguments :: "DistroRefreshArguments \<Rightarrow> Distribution \<Rightarrow> DistroEnableArguments" where
  "refresh_arguments arguments distribution =
     \<lparr>de_name = dist_name distribution, de_payload_root = dr_payload_root arguments, de_broker = dr_broker arguments,
      de_replace_conflicts = False\<rparr>"

text \<open>Without \<^verbatim>\<open>--all\<close> the name is unwrapped with \<^verbatim>\<open>expect\<close>.\<close>

definition refreshed_distributions ::
  "('w, 'v) cli_host \<Rightarrow> DistroRefreshArguments \<Rightarrow> ('w, fault, Distribution list) act" where
  "refreshed_distributions H arguments =
     (if dr_all arguments then enabled_distributions H
      else case dr_name arguments of
          None \<Rightarrow> act_throw (Panicked ''clap requires a distribution name when --all is absent'')
        | Some name \<Rightarrow>
            act_bind (find_distribution H name) (\<lambda>distribution.
            act_bind (distribution_enabled H (dist_id distribution)) (\<lambda>enabled.
            act_bind (ensure enabled
              (format [QUOTED (dist_name distribution), '' is not enabled; run `wincred-libsecret distro enable '',
                debug_str H (dist_name distribution), ''` first''])) (\<lambda>_.
            act_return [distribution]))))"

definition distro_refresh :: "('w, 'v) cli_host \<Rightarrow> DistroRefreshArguments \<Rightarrow> ('w, fault, unit) act" where
  "distro_refresh H arguments =
     act_bind (refreshed_distributions H arguments) (\<lambda>distributions.
     if distributions = [] then println H [''No enabled WSL distributions need a payload refresh.'']
     else
       act_iter (\<lambda>distribution.
         act_bind (provision_distribution H distribution (refresh_arguments arguments distribution)) (\<lambda>_.
         act_bind (validate_refreshed_distribution H distribution) (\<lambda>_.
         println H [''Refreshed and validated WinCred Secret Service for '', QUOTED (dist_name distribution), '' ('',
           uuid_to_string H (dist_id distribution), '').''])))
         distributions)"


section \<open>Disabling\<close>

definition disable_distro_with_payload :: "('w, 'v) cli_host \<Rightarrow> Distribution \<Rightarrow> string \<Rightarrow> ('w, fault, unit) act" where
  "disable_distro_with_payload H distribution payload_root =
     act_bind (absolute_existing_directory H payload_root ''Linux payload root'') (\<lambda>payload_root.
     act_bind (verify_payload H payload_root) (\<lambda>_.
     act_bind (wsl_path H (dist_name distribution) payload_root) (\<lambda>source.
     act_bind (run_wsl_root H (dist_name distribution) [format [source, ''/'', LINUX_BOOTSTRAP], ''--disable'']) (\<lambda>result.
     ensure (pr_success result)
       (format [''could not remove project-owned files from '', QUOTED (dist_name distribution), '': '',
         display_error result])))))"

definition disable_distro_with_installed_helper :: "('w, 'v) cli_host \<Rightarrow> Distribution \<Rightarrow> ('w, fault, unit) act" where
  "disable_distro_with_installed_helper H distribution =
     act_bind (run_wsl_root H (dist_name distribution) [''/usr/bin/test'', ''-x'', LINUX_STATUS_HELPER]) (\<lambda>helper_check.
     if \<not> pr_success helper_check \<and> (trim (pr_stdout helper_check) \<noteq> [] \<or> trim (pr_stderr helper_check) \<noteq> []) then
       bail (format [''could not inspect project files in '', QUOTED (dist_name distribution), '': '',
         display_error helper_check])
     else if \<not> pr_success helper_check then act_return ()
     else
       act_bind (run_wsl_root H (dist_name distribution) [LINUX_STATUS_HELPER, ''--disable'']) (\<lambda>result.
       ensure (pr_success result)
         (format [''could not remove project-owned files from '', QUOTED (dist_name distribution), '': '',
           display_error result])))"

definition disabled_message :: "Distribution \<Rightarrow> string list" where
  "disabled_message distribution =
     [''Disabled WinCred Secret Service for '', QUOTED (dist_name distribution),
      ''; the Windows Credential Manager vault was not modified.'']"

definition distro_disable :: "('w, 'v) cli_host \<Rightarrow> DistroNameArguments \<Rightarrow> ('w, fault, unit) act" where
  "distro_disable H arguments =
     act_bind (find_distribution H (dn_name arguments)) (\<lambda>distribution.
     act_bind (peek (default_payload_root H)) (\<lambda>payload_root.
     act_bind (peek (is_dir H payload_root)) (\<lambda>dir.
     act_bind (if dir then disable_distro_with_payload H distribution payload_root
       else disable_distro_with_installed_helper H distribution) (\<lambda>_.
     act_bind (set_distribution_enabled H (dist_id distribution) False) (\<lambda>_.
     println H (disabled_message distribution))))))"

definition reported_conflict :: "string list + ProcessResult \<Rightarrow> bool option" where
  "reported_conflict remote =
     (case remote of
        Inr result \<Rightarrow> if pr_success result then Some (contains_str ''conflict=true'' (pr_stdout result)) else None
      | Inl _ \<Rightarrow> None)"

definition list_entry :: "('w, 'v) cli_host \<Rightarrow> Distribution \<Rightarrow> ('w, fault, unit) act" where
  "list_entry H distribution =
     act_bind (distribution_enabled H (dist_id distribution)) (\<lambda>enabled.
     act_bind (attempt (remote_status H (dist_name distribution))) (\<lambda>remote.
     let provisioned = (case remote of
           Inr result \<Rightarrow> pr_success result \<and> contains_str ''provisioned=true'' (pr_stdout result) | Inl _ \<Rightarrow> False) in
     act_bind (case reported_conflict remote of
         Some c \<Rightarrow> act_return (Some c)
       | None \<Rightarrow>
           act_bind (attempt (common_service_conflict H (dist_name distribution))) (\<lambda>r.
           act_return (case r of Inr c \<Rightarrow> c | Inl _ \<Rightarrow> None))) (\<lambda>conflict.
     println H [dist_name distribution, NEWLINE, ''  guid: '', uuid_to_string H (dist_id distribution), NEWLINE,
       ''  WSL version: '', show_version ''unknown'' (dist_version distribution), NEWLINE, ''  enabled: '', show_bool enabled,
       NEWLINE, ''  provisioned: '', show_bool provisioned, NEWLINE, ''  conflict: '',
       case conflict of Some c \<Rightarrow> show_bool c | None \<Rightarrow> ''unknown''])))"

definition distro_list :: "('w, 'v) cli_host \<Rightarrow> ('w, fault, unit) act" where
  "distro_list H =
     act_bind (enumerate_distributions H) (\<lambda>distributions.
     if distributions = [] then println H [''No WSL distributions are registered for this Windows user.'']
     else act_iter (list_entry H) distributions)"

definition disable_tracked :: "('w, 'v) cli_host \<Rightarrow> string \<Rightarrow> Distribution \<Rightarrow> ('w, fault, unit) act" where
  "disable_tracked H payload_root distribution =
     act_bind (disable_distro_with_payload H distribution payload_root) (\<lambda>_.
     act_bind (set_distribution_enabled H (dist_id distribution) False) (\<lambda>_.
     println H (disabled_message distribution)))"

definition disable_all_tracked :: "('w, 'v) cli_host \<Rightarrow> Distribution list \<Rightarrow> ('w, fault, unit) act" where
  "disable_all_tracked H tracked_distributions =
     (if tracked_distributions \<noteq> [] then
        act_bind (peek (default_payload_root H)) (\<lambda>payload_argument.
        act_bind (absolute_existing_directory H payload_argument ''Linux payload root'') (\<lambda>payload_root.
        act_bind (verify_payload H payload_root) (\<lambda>_.
        act_iter (disable_tracked H payload_root) tracked_distributions)))
      else act_return ())"

definition remove_registered :: "('w, 'v) cli_host \<Rightarrow> uuid list \<Rightarrow> uuid \<Rightarrow> ('w, fault, unit) act" where
  "remove_registered H known_ids uid =
     act_bind (if uid \<notin> set known_ids
       then println H [''Removed stale enablement for unregistered distribution '', uuid_to_string H uid, ''.'']
       else act_return ()) (\<lambda>_.
     set_distribution_enabled H uid False)"

definition clean_distro_provisioning :: "('w, 'v) cli_host \<Rightarrow> ('w, fault, unit) act" where
  "clean_distro_provisioning H =
     act_bind (project_distribution_ids H) (\<lambda>registered.
     if registered = [] then println H [''No project distro enablement records need cleanup.'']
     else
       act_bind (enumerate_distributions H) (\<lambda>distributions.
       let known_ids = map dist_id distributions;
           tracked_distributions = filter (\<lambda>d. dist_id d \<in> set registered) distributions in
       act_bind (disable_all_tracked H tracked_distributions) (\<lambda>_.
       act_iter (remove_registered H known_ids) registered)))"


section \<open>Upgrading and uninstalling\<close>

definition RELEASE_INSTALLER_RELATIVE_PATH :: string where
  "RELEASE_INSTALLER_RELATIVE_PATH = ''installer'' @ [BACK] @ ''install.ps1''"

definition INSTALL_DIRECTORY_NAME :: string where
  "INSTALL_DIRECTORY_NAME = ''WinCredLibsecret''"

definition CLI_NAME :: string where
  "CLI_NAME = ''wincred-libsecret.exe''"

definition CURRENT_VERSION :: RegKey where
  "CURRENT_VERSION = RegKey HKEY_LOCAL_MACHINE
     (''SOFTWARE'' @ BACKSLASH @ ''Microsoft'' @ BACKSLASH @ ''Windows'' @ BACKSLASH @ ''CurrentVersion'')"

definition program_files_directory :: "('w, 'v) cli_host \<Rightarrow> ('w, fault, string) act" where
  "program_files_directory H =
     act_bind (io_context ''could not inspect the Windows Program Files directory''
       (look (reg_open H CURRENT_VERSION KEY_READ))) (\<lambda>_.
     act_bind (registry_string H CURRENT_VERSION ''ProgramFilesDir'') (\<lambda>v.
     act_bind (act_lift (ok_or (Failed [''Windows did not provide the Program Files directory'']) v)) (\<lambda>directory.
     act_bind (peek (is_dir H directory)) (\<lambda>dir.
     act_bind (ensure (is_absolute directory \<and> dir)
       (format [''Windows Program Files directory is not an existing absolute path: '', to_string_lossy directory])) (\<lambda>_.
     act_return (normalize_windows_path directory))))))"

definition installed_cli_directory :: "('w, 'v) cli_host \<Rightarrow> ('w, fault, string) act" where
  "installed_cli_directory H =
     act_bind (io_context ''could not locate the installed CLI'' (look (current_exe H))) (\<lambda>executable.
     act_bind (absolute_existing_file H executable ''installed CLI'') (\<lambda>executable.
     act_bind (ensure (is_named CLI_NAME executable)
       ''self-service lifecycle commands must be run from wincred-libsecret.exe'') (\<lambda>_.
     act_bind (act_lift (ok_or (Failed [''the installed CLI does not have a parent directory'']) (parent executable))) (\<lambda>directory.
     act_bind (program_files_directory H) (\<lambda>program_files.
     let expected = join program_files INSTALL_DIRECTORY_NAME in
     act_bind (ensure (windows_paths_equal directory expected)
       (format [''self-service lifecycle commands must be run from the installed CLI at '',
         to_string_lossy (join expected CLI_NAME)])) (\<lambda>_.
     act_return directory))))))"

definition installer_arguments :: "('w, 'v) cli_host \<Rightarrow> string \<Rightarrow> string list \<Rightarrow> string list" where
  "installer_arguments H installer action =
     [''-NoLogo'', ''-NoProfile'', ''-ExecutionPolicy'', ''Bypass'', ''-File'', installer] @ action @
     [''-WaitForProcessId'', show_nat (unat (process_id H))]"

text \<open>The start of the installed script, with the text of the error when it does not start.\<close>

definition start_installer :: "('w, 'v) cli_host \<Rightarrow> string list \<Rightarrow> string \<Rightarrow> ('w, fault, unit) act" where
  "start_installer H action message =
     act_bind (installed_cli_directory H) (\<lambda>directory.
     act_bind (absolute_existing_file H (join directory RELEASE_INSTALLER_RELATIVE_PATH) ''release installer'') (\<lambda>installer.
     io_context message (command_spawn H ''powershell.exe'' (installer_arguments H installer action))))"

definition upgrade :: "('w, 'v::linorder) cli_host \<Rightarrow> UpgradeArguments \<Rightarrow> ('w, fault, unit) act" where
  "upgrade H arguments =
     act_bind (find_release_update H (ug_include_prerelease arguments)) (\<lambda>update.
       case update of
         Current \<Rightarrow> println H [''WinCred Libsecret WSL Plugin v'', CARGO_PKG_VERSION, '' is already current.'']
       | NoSuitableRelease \<Rightarrow> bail ''no suitable public GitHub Release is available for upgrade''
       | Available release \<Rightarrow>
           act_bind (require_non_administrator H ''upgrade'') (\<lambda>_.
           act_bind (start_installer H [''-Version'', ar_tag_name release]
             ''could not start the installed release-upgrade script'') (\<lambda>_.
           println H [''Started the upgrade to '', ar_tag_name release,
             ''; it will continue after this CLI process exits.''])))"

definition PRODUCT_DISPLAY_NAME :: string where
  "PRODUCT_DISPLAY_NAME = ''WinCred Libsecret WSL Plugin''"

definition PRODUCT_PUBLISHER :: string where
  "PRODUCT_PUBLISHER = ''Bharat Middha''"

definition LEGACY_PRODUCT_PUBLISHER :: string where
  "LEGACY_PRODUCT_PUBLISHER = ''wincred-libsecret-wsl-plugin contributors''"

definition UNINSTALL_KEY :: RegKey where
  "UNINSTALL_KEY = subkey CURRENT_VERSION ''Uninstall''"

definition product_publisher_matches :: "string option \<Rightarrow> bool" where
  "product_publisher_matches publisher =
     (case publisher of Some p \<Rightarrow> p = PRODUCT_PUBLISHER \<or> p = LEGACY_PRODUCT_PUBLISHER | None \<Rightarrow> False)"

definition product_match :: "('w, 'v) cli_host \<Rightarrow> io_error + string \<Rightarrow> ('w, fault, string list) act" where
  "product_match H entry =
     (case entry of
        Inl e \<Rightarrow> act_throw (Failed [''could not read an installed-product key'', io_text e])
      | Inr name \<Rightarrow>
          (case uuid_parse_str H (trim_braces name) of
             None \<Rightarrow> act_return []
           | Some product_id \<Rightarrow>
               act_bind (act_try (look (reg_open H (subkey UNINSTALL_KEY name) KEY_READ))) (\<lambda>r.
                 case r of
                   Inl _ \<Rightarrow> act_return []
                 | Inr _ \<Rightarrow>
                     act_bind (registry_string H (subkey UNINSTALL_KEY name) ''Publisher'') (\<lambda>publisher.
                     act_bind (registry_string H (subkey UNINSTALL_KEY name) ''DisplayName'') (\<lambda>display_name.
                     if display_name \<noteq> Some PRODUCT_DISPLAY_NAME \<or> \<not> product_publisher_matches publisher
                     then act_return []
                     else act_return [format [''{'', uuid_to_string H product_id, ''}'']])))))"

definition installed_product_code :: "('w, 'v) cli_host \<Rightarrow> ('w, fault, string option) act" where
  "installed_product_code H =
     act_bind (open_optional H UNINSTALL_KEY KEY_READ ''could not inspect installed products'') (\<lambda>key.
       case key of
         None \<Rightarrow> act_return None
       | Some k \<Rightarrow>
           act_bind (peek (reg_enum_keys H k)) (\<lambda>entries.
           act_bind (act_collect (product_match H) entries) (\<lambda>matches.
             case matches of
               [] \<Rightarrow> act_return None
             | [product_code] \<Rightarrow> act_return (Some product_code)
             | _ \<Rightarrow> bail (format [''multiple installed MSI products are named '', QUOTED PRODUCT_DISPLAY_NAME,
                 ''; remove them through Windows Installed Apps'']))))"

definition uninstall :: "('w, 'v) cli_host \<Rightarrow> UninstallArguments \<Rightarrow> ('w, fault, unit) act" where
  "uninstall H arguments =
     act_bind (require_non_administrator H ''uninstall'') (\<lambda>_.
     act_bind (if un_keep_distro_provisioning arguments
       then println H [''Preserving enabled distro provisioning at the caller'', [CHR 0x27], ''s request.'']
       else clean_distro_provisioning H) (\<lambda>_.
     act_bind (run_process H ''wsl.exe'' [''--shutdown'']) (\<lambda>shutdown.
     act_bind (if \<not> pr_success shutdown
       then eprintln H [''warning: could not shut down WSL before MSI removal: '', display_error shutdown]
       else act_return ()) (\<lambda>_.
     act_bind (installed_product_code H) (\<lambda>code.
       case code of
         None \<Rightarrow> println H [''The MSI product is already absent.'']
       | Some product_code \<Rightarrow>
           act_bind (start_installer H [''-UninstallProductCode'', product_code] ''could not start the installed uninstaller'') (\<lambda>_.
           println H [''Started MSI removal; it will continue after this CLI process exits.'']))))))"


section \<open>The process\<close>

definition run_cli :: "('w, 'v::linorder) cli_host \<Rightarrow> Cli \<Rightarrow> ('w, fault, unit) act" where
  "run_cli H cli =
     (case cli_command cli of
        Plugin command \<Rightarrow>
          (case command of
             Install arguments \<Rightarrow> plugin_install H arguments
           | Uninstall arguments \<Rightarrow> plugin_uninstall H arguments
           | Status \<Rightarrow> print_plugin_status H)
      | Distro command \<Rightarrow>
          (case command of
             Enable arguments \<Rightarrow> distro_enable H arguments
           | Disable arguments \<Rightarrow> distro_disable H arguments
           | Refresh arguments \<Rightarrow> distro_refresh H arguments
           | ListDistros \<Rightarrow> distro_list H)
      | UninstallProduct arguments \<Rightarrow> uninstall H arguments
      | Upgrade arguments \<Rightarrow> upgrade H arguments
      | Doctor arguments \<Rightarrow> doctor H arguments)"

text \<open>The exit code; a panic ends the process with 101.\<close>

definition cli_main :: "('w, 'v::linorder) cli_host \<Rightarrow> Cli \<Rightarrow> 'w \<Rightarrow> nat \<times> 'w" where
  "cli_main H cli w =
     (case run_cli H cli w of
        (Inr _, w') \<Rightarrow> (0, w')
      | (Inl (Panicked _), w') \<Rightarrow> (101, w')
      | (Inl (Failed chain), w') \<Rightarrow>
          (case eprintln H [''error: '', alternate_of chain] w' of
             (Inr _, w'') \<Rightarrow> (1, w'')
           | (Inl _, w'') \<Rightarrow> (101, w'')))"

end
