(* ===== verification/Cli_Machine.thy ===== *)
theory Cli_Machine
  imports Cli_Commands
begin

text \<open>
  What the machine promises the management command, as far as the proofs need it: the registry as
  a map of values, and the programs that were run. Everything else is left open, so the results
  hold whatever the programs print and whichever call fails.
\<close>

named_theorems along_intros \<open>actions that only make the steps of a relation\<close>

section \<open>Actions that only make certain steps\<close>

definition along :: "('w \<Rightarrow> 'w \<Rightarrow> bool) \<Rightarrow> ('w, 'e, 'b) act \<Rightarrow> bool" where
  "along R m \<longleftrightarrow> (\<forall>s. R\<^sup>*\<^sup>* s (snd (m s)))"

lemma along_step: "(\<And>s. R s (snd (m s))) \<Longrightarrow> along R m"
  by (auto simp: along_def)

lemma along_mono: "along R m \<Longrightarrow> (\<And>s t. R s t \<Longrightarrow> S s t) \<Longrightarrow> along S m"
  unfolding along_def by (metis mono_rtranclp)

lemma along_same [along_intros]:
  "along R (act_return x)" "along R (act_throw e)" "along R (act_lift r)" "along R (look f)" "along R (peek g)"
  by (simp_all add: along_def act_simps look_def peek_def)

lemma along_bail [along_intros]: "along R (bail m)" "along R (ensure c m)"
  by (simp_all add: bail_def ensure_def along_same)

lemma along_bind [along_intros]:
  assumes "along R m" and "\<And>x. along R (f x)"
  shows "along R (act_bind m f)"
  unfolding along_def
proof
  fix s
  obtain r t where m: "m s = (r, t)" by force
  then have t: "R\<^sup>*\<^sup>* s t" using assms(1) by (metis along_def snd_conv)
  show "R\<^sup>*\<^sup>* s (snd (act_bind m f s))"
  proof (cases r)
    case (Inl e)
    then show ?thesis using m t by (simp add: act_simps)
  next
    case (Inr x)
    then show ?thesis
      using m t assms(2) [of x] by (simp add: act_simps along_def) (meson rtranclp_trans)
  qed
qed

lemma along_wrap [along_intros]:
  "along R m \<Longrightarrow> along R (act_try m)" "along R m \<Longrightarrow> along R (act_map_err f m)"
  "along R n \<Longrightarrow> along R (io_context c n)" "along R k \<Longrightarrow> along R (context_of c k)" "along R k \<Longrightarrow> along R (attempt k)"
proof -
  have "snd (attempt k s) = snd (k s)" for s
    by (simp add: attempt_def split: prod.splits sum.splits fault.splits)
  then show "along R k \<Longrightarrow> along R (attempt k)" by (simp add: along_def)
qed (simp_all add: along_def io_context_def context_of_def act_simps)

lemma along_iter [along_intros]: "(\<And>x. along R (f x)) \<Longrightarrow> along R (act_iter f xs)"
  by (induction xs) (simp_all add: along_same along_bind)

lemma along_collect [along_intros]: "(\<And>x. along R (f x)) \<Longrightarrow> along R (act_collect f xs)"
  by (induction xs) (simp_all add: along_same along_bind)

lemma along_cases [along_intros]:
  "along R f \<Longrightarrow> (\<And>x. along R (g x)) \<Longrightarrow> along R (case v of None \<Rightarrow> f | Some x \<Rightarrow> g x)"
  "(\<And>x. along R (h x)) \<Longrightarrow> (\<And>x. along R (h' x)) \<Longrightarrow> along R (case r of Inl x \<Rightarrow> h x | Inr x \<Rightarrow> h' x)"
  "along R f \<Longrightarrow> (\<And>x xs. along R (k x xs)) \<Longrightarrow> along R (case ys of [] \<Rightarrow> f | x # xs \<Rightarrow> k x xs)"
  "along R f \<Longrightarrow> (\<And>x. along R (l x)) \<Longrightarrow> along R f' \<Longrightarrow>
   along R (case u of Current \<Rightarrow> f | Available x \<Rightarrow> l x | NoSuitableRelease \<Rightarrow> f')"
  "along R f \<Longrightarrow> along R f' \<Longrightarrow> along R (if c then f else f')"
  "(\<And>x. along R (m x)) \<Longrightarrow> along R (Let y m)"
  by (auto split: option.splits sum.splits list.splits ReleaseUpdate.splits)

lemma along_registry [along_intros]: "along R (open_optional H k a m)" "along R (registry_string H k n)"
  unfolding open_optional_def registry_string_def by (intro along_intros)+


section \<open>The machine\<close>

datatype reg_value = RegText string | RegDword u32 | RegOther

text \<open>The programs that were run to their end, with their output, and those that were started.\<close>

datatype event = is_Ran: Ran string "string list" Output | Spawned string "string list"

text \<open>The steps that leave the values of the registry alone and start no program that outlives the command.\<close>

definition quiet :: "('w \<Rightarrow> 'k \<Rightarrow> reg_value option) \<Rightarrow> ('w \<Rightarrow> event list) \<Rightarrow> 'w \<Rightarrow> 'w \<Rightarrow> bool" where
  "quiet reg log s t \<longleftrightarrow> reg t = reg s \<and> (\<exists>es. log t = log s @ es \<and> list_all is_Ran es)"

lemma quiet_same: "reg t = reg s \<Longrightarrow> log t = log s \<Longrightarrow> quiet reg log s t"
  by (simp add: quiet_def)

lemma quiet_rtranclp: "(quiet reg log)\<^sup>*\<^sup>* s t = quiet reg log s t"
proof
  show "(quiet reg log)\<^sup>*\<^sup>* s t \<Longrightarrow> quiet reg log s t"
    by (induction rule: rtranclp_induct) (fastforce simp: quiet_def)+
qed auto

lemma along_quiet_wp: "along (quiet reg log) m \<Longrightarrow> wp m (\<lambda>_ t. quiet reg log s t) s"
  by (simp add: along_def quiet_rtranclp wp_def)

text \<open>
  \<open>canon\<close> identifies a value of a key, since names are compared without case; \<open>below\<close> holds of the
  values of a key and of the keys below it. Reading is faithful, a failed change leaves the values
  alone except that removing a key may stop half way, programs do not change the values, and
  enumerating the project's keys misses none.
\<close>

locale cli_machine =
  fixes H :: "('w, 'v::linorder) cli_host"
    and canon :: "RegKey \<Rightarrow> string \<Rightarrow> 'k" and below :: "RegKey \<Rightarrow> 'k \<Rightarrow> bool"
    and reg :: "'w \<Rightarrow> 'k \<Rightarrow> reg_value option" and log :: "'w \<Rightarrow> event list"
  assumes get_string: "reg_get_string H k v s = Inr x \<Longrightarrow> reg s (canon k v) = Some (RegText x)"
    and get_string_absent: "reg_get_string H k v s = Inl e \<Longrightarrow> io_kind e = NotFoundIo \<Longrightarrow> reg s (canon k v) = None"
    and open_absent: "reg_open H k a s = Inl e \<Longrightarrow> io_kind e = NotFoundIo \<Longrightarrow> below k p \<Longrightarrow> reg s p = None"
    and below_self: "below k (canon k v)"
    and below_trans: "below (subkey k n) p \<Longrightarrow> below k p"
    and create: "wp (reg_create H k) (\<lambda>_ t. reg t = reg s \<and> log t = log s) s"
    and set_string: "wp (reg_set_string H k v x)
      (\<lambda>r t. log t = log s \<and> reg t = (if is_ok r then (reg s)(canon k v \<mapsto> RegText x) else reg s)) s"
    and set_u32: "wp (reg_set_u32 H k v d)
      (\<lambda>r t. log t = log s \<and> reg t = (if is_ok r then (reg s)(canon k v \<mapsto> RegDword d) else reg s)) s"
    and delete_value: "wp (reg_delete_value H k v)
      (\<lambda>r t. log t = log s \<and> reg t = (if is_ok r then (reg s)(canon k v := None) else reg s)) s"
    and delete_tree: "wp (reg_delete_tree H k)
      (\<lambda>r t. log t = log s \<and> (\<forall>p. \<not> below k p \<longrightarrow> reg t p = reg s p) \<and> (\<forall>p. reg t p = None \<or> reg t p = reg s p) \<and>
         (is_ok r \<or> (\<exists>e. r = Inl e \<and> io_kind e = NotFoundIo) \<longrightarrow> (\<forall>p. below k p \<longrightarrow> reg t p = None))) s"
    and command: "wp (command_output H program args)
      (\<lambda>r t. reg t = reg s \<and> log t = log s @ (case r of Inr out \<Rightarrow> [Ran program args out] | Inl _ \<Rightarrow> [])) s"
    and spawn: "wp (command_spawn H program args)
      (\<lambda>r t. reg t = reg s \<and> log t = log s @ (if is_ok r then [Spawned program args] else [])) s"
    and stdout: "wp (write_stdout H x) (\<lambda>_ t. reg t = reg s \<and> log t = log s) s"
    and stderr: "wp (write_stderr H x) (\<lambda>_ t. reg t = reg s \<and> log t = log s) s"
    and trust: "WinVerifyTrustEx H data s = (c, t) \<Longrightarrow> reg t = reg s \<and> log t = log s"
    and http: "wp (http_send H url headers) (\<lambda>_ t. reg t = reg s \<and> log t = log s) s"
    and hash_set: "set (hash_order H xs) = set xs"
    and enumerated: "reg s (canon (distribution_key H uid) v) \<noteq> None \<Longrightarrow>
      reg_open H DISTRIBUTIONS KEY_READ s = Inr () \<Longrightarrow> (\<forall>e. Inl e \<notin> set (reg_enum_keys H DISTRIBUTIONS s)) \<Longrightarrow>
      \<exists>name. Inr name \<in> set (reg_enum_keys H DISTRIBUTIONS s) \<and> uuid_parse_str H (trim_braces name) = Some uid"
begin

lemma quiet_calls [along_intros]:
  "along (quiet reg log) (reg_create H k)" "along (quiet reg log) (command_output H p a)"
  "along (quiet reg log) (write_stdout H x)" "along (quiet reg log) (write_stderr H x)"
  "along (quiet reg log) (http_send H url headers)"
  using create command stdout stderr http
  by (auto intro!: along_step simp: quiet_def wp_def split: sum.splits)

lemma quiet_trust [along_intros]: "along (quiet reg log) (effect (WinVerifyTrustEx H data))"
  by (rule along_step) (auto simp: effect_def split: prod.splits dest: trust intro!: quiet_same)

lemma quiet_print [along_intros]:
  "along (quiet reg log) (print_text H x)" "along (quiet reg log) (println H xs)" "along (quiet reg log) (eprintln H xs)"
  unfolding println_def print_text_def eprintln_def by (intro along_intros)+

lemma quiet_process [along_intros]:
  "along (quiet reg log) (run_process H p a)" "along (quiet reg log) (run_wsl_root H d a)"
  "along (quiet reg log) (ensure_wsl_success H d a x)" "along (quiet reg log) (wsl_path H d y)"
  unfolding run_process_def run_wsl_root_def ensure_wsl_success_def wsl_path_def by (intro along_intros)+

lemma quiet_host [along_intros]:
  "along (quiet reg log) (is_administrator H)" "along (quiet reg log) (require_administrator H)"
  "along (quiet reg log) (require_non_administrator H x)" "along (quiet reg log) (signature_status H y)"
  unfolding is_administrator_def require_administrator_def require_non_administrator_def signature_status_def
  by (intro along_intros)+

lemma quiet_paths [along_intros]:
  "along (quiet reg log) (absolute_existing_file H p d)" "along (quiet reg log) (absolute_existing_directory H p d)"
  "along (quiet reg log) (validate_plugin_dll H p)" "along (quiet reg log) (validate_broker H p)"
  "along (quiet reg log) (verify_payload H p)"
  unfolding absolute_existing_file_def absolute_existing_directory_def validate_plugin_dll_def validate_broker_def
    verify_payload_def verify_entry_def
  by (intro along_intros | simp split: option.splits | safe)+

lemma quiet_distributions [along_intros]:
  "along (quiet reg log) (check_wsl_version H)" "along (quiet reg log) (enumerate_distributions H)"
  "along (quiet reg log) (find_distribution H n)" "along (quiet reg log) (distribution_enabled H i)"
  "along (quiet reg log) (project_distribution_ids H)" "along (quiet reg log) (remote_status H n)"
  "along (quiet reg log) (remote_doctor H n)"
  unfolding check_wsl_version_def enumerate_distributions_def find_distribution_def distribution_enabled_def
    project_distribution_ids_def remote_status_def remote_doctor_def
  by (intro along_intros)+

lemma quiet_enabled [along_intros]: "along (quiet reg log) (enabled_distributions H)"
proof -
  have "along (quiet reg log) (keep_enabled H ds)" for ds
    by (induction ds) (simp_all add: along_intros)
  then show ?thesis unfolding enabled_distributions_def by (intro along_intros)
qed

lemma quiet_conflict [along_intros]: "along (quiet reg log) (common_service_conflict H n)"
proof -
  have "along (quiet reg log) (service_in H n ds)" for ds
    by (induction ds) (auto intro!: along_intros)
  then show ?thesis unfolding common_service_conflict_def by (intro along_intros)
qed

lemma quiet_doctor [along_intros]:
  "along (quiet reg log) (find_release_update H b)" "along (quiet reg log) (wsl_version_finding H)"
  "along (quiet reg log) (plugin_findings H)" "along (quiet reg log) (release_update_finding H b)"
  "along (quiet reg log) (distribution_findings H d)" "along (quiet reg log) (doctor H a)"
  unfolding find_release_update_def wsl_version_finding_def plugin_findings_def release_update_finding_def
    distribution_findings_def doctor_def
  by (intro along_intros)+

lemma quiet_commands [along_intros]:
  "along (quiet reg log) (restart_or_instruct H ra)" "along (quiet reg log) (print_plugin_status H)"
  "along (quiet reg log) (provision_distribution H d ea)" "along (quiet reg log) (validate_refreshed_distribution H d)"
  "along (quiet reg log) (distro_refresh H fa)" "along (quiet reg log) (disable_distro_with_payload H d p)"
  "along (quiet reg log) (disable_distro_with_installed_helper H d)" "along (quiet reg log) (list_entry H d)"
  "along (quiet reg log) (distro_list H)" "along (quiet reg log) (installed_cli_directory H)"
  "along (quiet reg log) (installed_product_code H)"
  unfolding restart_or_instruct_def print_plugin_status_def provision_distribution_def
    validate_refreshed_distribution_def distro_refresh_def refreshed_distributions_def disable_distro_with_payload_def
    disable_distro_with_installed_helper_def list_entry_def distro_list_def installed_cli_directory_def
    program_files_directory_def installed_product_code_def product_match_def
  by (intro along_intros)+

end

end
