(* ===== verification/Cli_Effects.thy ===== *)
theory Cli_Effects
  imports Cli_Machine
begin

text \<open>
  What the commands that change something do to the registry and in which order, under the laws
  of the machine.
\<close>

section \<open>Failures\<close>

text \<open>A program that was run and reported success.\<close>

definition ran_ok :: "string \<Rightarrow> string list \<Rightarrow> event \<Rightarrow> bool" where
  "ran_ok program args e \<longleftrightarrow> (\<exists>out. e = Ran program args out \<and> out_success out)"

definition failed :: "fault + 'a \<Rightarrow> bool" where
  "failed r \<longleftrightarrow> (\<exists>chain. r = Inl (Failed chain))"

lemma failed_simps [simp]: "failed (Inl (Failed c))" "\<not> failed (Inl (Panicked p))" "\<not> failed (Inr x)"
  by (simp_all add: failed_def)

text \<open>
  A provisioned distribution: the payload was verified, its path and the broker's were translated,
  and the bootstrap script of this payload passed its check and then installed, as root.
\<close>

definition provisioning_run ::
  "('w, 'v) cli_host \<Rightarrow> ('w \<Rightarrow> event list) \<Rightarrow> Distribution \<Rightarrow> DistroEnableArguments \<Rightarrow> string \<Rightarrow> string \<Rightarrow> 'w \<Rightarrow> 'w \<Rightarrow> bool" where
  "provisioning_run H log d args root broker u t \<longleftrightarrow>
     payload_holds H root u \<and> is_named BROKER_NAME broker \<and> is_file H broker u \<and>
     (\<exists>o1 o2 e3 e4.
        let source = strip_line_end (decode_process_output (out_stdout o1));
            broker_wsl = strip_line_end (decode_process_output (out_stdout o2));
            common = bootstrap_arguments source broker_wsl (de_replace_conflicts args)
        in log t = log u @ [Ran ''wsl.exe'' (wslpath_arguments (dist_name d) root) o1,
             Ran ''wsl.exe'' (wslpath_arguments (dist_name d) broker) o2, e3, e4] \<and>
           out_success o1 \<and> out_success o2 \<and>
           ran_ok ''wsl.exe'' (wsl_root_arguments (dist_name d) (common @ [''--check''])) e3 \<and>
           ran_ok ''wsl.exe'' (wsl_root_arguments (dist_name d) (common @ [''--install''])) e4)"

text \<open>The only registered distribution of this name.\<close>

definition only_match :: "('w, 'v) cli_host \<Rightarrow> string \<Rightarrow> 'w \<Rightarrow> Distribution \<Rightarrow> bool" where
  "only_match H name w d \<longleftrightarrow>
     filter (\<lambda>d. eq_ignore_ascii_case (dist_name d) name)
       (sort_key dist_name (List.map_filter (read_distribution H w) (reg_enum_keys H LXSS w))) = [d]"

text \<open>
  The plugin may be registered: an elevated caller, the name of the DLL, a valid signature or the
  permission to go without, and no value of another path.
\<close>

definition may_register ::
  "('w, 'v) cli_host \<Rightarrow> (RegKey \<Rightarrow> string \<Rightarrow> 'k) \<Rightarrow> ('w \<Rightarrow> 'k \<Rightarrow> reg_value option) \<Rightarrow> PluginInstallArguments \<Rightarrow> 'w \<Rightarrow> string \<Rightarrow> bool" where
  "may_register H canon reg args s dll \<longleftrightarrow>
     is_named PLUGIN_DLL_NAME dll \<and>
     (\<exists>u. is_administrator H s = (Inr True, u) \<and> is_file H dll u \<and>
        (pi_allow_unsigned args \<or>
         (\<exists>x. WinVerifyTrustEx H \<lparr>wt_file_path = encode_utf16 dll @ [0], wt_state_action = WTD_STATEACTION_VERIFY\<rparr> u = (0, x)))) \<and>
     (reg s (canon PLUGINS PLUGIN_VALUE_NAME) = None \<or>
      (\<exists>old. reg s (canon PLUGINS PLUGIN_VALUE_NAME) = Some (RegText old) \<and> windows_paths_equal old dll))"

text \<open>Runs that end with a value.\<close>

lemma act_bind_Inr: "act_bind m f s = (Inr y, t) \<longleftrightarrow> (\<exists>x u. m s = (Inr x, u) \<and> f x u = (Inr y, t))"
  by (auto simp: act_simps split: prod.splits sum.splits)

lemma io_context_Inr: "io_context c m s = (Inr x, t) \<longleftrightarrow> m s = (Inr x, t)"
  by (cases "m s") (auto simp: io_context_def act_simps)

lemma look_Inr: "look f s = (Inr x, t) \<longleftrightarrow> f s = Inr x \<and> t = s"
  by (auto simp: look_def)

lemma peek_Inr: "peek f s = (Inr x, t) \<longleftrightarrow> x = f s \<and> t = s"
  by (auto simp: peek_def)

lemma ensure_Inr: "ensure c m s = (Inr x, t) \<longleftrightarrow> c \<and> t = s"
  by (auto simp: ensure_def bail_def act_simps)

lemma return_Inr: "act_return y s = (Inr x, t) \<longleftrightarrow> x = y \<and> t = s"
  by (auto simp: act_simps)

lemma lift_Inr: "act_lift r s = (Inr x, t) \<longleftrightarrow> r = Inr x \<and> t = s"
  by (auto simp: act_simps)

lemmas runs_Inr = act_bind_Inr io_context_Inr look_Inr peek_Inr ensure_Inr return_Inr lift_Inr

lemma absolute_existing_file_ok:
  "absolute_existing_file H path x s = (Inr p, t) \<Longrightarrow> is_absolute path \<and> is_file H p s \<and> t = s"
  by (auto simp: absolute_existing_file_def runs_Inr Let_def)

lemma absolute_existing_directory_ok:
  "absolute_existing_directory H path x s = (Inr p, t) \<Longrightarrow> is_absolute path \<and> is_dir H p s \<and> t = s"
  by (auto simp: absolute_existing_directory_def runs_Inr Let_def)

lemma validate_broker_ok:
  "validate_broker H path s = (Inr p, t) \<Longrightarrow> is_named BROKER_NAME p \<and> is_file H p s \<and> t = s"
  by (auto simp: validate_broker_def runs_Inr dest: absolute_existing_file_ok)

lemma validate_plugin_dll_ok:
  "validate_plugin_dll H path s = (Inr p, t) \<Longrightarrow> is_absolute path \<and> is_named PLUGIN_DLL_NAME p \<and> is_file H p s \<and> t = s"
  by (auto simp: validate_plugin_dll_def runs_Inr dest: absolute_existing_file_ok)

lemma verify_payload_ok: "verify_payload H root s = (Inr x, t) \<Longrightarrow> payload_holds H root s \<and> t = s"
  using verify_payload_decides [of H root s] by (auto simp: decides_def wp_def split: if_splits)


section \<open>Provisioning\<close>

context cli_machine
begin

lemma quiet_trans: "quiet reg log s t \<Longrightarrow> quiet reg log t u \<Longrightarrow> quiet reg log s u"
  by (fastforce simp: quiet_def)

lemma quiet_run: "along (quiet reg log) m \<Longrightarrow> m s = (r, t) \<Longrightarrow> quiet reg log s t"
  using along_quiet_wp [THEN wpD] .

lemma ensure_wsl_success_ok:
  "ensure_wsl_success H d args op s = (Inr x, t) \<Longrightarrow>
     \<exists>e. log t = log s @ [e] \<and> ran_ok ''wsl.exe'' (wsl_root_arguments d args) e"
  by (auto simp: ensure_wsl_success_def run_wsl_root_def runs_Inr process_result_def ran_ok_def dest: wpD [OF command])

lemma wsl_path_ok:
  "wsl_path H d path s = (Inr p, t) \<Longrightarrow>
     \<exists>out. log t = log s @ [Ran ''wsl.exe'' (wslpath_arguments d path) out] \<and> out_success out \<and>
       p = strip_line_end (decode_process_output (out_stdout out))"
  by (auto simp: wsl_path_def runs_Inr Let_def process_result_def dest: wpD [OF command])

lemma provision_distribution_ok:
  assumes "provision_distribution H d args s = (Inr x, t)"
  shows "dist_version d = Some 2 \<and>
    (\<exists>root broker version u. check_wsl_version H s = (Inr version, u) \<and> quiet reg log s u \<and>
       provisioning_run H log d args root broker u t)"
proof -
  obtain v s1 root s2 y s3 broker s4 source s5 broker_wsl s6 z s7 pa ba where
    run: "check_wsl_version H s = (Inr v, s1)" and d: "dist_version d = Some 2" and
    dir: "absolute_existing_directory H pa ''Linux payload root'' s1 = (Inr root, s2)" and
    payload: "verify_payload H root s2 = (Inr y, s3)" and
    broker: "validate_broker H ba s3 = (Inr broker, s4)" and
    o1: "wsl_path H (dist_name d) root s4 = (Inr source, s5)" and
    o2: "wsl_path H (dist_name d) broker s5 = (Inr broker_wsl, s6)" and
    e3: "ensure_wsl_success H (dist_name d) (bootstrap_arguments source broker_wsl (de_replace_conflicts args) @ [''--check''])
       ''distribution prerequisite/conflict check'' s6 = (Inr z, s7)" and
    e4: "ensure_wsl_success H (dist_name d) (bootstrap_arguments source broker_wsl (de_replace_conflicts args) @ [''--install''])
       ''atomic provider installation'' s7 = (Inr x, t)"
    using assms by (auto simp: provision_distribution_def Let_def runs_Inr)
  have "quiet reg log s s1" using quiet_run [OF quiet_distributions(1) run] .
  moreover have "s2 = s1" "s3 = s2" "s4 = s3" "payload_holds H root s1" "is_named BROKER_NAME broker" "is_file H broker s1"
    using absolute_existing_directory_ok [OF dir] verify_payload_ok [OF payload] validate_broker_ok [OF broker] by auto
  moreover have "provisioning_run H log d args root broker s4 t"
    unfolding provisioning_run_def Let_def using calculation
      wsl_path_ok [OF o1] wsl_path_ok [OF o2] ensure_wsl_success_ok [OF e3] ensure_wsl_success_ok [OF e4]
    by fastforce
  ultimately show ?thesis using d run by auto
qed

lemma println_result: "println H xs s = (r, t) \<Longrightarrow> \<not> failed r \<and> reg t = reg s \<and> log t = log s"
  using wpD [OF stdout] by (fastforce simp: println_def print_text_def act_map_err_def map_err_def split: prod.splits sum.splits)

lemma println_keeps: "reg (snd (println H xs s)) = reg s" "log (snd (println H xs s)) = log s"
  using println_result [of xs s "fst (println H xs s)" "snd (println H xs s)"] by simp_all

lemma find_distribution_ok:
  assumes "find_distribution H name s = (Inr d, t)"
  shows "only_match H name t d"
proof -
  obtain ds u where run: "enumerate_distributions H s = (Inr ds, u)" and
    c: "(case filter (\<lambda>d. eq_ignore_ascii_case (dist_name d) name) ds of [d] \<Rightarrow> act_return d
       | [] \<Rightarrow> bail (format [''WSL distribution '', QUOTED name, '' was not found for this Windows user''])
       | _ \<Rightarrow> bail (format [''multiple WSL distributions match '', QUOTED name, ''; use its exact registered name''])) u = (Inr d, t)"
    using assms by (auto simp: find_distribution_def act_bind_Inr)
  from c have ds: "filter (\<lambda>d. eq_ignore_ascii_case (dist_name d) name) ds = [d]" and "u = t"
    by (auto simp: bail_def act_simps split: list.split_asm)
  with run have "enumerate_distributions H s = (Inr ds, t)" by simp
  moreover have "ds \<noteq> []" using ds by auto
  ultimately have "ds = sort_key dist_name (List.map_filter (read_distribution H t) (reg_enum_keys H LXSS t))"
    by (auto simp: enumerate_distributions_def runs_Inr split: option.splits)
  with ds show ?thesis by (simp add: only_match_def)
qed

lemma set_enabled_on:
  assumes "set_distribution_enabled H uid True s = (r, t)"
  shows "log t = log s \<and> reg t = (if is_ok r then (reg s)(canon (distribution_key H uid) DISTRIBUTION_ENABLEMENT_VALUE \<mapsto> RegDword 1) else reg s)"
proof -
  have "wp (set_distribution_enabled H uid True)
     (\<lambda>r t. log t = log s \<and> reg t = (if is_ok r then (reg s)(canon (distribution_key H uid) DISTRIBUTION_ENABLEMENT_VALUE \<mapsto> RegDword 1)
        else reg s)) s"
    unfolding set_distribution_enabled_def Let_def if_True
  proof (rule wp_bindI)
    show "wp (io_context c (reg_create H k)) (\<lambda>_ t. reg t = reg s \<and> log t = log s) s" for c k
      by (simp add: wp_io_context create)
    show "wp (io_context c (reg_set_u32 H (distribution_key H uid) DISTRIBUTION_ENABLEMENT_VALUE 1)) (\<lambda>r t. log t = log s \<and>
      reg t = (if is_ok r then (reg s)(canon (distribution_key H uid) DISTRIBUTION_ENABLEMENT_VALUE \<mapsto> RegDword 1) else reg s)) u"
      if "reg u = reg s \<and> log u = log s" for c u
      unfolding wp_io_context by (rule wp_mono [OF set_u32]) (use that in auto)
  qed auto
  then show ?thesis using assms by (rule wpD)
qed

lemma distro_enable_result:
  assumes "distro_enable H args s = (r, t)"
  shows "(failed r \<longrightarrow> reg t = reg s) \<and>
    (r = Inr () \<or> reg t \<noteq> reg s \<longrightarrow>
      (\<exists>w d root broker u v.
         find_distribution H (de_name args) s = (Inr d, w) \<and> only_match H (de_name args) w d \<and> quiet reg log s w \<and>
         dist_version d = Some 2 \<and> (\<exists>version. check_wsl_version H w = (Inr version, u)) \<and> quiet reg log w u \<and>
         provisioning_run H log d args root broker u v \<and> log t = log v \<and>
         reg t = (reg s)(canon (distribution_key H (dist_id d)) DISTRIBUTION_ENABLEMENT_VALUE \<mapsto> RegDword 1)))"
proof -
  obtain rd w where fd: "find_distribution H (de_name args) s = (rd, w)" by force
  have w: "quiet reg log s w" using quiet_run [OF quiet_distributions(3) fd] .
  show ?thesis
  proof (cases rd)
    case (Inl e)
    then show ?thesis using assms fd w by (auto simp: distro_enable_def act_bind_run quiet_def)
  next
    case d: (Inr d)
    obtain rp v where p: "provision_distribution H d args w = (rp, v)" by force
    have v: "quiet reg log w v" using quiet_run [OF quiet_commands(3) p] .
    have sv: "reg v = reg s" using v w by (simp add: quiet_def)
    show ?thesis
    proof (cases rp)
      case (Inl e)
      then show ?thesis using assms fd d p sv by (auto simp: distro_enable_def act_bind_run)
    next
      case (Inr x)
      obtain re z where e: "set_distribution_enabled H (dist_id d) True v = (re, z)" by force
      note z = set_enabled_on [OF e]
      show ?thesis
      proof (cases re)
        case (Inl x)
        then show ?thesis using assms fd d p Inr e z sv by (auto simp: distro_enable_def act_bind_run)
      next
        case ok: (Inr y)
        then have "println H [''Enabled WinCred Secret Service for '', QUOTED (dist_name d), '' ('',
            uuid_to_string H (dist_id d), '').''] z = (r, t)"
          using assms fd d p Inr e by (simp add: distro_enable_def act_bind_run)
        from println_result [OF this] z ok sv
        have t: "\<not> failed r" "log t = log v"
          "reg t = (reg s)(canon (distribution_key H (dist_id d)) DISTRIBUTION_ENABLEMENT_VALUE \<mapsto> RegDword 1)"
          by simp_all
        from provision_distribution_ok [OF p [unfolded Inr]] obtain root broker version u
          where "dist_version d = Some 2" "check_wsl_version H w = (Inr version, u)" "quiet reg log w u"
            "provisioning_run H log d args root broker u v" by blast
        then show ?thesis using t w fd d find_distribution_ok [OF fd [unfolded d]] by blast
      qed
    qed
  qed
qed

text \<open>Going through an action that leaves the registry alone.\<close>

lemma wp_quiet_bind:
  assumes "along (quiet reg log) m" and "reg u = R"
    and "\<And>x t. m u = (Inr x, t) \<Longrightarrow> reg t = R \<Longrightarrow> wp (f x) Q t" and "\<And>e t. reg t = R \<Longrightarrow> Q (Inl e) t"
  shows "wp (act_bind m f) Q u"
proof -
  obtain r t where m: "m u = (r, t)" by force
  then have "reg t = R" using quiet_run [OF assms(1)] assms(2) by (auto simp: quiet_def)
  then show ?thesis using m assms(3,4) by (cases r) (auto simp: wp_def act_bind_run)
qed

lemma quiet_last:
  "along (quiet reg log) m \<Longrightarrow> reg u = R \<Longrightarrow> wp m (\<lambda>_ t. reg t = R) u"
  by (rule wp_mono [OF along_quiet_wp]) (auto simp: quiet_def)

lemma registry_string_run:
  "registry_string H k v s = (Inr x, t) \<Longrightarrow>
     t = s \<and> reg s (canon k v) = map_option RegText x"
  using get_string get_string_absent
  by (auto simp: registry_string_def act_simps look_def split: sum.splits if_splits)

lemma register_plugin_wp:
  assumes "reg s (canon PLUGINS PLUGIN_VALUE_NAME) = map_option RegText existing"
  shows "wp (register_plugin H dll dll_text existing)
    (\<lambda>r t. (reg t = reg s \<and> \<not> is_ok r) \<or>
       reg t = (reg s)(canon PLUGINS PLUGIN_VALUE_NAME \<mapsto> RegText dll_text) \<and>
       (case existing of None \<Rightarrow> True | Some old \<Rightarrow> windows_paths_equal old dll)) s"
proof -
  have set: "wp (act_bind (io_context c (reg_set_string H PLUGINS PLUGIN_VALUE_NAME dll_text)) (\<lambda>_. println H xs))
    (\<lambda>r t. (reg t = reg s \<and> \<not> is_ok r) \<or> reg t = (reg s)(canon PLUGINS PLUGIN_VALUE_NAME \<mapsto> RegText dll_text)) s" for c xs
    unfolding wp_bind wp_io_context
    by (rule wp_mono [OF set_string]) (auto simp: wp_def println_keeps split: sum.splits if_splits)
  show ?thesis
  proof (cases existing)
    case None
    then show ?thesis unfolding register_plugin_def by (simp add: set)
  next
    case (Some old)
    consider (other) "\<not> windows_paths_equal old dll" | (equal) "windows_paths_equal old dll" "old = dll_text"
      | (normalize) "windows_paths_equal old dll" "old \<noteq> dll_text"
      by blast
    then show ?thesis
    proof cases
      case other
      then show ?thesis using Some by (simp add: register_plugin_def wp_bail)
    next
      case equal
      then have "(reg s)(canon PLUGINS PLUGIN_VALUE_NAME \<mapsto> RegText dll_text) = reg s"
        using Some assms by (simp add: fun_upd_idem_iff)
      then show ?thesis using Some equal by (simp add: register_plugin_def wp_def act_simps println_keeps)
    next
      case normalize
      then show ?thesis using Some set by (simp add: register_plugin_def)
    qed
  qed
qed

lemma plugin_install_wp:
  "wp (plugin_install H args)
     (\<lambda>r t. (reg t = reg s \<and> \<not> is_ok r) \<or>
        (\<exists>dll dll_text. to_str dll = Some dll_text \<and> may_register H canon reg args s dll \<and>
           reg t = (reg s)(canon PLUGINS PLUGIN_VALUE_NAME \<mapsto> RegText dll_text))) s"
  (is "wp _ ?Q s")
  unfolding plugin_install_def
proof (rule wp_quiet_bind [OF quiet_host(2) refl], goal_cases admin err)
  case (admin _ s1)
  then have adm: "is_administrator H s = (Inr True, s1)"
    by (auto simp: require_administrator_def runs_Inr)
  show ?case
  proof (rule wp_quiet_bind [OF quiet_paths(3) admin(2)], goal_cases dll err)
    case (dll dll s2)
    have named: "is_named PLUGIN_DLL_NAME dll" "is_file H dll s1" "s2 = s1" using validate_plugin_dll_ok [OF dll(1)] by auto
    show ?case
    proof (rule wp_quiet_bind [OF quiet_host(4) dll(2)], goal_cases sig err)
      case (sig st s3)
      then have signed: "st = Valid \<Longrightarrow> \<exists>x. WinVerifyTrustEx H
          \<lparr>wt_file_path = encode_utf16 dll @ [0], wt_state_action = WTD_STATEACTION_VERIFY\<rparr> s1 = (0, x)"
        using named(3)
        by (auto simp: signature_status_def Let_def runs_Inr effect_def signature_status_from_winverifytrust_def
            split: prod.splits if_splits)
      have create: "along (quiet reg log) (io_context c (reg_create H PLUGINS))" for c by (intro along_intros)
      have "wp (act_bind (io_context c (reg_create H PLUGINS)) (\<lambda>_.
          act_bind (registry_string H PLUGINS PLUGIN_VALUE_NAME) (\<lambda>existing.
          act_bind (act_lift (ok_or e (to_str dll))) (\<lambda>dll_text.
          act_bind (register_plugin H dll dll_text existing) (\<lambda>_.
          restart_or_instruct H (pi_restart args)))))) ?Q s3"
        if allowed: "st = Valid \<or> pi_allow_unsigned args" for c e
      proof (rule wp_quiet_bind [OF create sig(2)], goal_cases key err)
        case (key _ s4)
        show ?case
        proof (rule wp_quiet_bind [OF along_registry(2) key(2)], goal_cases old err)
          case (old existing s5)
          note there = registry_string_run [OF old(1)]
          show ?case
          proof (cases "to_str dll")
            case None
            then show ?thesis using there key by (simp add: wp_simps)
          next
            case (Some dll_text)
            have restart: "wp (restart_or_instruct H (pi_restart args)) (\<lambda>_ t. reg t = reg u) u" for u
              by (rule quiet_last) (auto intro: along_intros)
            have "reg s5 = reg s" using there key by simp
            moreover have "may_register H canon reg args s dll"
              if "case existing of None \<Rightarrow> True | Some old \<Rightarrow> windows_paths_equal old dll"
              using that there key(2) named adm signed allowed by (auto simp: may_register_def split: option.splits)
            moreover have "reg s5 (canon PLUGINS PLUGIN_VALUE_NAME) = map_option RegText existing" using there by simp
            ultimately show ?thesis
              unfolding Some ok_or_simps act_bind_lift
            proof (intro wp_bindI [OF register_plugin_wp], goal_cases there err fin)
              case (fin x u)
              show ?case by (rule wp_mono [OF restart]) (use fin Some in auto)
            qed (use Some in auto)
          qed
        qed simp
      qed simp
      then show ?case using sig by (auto simp: wp_if wp_bail)
    qed simp
  qed simp
qed simp

lemma unregister_plugin_wp:
  "wp (unregister_plugin H args v)
     (\<lambda>r t. reg t = reg s \<and> (is_ok r \<longrightarrow> names_product (pu_dll args) v = Inr False) \<or>
        names_product (pu_dll args) v = Inr True \<and> reg t = (reg s)(canon PLUGINS PLUGIN_VALUE_NAME := None)) s"
proof -
  have del: "wp (act_bind (io_context c (reg_delete_value H PLUGINS PLUGIN_VALUE_NAME)) (\<lambda>_. println H xs))
    (\<lambda>r t. reg t = reg s \<and> \<not> is_ok r \<or> reg t = (reg s)(canon PLUGINS PLUGIN_VALUE_NAME := None)) s" for c xs
    unfolding wp_bind wp_io_context
    by (rule wp_mono [OF delete_value]) (auto simp: wp_def println_keeps split: sum.splits if_splits)
  consider e where "names_product (pu_dll args) v = Inl e" | "names_product (pu_dll args) v = Inr False"
    | "names_product (pu_dll args) v = Inr True"
    by (metis (full_types) sum.exhaust)
  then show ?thesis
  proof cases
    case 3
    then show ?thesis unfolding unregister_plugin_def by (simp add: act_bind_lift del)
  qed (simp_all add: unregister_plugin_def wp_def act_lift_run act_bind_run println_keeps)
qed

lemma open_optional_run:
  assumes "open_optional H k a m s = (Inr x, t)"
  shows "t = s \<and> (x = Some k \<and> reg_open H k a s = Inr () \<or> x = None \<and> (\<forall>p. below k p \<longrightarrow> reg s p = None))"
  using assms open_absent by (auto simp: open_optional_def act_simps look_def split: sum.splits if_splits)

lemma plugin_uninstall_wp:
  "wp (plugin_uninstall H args)
     (\<lambda>r t. (reg t = reg s \<and> (is_ok r \<longrightarrow> reg s (canon PLUGINS PLUGIN_VALUE_NAME) = None \<or>
          (\<exists>v. reg s (canon PLUGINS PLUGIN_VALUE_NAME) = Some (RegText v) \<and> names_product (pu_dll args) v = Inr False))) \<or>
        (\<exists>v. reg s (canon PLUGINS PLUGIN_VALUE_NAME) = Some (RegText v) \<and> names_product (pu_dll args) v = Inr True \<and>
           (\<exists>u. is_administrator H s = (Inr True, u)) \<and> reg t = (reg s)(canon PLUGINS PLUGIN_VALUE_NAME := None))) s"
  (is "wp _ ?Q s")
  unfolding plugin_uninstall_def
proof (rule wp_quiet_bind [OF quiet_host(2) refl], goal_cases admin err)
  case (admin _ s1)
  then have adm: "\<exists>u. is_administrator H s = (Inr True, u)"
    by (auto simp: require_administrator_def runs_Inr)
  have tell: "wp (println H xs) ?Q u" if "reg u = reg s" "reg s (canon PLUGINS PLUGIN_VALUE_NAME) = None" for xs u
    using that by (simp add: wp_def println_keeps)
  have restart: "wp (restart_or_instruct H (pu_restart args)) ?Q u" if "?Q (Inr ()) u" for u
    by (rule wp_mono [OF quiet_last [OF quiet_commands(1) refl]]) (use that in auto)
  have unreg: "wp (unregister_plugin H args v) ?Q u"
    if "reg u = reg s" "reg s (canon PLUGINS PLUGIN_VALUE_NAME) = Some (RegText v)" for v u
    by (rule wp_mono [OF unregister_plugin_wp]) (use that adm in auto)
  have present: "wp (act_bind (registry_string H PLUGINS PLUGIN_VALUE_NAME) (\<lambda>v. case v of
      None \<Rightarrow> println H xs | Some v \<Rightarrow> unregister_plugin H args v)) ?Q u" if "reg u = reg s" for xs u
  proof (rule wp_quiet_bind [OF along_registry(2) that], goal_cases old err)
    case (old v t)
    then have at: "reg s (canon PLUGINS PLUGIN_VALUE_NAME) = map_option RegText v"
      using registry_string_run [OF old(1)] that by simp
    show ?case
    proof (cases v)
      case None
      show ?thesis unfolding None option.case by (rule tell) (use old at None in simp_all)
    next
      case (Some x)
      show ?thesis unfolding Some option.case by (rule unreg) (use old at Some in simp_all)
    qed
  qed simp
  show ?case
  proof (rule wp_quiet_bind [OF along_registry(1) admin(2)], goal_cases key err)
    case (key k s2)
    consider (some) "k = Some PLUGINS" | (none) "k = None" "reg s (canon PLUGINS PLUGIN_VALUE_NAME) = None"
      using open_optional_run [OF key(1)] admin(2) below_self by auto
    then have "wp (case k of None \<Rightarrow> println H xs | Some key \<Rightarrow> act_bind (registry_string H key PLUGIN_VALUE_NAME) (\<lambda>v. case v of
      None \<Rightarrow> println H xs | Some v \<Rightarrow> unregister_plugin H args v)) ?Q s2" for xs
    proof cases
      case some
      show ?thesis unfolding some option.case by (rule present [OF key(2)])
    next
      case none
      show ?thesis unfolding none(1) option.case by (rule tell [OF key(2) none(2)])
    qed
    then show ?case by (rule wp_bindI) (auto intro!: restart)
  qed simp
qed simp

end

end
