(* ===== verification/Cli_Verdict.thy ===== *)
theory Cli_Verdict
  imports Cli_Effects
begin

text \<open>
  When a diagnosis succeeds: the runs of \<^verbatim>\<open>doctor\<close> up to its report, what it means that no finding
  failed, and what then holds of the machine: the version WSL printed, the plugin value and its file,
  and the enablement and the printed checks of each distribution.
\<close>

section \<open>The verdict of the doctor\<close>

lemma df_ok_simps [simp]:
  "df_ok (DoctorFinding_ok c x)" "df_ok (DoctorFinding_warning c x y)" "\<not> df_ok (DoctorFinding_fail c x y)"
  by (simp_all add: DoctorFinding_ok_def DoctorFinding_warning_def DoctorFinding_fail_def)

text \<open>The release check never fails a diagnosis.\<close>

lemma release_finding_ok: "df_ok (release_update_finding_from_result r b)"
  by (simp add: release_update_finding_from_result_def Let_def split: sum.splits ReleaseUpdate.splits)

text \<open>A distribution is reported as working exactly when none of its findings failed.\<close>

lemma working_iff:
  assumes "remote = None \<longleftrightarrow> \<not> should_check_runtime en"
  shows "DistributionDiagnostics_state (distribution_diagnostics H d en remote) = ''enabled, working'' \<longleftrightarrow>
    list_all df_ok (dd_findings (distribution_diagnostics H d en remote))"
proof -
  have wsl2: "df_ok (wsl2_finding H d) \<longleftrightarrow> dist_version d = Some 2" by (simp add: wsl2_finding_def)
  consider e where "en = Inl e" | "en = Inr False" | "en = Inr True" by (metis (full_types) sum.exhaust)
  then show ?thesis
    by cases (use assms wsl2 in \<open>auto simp: distribution_diagnostics_def DistributionDiagnostics_state_def Let_def
        enablement_finding_def should_check_runtime_def\<close>)
qed

lemma distribution_findings_working:
  assumes "distribution_findings H d s = (Inr x, t)"
  shows "DistributionDiagnostics_state x = ''enabled, working'' \<longleftrightarrow> list_all df_ok (dd_findings x)"
proof -
  obtain en u where run: "attempt (distribution_enabled H (dist_id d)) s = (Inr en, u)" and
    rest: "(if should_check_runtime (map_err to_string_of en) then
       act_bind (attempt (remote_doctor H (dist_name d))) (\<lambda>remote.
       act_return (distribution_diagnostics H d (map_err to_string_of en) (Some (map_err to_string_of remote))))
     else act_return (distribution_diagnostics H d (map_err to_string_of en) None)) u = (Inr x, t)"
    using assms by (auto simp: distribution_findings_def act_bind_Inr Let_def)
  show ?thesis
  proof (cases "should_check_runtime (map_err to_string_of en)")
    case True
    then obtain remote where "x = distribution_diagnostics H d (map_err to_string_of en) (Some (map_err to_string_of remote))"
      using rest by (auto simp: runs_Inr)
    then show ?thesis using True working_iff [of "Some _"] by simp
  next
    case False
    then have "x = distribution_diagnostics H d (map_err to_string_of en) None" using rest by (simp add: runs_Inr)
    then show ?thesis using False working_iff [of None] by simp
  qed
qed

lemma collect_singles:
  "act_collect (\<lambda>d. act_bind (f d) (\<lambda>x. act_return [x])) ds s = (Inr xs, t) \<Longrightarrow>
   list_all (\<lambda>x. \<exists>d u v. f d u = (Inr x, v)) xs"
  by (induction ds arbitrary: s xs) (auto simp: runs_Inr, blast)

lemma failed_findings_none:
  assumes "df_ok release" and "list_all (\<lambda>x. DistributionDiagnostics_state x = ''enabled, working'' \<longleftrightarrow> list_all df_ok (dd_findings x)) dds"
  shows "length (failed_findings ([wsl] @ plugin @ [release]) dds) = 0 \<longleftrightarrow>
    df_ok wsl \<and> list_all df_ok plugin \<and> list_all (\<lambda>x. DistributionDiagnostics_state x = ''enabled, working'') dds"
proof -
  have "filter (\<lambda>f. \<not> df_ok f) (concat (map dd_findings dds)) = [] \<longleftrightarrow>
    list_all (\<lambda>x. DistributionDiagnostics_state x = ''enabled, working'') dds"
    using assms(2) by (induction dds) (auto simp: filter_empty_conv list_all_iff)
  then show ?thesis using assms(1) by (auto simp: failed_findings_def filter_empty_conv list_all_iff)
qed

definition diagnosed_distributions ::
  "('w, 'v) cli_host \<Rightarrow> DoctorArguments \<Rightarrow> ('w, fault, Distribution list) act" where
  "diagnosed_distributions H arguments =
     (case da_distro arguments of
        Some name \<Rightarrow> act_bind (find_distribution H name) (\<lambda>d. act_return [d])
      | None \<Rightarrow> enumerate_distributions H)"

text \<open>The runs of a diagnosis up to the report.\<close>

definition diagnosis ::
  "('w, 'v::linorder) cli_host \<Rightarrow> DoctorArguments \<Rightarrow> 'w \<Rightarrow> DoctorFinding \<Rightarrow> DoctorFinding list \<Rightarrow> DoctorFinding \<Rightarrow>
   DistributionDiagnostics list \<Rightarrow> 'w \<Rightarrow> bool" where
  "diagnosis H args s wsl plugin release dds t \<longleftrightarrow>
     (\<exists>s1 s2 s3 ds s4 s5.
        wsl_version_finding H s = (Inr wsl, s1) \<and> plugin_findings H s1 = (Inr plugin, s2) \<and>
        release_update_finding H (da_include_prerelease args) s2 = (Inr release, s3) \<and>
        diagnosed_distributions H args s3 = (Inr ds, s4) \<and>
        act_collect (\<lambda>d. act_bind (distribution_findings H d) (\<lambda>x. act_return [x])) ds s4 = (Inr dds, s5) \<and>
        print_text H (format_doctor_report ([wsl] @ plugin @ [release]) dds) s5 = (Inr (), t))"

lemma diagnosis_verdict:
  assumes "diagnosis H args s wsl plugin release dds t"
  shows "length (failed_findings ([wsl] @ plugin @ [release]) dds) = 0 \<longleftrightarrow>
    (\<exists>v u. check_wsl_version H s = (Inr v, u)) \<and> list_all df_ok plugin \<and>
    list_all (\<lambda>x. DistributionDiagnostics_state x = ''enabled, working'') dds"
proof -
  from assms obtain s1 s2 s3 ds s4 s5 where wsl: "wsl_version_finding H s = (Inr wsl, s1)"
    and release: "release_update_finding H (da_include_prerelease args) s2 = (Inr release, s3)"
    and dds: "act_collect (\<lambda>d. act_bind (distribution_findings H d) (\<lambda>x. act_return [x])) ds s4 = (Inr dds, s5)"
    by (auto simp: diagnosis_def)
  have rel: "df_ok release" using release by (auto simp: release_update_finding_def runs_Inr release_finding_ok)
  have states: "list_all (\<lambda>x. DistributionDiagnostics_state x = ''enabled, working'' \<longleftrightarrow> list_all df_ok (dd_findings x)) dds"
    using collect_singles [OF dds] by (auto simp: list_all_iff dest!: distribution_findings_working)
  have "df_ok wsl \<longleftrightarrow> (\<exists>v u. check_wsl_version H s = (Inr v, u))"
    using wsl by (cases "check_wsl_version H s")
      (auto simp: wsl_version_finding_def act_bind_run act_return_run attempt_def split: sum.splits fault.splits)
  then show ?thesis unfolding failed_findings_none [OF rel states] by simp
qed

lemma doctor_result:
  "diagnosis H args s wsl plugin release dds t \<Longrightarrow>
   doctor H args s =
     ((if 0 < length (failed_findings ([wsl] @ plugin @ [release]) dds)
       then Inl (Failed [format [show_nat (length (failed_findings ([wsl] @ plugin @ [release]) dds)), '' diagnostic check(s) failed'']])
       else Inr ()), t)"
  by (auto simp: diagnosis_def doctor_def diagnosed_distributions_def act_bind_run Let_def bail_def act_throw_run act_return_run)

lemma doctor_ok_diagnosis:
  "doctor H args s = (Inr (), t) \<Longrightarrow> \<exists>wsl plugin release dds. diagnosis H args s wsl plugin release dds t"
  unfolding doctor_def diagnosis_def diagnosed_distributions_def
  by (auto simp: act_bind_Inr Let_def bail_def act_throw_run act_return_run split: if_splits)

lemma doctor_succeeds_iff:
  "doctor H args s = (Inr (), t) \<longleftrightarrow>
   (\<exists>wsl plugin release dds. diagnosis H args s wsl plugin release dds t \<and>
      (\<exists>v u. check_wsl_version H s = (Inr v, u)) \<and> list_all df_ok plugin \<and>
      list_all (\<lambda>x. DistributionDiagnostics_state x = ''enabled, working'') dds)"
proof
  assume run: "doctor H args s = (Inr (), t)"
  then obtain wsl plugin release dds where d: "diagnosis H args s wsl plugin release dds t"
    by (blast dest: doctor_ok_diagnosis)
  then have "length (failed_findings ([wsl] @ plugin @ [release]) dds) = 0"
    using doctor_result [OF d] run by (auto split: if_splits)
  then show "\<exists>wsl plugin release dds. diagnosis H args s wsl plugin release dds t \<and>
      (\<exists>v u. check_wsl_version H s = (Inr v, u)) \<and> list_all df_ok plugin \<and>
      list_all (\<lambda>x. DistributionDiagnostics_state x = ''enabled, working'') dds"
    using d diagnosis_verdict [OF d] by blast
next
  assume "\<exists>wsl plugin release dds. diagnosis H args s wsl plugin release dds t \<and>
      (\<exists>v u. check_wsl_version H s = (Inr v, u)) \<and> list_all df_ok plugin \<and>
      list_all (\<lambda>x. DistributionDiagnostics_state x = ''enabled, working'') dds"
  then obtain wsl plugin release dds where d: "diagnosis H args s wsl plugin release dds t"
    and "length (failed_findings ([wsl] @ plugin @ [release]) dds) = 0"
    by (blast dest: diagnosis_verdict)
  then show "doctor H args s = (Inr (), t)" using doctor_result [OF d] by simp
qed


section \<open>What a successful diagnosis says of the machine\<close>

text \<open>A report of the helper in which every check passed, and which has one.\<close>

definition checks_passed :: "string \<Rightarrow> bool" where
  "checks_passed report \<longleftrightarrow>
     (\<exists>line \<in> set (lines report). starts_with ''CHECK '' line) \<and>
     (\<forall>line \<in> set (lines report). starts_with ''CHECK '' line \<longrightarrow>
        (\<exists>name detail. line = ''CHECK '' @ name @ '' ok '' @ detail \<and> CHR '' '' \<notin> set name))"

lemma split_once_space:
  "split_once '' '' s = Some (a, b) \<Longrightarrow> s = a @ '' '' @ b \<and> CHR '' '' \<notin> set a"
  by (induction s arbitrary: a) (auto simp: starts_with_iff split: if_splits)

lemma split_once_check: "split_once '' '' (''CHECK '' @ rest) = Some (''CHECK'', rest)"
  by (simp add: starts_with_def)

lemma check_finding_passed:
  assumes "starts_with ''CHECK '' line" and "df_ok (check_finding H d line)"
  shows "\<exists>name detail. line = ''CHECK '' @ name @ '' ok '' @ detail \<and> CHR '' '' \<notin> set name"
proof -
  obtain rest where line: "line = ''CHECK '' @ rest" using assms(1) by (auto simp: starts_with_iff)
  have "starts_with ''ok '' (snd (check_fields line))"
    using assms(2) by (auto simp: check_finding_def case_prod_beta split: if_splits)
  then obtain name detail where "split_once '' '' rest = Some (name, detail)" and ok: "starts_with ''ok '' detail"
    unfolding line by (auto simp: check_fields_def split_once_check [simplified] starts_with_def split: option.splits)
  with split_once_space [of rest name detail] line show ?thesis by (auto simp: starts_with_iff)
qed

lemma runtime_findings_passed:
  assumes "list_all df_ok (runtime_findings H d remote)"
  shows "\<exists>result. remote = Inr result \<and> pr_success result \<and> checks_passed (pr_stdout result)"
proof -
  obtain result where r: "remote = Inr result" "pr_success result" "check_lines (pr_stdout result) \<noteq> []"
    "list_all df_ok (map (check_finding H d) (check_lines (pr_stdout result)))"
    using assms by (auto simp: runtime_findings_def split: sum.splits if_splits)
  then have "checks_passed (pr_stdout result)"
    unfolding checks_passed_def
    by (intro conjI ballI impI check_finding_passed [of _ H d]) (auto simp: check_lines_def list_all_iff filter_empty_conv)
  then show ?thesis using r by blast
qed

lemma attempt_Inr: "attempt m s = (Inr (Inr x), t) \<longleftrightarrow> m s = (Inr x, t)"
  by (auto simp: attempt_def split: prod.splits sum.splits fault.splits)

lemma context_of_Inr: "context_of c m s = (Inr x, t) \<longleftrightarrow> m s = (Inr x, t)"
  by (cases "m s") (auto simp: context_of_def act_simps)

lemma distribution_findings_enabled:
  assumes "distribution_findings H d s = (Inr x, t)" and "DistributionDiagnostics_state x = ''enabled, working''"
  shows "dist_version d = Some 2 \<and> (\<exists>u result. distribution_enabled H (dist_id d) s = (Inr True, u) \<and>
    remote_doctor H (dist_name d) u = (Inr result, t) \<and> pr_success result \<and> checks_passed (pr_stdout result))"
proof -
  obtain en u where run: "attempt (distribution_enabled H (dist_id d)) s = (Inr en, u)" and
    rest: "(if should_check_runtime (map_err to_string_of en) then
       act_bind (attempt (remote_doctor H (dist_name d))) (\<lambda>remote.
       act_return (distribution_diagnostics H d (map_err to_string_of en) (Some (map_err to_string_of remote))))
     else act_return (distribution_diagnostics H d (map_err to_string_of en) None)) u = (Inr x, t)"
    using assms(1) by (auto simp: distribution_findings_def act_bind_Inr Let_def)
  have en: "should_check_runtime (map_err to_string_of en)"
    using rest assms(2)
    by (cases en) (auto simp: should_check_runtime_def distribution_diagnostics_def DistributionDiagnostics_state_def Let_def return_Inr
        split: if_splits)
  then have "en = Inr True" by (cases en) (auto simp: should_check_runtime_def)
  moreover obtain remote where remote: "attempt (remote_doctor H (dist_name d)) u = (Inr remote, t)"
    and x: "x = distribution_diagnostics H d (map_err to_string_of en) (Some (map_err to_string_of remote))"
    using rest en by (auto simp: runs_Inr)
  ultimately have "dist_version d = Some 2" "list_all df_ok (runtime_findings H d (map_err to_string_of remote))"
    using assms(2)
    by (auto simp: distribution_diagnostics_def DistributionDiagnostics_state_def Let_def split: if_splits)
  moreover from runtime_findings_passed [OF this(2)] obtain result where "remote = Inr result" "pr_success result"
    "checks_passed (pr_stdout result)" by (cases remote) auto
  ultimately show ?thesis using run remote \<open>en = Inr True\<close> by (auto simp: attempt_Inr)
qed

context cli_machine
begin

lemma check_wsl_version_ok:
  assumes "check_wsl_version H s = (Inr v, t)"
  shows "\<exists>out. log t = log s @ [Ran ''wsl.exe'' [''--version''] out] \<and> out_success out \<and>
    parse_wsl_version (decode_process_output (out_stdout out)) = Inr v \<and>
    (2 < major v \<or> major v = 2 \<and> (5 < minor v \<or> minor v = 5 \<and> 1 \<le> patch v))"
proof -
  have one: "1 \<le> x" if "x \<noteq> 0" for x :: u32 using that by (simp add: word_le_nat_alt unat_gt_0 Suc_le_eq)
  have "compare_versions v MINIMUM_WSL_VERSION \<noteq> Less \<Longrightarrow>
      2 < major v \<or> major v = 2 \<and> (5 < minor v \<or> minor v = 5 \<and> 1 \<le> patch v)"
    by (auto simp: compare_versions_def MINIMUM_WSL_VERSION_def Let_def less_prod_def' not_less one split: if_splits)
  moreover have err: "map_err f r = Inr x \<longleftrightarrow> r = Inr x" for f :: "ParseError \<Rightarrow> fault" and r x by (cases r) auto
  ultimately show ?thesis
    using assms
    by (auto simp: check_wsl_version_def runs_Inr context_of_Inr run_process_def process_result_def err dest!: wpD [OF command])
qed

lemma plugin_findings_passed:
  assumes "plugin_findings H s = (Inr fs, t)" and "list_all df_ok fs"
  shows "(\<exists>path x. reg s (canon PLUGINS PLUGIN_VALUE_NAME) = Some (RegText path) \<and> is_absolute path \<and> is_file H path s \<and>
      WinVerifyTrustEx H \<lparr>wt_file_path = encode_utf16 path @ [0], wt_state_action = WTD_STATEACTION_VERIFY\<rparr> s = (0, x)) \<or>
    reg s (canon PLUGINS PLUGIN_VALUE_NAME) = None \<and>
      (\<exists>name. Inr name \<in> set (reg_enum_values H PLUGINS s) \<and> name \<noteq> PLUGIN_VALUE_NAME)"
proof -
  obtain key u where o: "open_optional H PLUGINS KEY_READ ''could not inspect the plugin registry'' s = (Inr key, u)"
    using assms(1) by (auto simp: plugin_findings_def act_bind_Inr)
  then have u: "u = s" and key: "key = None \<or> key = Some PLUGINS" using open_optional_run [OF o] by auto
  with assms o have key: "key = Some PLUGINS" by (auto simp: plugin_findings_def runs_Inr)
  then obtain v where v: "registry_string H PLUGINS PLUGIN_VALUE_NAME s = (Inr v, s)"
    using assms(1) o u registry_string_run by (auto simp: plugin_findings_def act_bind_Inr)
  note there = registry_string_run [OF v]
  show ?thesis
  proof (cases v)
    case None
    then have "fs = absent_plugin_findings (foreign_plugins H s)"
      using assms(1) o u v key by (auto simp: plugin_findings_def runs_Inr)
    then have "foreign_plugins H s \<noteq> []" using assms(2) by (auto simp: absent_plugin_findings_def split: if_splits)
    then obtain name where "name \<in> set (foreign_plugins H s)" by (cases "foreign_plugins H s") auto
    then have "Inr name \<in> set (reg_enum_values H PLUGINS s) \<and> name \<noteq> PLUGIN_VALUE_NAME"
      by (auto simp: foreign_plugins_def set_map_filter split: sum.splits) (metis sum.exhaust)
    then show ?thesis using there None by auto
  next
    case (Some path)
    then obtain status where "plugin_path_finding (is_absolute path \<and> is_file H path s) path \<in> set fs"
      "is_file H path s \<longrightarrow> signature_status H path s = (Inr status, t) \<and> plugin_signature_finding status \<in> set fs"
      using assms(1) o u v key by (auto simp: plugin_findings_def runs_Inr Let_def split: if_splits)
    then have "is_absolute path" "is_file H path s" "signature_status H path s = (Inr Valid, t)"
      using assms(2) by (auto simp: list_all_iff plugin_path_finding_def plugin_signature_finding_def
          split: if_splits SignatureStatus.splits)
    then show ?thesis
      using there Some
      by (auto simp: signature_status_def Let_def runs_Inr effect_def signature_status_from_winverifytrust_def
          split: prod.splits if_splits)
  qed
qed

lemma distribution_enabled_True:
  assumes "distribution_enabled H uid s = (Inr True, t)"
  shows "t = s \<and> (\<exists>k. reg_get_u32 H (distribution_key H uid) DISTRIBUTION_ENABLEMENT_VALUE s = Inr k \<and> k \<noteq> 0)"
proof -
  obtain key u where o: "open_optional H (distribution_key H uid) KEY_READ ''could not read distribution enablement'' s = (Inr key, u)"
    using assms by (auto simp: distribution_enabled_def act_bind_Inr)
  then have "u = s" "key = None \<or> key = Some (distribution_key H uid)" using open_optional_run [OF o] by auto
  then show ?thesis
    using assms o
    by (cases "reg_get_u32 H (distribution_key H uid) DISTRIBUTION_ENABLEMENT_VALUE s")
       (auto simp: distribution_enabled_def runs_Inr)
qed

lemma collect_quiet:
  assumes "\<And>d. along (quiet reg log) (f d)" and "d \<in> set ds"
    and "act_collect (\<lambda>d. act_bind (f d) (\<lambda>x. act_return [x])) ds s = (Inr xs, t)"
  shows "\<exists>x u v. x \<in> set xs \<and> f d u = (Inr x, v) \<and> quiet reg log s u \<and> quiet reg log v t"
  using assms(2,3)
proof (induction ds arbitrary: s xs)
  case (Cons e ds)
  obtain y v ys where e: "f e s = (Inr y, v)" and xs: "xs = y # ys"
    and rest: "act_collect (\<lambda>d. act_bind (f d) (\<lambda>x. act_return [x])) ds v = (Inr ys, t)"
    using Cons.prems(2) by (auto simp: runs_Inr)
  have "along (quiet reg log) (act_collect (\<lambda>d. act_bind (f d) (\<lambda>x. act_return [x])) ds)"
    by (intro along_intros assms(1))
  from quiet_run [OF this rest] have vt: "quiet reg log v t" .
  show ?case
  proof (cases "d = e")
    case True
    moreover have "quiet reg log s s" by (simp add: quiet_def)
    ultimately show ?thesis using e xs vt by (metis list.set_intros(1))
  next
    case False
    then obtain x u w where "x \<in> set ys" "f d u = (Inr x, w)" "quiet reg log v u" "quiet reg log w t"
      using Cons.IH [OF _ rest] Cons.prems(1) by auto
    then show ?thesis using xs quiet_trans [OF quiet_run [OF assms(1) e]] by (meson list.set_intros(2))
  qed
qed simp

lemma diagnosed_working:
  assumes "distribution_findings H d u = (Inr x, v)" and "DistributionDiagnostics_state x = ''enabled, working''"
    and "quiet reg log s u" and "quiet reg log v t"
  shows "dist_version d = Some 2 \<and>
    (\<exists>k. reg_get_u32 H (distribution_key H (dist_id d)) DISTRIBUTION_ENABLEMENT_VALUE u = Inr k \<and> k \<noteq> 0) \<and>
    (\<exists>pre out post. log t = log s @ pre @ Ran ''wsl.exe'' (wsl_root_arguments (dist_name d) [LINUX_STATUS_HELPER, ''--doctor'']) out # post \<and>
       out_success out \<and> checks_passed (decode_process_output (out_stdout out)))"
proof -
  from distribution_findings_enabled [OF assms(1,2)] obtain w result where w: "dist_version d = Some 2"
    "distribution_enabled H (dist_id d) u = (Inr True, w)" "remote_doctor H (dist_name d) w = (Inr result, v)"
    "pr_success result" "checks_passed (pr_stdout result)" by blast
  note en = distribution_enabled_True [OF w(2)]
  obtain out where "command_output H ''wsl.exe'' (wsl_root_arguments (dist_name d) [LINUX_STATUS_HELPER, ''--doctor'']) u = (Inr out, v)"
    and out: "result = process_result out"
    using w(3) en by (auto simp: remote_doctor_def run_wsl_root_def runs_Inr)
  then have "log v = log u @ [Ran ''wsl.exe'' (wsl_root_arguments (dist_name d) [LINUX_STATUS_HELPER, ''--doctor'']) out]"
    using wpD [OF command] by fastforce
  then have "\<exists>pre post. log t = log s @ pre @ Ran ''wsl.exe'' (wsl_root_arguments (dist_name d) [LINUX_STATUS_HELPER, ''--doctor'']) out # post"
    using assms(3,4) by (auto simp: quiet_def) blast
  then show ?thesis using w en out by (auto simp: process_result_def)
qed

lemma quiet_diagnosed: "along (quiet reg log) (diagnosed_distributions H args)"
  unfolding diagnosed_distributions_def by (intro along_intros)

lemma diagnosed_match:
  assumes "diagnosed_distributions H args s = (Inr ds, t)"
  shows "case da_distro args of
      Some name \<Rightarrow> \<exists>d. ds = [d] \<and> find_distribution H name s = (Inr d, t) \<and> only_match H name t d
    | None \<Rightarrow> enumerate_distributions H s = (Inr ds, t)"
  using assms find_distribution_ok by (auto simp: diagnosed_distributions_def runs_Inr split: option.splits)

lemma doctor_healthy:
  assumes u32: "\<And>k v u x. reg_get_u32 H k v u = Inr x \<Longrightarrow> reg u (canon k v) = Some (RegDword x)"
    and run: "doctor H args s = (Inr (), t)"
  shows "\<exists>out post v. log t = log s @ Ran ''wsl.exe'' [''--version''] out # post \<and> out_success out \<and>
       parse_wsl_version (decode_process_output (out_stdout out)) = Inr v \<and>
       (2 < major v \<or> major v = 2 \<and> (5 < minor v \<or> minor v = 5 \<and> 1 \<le> patch v))"
    and "\<exists>u. quiet reg log s u \<and>
       ((\<exists>path x. reg s (canon PLUGINS PLUGIN_VALUE_NAME) = Some (RegText path) \<and> is_absolute path \<and> is_file H path u \<and>
           WinVerifyTrustEx H \<lparr>wt_file_path = encode_utf16 path @ [0], wt_state_action = WTD_STATEACTION_VERIFY\<rparr> u = (0, x)) \<or>
        reg s (canon PLUGINS PLUGIN_VALUE_NAME) = None \<and>
          (\<exists>name. Inr name \<in> set (reg_enum_values H PLUGINS u) \<and> name \<noteq> PLUGIN_VALUE_NAME))"
    and "\<exists>ds u w. quiet reg log s u \<and>
       (case da_distro args of
          Some name \<Rightarrow> \<exists>d. ds = [d] \<and> find_distribution H name u = (Inr d, w) \<and> only_match H name w d
        | None \<Rightarrow> enumerate_distributions H u = (Inr ds, w)) \<and>
       (\<forall>d \<in> set ds. dist_version d = Some 2 \<and>
          (\<exists>k. reg s (canon (distribution_key H (dist_id d)) DISTRIBUTION_ENABLEMENT_VALUE) = Some (RegDword k) \<and> k \<noteq> 0) \<and>
          (\<exists>pre out post. log t = log s @ pre @
             Ran ''wsl.exe'' (wsl_root_arguments (dist_name d) [LINUX_STATUS_HELPER, ''--doctor'']) out # post \<and>
             out_success out \<and> checks_passed (decode_process_output (out_stdout out))))"
proof -
  obtain wsl plugin release dds v x where dia: "diagnosis H args s wsl plugin release dds t"
    and version: "check_wsl_version H s = (Inr v, x)" and plugin: "list_all df_ok plugin"
    and working: "list_all (\<lambda>x. DistributionDiagnostics_state x = ''enabled, working'') dds"
    using run unfolding doctor_succeeds_iff by blast
  then obtain s1 s2 s3 ds s4 s5 where f: "wsl_version_finding H s = (Inr wsl, s1)" "plugin_findings H s1 = (Inr plugin, s2)"
      "release_update_finding H (da_include_prerelease args) s2 = (Inr release, s3)"
      "diagnosed_distributions H args s3 = (Inr ds, s4)"
      "act_collect (\<lambda>d. act_bind (distribution_findings H d) (\<lambda>x. act_return [x])) ds s4 = (Inr dds, s5)"
      "print_text H (format_doctor_report ([wsl] @ plugin @ [release]) dds) s5 = (Inr (), t)"
    by (auto simp: diagnosis_def)
  have "along (quiet reg log) (act_collect (\<lambda>d. act_bind (distribution_findings H d) (\<lambda>x. act_return [x])) ds)"
    by (intro along_intros)
  note c = quiet_run [OF this f(5)]
  have q1: "quiet reg log s s1" using quiet_run [OF quiet_doctor(2) f(1)] .
  have q3: "quiet reg log s s3"
    using quiet_trans [OF quiet_trans [OF q1 quiet_run [OF quiet_doctor(3) f(2)]] quiet_run [OF quiet_doctor(4) f(3)]] .
  have q4: "quiet reg log s s4" using quiet_trans [OF q3 quiet_run [OF quiet_diagnosed f(4)]] .
  have q5: "quiet reg log s5 t" using quiet_run [OF quiet_print(1) f(6)] .
  have t1: "quiet reg log s1 t"
    using quiet_trans [OF quiet_trans [OF quiet_run [OF quiet_doctor(3) f(2)] quiet_run [OF quiet_doctor(4) f(3)]]
        quiet_trans [OF quiet_run [OF quiet_diagnosed f(4)] quiet_trans [OF c q5]]] .
  have "s1 = x" using f(1) version by (auto simp: wsl_version_finding_def act_bind_run attempt_def act_return_run)
  then show "\<exists>out post v. log t = log s @ Ran ''wsl.exe'' [''--version''] out # post \<and> out_success out \<and>
       parse_wsl_version (decode_process_output (out_stdout out)) = Inr v \<and>
       (2 < major v \<or> major v = 2 \<and> (5 < minor v \<or> minor v = 5 \<and> 1 \<le> patch v))"
    using check_wsl_version_ok [OF version] t1 by (fastforce simp: quiet_def)
  have "reg s1 = reg s" using q1 by (simp add: quiet_def)
  with plugin_findings_passed [OF f(2) plugin] q1
  show "\<exists>u. quiet reg log s u \<and>
       ((\<exists>path x. reg s (canon PLUGINS PLUGIN_VALUE_NAME) = Some (RegText path) \<and> is_absolute path \<and> is_file H path u \<and>
           WinVerifyTrustEx H \<lparr>wt_file_path = encode_utf16 path @ [0], wt_state_action = WTD_STATEACTION_VERIFY\<rparr> u = (0, x)) \<or>
        reg s (canon PLUGINS PLUGIN_VALUE_NAME) = None \<and>
          (\<exists>name. Inr name \<in> set (reg_enum_values H PLUGINS u) \<and> name \<noteq> PLUGIN_VALUE_NAME))"
    by (intro exI [of _ s1]) simp
  have "dist_version d = Some 2 \<and>
          (\<exists>k. reg s (canon (distribution_key H (dist_id d)) DISTRIBUTION_ENABLEMENT_VALUE) = Some (RegDword k) \<and> k \<noteq> 0) \<and>
          (\<exists>pre out post. log t = log s @ pre @
             Ran ''wsl.exe'' (wsl_root_arguments (dist_name d) [LINUX_STATUS_HELPER, ''--doctor'']) out # post \<and>
             out_success out \<and> checks_passed (decode_process_output (out_stdout out)))" if "d \<in> set ds" for d
  proof -
    from collect_quiet [OF quiet_doctor(5) that f(5)] obtain x u w where x: "x \<in> set dds" "distribution_findings H d u = (Inr x, w)"
      "quiet reg log s4 u" "quiet reg log w s5" by blast
    have su: "quiet reg log s u" using quiet_trans [OF q4 x(3)] .
    from diagnosed_working [OF x(2) _ su quiet_trans [OF x(4) q5]] x(1) working u32 su
    show ?thesis by (auto simp: list_all_iff quiet_def) metis
  qed
  with diagnosed_match [OF f(4)] q3
  show "\<exists>ds u w. quiet reg log s u \<and>
       (case da_distro args of
          Some name \<Rightarrow> \<exists>d. ds = [d] \<and> find_distribution H name u = (Inr d, w) \<and> only_match H name w d
        | None \<Rightarrow> enumerate_distributions H u = (Inr ds, w)) \<and>
       (\<forall>d \<in> set ds. dist_version d = Some 2 \<and>
          (\<exists>k. reg s (canon (distribution_key H (dist_id d)) DISTRIBUTION_ENABLEMENT_VALUE) = Some (RegDword k) \<and> k \<noteq> 0) \<and>
          (\<exists>pre out post. log t = log s @ pre @
             Ran ''wsl.exe'' (wsl_root_arguments (dist_name d) [LINUX_STATUS_HELPER, ''--doctor'']) out # post \<and>
             out_success out \<and> checks_passed (decode_process_output (out_stdout out))))"
    by blast
qed

end

end
