(* ===== verification/Cli_Removal.thy ===== *)
theory Cli_Removal
  imports Cli_Effects
begin

text \<open>
  Disabling distributions and uninstalling, under the laws of the machine: the enablement of a
  distribution is removed only after the files in it are, and the product is removed only after
  no enablement is left.
\<close>

section \<open>Disabling\<close>

text \<open>The programs that take the project's files out of a distribution.\<close>

definition removed_with_payload :: "('w, 'v) cli_host \<Rightarrow> Distribution \<Rightarrow> 'w \<Rightarrow> event list \<Rightarrow> bool" where
  "removed_with_payload H d u es \<longleftrightarrow>
     (\<exists>root out e. payload_holds H root u \<and>
        es = [Ran ''wsl.exe'' (wslpath_arguments (dist_name d) root) out, e] \<and> out_success out \<and>
        ran_ok ''wsl.exe'' (wsl_root_arguments (dist_name d)
          [format [strip_line_end (decode_process_output (out_stdout out)), ''/'', LINUX_BOOTSTRAP], ''--disable'']) e)"

text \<open>
  Without a payload: the helper installed in the distribution removed them, or \<^verbatim>\<open>test\<close> found that
  there is no helper. It reports that by failing without a word; a test that fails with output
  could not look.
\<close>

definition silent :: "Output \<Rightarrow> bool" where
  "silent out \<longleftrightarrow>
     trim (decode_process_output (out_stdout out)) = [] \<and> trim (decode_process_output (out_stderr out)) = []"

definition removed_with_helper :: "Distribution \<Rightarrow> event list \<Rightarrow> bool" where
  "removed_with_helper d es \<longleftrightarrow>
     (let test = wsl_root_arguments (dist_name d) [''/usr/bin/test'', ''-x'', LINUX_STATUS_HELPER];
          helper = wsl_root_arguments (dist_name d) [LINUX_STATUS_HELPER, ''--disable'']
      in (\<exists>out. es = [Ran ''wsl.exe'' test out] \<and> \<not> out_success out \<and> silent out) \<or>
         (\<exists>e e'. es = [e, e'] \<and> ran_ok ''wsl.exe'' test e \<and> ran_ok ''wsl.exe'' helper e'))"

text \<open>The files were removed by the programs run right after \<open>u\<close>, or at some time after \<open>s\<close>.\<close>

definition removed_at :: "('w, 'v) cli_host \<Rightarrow> ('w \<Rightarrow> event list) \<Rightarrow> 'w \<Rightarrow> event list \<Rightarrow> Distribution \<Rightarrow> bool" where
  "removed_at H log u l d \<longleftrightarrow>
     (\<exists>es post. l = log u @ es @ post \<and> (removed_with_payload H d u es \<or> removed_with_helper d es))"

definition removed_in :: "('w, 'v) cli_host \<Rightarrow> ('w \<Rightarrow> event list) \<Rightarrow> 'w \<Rightarrow> event list \<Rightarrow> Distribution \<Rightarrow> bool" where
  "removed_in H log s l d \<longleftrightarrow> (\<exists>u es. log u = log s @ es \<and> removed_at H log u l d)"

lemma removed_at_append: "removed_at H log u l d \<Longrightarrow> removed_at H log u (l @ es) d"
  unfolding removed_at_def by (metis append.assoc)

lemma removed_in_append: "removed_in H log s l d \<Longrightarrow> removed_in H log s (l @ es) d"
  unfolding removed_in_def by (metis removed_at_append)

context cli_machine
begin

lemma run_wsl_root_ok:
  "run_wsl_root H d args s = (Inr result, t) \<Longrightarrow>
     \<exists>out. log t = log s @ [Ran ''wsl.exe'' (wsl_root_arguments d args) out] \<and> result = process_result out"
  by (auto simp: run_wsl_root_def runs_Inr dest: wpD [OF command])

lemma disable_with_payload_ok:
  assumes "disable_distro_with_payload H d root s = (Inr x, t)"
  shows "removed_at H log s (log t) d"
proof -
  obtain root' s1 y s2 source s3 result where
    dir: "absolute_existing_directory H root ''Linux payload root'' s = (Inr root', s1)" and
    payload: "verify_payload H root' s1 = (Inr y, s2)" and path: "wsl_path H (dist_name d) root' s2 = (Inr source, s3)" and
    run: "run_wsl_root H (dist_name d) [format [source, ''/'', LINUX_BOOTSTRAP], ''--disable''] s3 = (Inr result, t)" and
    ok: "pr_success result"
    using assms by (auto simp: disable_distro_with_payload_def runs_Inr)
  obtain out where out: "log s3 = log s2 @ [Ran ''wsl.exe'' (wslpath_arguments (dist_name d) root') out]" "out_success out"
    "source = strip_line_end (decode_process_output (out_stdout out))"
    using wsl_path_ok [OF path] by blast
  obtain out' where out': "log t = log s3 @ [Ran ''wsl.exe'' (wsl_root_arguments (dist_name d)
      [format [source, ''/'', LINUX_BOOTSTRAP], ''--disable'']) out']" "result = process_result out'"
    using run_wsl_root_ok [OF run] by blast
  have "removed_with_payload H d s [Ran ''wsl.exe'' (wslpath_arguments (dist_name d) root') out,
      Ran ''wsl.exe'' (wsl_root_arguments (dist_name d) [format [source, ''/'', LINUX_BOOTSTRAP], ''--disable'']) out']"
    using absolute_existing_directory_ok [OF dir] verify_payload_ok [OF payload] out(2,3) out'(2) ok
    by (auto simp: removed_with_payload_def ran_ok_def process_result_def)
  moreover have "log t = log s @ [Ran ''wsl.exe'' (wslpath_arguments (dist_name d) root') out,
      Ran ''wsl.exe'' (wsl_root_arguments (dist_name d) [format [source, ''/'', LINUX_BOOTSTRAP], ''--disable'']) out'] @ []"
    using out(1) out'(1) absolute_existing_directory_ok [OF dir] verify_payload_ok [OF payload] by simp
  ultimately show ?thesis unfolding removed_at_def by blast
qed

lemma disable_with_payload_wp:
  "wp (disable_distro_with_payload H d root) (\<lambda>r t. quiet reg log s t \<and> (is_ok r \<longrightarrow> removed_at H log s (log t) d)) s"
  by (rule wpI) (use disable_with_payload_ok quiet_run [OF quiet_commands(6)] in \<open>auto simp: is_ok_iff\<close>)

lemma disable_with_helper_ok:
  assumes "disable_distro_with_installed_helper H d s = (Inr x, t)"
  shows "removed_at H log s (log t) d"
proof -
  let ?test = "[''/usr/bin/test'', ''-x'', LINUX_STATUS_HELPER]"
  obtain check s1 where run: "run_wsl_root H (dist_name d) ?test s = (Inr check, s1)" and
    rest: "\<not> pr_success check \<and> trim (pr_stdout check) = [] \<and> trim (pr_stderr check) = [] \<and> t = s1 \<or> (pr_success check \<and> (\<exists>result.
      run_wsl_root H (dist_name d) [LINUX_STATUS_HELPER, ''--disable''] s1 = (Inr result, t) \<and> pr_success result))"
    using assms by (auto simp: disable_distro_with_installed_helper_def runs_Inr bail_def act_throw_run split: if_splits)
  obtain out where out: "log s1 = log s @ [Ran ''wsl.exe'' (wsl_root_arguments (dist_name d) ?test) out]"
    "check = process_result out"
    using run_wsl_root_ok [OF run] by blast
  have "\<exists>es. log t = log s @ es \<and> removed_with_helper d es"
    using rest
  proof
    assume "\<not> pr_success check \<and> trim (pr_stdout check) = [] \<and> trim (pr_stderr check) = [] \<and> t = s1"
    then show ?thesis using out by (auto simp: removed_with_helper_def silent_def process_result_def)
  next
    assume "pr_success check \<and> (\<exists>result.
      run_wsl_root H (dist_name d) [LINUX_STATUS_HELPER, ''--disable''] s1 = (Inr result, t) \<and> pr_success result)"
    then show ?thesis using out run_wsl_root_ok by (fastforce simp: removed_with_helper_def ran_ok_def process_result_def)
  qed
  then show ?thesis unfolding removed_at_def by (metis append_Nil2)
qed

lemma set_enabled_off:
  "wp (set_distribution_enabled H uid False)
     (\<lambda>r t. log t = log s \<and> (\<forall>p. \<not> below (distribution_key H uid) p \<longrightarrow> reg t p = reg s p) \<and>
        (\<forall>p. reg t p = None \<or> reg t p = reg s p) \<and>
        (is_ok r \<longrightarrow> (\<forall>p. below (distribution_key H uid) p \<longrightarrow> reg t p = None))) s"
  unfolding set_distribution_enabled_def Let_def if_False wp_bind wp_try
  by (rule wp_mono [OF delete_tree]) (auto simp: wp_simps split: sum.splits)

lemma distro_disable_wp:
  "wp (distro_disable H args)
     (\<lambda>r t. (reg t = reg s \<and> \<not> is_ok r) \<or>
        (\<exists>w d. find_distribution H (dn_name args) s = (Inr d, w) \<and> only_match H (dn_name args) w d \<and>
           quiet reg log s w \<and> removed_at H log w (log t) d \<and>
           (\<forall>p. \<not> below (distribution_key H (dist_id d)) p \<longrightarrow> reg t p = reg s p) \<and>
           (\<forall>p. reg t p = None \<or> reg t p = reg s p) \<and>
           (is_ok r \<longrightarrow> (\<forall>p. below (distribution_key H (dist_id d)) p \<longrightarrow> reg t p = None)))) s"
  (is "wp _ ?Q s")
  unfolding distro_disable_def
proof (rule wp_quiet_bind [OF quiet_distributions(3) refl], goal_cases found err)
  case (found d w)
  have w: "quiet reg log s w" using quiet_run [OF quiet_distributions(3) found(1)] .
  note match = find_distribution_ok [OF found(1)]
  let ?disable = "\<lambda>dir root. if dir then disable_distro_with_payload H d root else disable_distro_with_installed_helper H d"
  have q: "along (quiet reg log) (?disable dir root)" for dir root by (intro along_intros)
  have "wp (act_bind (?disable dir root) (\<lambda>_.
      act_bind (set_distribution_enabled H (dist_id d) False) (\<lambda>_. println H (disabled_message d)))) ?Q w" for dir root
  proof (rule wp_quiet_bind [OF q found(2)], goal_cases gone err)
    case (gone _ u)
    then have "removed_at H log w (log u) d"
      using disable_with_payload_ok disable_with_helper_ok by (auto split: if_splits)
    then show ?case
      by (intro wp_bindI [OF set_enabled_off]) (use w match found(1) gone(2) in \<open>auto simp: wp_def println_keeps\<close>)
  qed simp
  then show ?case by (simp add: wp_bind [of "peek _"] wp_peek)
qed simp

end


section \<open>Cleaning up\<close>

lemma distribution_key_subkey:
  "distribution_key H uid = subkey DISTRIBUTIONS (''{'' @ uuid_to_string H uid @ ''}'')"
  by (simp add: distribution_key_def subkey_def DISTRIBUTIONS_def distribution_registry_path_def
      DISTRIBUTION_ENABLEMENT_PREFIX_def BACKSLASH_def trim_end_while_def BACK_def)

lemma project_ids_all:
  "project_ids H entries = Inr uids \<Longrightarrow>
     (\<forall>e. Inl e \<notin> set entries) \<and>
     (\<forall>name uid. Inr name \<in> set entries \<longrightarrow> uuid_parse_str H (trim_braces name) = Some uid \<longrightarrow> uid \<in> set uids)"
  by (induction entries arbitrary: uids)
     (auto simp: res_bind_Inr project_id_def split: sum.splits option.splits)

text \<open>
  The values that are gone were below the key of a distribution that WSL does not know, or in which
  the files were removed before.
\<close>

definition cleaned ::
  "('w, 'v) cli_host \<Rightarrow> (RegKey \<Rightarrow> 'k \<Rightarrow> bool) \<Rightarrow> ('w \<Rightarrow> 'k \<Rightarrow> reg_value option) \<Rightarrow> ('w \<Rightarrow> event list) \<Rightarrow>
   Distribution list \<Rightarrow> 'w \<Rightarrow> 'w \<Rightarrow> bool" where
  "cleaned H below reg log ds s t \<longleftrightarrow>
     (\<exists>es. log t = log s @ es) \<and>
     (\<forall>p. reg t p \<noteq> reg s p \<longrightarrow> reg t p = None \<and>
        (\<exists>uid. below (distribution_key H uid) p \<and>
           ((\<exists>d \<in> set ds. dist_id d = uid \<and> removed_in H log s (log t) d) \<or> (\<forall>d \<in> set ds. dist_id d \<noteq> uid))))"

context cli_machine
begin

lemma project_distribution_ids_ok:
  assumes "project_distribution_ids H s = (Inr uids, t)"
  shows "t = s \<and> (\<forall>uid v. reg s (canon (distribution_key H uid) v) \<noteq> None \<longrightarrow> uid \<in> set uids)"
proof -
  have below: "below DISTRIBUTIONS (canon (distribution_key H uid) v)" for uid v
    using below_trans below_self distribution_key_subkey by metis
  obtain k u where k: "open_optional H DISTRIBUTIONS KEY_READ ''could not enumerate project distro enablement'' s = (Inr k, u)"
    and rest: "(case k of None \<Rightarrow> act_return []
       | Some k \<Rightarrow> act_bind (peek (reg_enum_keys H k)) (\<lambda>entries.
           act_bind (act_lift (project_ids H entries)) (\<lambda>uids. act_return (hash_order H (remdups uids))))) u = (Inr uids, t)"
    using assms by (auto simp: project_distribution_ids_def act_bind_Inr)
  show ?thesis
    using open_optional_run [OF k] rest
  proof (elim conjE disjE, goal_cases there absent)
    case there
    then obtain ids where "project_ids H (reg_enum_keys H DISTRIBUTIONS s) = Inr ids" "uids = hash_order H (remdups ids)" "t = s"
      by (auto simp: runs_Inr)
    moreover have "uid \<in> set ids" if "reg s (canon (distribution_key H uid) v) \<noteq> None" for uid v
      using project_ids_all [OF calculation(1)] enumerated [OF that] there by blast
    ultimately show ?thesis using hash_set by simp
  next
    case absent
    then show ?thesis using below by (auto simp: runs_Inr)
  qed
qed

lemma cleaned_off:
  assumes "cleaned H below reg log ds s t"
    and "(\<exists>d \<in> set ds. dist_id d = uid \<and> removed_in H log s (log t) d) \<or> (\<forall>d \<in> set ds. dist_id d \<noteq> uid)"
  shows "wp (set_distribution_enabled H uid False)
    (\<lambda>r u. cleaned H below reg log ds s u \<and> log u = log t \<and> (\<forall>p. reg t p = None \<longrightarrow> reg u p = None) \<and>
       (is_ok r \<longrightarrow> (\<forall>p. below (distribution_key H uid) p \<longrightarrow> reg u p = None))) t"
proof (rule wp_mono [OF set_enabled_off], goal_cases)
  case (1 r u)
  have "reg u p = None \<and> (\<exists>uid. below (distribution_key H uid) p \<and>
      ((\<exists>d \<in> set ds. dist_id d = uid \<and> removed_in H log s (log u) d) \<or> (\<forall>d \<in> set ds. dist_id d \<noteq> uid)))" if "reg u p \<noteq> reg s p" for p
  proof (cases "reg u p = reg t p")
    case True
    then show ?thesis using that assms(1) 1 by (auto simp: cleaned_def)
  next
    case False
    then have "below (distribution_key H uid) p" "reg u p = None" using 1 by auto
    then show ?thesis using assms(2) 1 by auto
  qed
  then have "cleaned H below reg log ds s u" using assms(1) 1 unfolding cleaned_def by auto
  moreover have "reg u p = None" if "reg t p = None" for p using 1 that by metis
  ultimately show ?case using 1 by blast
qed

lemma cleaned_quiet: "cleaned H below reg log ds s t \<Longrightarrow> quiet reg log t u \<Longrightarrow> cleaned H below reg log ds s u"
  unfolding cleaned_def quiet_def using removed_in_append by (metis append.assoc)

lemma removed_quiet: "removed_in H log s (log t) d \<Longrightarrow> quiet reg log t u \<Longrightarrow> removed_in H log s (log u) d"
  unfolding quiet_def using removed_in_append by metis

lemma clean_tracked:
  assumes "cleaned H below reg log ds s t" and "set xs \<subseteq> set ds"
  shows "wp (act_iter (disable_tracked H root) xs)
    (\<lambda>r u. cleaned H below reg log ds s u \<and> (\<forall>y. removed_in H log s (log t) y \<longrightarrow> removed_in H log s (log u) y) \<and>
       (is_ok r \<longrightarrow> (\<forall>x \<in> set xs. removed_in H log s (log u) x)) \<and> (False \<longrightarrow> is_ok r)) t"
proof (rule wp_iter_all [where P = "\<lambda>d u. removed_in H log s (log u) d"])
  fix d u
  assume d: "d \<in> set xs" and u: "cleaned H below reg log ds s u"
  show "wp (disable_tracked H root d)
    (\<lambda>r v. cleaned H below reg log ds s v \<and> (\<forall>y. removed_in H log s (log u) y \<longrightarrow> removed_in H log s (log v) y) \<and>
       (is_ok r \<longrightarrow> removed_in H log s (log v) d) \<and> (False \<longrightarrow> is_ok r)) u"
    unfolding disable_tracked_def
  proof (rule wp_bindI [OF disable_with_payload_wp], goal_cases err ok)
    case (err e v)
    then show ?case using cleaned_quiet [OF u] removed_quiet by auto
  next
    case (ok x v)
    then have gone: "removed_in H log s (log v) d" using u by (auto simp: cleaned_def removed_in_def)
    have v: "cleaned H below reg log ds s v" using cleaned_quiet [OF u] ok by blast
    have "\<forall>y. removed_in H log s (log u) y \<longrightarrow> removed_in H log s (log v) y" using removed_quiet ok by blast
    moreover have "(\<exists>d' \<in> set ds. dist_id d' = dist_id d \<and> removed_in H log s (log v) d') \<or> (\<forall>d' \<in> set ds. dist_id d' \<noteq> dist_id d)"
      using gone d assms(2) by blast
    ultimately show ?case
      by (intro wp_bindI [OF cleaned_off [OF v]]) (use gone in \<open>auto simp: wp_def println_keeps cleaned_def\<close>)
  qed
qed (rule assms(1))

lemma disable_all_tracked_wp:
  assumes "cleaned H below reg log ds s t" and "set xs \<subseteq> set ds"
  shows "wp (disable_all_tracked H xs)
    (\<lambda>r u. cleaned H below reg log ds s u \<and> (is_ok r \<longrightarrow> (\<forall>x \<in> set xs. removed_in H log s (log u) x))) t"
proof -
  have "wp (act_bind (absolute_existing_directory H p x) (\<lambda>root. act_bind (verify_payload H root) (\<lambda>_.
      act_iter (disable_tracked H root) xs)))
    (\<lambda>r u. cleaned H below reg log ds s u \<and> (is_ok r \<longrightarrow> (\<forall>x \<in> set xs. removed_in H log s (log u) x))) t" for p x
  proof (rule wp_bindI [OF along_quiet_wp [OF quiet_paths(2)]], goal_cases err dir)
    case (dir root u)
    show ?case
    proof (rule wp_bindI [OF along_quiet_wp [OF quiet_paths(5)]], goal_cases err payload)
      case (payload _ v)
      then have "cleaned H below reg log ds s v" using dir cleaned_quiet assms(1) by blast
      from clean_tracked [OF this assms(2)] show ?case by (rule wp_mono) auto
    qed (use cleaned_quiet [OF cleaned_quiet [OF assms(1) dir]] in auto)
  qed (use cleaned_quiet assms(1) in auto)
  then show ?thesis using assms(1) by (simp add: disable_all_tracked_def wp_simps)
qed

lemma clean_registered:
  assumes "cleaned H below reg log ds s t" and "\<forall>d \<in> set ds. dist_id d \<in> set uids \<longrightarrow> removed_in H log s (log t) d"
  shows "wp (act_iter (remove_registered H known) uids)
    (\<lambda>r u. (cleaned H below reg log ds s u \<and> (\<forall>d \<in> set ds. dist_id d \<in> set uids \<longrightarrow> removed_in H log s (log u) d)) \<and>
       (\<forall>y. (\<forall>p. below (distribution_key H y) p \<longrightarrow> reg t p = None) \<longrightarrow>
          (\<forall>p. below (distribution_key H y) p \<longrightarrow> reg u p = None)) \<and>
       (is_ok r \<longrightarrow> (\<forall>uid \<in> set uids. \<forall>p. below (distribution_key H uid) p \<longrightarrow> reg u p = None)) \<and> (False \<longrightarrow> is_ok r)) t"
proof (rule wp_iter_all [where P = "\<lambda>uid u. \<forall>p. below (distribution_key H uid) p \<longrightarrow> reg u p = None"])
  fix uid u
  assume uid: "uid \<in> set uids"
    and u: "cleaned H below reg log ds s u \<and> (\<forall>d \<in> set ds. dist_id d \<in> set uids \<longrightarrow> removed_in H log s (log u) d)"
  let ?tell = "if uid \<notin> set known
    then println H [''Removed stale enablement for unregistered distribution '', uuid_to_string H uid, ''.''] else act_return ()"
  have tell: "wp ?tell (\<lambda>_ v. reg v = reg u \<and> log v = log u) u"
    by (simp add: wp_def println_keeps act_return_run)
  show "wp (remove_registered H known uid)
    (\<lambda>r v. (cleaned H below reg log ds s v \<and> (\<forall>d \<in> set ds. dist_id d \<in> set uids \<longrightarrow> removed_in H log s (log v) d)) \<and>
       (\<forall>y. (\<forall>p. below (distribution_key H y) p \<longrightarrow> reg u p = None) \<longrightarrow>
          (\<forall>p. below (distribution_key H y) p \<longrightarrow> reg v p = None)) \<and>
       (is_ok r \<longrightarrow> (\<forall>p. below (distribution_key H uid) p \<longrightarrow> reg v p = None)) \<and> (False \<longrightarrow> is_ok r)) u"
    unfolding remove_registered_def
  proof (rule wp_bindI [OF tell], goal_cases err ok)
    case (err e v)
    then show ?case using u by (auto simp: cleaned_def)
  next
    case (ok x v)
    have v: "cleaned H below reg log ds s v" using u ok by (auto simp: cleaned_def)
    show ?case by (rule wp_mono [OF cleaned_off [OF v, of uid]]) (use u uid ok in auto)
  qed
qed (use assms in auto)

lemma cleaned_none:
  assumes "cleaned H below reg log ds s t" and "\<forall>uid \<in> set uids. \<forall>p. below (distribution_key H uid) p \<longrightarrow> reg t p = None"
    and "\<forall>uid v. reg s (canon (distribution_key H uid) v) \<noteq> None \<longrightarrow> uid \<in> set uids"
  shows "reg t (canon (distribution_key H uid) v) = None"
proof (cases "uid \<in> set uids")
  case False
  then have "reg s (canon (distribution_key H uid) v) = None" using assms(3) by blast
  then show ?thesis using assms(1) by (metis cleaned_def)
qed (use assms(2) below_self in auto)

lemma clean_wp:
  "wp (clean_distro_provisioning H)
     (\<lambda>r t. (reg t = reg s \<or> (\<exists>ds w. enumerate_distributions H s = (Inr ds, w) \<and> cleaned H below reg log ds s t)) \<and>
        (is_ok r \<longrightarrow> (\<forall>uid v. reg t (canon (distribution_key H uid) v) = None))) s"
  unfolding clean_distro_provisioning_def
proof (rule wp_quiet_bind [OF quiet_distributions(5) refl], goal_cases ids err)
  case (ids uids s1)
  note known = project_distribution_ids_ok [OF ids(1)]
  show ?case
  proof (cases "uids = []")
    case True
    then show ?thesis using known by (simp add: wp_def println_keeps)
  next
    case False
    show ?thesis
      unfolding if_not_P [OF False]
    proof (rule wp_quiet_bind [OF quiet_distributions(2) ids(2)], goal_cases ds err)
      case (ds ds w)
      have start: "cleaned H below reg log ds s w"
        using ds(2) known quiet_run [OF quiet_distributions(2) ds(1)] by (auto simp: cleaned_def quiet_def)
      have run: "enumerate_distributions H s = (Inr ds, w)" using ds(1) known by simp
      let ?tracked = "filter (\<lambda>d. dist_id d \<in> set uids) ds"
      have "set ?tracked \<subseteq> set ds" by auto
      from disable_all_tracked_wp [OF start this] show ?case
        unfolding Let_def
      proof (rule wp_bindI, goal_cases err fin)
        case (err e u)
        then show ?case using run by auto
      next
        case (fin _ u)
        then have "\<forall>d \<in> set ds. dist_id d \<in> set uids \<longrightarrow> removed_in H log s (log u) d" by simp
        from clean_registered [OF conjunct1 [OF fin] this] show ?case
          by (rule wp_mono) (use run known cleaned_none in blast)+
      qed
    qed simp
  qed
qed simp

end


section \<open>Uninstalling\<close>

text \<open>The programs that were started and not waited for.\<close>

definition spawned :: "event list \<Rightarrow> event list" where
  "spawned l = filter (\<lambda>e. \<not> is_Ran e) l"

definition removal_started :: "('w, 'v) cli_host \<Rightarrow> event list \<Rightarrow> event list \<Rightarrow> bool" where
  "removal_started H before after \<longleftrightarrow>
     (\<exists>installer code. after = before @
        [Spawned ''powershell.exe'' (installer_arguments H installer [''-UninstallProductCode'', code])])"

lemma spawned_append: "spawned (a @ b) = spawned a @ spawned b"
  by (simp add: spawned_def)

lemma spawned_ran: "list_all is_Ran es \<Longrightarrow> spawned es = []"
  by (auto simp: spawned_def list_all_iff)

lemma quiet_same_views: "quiet reg log s t \<Longrightarrow> reg t = reg s \<and> spawned (log t) = spawned (log s)"
  by (auto simp: quiet_def spawned_append spawned_ran)

context cli_machine
begin

lemmas same_views = quiet_same_views [of reg log]

text \<open>Nothing before the last step starts a program, and the registry is not changed after the clean-up.\<close>

lemma spawned_steps:
  "along (\<lambda>s t. spawned (log t) = spawned (log s)) m" if "along (quiet reg log) m" for m
  using that by (rule along_mono) (use same_views in blast)

lemma spawned_rtranclp: "(\<lambda>s t. spawned (log t) = spawned (log s))\<^sup>*\<^sup>* s t \<Longrightarrow> spawned (log t) = spawned (log s)"
  by (induction rule: rtranclp_induct) auto

lemma spawned_off: "along (\<lambda>s t. spawned (log t) = spawned (log s)) (set_distribution_enabled H uid False)"
  by (rule along_step) (use set_enabled_off in \<open>auto simp: wp_def\<close>)

lemma spawned_clean: "along (\<lambda>s t. spawned (log t) = spawned (log s)) (clean_distro_provisioning H)"
  unfolding clean_distro_provisioning_def disable_all_tracked_def disable_tracked_def remove_registered_def
  by (intro along_intros spawned_off | rule spawned_steps, intro along_intros)+

text \<open>An invariant that looks only at the registry and the programs started.\<close>

lemma wp_inv_bind:
  assumes "along (quiet reg log) m" and "I (reg u) (spawned (log u))"
    and "\<And>x t. I (reg t) (spawned (log t)) \<Longrightarrow> wp (f x) Q t" and "\<And>e t. I (reg t) (spawned (log t)) \<Longrightarrow> Q (Inl e) t"
  shows "wp (act_bind m f) Q u"
proof (rule wp_bindI [OF along_quiet_wp [OF assms(1)]])
  fix t
  assume "quiet reg log u t"
  then have "I (reg t) (spawned (log t))" using assms(2) same_views by metis
  then show "Q (Inl e) t" and "wp (f x) Q t" for e x using assms(3,4) by blast+
qed

lemma start_installer_wp:
  "wp (start_installer H action message)
     (\<lambda>r t. reg t = reg s \<and> (spawned (log t) = spawned (log s) \<or>
        (\<exists>installer. is_ok r \<and> spawned (log t) = spawned (log s) @ [Spawned ''powershell.exe'' (installer_arguments H installer action)]))) s"
  unfolding start_installer_def
proof (rule wp_inv_bind [OF quiet_commands(10), where I = "\<lambda>R sp. R = reg s \<and> sp = spawned (log s)"], goal_cases start dir err)
  case (dir directory u)
  show ?case
  proof (rule wp_inv_bind [OF quiet_paths(1), where I = "\<lambda>R sp. R = reg s \<and> sp = spawned (log s)"])
    fix installer t
    assume at: "reg t = reg s \<and> spawned (log t) = spawned (log s)"
    show "wp (io_context message (command_spawn H ''powershell.exe'' (installer_arguments H installer action)))
      (\<lambda>r t. reg t = reg s \<and> (spawned (log t) = spawned (log s) \<or>
        (\<exists>installer. is_ok r \<and> spawned (log t) = spawned (log s) @ [Spawned ''powershell.exe'' (installer_arguments H installer action)]))) t"
      unfolding wp_io_context
      by (rule wp_mono [OF spawn]) (use at in \<open>auto simp: spawned_append spawned_def\<close>)
  qed (use dir in auto)
qed auto

lemma not_elevated:
  "wp (require_non_administrator H c) (\<lambda>r t. quiet reg log s t \<and> (is_ok r \<longrightarrow> (\<exists>u. is_administrator H s = (Inr False, u)))) s"
  by (rule wpI) (use quiet_run [OF quiet_host(3)] in \<open>auto simp: is_ok_iff require_non_administrator_def runs_Inr\<close>)

text \<open>The last part of the removal, after the distributions are dealt with.\<close>

lemma remove_product_wp:
  assumes "K (reg u)" and "spawned (log u) = sp"
  shows "wp (act_bind (run_process H ''wsl.exe'' [''--shutdown'']) (\<lambda>shutdown.
      act_bind (if \<not> pr_success shutdown
        then eprintln H [''warning: could not shut down WSL before MSI removal: '', display_error shutdown]
        else act_return ()) (\<lambda>_.
      act_bind (installed_product_code H) (\<lambda>code.
        case code of
          None \<Rightarrow> println H [''The MSI product is already absent.'']
        | Some product_code \<Rightarrow>
            act_bind (start_installer H [''-UninstallProductCode'', product_code] ''could not start the installed uninstaller'') (\<lambda>_.
            println H [''Started MSI removal; it will continue after this CLI process exits.''])))))
    (\<lambda>r t. K (reg t) \<and> (spawned (log t) = sp \<or> removal_started H sp (spawned (log t)))) u"
  (is "wp _ ?Q u")
proof -
  let ?I = "\<lambda>R l. K R \<and> l = sp"
  have warn: "along (quiet reg log) (if c then eprintln H xs else act_return ())" for c xs by (intro along_intros)
  have product: "wp (case code of
          None \<Rightarrow> println H [''The MSI product is already absent.'']
        | Some product_code \<Rightarrow>
            act_bind (start_installer H [''-UninstallProductCode'', product_code] ''could not start the installed uninstaller'') (\<lambda>_.
            println H [''Started MSI removal; it will continue after this CLI process exits.''])) ?Q t"
    if "?I (reg t) (spawned (log t))" for code t
  proof (cases code)
    case None
    then show ?thesis using that by (simp add: wp_def println_keeps)
  next
    case (Some c)
    then show ?thesis
      unfolding Some option.case
      by (intro wp_bindI [OF start_installer_wp]) (use that in \<open>auto simp: wp_def println_keeps removal_started_def\<close>)
  qed
  show ?thesis
    by (rule wp_inv_bind [where I = ?I, OF quiet_process(1)], use assms in simp,
        rule wp_inv_bind [where I = ?I, OF warn], assumption,
        rule wp_inv_bind [where I = ?I, OF quiet_commands(11)], assumption, rule product, assumption) simp_all
qed

lemma uninstall_wp:
  "wp (uninstall H args)
     (\<lambda>r t. (un_keep_distro_provisioning args \<longrightarrow> reg t = reg s) \<and>
        (spawned (log t) = spawned (log s) \<or>
         removal_started H (spawned (log s)) (spawned (log t)) \<and> (\<exists>u. is_administrator H s = (Inr False, u)) \<and>
         (\<not> un_keep_distro_provisioning args \<longrightarrow> (\<forall>uid v. reg t (canon (distribution_key H uid) v) = None)))) s"
  (is "wp _ ?Q s")
  unfolding uninstall_def
proof (rule wp_bindI [OF not_elevated], goal_cases err elevated)
  case (elevated x u)
  let ?K = "\<lambda>R. if un_keep_distro_provisioning args then R = reg s else (\<forall>uid v. R (canon (distribution_key H uid) v) = None)"
  let ?clean = "if un_keep_distro_provisioning args
       then println H [''Preserving enabled distro provisioning at the caller'', [CHR 0x27], ''s request.'']
       else clean_distro_provisioning H"
  have start: "reg u = reg s" "spawned (log u) = spawned (log s)" using elevated same_views by blast+
  have clean: "wp ?clean (\<lambda>r t. spawned (log t) = spawned (log s) \<and> (un_keep_distro_provisioning args \<longrightarrow> reg t = reg s) \<and>
      (is_ok r \<longrightarrow> ?K (reg t))) u"
  proof (cases "un_keep_distro_provisioning args")
    case True
    then show ?thesis using start by (simp add: wp_def println_keeps)
  next
    case False
    have "spawned (log (snd (clean_distro_provisioning H u))) = spawned (log u)"
      by (rule spawned_rtranclp) (use spawned_clean in \<open>simp add: along_def\<close>)
    moreover have "wp (clean_distro_provisioning H) (\<lambda>r t. is_ok r \<longrightarrow> (\<forall>uid v. reg t (canon (distribution_key H uid) v) = None)) u"
      by (rule wp_mono [OF clean_wp]) blast
    ultimately show ?thesis using False start by (simp add: wp_def)
  qed
  show ?case
  proof (rule wp_bindI [OF clean], goal_cases err ok)
    case (ok y v)
    then have "?K (reg v)" and "spawned (log v) = spawned (log s)" by auto
    from remove_product_wp [where K = ?K, OF this] show ?case
      by (rule wp_mono) (use elevated in auto)
  qed auto
qed (use same_views in blast)

end

end
