(* ===== verification/Cli_Scope.thy ===== *)
theory Cli_Scope
  imports Cli_Removal
begin

text \<open>What the commands as a whole can change in the registry.\<close>

section \<open>What the commands touch\<close>

text \<open>Changes of the registry are confined to the plugin's value and the project's keys of distributions.\<close>

definition only_ours ::
  "('w, 'v) cli_host \<Rightarrow> (RegKey \<Rightarrow> string \<Rightarrow> 'k) \<Rightarrow> (RegKey \<Rightarrow> 'k \<Rightarrow> bool) \<Rightarrow> ('w \<Rightarrow> 'k \<Rightarrow> reg_value option) \<Rightarrow> 'w \<Rightarrow> 'w \<Rightarrow> bool" where
  "only_ours H canon below reg s t \<longleftrightarrow>
     (\<forall>p. reg t p \<noteq> reg s p \<longrightarrow> p = canon PLUGINS PLUGIN_VALUE_NAME \<or> (\<exists>uid. below (distribution_key H uid) p))"

lemma only_ours_rtranclp: "(only_ours H canon below reg)\<^sup>*\<^sup>* s t \<Longrightarrow> only_ours H canon below reg s t"
proof (induction rule: rtranclp_induct)
  case (step t u)
  then show ?case unfolding only_ours_def by metis
qed (simp add: only_ours_def)

text \<open>The commands that are meant to change it.\<close>

fun changes_registry :: "TopLevelCommand \<Rightarrow> bool" where
  "changes_registry (Plugin command) = (case command of Status \<Rightarrow> False | _ \<Rightarrow> True)"
| "changes_registry (Distro command) = (case command of Enable _ \<Rightarrow> True | Disable _ \<Rightarrow> True | _ \<Rightarrow> False)"
| "changes_registry (UninstallProduct _) = True"
| "changes_registry _ = False"

lemma same_rtranclp: "(\<lambda>s t. view t = view s)\<^sup>*\<^sup>* s t \<Longrightarrow> view t = view s"
  by (induction rule: rtranclp_induct) auto

context cli_machine
begin

lemma ours_quiet: "along (quiet reg log) m \<Longrightarrow> along (only_ours H canon below reg) m"
  by (erule along_mono) (auto simp: quiet_def only_ours_def)

lemma ours_changes [along_intros]:
  "along (only_ours H canon below reg) (reg_set_string H PLUGINS PLUGIN_VALUE_NAME x)"
  "along (only_ours H canon below reg) (reg_delete_value H PLUGINS PLUGIN_VALUE_NAME)"
  "along (only_ours H canon below reg) (set_distribution_enabled H uid b)"
proof -
  show "along (only_ours H canon below reg) (reg_set_string H PLUGINS PLUGIN_VALUE_NAME x)"
    by (rule along_step) (use set_string [of PLUGINS PLUGIN_VALUE_NAME x] in \<open>auto simp: wp_def only_ours_def split: if_splits\<close>)
  show "along (only_ours H canon below reg) (reg_delete_value H PLUGINS PLUGIN_VALUE_NAME)"
    by (rule along_step) (use delete_value [of PLUGINS PLUGIN_VALUE_NAME] in \<open>auto simp: wp_def only_ours_def split: if_splits\<close>)
  show "along (only_ours H canon below reg) (set_distribution_enabled H uid b)"
  proof (rule along_step)
    fix s
    obtain r t where run: "set_distribution_enabled H uid b s = (r, t)" by force
    show "only_ours H canon below reg s (snd (set_distribution_enabled H uid b s))"
    proof (cases b)
      case True
      then have "set_distribution_enabled H uid True s = (r, t)" using run by simp
      from set_enabled_on [OF this]
      have "reg t = reg s \<or> reg t = (reg s)(canon (distribution_key H uid) DISTRIBUTION_ENABLEMENT_VALUE \<mapsto> RegDword 1)"
        by (auto split: if_splits)
      then show ?thesis using run below_self [of "distribution_key H uid" DISTRIBUTION_ENABLEMENT_VALUE] by (auto simp: only_ours_def split: if_splits)
    next
      case False
      then show ?thesis using wpD [OF set_enabled_off] run by (force simp: only_ours_def)
    qed
  qed
qed

lemma ours_cli: "along (only_ours H canon below reg) (run_cli H cli)"
proof -
  have spawned: "along (only_ours H canon below reg) (command_spawn H p a)" for p a
    by (rule along_step) (use spawn [of p a] in \<open>simp add: wp_def only_ours_def\<close>)
  have plugin: "along (only_ours H canon below reg) (plugin_install H ia)"
    "along (only_ours H canon below reg) (plugin_uninstall H ua)" for ia ua
    unfolding plugin_install_def register_plugin_def plugin_uninstall_def unregister_plugin_def
    by (intro along_intros | rule ours_quiet, intro along_intros)+
  have distro: "along (only_ours H canon below reg) (distro_enable H ea)"
    "along (only_ours H canon below reg) (distro_disable H da)" "along (only_ours H canon below reg) (clean_distro_provisioning H)"
    for ea da
    unfolding distro_enable_def distro_disable_def clean_distro_provisioning_def disable_all_tracked_def disable_tracked_def
      remove_registered_def
    by (intro along_intros | rule ours_quiet, intro along_intros)+
  have installer: "along (only_ours H canon below reg) (upgrade H ga)" "along (only_ours H canon below reg) (uninstall H na)" for ga na
    unfolding upgrade_def uninstall_def start_installer_def
    by (intro along_intros spawned distro | rule ours_quiet, intro along_intros)+
  show ?thesis
    unfolding run_cli_def
    by (cases cli; cases "cli_command cli")
       (auto simp: plugin distro installer split: PluginCommand.splits DistroCommand.splits intro!: ours_quiet along_intros)
qed

lemma read_only_cli:
  assumes "\<not> changes_registry (cli_command cli)"
  shows "reg (snd (run_cli H cli s)) = reg s"
proof -
  have spawned: "along (\<lambda>s t. reg t = reg s) (command_spawn H p a)" for p a
    by (rule along_step) (use spawn [of p a] in \<open>simp add: wp_def\<close>)
  have quiet: "along (quiet reg log) m \<Longrightarrow> along (\<lambda>s t. reg t = reg s) m" for m :: "('w, 'e, 'b) act"
    by (erule along_mono) (simp add: quiet_def)
  have upgrade: "along (\<lambda>s t. reg t = reg s) (upgrade H ga)" for ga
    unfolding upgrade_def start_installer_def by (intro along_intros spawned | rule quiet, intro along_intros)+
  have others: "along (quiet reg log) (run_cli H cli)" if "\<forall>ga. cli_command cli \<noteq> Upgrade ga"
    unfolding run_cli_def using assms that
    by (cases "cli_command cli") (auto split: PluginCommand.splits DistroCommand.splits intro!: along_intros)
  have "along (\<lambda>s t. reg t = reg s) (run_cli H cli)"
  proof (cases "\<exists>ga. cli_command cli = Upgrade ga")
    case True
    then show ?thesis using upgrade by (auto simp: run_cli_def)
  next
    case False
    then show ?thesis using quiet [OF others] by blast
  qed
  then have "(\<lambda>s t. reg t = reg s)\<^sup>*\<^sup>* s (snd (run_cli H cli s))" unfolding along_def by blast
  then show ?thesis by (rule same_rtranclp)
qed

lemma cli_main_result:
  assumes "cli_main H cli s = (code, t)"
  shows "reg t = reg (snd (run_cli H cli s)) \<and> (code = 0 \<longleftrightarrow> is_ok (fst (run_cli H cli s)))"
proof -
  have keep: "reg (snd (eprintln H xs w)) = reg w" for xs w
    using quiet_run [OF quiet_print(3) prod.collapse [symmetric]] by (simp add: quiet_def)
  obtain r u where run: "run_cli H cli s = (r, u)" by force
  show ?thesis
  proof (cases r)
    case (Inr x)
    then have "cli_main H cli s = (0, u)"
      unfolding cli_main_def run by (cases x) simp
    then show ?thesis using assms run Inr by simp
  next
    case (Inl e)
    then show ?thesis
    proof (cases e)
      case (Failed chain)
      obtain re v where told: "eprintln H [''error: '', alternate_of chain] u = (re, v)" by force
      then have "reg v = reg u" using keep by (metis snd_conv)
      moreover have "cli_main H cli s = (if is_ok re then 1 else 101, v)"
        unfolding cli_main_def run Inl Failed prod.case sum.case fault.case told
        by (cases re) simp_all
      ultimately show ?thesis using assms run Inl by auto
    next
      case (Panicked p)
      then show ?thesis using assms run Inl by (simp add: cli_main_def)
    qed
  qed
qed

end

end
