(* ===== verification/Reference_Machine.thy ===== *)
theory Reference_Machine
  imports Cli_Removal Cli_Verdict Reference_Text
begin

text \<open>
  A small machine that keeps the laws of \<open>cli_machine\<close>: registry values under names in lower
  case, programs with prepared output, and files. The model never uses it; it shows that the laws
  can hold and lets the theorems about the commands be run.
\<close>

section \<open>The machine\<close>

type_synonym value_name = "Hive \<times> string \<times> string"

record machine =
  mc_values :: "(value_name \<times> reg_value) list"
  mc_lxss :: "string list"
  mc_programs :: "string \<Rightarrow> string list \<Rightarrow> Output option"
  mc_files :: "string \<Rightarrow> bytes option"
  mc_dirs :: "string \<Rightarrow> bool"
  mc_log :: "event list"
  mc_stdout :: string

definition lower :: "string \<Rightarrow> string" where
  "lower = map to_ascii_lower"

definition mc_canon :: "RegKey \<Rightarrow> string \<Rightarrow> value_name" where
  "mc_canon k v = (rk_hive k, lower (rk_path k), lower v)"

definition mc_below :: "RegKey \<Rightarrow> value_name \<Rightarrow> bool" where
  "mc_below k p =
     (case p of (h, path, _) \<Rightarrow>
        h = rk_hive k \<and> (path = lower (rk_path k) \<or> starts_with (lower (rk_path k) @ BACKSLASH) path))"

definition mc_reg :: "machine \<Rightarrow> value_name \<Rightarrow> reg_value option" where
  "mc_reg w = map_of (mc_values w)"

definition not_there :: io_error where
  "not_there = IoError NotFoundIo ''not found''"

definition mc_open :: "RegKey \<Rightarrow> Access \<Rightarrow> machine \<Rightarrow> io_error + unit" where
  "mc_open k a w = (if list_ex (\<lambda>(p, _). mc_below k p) (mc_values w) then Inr () else Inl not_there)"

definition mc_get_string :: "RegKey \<Rightarrow> string \<Rightarrow> machine \<Rightarrow> io_error + string" where
  "mc_get_string k v w =
     (case mc_reg w (mc_canon k v) of
        Some (RegText x) \<Rightarrow> Inr x
      | None \<Rightarrow> Inl not_there
      | _ \<Rightarrow> Inl (IoError OtherIo ''wrong type''))"

definition mc_get_u32 :: "RegKey \<Rightarrow> string \<Rightarrow> machine \<Rightarrow> io_error + u32" where
  "mc_get_u32 k v w =
     (case mc_reg w (mc_canon k v) of
        Some (RegDword x) \<Rightarrow> Inr x
      | None \<Rightarrow> Inl not_there
      | _ \<Rightarrow> Inl (IoError OtherIo ''wrong type''))"

text \<open>The names WSL registered, and the first component of each path below any other key.\<close>

definition mc_enum_keys :: "RegKey \<Rightarrow> machine \<Rightarrow> (io_error + string) list" where
  "mc_enum_keys k w =
     map Inr (if k = LXSS then mc_lxss w else remdups (List.map_filter (\<lambda>((h, path, _), _).
       if h \<noteq> rk_hive k then None
       else map_option (takeWhile (\<lambda>c. c \<noteq> CHR 0x5C)) (strip_prefix (lower (rk_path k) @ BACKSLASH) path))
       (mc_values w)))"

definition mc_set :: "RegKey \<Rightarrow> string \<Rightarrow> reg_value \<Rightarrow> (machine, io_error, unit) act" where
  "mc_set k v x w = (Inr (), w\<lparr>mc_values := (mc_canon k v, x) # mc_values w\<rparr>)"

definition mc_delete :: "(value_name \<Rightarrow> bool) \<Rightarrow> (machine, io_error, unit) act" where
  "mc_delete gone w = (Inr (), w\<lparr>mc_values := filter (\<lambda>(p, _). \<not> gone p) (mc_values w)\<rparr>)"

definition mc_command :: "string \<Rightarrow> string list \<Rightarrow> (machine, io_error, Output) act" where
  "mc_command program args w =
     (case mc_programs w program args of
        None \<Rightarrow> (Inl not_there, w)
      | Some out \<Rightarrow> (Inr out, w\<lparr>mc_log := mc_log w @ [Ran program args out]\<rparr>))"

definition mc_spawn :: "string \<Rightarrow> string list \<Rightarrow> (machine, io_error, unit) act" where
  "mc_spawn program args w = (Inr (), w\<lparr>mc_log := mc_log w @ [Spawned program args]\<rparr>)"

definition mc_read :: "string \<Rightarrow> machine \<Rightarrow> io_error + bytes" where
  "mc_read path w = ok_or not_there (mc_files w path)"

definition mc_write :: "string \<Rightarrow> (machine, io_error, unit) act" where
  "mc_write x w = (Inr (), w\<lparr>mc_stdout := mc_stdout w @ x\<rparr>)"

definition reference_host :: "(machine, nat) cli_host" where
  "reference_host =
     text_lib.extend reference_text
      \<lparr>reg_open = mc_open, reg_get_string = mc_get_string, reg_get_u32 = mc_get_u32,
       reg_enum_keys = mc_enum_keys, reg_enum_values = \<lambda>_ _. [],
       reg_create = \<lambda>_. act_return (),
       reg_set_string = \<lambda>k v x. mc_set k v (RegText x), reg_set_u32 = \<lambda>k v x. mc_set k v (RegDword x),
       reg_delete_value = \<lambda>k v. mc_delete (\<lambda>p. p = mc_canon k v), reg_delete_tree = \<lambda>k. mc_delete (mc_below k),
       command_output = mc_command, command_spawn = mc_spawn, process_id = 1,
       current_exe = \<lambda>_. Inr (INSTALL_ROOT @ ''wincred-libsecret.exe''),
       canonicalize = \<lambda>path _. Inr path,
       is_file = \<lambda>path w. mc_files w path \<noteq> None, is_dir = \<lambda>path w. mc_dirs w path,
       read_file = mc_read, write_stdout = mc_write, write_stderr = mc_write,
       WinVerifyTrustEx = \<lambda>_ w. (0, w), sha256 = \<lambda>bs. replicate 32 (of_nat (length bs)),
       version_parse = \<lambda>s. Some (length s),
       http_build = \<lambda>_ _. Inr (), http_send = \<lambda>_ _. act_throw [''offline''], http_status_error = \<lambda>_. [],
       json_release = \<lambda>_. Inl [], json_releases = \<lambda>_. Inl [], uuid_error = \<lambda>_. [], hash_order = id,
       printable = \<lambda>_. True\<rparr>"


section \<open>The laws\<close>

lemma uuid_text_chars: "set (hyphenate (uuid_hex u)) \<subseteq> insert (CHR ''-'') (set hex_chars)"
proof -
  have "hex_char d \<in> set hex_chars" if "d < 16" for d
    using that hex_chars_props(1) nth_mem by (metis hex_char_def)
  then have "set (uuid_hex u) \<subseteq> set hex_chars"
    using digits_less [of 16] by (auto simp: uuid_hex_def)
  then show ?thesis by (auto simp: hyphenate_def dest!: in_set_takeD in_set_dropD)
qed

lemma uuid_text_plain:
  "c \<in> set (hyphenate (uuid_hex u)) \<Longrightarrow> to_ascii_lower c = c \<and> c \<noteq> CHR 0x5C \<and> c \<noteq> CHR ''{'' \<and> c \<noteq> CHR ''}''"
proof -
  assume "c \<in> set (hyphenate (uuid_hex u))"
  then have "c \<in> set (CHR ''-'' # hex_chars)" using uuid_text_chars by auto
  moreover have "list_all (\<lambda>c. to_ascii_lower c = c \<and> c \<noteq> CHR 0x5C \<and> c \<noteq> CHR ''{'' \<and> c \<noteq> CHR ''}'') (CHR ''-'' # hex_chars)"
    by code_simp
  ultimately show ?thesis by (auto simp: list_all_iff)
qed

lemmas host_simps = reference_host_def text_lib.defs reference_text_def

lemma host_text [simp]:
  "uuid_to_string reference_host = (\<lambda>u. hyphenate (uuid_hex u))" "uuid_parse_str reference_host = uuid_parse"
  by (simp_all add: host_simps)

lemma host_ops [simp]:
  "reg_open reference_host = mc_open" "reg_get_string reference_host = mc_get_string"
  "reg_get_u32 reference_host = mc_get_u32" "reg_enum_keys reference_host = mc_enum_keys"
  "reg_create reference_host = (\<lambda>_. act_return ())"
  "reg_set_string reference_host = (\<lambda>k v x. mc_set k v (RegText x))"
  "reg_set_u32 reference_host = (\<lambda>k v x. mc_set k v (RegDword x))"
  "reg_delete_value reference_host = (\<lambda>k v. mc_delete (\<lambda>p. p = mc_canon k v))"
  "reg_delete_tree reference_host = (\<lambda>k. mc_delete (mc_below k))"
  "command_output reference_host = mc_command" "command_spawn reference_host = mc_spawn"
  "canonicalize reference_host = (\<lambda>path _. Inr path)" "is_file reference_host = (\<lambda>path w. mc_files w path \<noteq> None)"
  "is_dir reference_host = (\<lambda>path w. mc_dirs w path)" "read_file reference_host = mc_read"
  "write_stdout reference_host = mc_write" "write_stderr reference_host = mc_write"
  "WinVerifyTrustEx reference_host = (\<lambda>_ w. (0, w))"
  "sha256 reference_host = (\<lambda>bs. replicate 32 (of_nat (length bs)))"
  "http_send reference_host = (\<lambda>_ _. act_throw [''offline''])" "hash_order reference_host = id"
  by (simp_all add: host_simps)

lemma trim_braces_uuid: "trim_braces (''{'' @ hyphenate (uuid_hex u) @ ''}'') = hyphenate (uuid_hex u)"
proof -
  let ?b = "\<lambda>c. c = CHR ''{'' \<or> c = CHR ''}''"
  have ne: "hyphenate (uuid_hex u) \<noteq> []" by (simp add: hyphenate_def)
  have plain: "\<not> ?b c" if "c \<in> set (hyphenate (uuid_hex u))" for c using uuid_text_plain [OF that] by auto
  have "dropWhile ?b (hyphenate (uuid_hex u) @ ''}'') = hyphenate (uuid_hex u) @ ''}''"
    using ne plain by (simp add: dropWhile_eq_self_iff)
  moreover have "dropWhile ?b (rev (hyphenate (uuid_hex u))) = rev (hyphenate (uuid_hex u))"
    using ne plain by (simp add: dropWhile_eq_self_iff hd_rev)
  ultimately show ?thesis by (simp add: trim_braces_def trim_end_while_def)
qed

lemma lower_append: "lower (a @ b) = lower a @ lower b"
  by (simp add: lower_def)

lemma lower_uuid: "lower (''{'' @ hyphenate (uuid_hex u) @ ''}'') = ''{'' @ hyphenate (uuid_hex u) @ ''}''"
proof -
  have "map to_ascii_lower (hyphenate (uuid_hex u)) = hyphenate (uuid_hex u)"
    using uuid_text_plain by (intro map_idI) auto
  then show ?thesis by (simp add: lower_def to_ascii_lower_def less_eq_char_def)
qed

lemma lower_backslash: "lower BACKSLASH = BACKSLASH"
  by (simp add: lower_def BACKSLASH_def to_ascii_lower_def less_eq_char_def)

lemma map_filter_in: "x \<in> set xs \<Longrightarrow> f x = Some y \<Longrightarrow> y \<in> set (List.map_filter f xs)"
  by (induction xs) (auto simp: List.map_filter_simps split: option.splits)

lemma mc_enumerated:
  assumes "mc_reg s (mc_canon (distribution_key reference_host uid) v) \<noteq> None"
  shows "\<exists>name. Inr name \<in> set (mc_enum_keys DISTRIBUTIONS s) \<and> uuid_parse (trim_braces name) = Some uid"
proof -
  let ?name = "''{'' @ hyphenate (uuid_hex uid) @ ''}''"
  obtain x where x: "(mc_canon (distribution_key reference_host uid) v, x) \<in> set (mc_values s)"
    using assms map_of_SomeD by (fastforce simp: mc_reg_def)
  have path: "lower (rk_path (distribution_key reference_host uid)) = (lower (rk_path DISTRIBUTIONS) @ BACKSLASH) @ ?name"
    unfolding distribution_key_subkey by (simp add: subkey_def lower_append lower_backslash lower_uuid del: append_assoc)
      (simp add: lower_append lower_backslash lower_uuid [simplified])
  have take: "takeWhile (\<lambda>c. c \<noteq> CHR 0x5C) ?name = ?name"
    using uuid_text_plain by (auto simp: takeWhile_eq_all_conv)
  have other: "DISTRIBUTIONS \<noteq> LXSS"
    by (simp add: DISTRIBUTIONS_def LXSS_def DISTRIBUTION_ENABLEMENT_PREFIX_def BACKSLASH_def trim_end_while_def BACK_def)
  have hive: "rk_hive (distribution_key reference_host uid) = rk_hive DISTRIBUTIONS"
    by (simp add: distribution_key_def DISTRIBUTIONS_def)
  have "strip_prefix (lower (rk_path DISTRIBUTIONS) @ BACKSLASH) (lower (rk_path (distribution_key reference_host uid))) = Some ?name"
    unfolding path by (rule strip_prefix_append)
  then have "map_option (takeWhile (\<lambda>c. c \<noteq> CHR 0x5C)) (strip_prefix (lower (rk_path DISTRIBUTIONS) @ BACKSLASH)
      (lower (rk_path (distribution_key reference_host uid)))) = Some ?name"
    using take by (simp del: append_Cons append_Nil)
  then have "?name \<in> set (List.map_filter (\<lambda>((h, path, _), _).
      if h \<noteq> rk_hive DISTRIBUTIONS then None
      else map_option (takeWhile (\<lambda>c. c \<noteq> CHR 0x5C)) (strip_prefix (lower (rk_path DISTRIBUTIONS) @ BACKSLASH) path)) (mc_values s))"
    by (intro map_filter_in [OF x]) (simp add: mc_canon_def hive del: append_Cons append_Nil)
  then have "Inr ?name \<in> set (mc_enum_keys DISTRIBUTIONS s)"
    unfolding mc_enum_keys_def using other by simp
  moreover have "uuid_parse (trim_braces ?name) = Some uid"
    unfolding trim_braces_uuid by (rule uuid_parse_hyphenate)
  ultimately show ?thesis by blast
qed

text \<open>The keys of WSL are not below those of the project.\<close>

lemma mc_distribution_elsewhere: "\<not> mc_below (distribution_key reference_host uid) (mc_canon LXSS v)"
proof -
  let ?path = "lower (rk_path (distribution_key reference_host uid))"
  have long: "12 \<le> length (lower (rk_path DISTRIBUTIONS))" by code_simp
  have "\<exists>rest. ?path = lower (rk_path DISTRIBUTIONS) @ rest"
    unfolding distribution_key_subkey subkey_def by (simp add: lower_append)
  then have "12 \<le> length ?path" "take 12 ?path = take 12 (lower (rk_path DISTRIBUTIONS))" using long by auto
  moreover have "take 12 (lower (rk_path LXSS)) \<noteq> take 12 (lower (rk_path DISTRIBUTIONS))" by code_simp
  ultimately show ?thesis by (auto simp: mc_below_def mc_canon_def starts_with_iff)
qed

lemma map_of_filter_keys: "map_of (filter (\<lambda>(p, _). \<not> P p) xs) = (\<lambda>p. if P p then None else map_of xs p)"
  by (induction xs) auto

interpretation ref_machine: cli_machine reference_host mc_canon mc_below mc_reg mc_log
proof (unfold_locales, goal_cases)
  case (1 k v s x)
  then show ?case by (simp add: mc_get_string_def split: option.splits reg_value.splits)
next
  case (2 k v s e)
  then show ?case by (simp add: mc_get_string_def split: option.splits reg_value.splits) auto
next
  case (3 k a s e p)
  then show ?case
    by (auto simp: mc_open_def mc_reg_def list_ex_iff map_of_eq_None_iff split: if_splits)
next
  case (4 k v)
  then show ?case by (simp add: mc_below_def mc_canon_def)
next
  case (5 k n p)
  then show ?case by (auto simp: mc_below_def subkey_def lower_append lower_backslash starts_with_iff split: prod.splits)
next
  case (18 s uid v)
  then show ?case using mc_enumerated by simp
qed (auto simp: wp_def act_simps mc_set_def mc_delete_def mc_command_def mc_spawn_def
    mc_write_def mc_reg_def map_of_filter_keys split: option.splits)


section \<open>An installed machine\<close>

text \<open>
  One distribution, a payload of one file, and programs that all succeed; what the files and the
  programs say is as short as it can be.
\<close>

definition prints :: "string \<Rightarrow> Output" where
  "prints s = \<lparr>out_success = True, out_stdout = as_bytes s, out_stderr = []\<rparr>"

definition sample_dir :: string where
  "sample_dir = INSTALL_ROOT @ ''linux''"

definition sample_broker :: string where
  "sample_broker = INSTALL_ROOT @ BROKER_NAME"

definition sample_manifest :: string where
  "sample_manifest = replicate 64 (CHR ''0'') @ ''  a''"

definition sample_name :: string where
  "sample_name = ''{'' @ hyphenate (uuid_hex 7) @ ''}''"

definition sample_version :: string where
  "sample_version = ''WSL version: '' @ WslVersion_to_string MINIMUM_WSL_VERSION"

definition sample_programs :: "string \<Rightarrow> string list \<Rightarrow> Output option" where
  "sample_programs program args =
     Some (prints (if args = [''--version''] then sample_version
       else if program = ''powershell.exe'' then ''True'' else ''/p''))"

definition sample_machine :: machine where
  "sample_machine =
     \<lparr>mc_values = [(mc_canon (subkey LXSS sample_name) ''DistributionName'', RegText ''Ubuntu''),
        (mc_canon (subkey LXSS sample_name) ''Version'', RegDword 2)],
      mc_lxss = [sample_name], mc_programs = sample_programs,
      mc_files = \<lambda>path. Some (if path = join sample_dir LINUX_PAYLOAD_MANIFEST then as_bytes sample_manifest else []),
      mc_dirs = \<lambda>path. path = sample_dir, mc_log = [], mc_stdout = []\<rparr>"

lemma sample_uuid: "uuid_parse (trim_braces sample_name) = Some 7"
  unfolding sample_name_def trim_braces_uuid by (rule uuid_parse_hyphenate)

lemma plain_utf8: "list_all (\<lambda>c. of_char c < (128::nat)) s \<Longrightarrow> is_utf8 s"
  by (rule encode_utf16_ascii(2))

lemma sample_paths:
  "is_absolute sample_dir" "is_absolute sample_broker" "is_named BROKER_NAME sample_broker" "safe_relative ''a''"
  "join sample_dir ''a'' \<noteq> join sample_dir LINUX_PAYLOAD_MANIFEST"
  "strip_prefix (VERBATIM @ ''UNC'' @ [BACK]) sample_dir = None" "strip_prefix VERBATIM sample_dir = None"
  "strip_prefix (VERBATIM @ ''UNC'' @ [BACK]) sample_broker = None" "strip_prefix VERBATIM sample_broker = None"
  by code_simp+

lemma sample_ascii:
  "list_all (\<lambda>c. of_char c < (128::nat)) sample_dir" "list_all (\<lambda>c. of_char c < (128::nat)) sample_broker"
  "list_all (\<lambda>c. of_char c < (128::nat)) sample_manifest" "list_all (\<lambda>c. of_char c < (128::nat)) sample_version"
  by (simp_all add: list_all_iff sample_dir_def sample_broker_def INSTALL_ROOT_def BACK_def BROKER_NAME_def sample_manifest_def sample_version_def
      WslVersion_to_string_def MINIMUM_WSL_VERSION_def show_nat.simps)

lemma sample_manifest_lines: "manifest_lines sample_manifest = [sample_manifest]"
  "split_once ''  '' sample_manifest = Some (replicate 64 (CHR ''0''), ''a'')"
  by code_simp+

lemma sample_text: "to_string_lossy sample_dir = sample_dir" "to_string_lossy sample_broker = sample_broker"
  by (simp_all add: to_string_lossy_valid plain_utf8 sample_ascii)

lemma sample_normal:
  "normalize_windows_path sample_dir = sample_dir" "normalize_windows_path sample_broker = sample_broker"
  unfolding normalize_windows_path_def Let_def sample_text sample_paths(6-9) by simp_all

text \<open>The machine with another list of programs that were run, other values and other output.\<close>

definition sample_with :: "(value_name \<times> reg_value) list \<Rightarrow> event list \<Rightarrow> string \<Rightarrow> machine" where
  "sample_with vs l x = sample_machine\<lparr>mc_values := vs, mc_log := l, mc_stdout := x\<rparr>"

lemma sample_entry: "entry_holds reference_host sample_dir (sample_with vs l x) sample_manifest"
proof -
  have "hex_of (replicate 32 0) = replicate 64 (CHR ''0'')" by code_simp
  moreover have "list_all is_ascii_hexdigit (replicate 64 (CHR ''0''))" by code_simp
  ultimately show ?thesis
    by (simp add: entry_holds_def sample_manifest_lines(2) sample_paths mc_read_def sample_with_def sample_machine_def
        eq_ignore_ascii_case_def)
qed

lemma sample_payload: "payload_holds reference_host sample_dir (sample_with vs l x)"
  using sample_entry
  by (simp add: payload_holds_def read_to_string_def mc_read_def sample_with_def sample_machine_def
      from_utf8_as_bytes plain_utf8 [OF sample_ascii(3)] sample_manifest_lines(1) list_all_iff)

text \<open>Every program but the version query answers with this path.\<close>

lemma sample_command:
  "command_output reference_host program args (sample_with vs l x) =
     (Inr (the (sample_programs program args)),
      sample_with vs (l @ [Ran program args (the (sample_programs program args))]) x)"
  by (simp add: mc_command_def sample_with_def sample_machine_def sample_programs_def)

lemma sample_nul: "CHR 0x00 \<notin> set sample_version"
  by (simp add: sample_version_def WslVersion_to_string_def MINIMUM_WSL_VERSION_def show_nat.simps char_of_def)

lemma sample_output: "process_result (the (sample_programs program args)) =
  \<lparr>pr_success = True, pr_stdout = (if args = [''--version''] then sample_version
     else if program = ''powershell.exe'' then ''True'' else ''/p''), pr_stderr = []\<rparr>"
proof -
  have "decode_process_output (as_bytes s) = s" if "s \<in> {sample_version, ''True'', ''/p'', []}" for s
    using that sample_ascii(4) by (auto intro!: decode_utf8 plain_utf8 simp: sample_nul)
  from this [of "[]"] this [of "if args = [''--version''] then sample_version else if program = ''powershell.exe'' then ''True'' else ''/p''"]
  show ?thesis by (simp add: process_result_def sample_programs_def prints_def as_bytes_def)
qed

definition sample_distribution :: Distribution where
  "sample_distribution = \<lparr>dist_id = 7, dist_name = ''Ubuntu'', dist_version = Some 2\<rparr>"

lemma sample_registry:
  assumes "vs = mc_values sample_machine @ rest"
  shows "mc_open LXSS a (sample_with vs l x) = Inr ()" "mc_open (subkey LXSS sample_name) a (sample_with vs l x) = Inr ()"
    "mc_get_string (subkey LXSS sample_name) ''DistributionName'' (sample_with vs l x) = Inr ''Ubuntu''"
    "mc_get_u32 (subkey LXSS sample_name) ''Version'' (sample_with vs l x) = Inr 2"
proof -
  have b: "mc_below LXSS (mc_canon (subkey LXSS n) v)" "mc_below k (mc_canon k v)" for n v k
    by (simp_all add: mc_below_def mc_canon_def subkey_def lower_append lower_backslash starts_with_iff)
  have ne: "lower ''Version'' \<noteq> lower ''DistributionName''" by code_simp
  show "mc_open LXSS a (sample_with vs l x) = Inr ()" "mc_open (subkey LXSS sample_name) a (sample_with vs l x) = Inr ()"
    by (simp_all add: mc_open_def sample_with_def sample_machine_def assms b)
  show "mc_get_string (subkey LXSS sample_name) ''DistributionName'' (sample_with vs l x) = Inr ''Ubuntu''"
    "mc_get_u32 (subkey LXSS sample_name) ''Version'' (sample_with vs l x) = Inr 2"
    using ne by (simp_all add: mc_get_string_def mc_get_u32_def mc_reg_def sample_with_def sample_machine_def assms mc_canon_def)
qed

lemma sample_find:
  assumes "vs = mc_values sample_machine @ rest"
  shows "\<exists>e. find_distribution reference_host ''ubuntu'' (sample_with vs l x) = (Inr sample_distribution, sample_with vs (l @ [e]) x)"
proof -
  have "eq_ignore_ascii_case ''Ubuntu'' ''ubuntu''" by code_simp
  moreover have "mc_enum_keys LXSS (sample_with vs l' x) = [Inr sample_name]" for l'
    by (simp add: mc_enum_keys_def sample_with_def sample_machine_def)
  ultimately show ?thesis
    by (simp add: find_distribution_def enumerate_distributions_def open_optional_def run_process_def io_context_def attempt_def
        act_simps look_def peek_def sample_registry [OF assms] sample_command [simplified] read_distribution_def sample_uuid
        List.map_filter_simps sample_distribution_def) blast
qed

lemma sample_directory:
  "absolute_existing_directory reference_host sample_dir y (sample_with vs l x) = (Inr sample_dir, sample_with vs l x)"
  by (simp add: absolute_existing_directory_def io_context_def act_simps ensure_def peek_def look_def sample_paths sample_normal
      Let_def sample_with_def sample_machine_def)

lemma sample_verified: "verify_payload reference_host sample_dir (sample_with vs l x) = (Inr (), sample_with vs l x)"
  using verify_payload_decides [of reference_host sample_dir "sample_with vs l x"] sample_payload
  by (simp add: decides_def wp_def prod_eq_iff)

lemma sample_wsl_path: "\<exists>e. wsl_path reference_host d p (sample_with vs l x) = (Inr ''/p'', sample_with vs (l @ [e]) x)"
proof -
  have "trim ''/p'' \<noteq> []" "strip_line_end ''/p'' = ''/p''" by code_simp+
  then show ?thesis
    by (simp add: wsl_path_def wslpath_arguments_def io_context_def act_simps ensure_def sample_command [simplified] sample_output Let_def) blast
qed

lemma sample_provision:
  "\<exists>es. provision_distribution reference_host sample_distribution
     \<lparr>de_name = ''ubuntu'', de_payload_root = Some sample_dir, de_broker = Some sample_broker, de_replace_conflicts = False\<rparr>
     (sample_with vs l x) = (Inr (), sample_with vs (l @ es) x)"
proof -
  have "parse_wsl_version sample_version = Inr MINIMUM_WSL_VERSION"
    using parse_wsl_version_dotted [of "[2, 5, 1]" "[]"]
    by (simp add: sample_version_def WslVersion_to_string_def MINIMUM_WSL_VERSION_def dotted_def)
  then have version: "\<exists>e. check_wsl_version reference_host (sample_with vs l x) = (Inr MINIMUM_WSL_VERSION, sample_with vs (l @ [e]) x)" for l
    by (simp add: check_wsl_version_def run_process_def io_context_def context_of_def act_simps ensure_def
        sample_command [simplified] sample_output compare_versions_def Let_def) blast
  have broker: "validate_broker reference_host sample_broker (sample_with vs l x) = (Inr sample_broker, sample_with vs l x)" for l
    by (simp add: validate_broker_def absolute_existing_file_def io_context_def act_simps ensure_def peek_def look_def sample_paths
        sample_normal Let_def sample_with_def sample_machine_def)
  have run: "\<exists>e. ensure_wsl_success reference_host d (as @ [''--check'']) y (sample_with vs l x) = (Inr (), sample_with vs (l @ [e]) x)"
    "\<exists>e. ensure_wsl_success reference_host d (as @ [''--install'']) y (sample_with vs l x) = (Inr (), sample_with vs (l @ [e]) x)"
    for d as y l
    by (simp add: ensure_wsl_success_def run_wsl_root_def wsl_root_arguments_def io_context_def act_simps ensure_def
        sample_command [simplified] sample_output, blast)+
  obtain e1 where e1: "check_wsl_version reference_host (sample_with vs l x) = (Inr MINIMUM_WSL_VERSION, sample_with vs (l @ [e1]) x)"
    using version by blast
  obtain e2 where e2: "wsl_path reference_host ''Ubuntu'' sample_dir (sample_with vs (l @ [e1]) x) = (Inr ''/p'', sample_with vs ((l @ [e1]) @ [e2]) x)"
    using sample_wsl_path by blast
  obtain e3 where e3: "wsl_path reference_host ''Ubuntu'' sample_broker (sample_with vs ((l @ [e1]) @ [e2]) x) =
      (Inr ''/p'', sample_with vs (((l @ [e1]) @ [e2]) @ [e3]) x)"
    using sample_wsl_path by blast
  let ?args = "bootstrap_arguments ''/p'' ''/p'' False"
  obtain e4 where e4: "ensure_wsl_success reference_host ''Ubuntu'' (?args @ [''--check'']) ''distribution prerequisite/conflict check''
      (sample_with vs (((l @ [e1]) @ [e2]) @ [e3]) x) = (Inr (), sample_with vs ((((l @ [e1]) @ [e2]) @ [e3]) @ [e4]) x)"
    using run(1) by blast
  obtain e5 where e5: "ensure_wsl_success reference_host ''Ubuntu'' (?args @ [''--install'']) ''atomic provider installation''
      (sample_with vs ((((l @ [e1]) @ [e2]) @ [e3]) @ [e4]) x) = (Inr (), sample_with vs (((((l @ [e1]) @ [e2]) @ [e3]) @ [e4]) @ [e5]) x)"
    using run(2) by blast
  have "provision_distribution reference_host sample_distribution
     \<lparr>de_name = ''ubuntu'', de_payload_root = Some sample_dir, de_broker = Some sample_broker, de_replace_conflicts = False\<rparr>
     (sample_with vs l x) = (Inr (), sample_with vs (((((l @ [e1]) @ [e2]) @ [e3]) @ [e4]) @ [e5]) x)"
    by (simp add: provision_distribution_def act_bind_run e1 ensure_def act_return_run peek_def or_default_def sample_directory sample_verified broker
        sample_distribution_def e2 [simplified] e3 [simplified] Let_def e4 [simplified] e5 [simplified])
  then show ?thesis by (metis append.assoc)
qed

text \<open>Enabling the distribution and registering the plugin succeed on it.\<close>

lemma sample_start: "sample_machine = sample_with (mc_values sample_machine) [] []"
  by (simp add: sample_with_def sample_machine_def)

definition sample_enable :: DistroEnableArguments where
  "sample_enable =
     \<lparr>de_name = ''ubuntu'', de_payload_root = Some sample_dir, de_broker = Some sample_broker, de_replace_conflicts = False\<rparr>"

lemma sample_enabled: "fst (distro_enable reference_host sample_enable sample_machine) = Inr ()"
proof -
  let ?vs = "mc_values sample_machine"
  obtain e where e: "find_distribution reference_host ''ubuntu'' (sample_with ?vs [] []) = (Inr sample_distribution, sample_with ?vs ([] @ [e]) [])"
    using sample_find [of ?vs "[]" "[]" "[]"] by auto
  obtain es where es: "provision_distribution reference_host sample_distribution sample_enable (sample_with ?vs ([] @ [e]) []) =
      (Inr (), sample_with ?vs (([] @ [e]) @ es) [])"
    using sample_provision unfolding sample_enable_def by blast
  have name: "de_name sample_enable = ''ubuntu''" by (simp add: sample_enable_def)
  show ?thesis
    unfolding distro_enable_def name
    by (subst sample_start)
       (simp add: act_bind_run e [simplified] es [simplified] set_distribution_enabled_def Let_def io_context_def act_simps mc_set_def
         println_def print_text_def mc_write_def)
qed

definition sample_dll :: string where
  "sample_dll = INSTALL_ROOT @ PLUGIN_DLL_NAME"

definition sample_install :: PluginInstallArguments where
  "sample_install = \<lparr>pi_dll = sample_dll, pi_allow_unsigned = False, pi_restart = \<lparr>ra_restart_wslservice = False\<rparr>\<rparr>"

lemma sample_dll_path:
  "is_absolute sample_dll" "is_named PLUGIN_DLL_NAME sample_dll"
  "strip_prefix (VERBATIM @ ''UNC'' @ [BACK]) sample_dll = None" "strip_prefix VERBATIM sample_dll = None"
  by code_simp+

lemma sample_dll_text: "is_utf8 sample_dll" "normalize_windows_path sample_dll = sample_dll"
proof -
  show u: "is_utf8 sample_dll"
    by (rule plain_utf8) (simp add: list_all_iff sample_dll_def INSTALL_ROOT_def BACK_def PLUGIN_DLL_NAME_def)
  show "normalize_windows_path sample_dll = sample_dll"
    unfolding normalize_windows_path_def Let_def to_string_lossy_valid [OF u] sample_dll_path(3,4) by simp
qed

lemma sample_admin:
  "\<exists>e. is_administrator reference_host (sample_with vs l x) = (Inr True, sample_with vs (l @ [e]) x)"
proof -
  have "eq_ignore_ascii_case (trim ''True'') ''true''" by code_simp
  then show ?thesis
    by (simp add: is_administrator_def run_process_def io_context_def context_of_def act_simps ensure_def
        sample_command [simplified] sample_output) blast
qed

lemma sample_installed: "fst (plugin_install reference_host sample_install sample_machine) = Inr ()"
proof -
  let ?vs = "mc_values sample_machine"
  obtain e where e: "is_administrator reference_host (sample_with ?vs [] []) = (Inr True, sample_with ?vs ([] @ [e]) [])"
    using sample_admin by blast
  have dll: "validate_plugin_dll reference_host sample_dll (sample_with ?vs l x) = (Inr sample_dll, sample_with ?vs l x)" for l x
    by (simp add: validate_plugin_dll_def absolute_existing_file_def io_context_def act_simps ensure_def peek_def look_def
        sample_dll_path sample_dll_text Let_def sample_with_def sample_machine_def)
  have "rk_hive PLUGINS \<noteq> rk_hive (subkey LXSS sample_name)" by (simp add: PLUGINS_def subkey_def LXSS_def)
  then have none: "mc_get_string PLUGINS PLUGIN_VALUE_NAME (sample_with ?vs l x) = Inl not_there" for l x
    by (simp add: mc_get_string_def mc_reg_def sample_with_def sample_machine_def mc_canon_def)
  have args: "pi_dll sample_install = sample_dll" "ra_restart_wslservice (pi_restart sample_install) = False"
    by (simp_all add: sample_install_def)
  show ?thesis
    unfolding plugin_install_def args(1)
    by (subst sample_start)
       (simp add: require_administrator_def act_bind_run e [simplified] ensure_def act_return_run dll signature_status_def Let_def
         effect_def signature_status_from_winverifytrust_def io_context_def act_map_err_run registry_string_def act_try_run look_def
         none not_there_def act_lift_run to_str_def from_utf8_as_bytes sample_dll_text register_plugin_def mc_set_def println_def
         print_text_def mc_write_def restart_or_instruct_def args(2))
qed

text \<open>Disabling the distribution removes its files with the payload beside the command.\<close>

lemma sample_removal:
  "\<exists>es. disable_distro_with_payload reference_host sample_distribution sample_dir (sample_with vs l x) =
     (Inr (), sample_with vs (l @ es) x)"
proof -
  obtain e where e: "wsl_path reference_host ''Ubuntu'' sample_dir (sample_with vs l x) = (Inr ''/p'', sample_with vs (l @ [e]) x)"
    using sample_wsl_path by blast
  show ?thesis
    by (simp add: disable_distro_with_payload_def sample_directory sample_verified sample_distribution_def act_bind_run e
        run_wsl_root_def wsl_root_arguments_def io_context_def act_simps ensure_def sample_command [simplified] sample_output)
       blast
qed

lemma sample_root: "default_payload_root reference_host w = sample_dir" "is_dir reference_host sample_dir (sample_with vs l x)"
proof -
  have "join (the (parent (INSTALL_ROOT @ ''wincred-libsecret.exe''))) ''linux'' = sample_dir"
    "parent (INSTALL_ROOT @ ''wincred-libsecret.exe'') \<noteq> None"
    by code_simp+
  then show "default_payload_root reference_host w = sample_dir"
    by (auto simp: default_payload_root_def beside_executable_def host_simps)
qed (simp add: sample_with_def sample_machine_def)

lemma sample_disabled: "fst (distro_disable reference_host \<lparr>dn_name = ''ubuntu''\<rparr> sample_machine) = Inr ()"
proof -
  let ?vs = "mc_values sample_machine"
  obtain e where e: "find_distribution reference_host ''ubuntu'' (sample_with ?vs [] []) = (Inr sample_distribution, sample_with ?vs ([] @ [e]) [])"
    using sample_find [of ?vs "[]" "[]" "[]"] by auto
  obtain es where es: "disable_distro_with_payload reference_host sample_distribution sample_dir (sample_with ?vs ([] @ [e]) []) =
      (Inr (), sample_with ?vs (([] @ [e]) @ es) [])"
    using sample_removal by blast
  show ?thesis
    unfolding distro_disable_def
    by (subst sample_start)
       (simp add: act_bind_run peek_def e [simplified] es [simplified] sample_root [simplified] set_distribution_enabled_def Let_def
         act_simps mc_delete_def println_def print_text_def mc_write_def)
qed

text \<open>The same machine for a caller who is not elevated: the product is not installed, so there is nothing to start.\<close>

definition sample_user :: machine where
  "sample_user = sample_machine\<lparr>mc_programs := \<lambda>program args. Some (prints ''False'')\<rparr>"

lemma sample_uninstalled: "fst (uninstall reference_host \<lparr>un_keep_distro_provisioning = False\<rparr> sample_user) = Inr ()"
proof -
  have answer: "\<not> eq_ignore_ascii_case (trim ''False'') ''true''" by code_simp
  have result: "process_result (prints ''False'') = \<lparr>pr_success = True, pr_stdout = ''False'', pr_stderr = []\<rparr>"
  proof -
    have "decode_process_output (as_bytes s) = s" if "s \<in> {''False'', []}" for s
      using that by (auto intro!: decode_utf8 plain_utf8)
    from this [of "''False''"] this [of "[]"] show ?thesis by (simp add: process_result_def prints_def as_bytes_def)
  qed
  have absent: "\<not> mc_below k (mc_canon (subkey LXSS sample_name) v)" if "k = DISTRIBUTIONS \<or> k = UNINSTALL_KEY" for k v
    using that by (elim disjE; simp) (code_simp+)
  show ?thesis
    by (simp add: uninstall_def require_non_administrator_def is_administrator_def run_process_def io_context_def context_of_def
        act_simps ensure_def mc_command_def sample_user_def sample_machine_def result answer clean_distro_provisioning_def
        project_distribution_ids_def installed_product_code_def open_optional_def look_def mc_open_def absent not_there_def
        println_def print_text_def mc_write_def)
qed

text \<open>
  The same machine with the plugin registered and the distribution enabled, where every program
  but the version query prints one passed check: the diagnosis succeeds on it.
\<close>

definition sound_machine :: machine where
  "sound_machine = sample_machine
     \<lparr>mc_values := mc_values sample_machine @
        [(mc_canon PLUGINS PLUGIN_VALUE_NAME, RegText sample_dll),
         (mc_canon (distribution_key reference_host 7) DISTRIBUTION_ENABLEMENT_VALUE, RegDword 1)],
      mc_programs := \<lambda>program args. Some (prints (if args = [''--version''] then sample_version else ''CHECK a ok b''))\<rparr>"

definition sound_with :: "event list \<Rightarrow> string \<Rightarrow> machine" where
  "sound_with l x = sound_machine\<lparr>mc_log := l, mc_stdout := x\<rparr>"

lemma sound_start: "sound_machine = sound_with [] []"
  by (simp add: sound_with_def sound_machine_def sample_machine_def)

lemma sound_command:
  "\<exists>out e. mc_command program args (sound_with l x) = (Inr out, sound_with (l @ [e]) x) \<and>
     process_result out = \<lparr>pr_success = True, pr_stdout = (if args = [''--version''] then sample_version else ''CHECK a ok b''), pr_stderr = []\<rparr>"
proof -
  have "decode_process_output (as_bytes s) = s" if "s \<in> {sample_version, ''CHECK a ok b'', []}" for s
    using that sample_ascii(4) by (auto intro!: decode_utf8 plain_utf8 simp: sample_nul)
  from this [of "[]"] this [of "if args = [''--version''] then sample_version else ''CHECK a ok b''"]
  show ?thesis by (simp add: mc_command_def sound_with_def sound_machine_def sample_machine_def process_result_def prints_def as_bytes_def)
qed

lemma sound_version: "\<exists>e. wsl_version_finding reference_host (sound_with l x) =
    (Inr (DoctorFinding_ok ''wsl-version'' (format [''WSL '', WslVersion_to_string MINIMUM_WSL_VERSION])), sound_with (l @ [e]) x)"
proof -
  have "parse_wsl_version sample_version = Inr MINIMUM_WSL_VERSION"
    using parse_wsl_version_dotted [of "[2, 5, 1]" "[]"]
    by (simp add: sample_version_def WslVersion_to_string_def MINIMUM_WSL_VERSION_def dotted_def)
  moreover obtain out e where "mc_command ''wsl.exe'' [''--version''] (sound_with l x) = (Inr out, sound_with (l @ [e]) x)"
    "process_result out = \<lparr>pr_success = True, pr_stdout = sample_version, pr_stderr = []\<rparr>"
    using sound_command [of "''wsl.exe''" "[''--version'']" l x] by auto
  ultimately show ?thesis
    by (simp add: wsl_version_finding_def check_wsl_version_def run_process_def io_context_def context_of_def act_simps ensure_def
        attempt_def compare_versions_def Let_def) blast
qed

lemma sound_plugin: "plugin_findings reference_host (sound_with l x) =
    (Inr [DoctorFinding_ok ''plugin-path'' sample_dll, DoctorFinding_ok ''plugin-signature'' ''Authenticode Valid''], sound_with l x)"
proof -
  have "rk_hive PLUGINS \<noteq> rk_hive (subkey LXSS sample_name)" by (simp add: PLUGINS_def subkey_def LXSS_def)
  then have "mc_get_string PLUGINS PLUGIN_VALUE_NAME (sound_with l x) = Inr sample_dll" "mc_open PLUGINS KEY_READ (sound_with l x) = Inr ()"
    by (simp_all add: mc_get_string_def mc_reg_def mc_open_def mc_below_def sound_with_def sound_machine_def sample_machine_def mc_canon_def)
  moreover have "mc_files (sound_with l x) sample_dll \<noteq> None" by (simp add: sound_with_def sound_machine_def sample_machine_def)
  ultimately show ?thesis
    by (simp add: plugin_findings_def open_optional_def registry_string_def act_simps look_def peek_def signature_status_def Let_def
        effect_def signature_status_from_winverifytrust_def plugin_path_finding_def plugin_signature_finding_def sample_dll_path
        to_string_lossy_valid [OF sample_dll_text(1)])
qed

lemma sound_release: "\<exists>f. release_update_finding reference_host b (sound_with l x) = (Inr f, sound_with l x)"
  by (simp add: release_update_finding_def find_release_update_def act_simps look_def attempt_def chain_context_def host_simps)

lemma sound_registry:
  "mc_open LXSS a (sound_with l x) = Inr ()" "mc_open (subkey LXSS sample_name) a (sound_with l x) = Inr ()"
  "mc_get_string (subkey LXSS sample_name) ''DistributionName'' (sound_with l x) = Inr ''Ubuntu''"
  "mc_get_u32 (subkey LXSS sample_name) ''Version'' (sound_with l x) = Inr 2"
  "mc_open (distribution_key reference_host 7) a (sound_with l x) = Inr ()"
  "mc_get_u32 (distribution_key reference_host 7) DISTRIBUTION_ENABLEMENT_VALUE (sound_with l x) = Inr 1"
proof -
  have b: "mc_below LXSS (mc_canon (subkey LXSS n) v)" "mc_below k (mc_canon k v)" for n v k
    by (simp_all add: mc_below_def mc_canon_def subkey_def lower_append lower_backslash starts_with_iff)
  have ne: "lower ''Version'' \<noteq> lower ''DistributionName''" "lower DISTRIBUTION_ENABLEMENT_VALUE \<noteq> lower ''DistributionName''"
    "lower DISTRIBUTION_ENABLEMENT_VALUE \<noteq> lower ''Version''" by code_simp+
  have hive: "rk_hive (distribution_key reference_host 7) \<noteq> rk_hive PLUGINS" by (simp add: distribution_key_def PLUGINS_def)
  show "mc_open LXSS a (sound_with l x) = Inr ()" "mc_open (subkey LXSS sample_name) a (sound_with l x) = Inr ()"
    "mc_open (distribution_key reference_host 7) a (sound_with l x) = Inr ()"
    by (simp_all add: mc_open_def sound_with_def sound_machine_def sample_machine_def b)
  show "mc_get_string (subkey LXSS sample_name) ''DistributionName'' (sound_with l x) = Inr ''Ubuntu''"
    "mc_get_u32 (subkey LXSS sample_name) ''Version'' (sound_with l x) = Inr 2"
    "mc_get_u32 (distribution_key reference_host 7) DISTRIBUTION_ENABLEMENT_VALUE (sound_with l x) = Inr 1"
    using ne hive
    by (simp_all add: mc_get_string_def mc_get_u32_def mc_reg_def sound_with_def sound_machine_def sample_machine_def mc_canon_def)
qed

lemma sound_distributions:
  "\<exists>e. enumerate_distributions reference_host (sound_with l x) = (Inr [sample_distribution], sound_with (l @ [e]) x)"
proof -
  have "mc_enum_keys LXSS (sound_with l' x) = [Inr sample_name]" for l'
    by (simp add: mc_enum_keys_def sound_with_def sound_machine_def sample_machine_def)
  moreover obtain out e where "mc_command ''wsl.exe'' [''--list'', ''--quiet''] (sound_with l x) = (Inr out, sound_with (l @ [e]) x)"
    using sound_command by blast
  ultimately show ?thesis
    by (simp add: enumerate_distributions_def open_optional_def run_process_def io_context_def attempt_def act_simps look_def peek_def
        sound_registry read_distribution_def sample_uuid List.map_filter_simps sample_distribution_def) blast
qed

lemma sound_findings:
  "\<exists>d e. distribution_findings reference_host sample_distribution (sound_with l x) = (Inr d, sound_with (l @ [e]) x) \<and>
     list_all df_ok (dd_findings d)"
proof -
  let ?args = "wsl_root_arguments ''Ubuntu'' [LINUX_STATUS_HELPER, ''--doctor'']"
  obtain out e where run: "mc_command ''wsl.exe'' ?args (sound_with l x) = (Inr out, sound_with (l @ [e]) x)"
    "process_result out = \<lparr>pr_success = True, pr_stdout = ''CHECK a ok b'', pr_stderr = []\<rparr>"
    using sound_command [of "''wsl.exe''" ?args l x] by (auto simp: wsl_root_arguments_def)
  have "check_lines ''CHECK a ok b'' = [''CHECK a ok b'']" "starts_with ''ok '' (snd (check_fields ''CHECK a ok b''))" by code_simp+
  then show ?thesis
    by (simp add: distribution_findings_def distribution_enabled_def open_optional_def act_simps look_def peek_def attempt_def
        sample_distribution_def sound_registry [simplified] should_check_runtime_def remote_doctor_def run_wsl_root_def io_context_def run
        distribution_diagnostics_def Let_def wsl2_finding_def enablement_finding_def runtime_findings_def check_finding_def case_prod_beta
        DoctorFinding_ok_def) blast
qed

lemma sound_diagnosed:
  "fst (doctor reference_host \<lparr>da_distro = None, da_include_prerelease = False\<rparr> sound_machine) = Inr ()"
proof -
  obtain e1 where e1: "wsl_version_finding reference_host (sound_with [] []) =
      (Inr (DoctorFinding_ok ''wsl-version'' (format [''WSL '', WslVersion_to_string MINIMUM_WSL_VERSION])), sound_with ([] @ [e1]) [])"
    using sound_version by blast
  obtain f where f: "release_update_finding reference_host False (sound_with ([] @ [e1]) []) = (Inr f, sound_with ([] @ [e1]) [])"
    using sound_release by blast
  have ok: "df_ok f" using f by (auto simp: release_update_finding_def runs_Inr release_finding_ok)
  obtain e2 where e2: "enumerate_distributions reference_host (sound_with ([] @ [e1]) []) =
      (Inr [sample_distribution], sound_with (([] @ [e1]) @ [e2]) [])"
    using sound_distributions by blast
  obtain d e3 where d: "distribution_findings reference_host sample_distribution (sound_with (([] @ [e1]) @ [e2]) []) =
      (Inr d, sound_with ((([] @ [e1]) @ [e2]) @ [e3]) [])" "list_all df_ok (dd_findings d)"
    using sound_findings by blast
  then have "filter (\<lambda>x. \<not> df_ok x) (dd_findings d) = []" by (simp add: filter_empty_conv list_all_iff)
  then show ?thesis
    unfolding doctor_def
    by (subst sound_start)
       (simp add: act_bind_run e1 [simplified] sound_plugin f [simplified] e2 [simplified] d(1) [simplified] act_return_run Let_def
         failed_findings_def ok DoctorFinding_ok_def print_text_def io_context_def act_simps mc_write_def)
qed

end
