(* ===== verification/Cli_Properties.thy ===== *)
theory Cli_Properties
  imports Cli_Verdict Cli_Scope Reference_Machine
begin

text \<open>
  The properties of the management command, for every machine that keeps the laws of
  \<open>cli_machine\<close>, whatever its programs print and whichever call fails. Each is instantiated on the
  reference machine.
\<close>

section \<open>The library\<close>

text \<open>
  The provisioning of the library part: a distribution is enabled only if the marker of an earlier
  provisioning was found or the provisioning command has just succeeded; after a success the value
  is on, and after any error the registry is as it was.
\<close>

lemma enable_after_provisioning:
  assumes "provisioning S registry" and "enable_with L S distribution uid args marker s = (r, t)"
  shows "(registry t = registry s \<or>
       registry t = (registry s)((distribution_registry_path L uid, DISTRIBUTION_ENABLEMENT_VALUE) \<mapsto> 1) \<and>
       (file_exists S marker s = Inr True \<or> (\<exists>res u. run S ''wsl.exe'' args s = (Inr res, u) \<and> cr_success res))) \<and>
    (is_ok r \<longrightarrow> (\<exists>x. registry t (distribution_registry_path L uid, DISTRIBUTION_ENABLEMENT_VALUE) = Some x \<and> x \<noteq> 0)) \<and>
    (\<not> is_ok r \<longrightarrow> registry t = registry s)"
  using wpD [OF provisioning.enable_with_wp [OF assms(1)] assms(2)] by blast

text \<open>The line of the version is plain ASCII.\<close>

lemma version_dotted:
  "WslVersion_to_string v = dotted [major v, minor v, patch v]"
  "WslVersion_to_string v @ ''.'' @ show_nat (unat build) = dotted [major v, minor v, patch v, build]"
  by (simp_all add: WslVersion_to_string_def dotted_def)

lemma version_line_plain:
  assumes "ns \<noteq> []"
  shows "list_all (\<lambda>c. of_char c < (128::nat)) (''WSL version: '' @ dotted ns)"
    "CHR 0x00 \<notin> set (''WSL version: '' @ dotted ns)" "2 \<le> length (''WSL version: '' @ dotted ns)"
proof -
  have "of_char c < (128::nat) \<and> c \<noteq> CHR 0x00" if "c \<in> set (dotted ns)" for c
    using dotted_chars(1) [OF assms] that
    by (auto simp: list_all_iff version_char_def is_ascii_digit_def less_eq_char_def)
  then show "list_all (\<lambda>c. of_char c < (128::nat)) (''WSL version: '' @ dotted ns)"
    "CHR 0x00 \<notin> set (''WSL version: '' @ dotted ns)" "2 \<le> length (''WSL version: '' @ dotted ns)"
    by (auto simp: list_all_iff)
qed


section \<open>The output of programs\<close>

text \<open>
  C40. What a Windows program prints is read exactly, if it has no NUL character and is printed in UTF-8,
  in UTF-16 with a byte order mark, or in UTF-16 without one and then consists of at least two ASCII
  characters. Nothing is claimed of other text in UTF-16 without a mark, which the decoder can take for
  UTF-8. The version that \<^verbatim>\<open>wsl.exe\<close> prints is therefore read back exactly in each of the three,
  with three components or with a build number as the fourth.
\<close>

theorem program_text_read:
  assumes "is_utf8 s" and "CHR 0x00 \<notin> set s"
  shows "decode_process_output (as_bytes s) = s \<and>
    decode_process_output ([0xFF, 0xFE] @ utf16_le s) = s \<and>
    (list_all (\<lambda>c. of_char c < (128::nat)) s \<and> 2 \<le> length s \<longrightarrow> decode_process_output (utf16_le s) = s) \<and>
    (\<forall>printed \<in> {WslVersion_to_string v, WslVersion_to_string v @ ''.'' @ show_nat (unat (build :: u32))}.
       \<forall>bytes \<in> {as_bytes (''WSL version: '' @ printed), [0xFF, 0xFE] @ utf16_le (''WSL version: '' @ printed),
           utf16_le (''WSL version: '' @ printed)}.
         parse_wsl_version (decode_process_output bytes) = Inr v)"
proof (intro conjI impI ballI)
  fix printed bytes
  assume "printed \<in> {WslVersion_to_string v, WslVersion_to_string v @ ''.'' @ show_nat (unat build)}"
    and bytes: "bytes \<in> {as_bytes (''WSL version: '' @ printed), [0xFF, 0xFE] @ utf16_le (''WSL version: '' @ printed),
      utf16_le (''WSL version: '' @ printed)}"
  then obtain ns where printed: "printed = dotted ns" and ns: "ns = [major v, minor v, patch v] \<or> ns = [major v, minor v, patch v, build]"
    using version_dotted by blast
  have "ns \<noteq> []" using ns by auto
  note plain = version_line_plain [OF this, folded printed]
  have "decode_process_output bytes = ''WSL version: '' @ printed"
    using bytes plain encode_utf16_ascii(2) [OF plain(1)] decode_utf8 decode_marked decode_unmarked by fastforce
  moreover have "parse_wsl_version (''WSL version: '' @ printed) = Inr v"
    using parse_wsl_version_dotted [of ns "[]"] ns printed by auto
  ultimately show "parse_wsl_version (decode_process_output bytes) = Inr v" by simp
qed (use assms decode_marked in \<open>auto simp: decode_utf8 decode_unmarked\<close>)

theorem program_text_read_witness:
  "decode_process_output (utf16_le ''ok'') = ''ok'' \<and>
   parse_wsl_version (decode_process_output (utf16_le (''WSL version: '' @
     WslVersion_to_string MINIMUM_WSL_VERSION @ ''.'' @ show_nat (unat (7 :: u32))))) = Inr MINIMUM_WSL_VERSION"
  using program_text_read [of "''ok''" MINIMUM_WSL_VERSION 7] encode_utf16_ascii(2) [of "''ok''"] by simp


section \<open>The payload\<close>

text \<open>
  C37. Verifying a payload reads only, never panics and succeeds exactly when the manifest names at
  least one file, every file it names has the digest it states, and the required files are there.
  The path of each such file has no component that leads upwards; it is appended to the root, unless
  it starts with a drive letter: then it replaces the root, so such a manifest names files elsewhere.
\<close>

theorem payload_verified:
  "snd (verify_payload H root s) = s \<and>
   (fst (verify_payload H root s) = Inr () \<longleftrightarrow> payload_holds H root s) \<and>
   (fst (verify_payload H root s) = Inr () \<or> failed (fst (verify_payload H root s))) \<and>
   (entry_holds H root s line \<longrightarrow>
     (\<exists>expected relative contents. split_once ''  '' line = Some (expected, relative) \<and>
        read_file H (join root relative) s = Inr contents \<and>
        eq_ignore_ascii_case (hex_of (sha256 H contents)) expected \<and> ParentDir \<notin> set (components relative) \<and>
        (prefix_verbatim root \<or> join root relative \<in> {root @ relative, root @ [BACK] @ relative} \<or>
         (\<exists>d. parse_prefix relative = Some (Disk d)) \<and> join root relative = relative)))"
proof (intro conjI impI)
  note d = verify_payload_decides [of H root s, unfolded decides_def wp_def]
  show "snd (verify_payload H root s) = s" "fst (verify_payload H root s) = Inr () \<longleftrightarrow> payload_holds H root s"
    "fst (verify_payload H root s) = Inr () \<or> failed (fst (verify_payload H root s))"
    using d by (auto split: if_splits)
next
  assume "entry_holds H root s line"
  then obtain expected relative contents where entry: "split_once ''  '' line = Some (expected, relative)"
    "read_file H (join root relative) s = Inr contents" "eq_ignore_ascii_case (hex_of (sha256 H contents)) expected"
    and safe: "safe_relative relative"
    by (auto simp: entry_holds_def split: option.split_asm prod.split_asm sum.split_asm)
  have "prefix_verbatim root \<or> join root relative \<in> {root @ relative, root @ [BACK] @ relative} \<or>
      (\<exists>d. parse_prefix relative = Some (Disk d)) \<and> join root relative = relative"
    using safe join_relative [of relative root] join_prefixed [of relative root] unfolding safe_relative_iff by auto
  then show "\<exists>expected relative contents. split_once ''  '' line = Some (expected, relative) \<and>
      read_file H (join root relative) s = Inr contents \<and>
      eq_ignore_ascii_case (hex_of (sha256 H contents)) expected \<and> ParentDir \<notin> set (components relative) \<and>
      (prefix_verbatim root \<or> join root relative \<in> {root @ relative, root @ [BACK] @ relative} \<or>
       (\<exists>d. parse_prefix relative = Some (Disk d)) \<and> join root relative = relative)"
    using entry safe unfolding safe_relative_iff by blast
qed

theorem payload_verified_witness:
  "fst (verify_payload reference_host sample_dir sample_machine) = Inr () \<and>
   (\<exists>relative. split_once ''  '' sample_manifest = Some (replicate 64 (CHR ''0''), relative) \<and>
     join sample_dir relative = sample_dir @ [BACK] @ relative)"
proof -
  have "payload_holds reference_host sample_dir sample_machine" by (subst sample_start) (rule sample_payload)
  moreover have "entry_holds reference_host sample_dir sample_machine sample_manifest"
    by (subst sample_start) (rule sample_entry)
  moreover have "join sample_dir ''a'' = sample_dir @ [BACK] @ ''a''" by code_simp
  ultimately show ?thesis
    using payload_verified [of reference_host sample_dir sample_machine sample_manifest] sample_manifest_lines(2) by auto
qed


section \<open>Commands that change the machine\<close>

text \<open>
  C33. A distribution is enabled only after it was provisioned by this run: its name matched exactly
  one registered distribution, which is of version 2, WSL is recent enough, the payload was verified,
  and the bootstrap script of this payload passed its check and then installed, as root. Then exactly
  the enablement value of this distribution is set; after a reported error the registry is as before.
\<close>

theorem enable_provisions_first:
  assumes "cli_machine H canon below reg log" and "distro_enable H args s = (r, t)"
  shows "(failed r \<longrightarrow> reg t = reg s) \<and>
    (r = Inr () \<or> reg t \<noteq> reg s \<longrightarrow>
      (\<exists>w d root broker u v.
         find_distribution H (de_name args) s = (Inr d, w) \<and> only_match H (de_name args) w d \<and> quiet reg log s w \<and>
         dist_version d = Some 2 \<and> (\<exists>version. check_wsl_version H w = (Inr version, u)) \<and> quiet reg log w u \<and>
         provisioning_run H log d args root broker u v \<and> log t = log v \<and>
         reg t = (reg s)(canon (distribution_key H (dist_id d)) DISTRIBUTION_ENABLEMENT_VALUE \<mapsto> RegDword 1)))"
  by (rule cli_machine.distro_enable_result [OF assms])

theorem enable_provisions_first_witness:
  "\<exists>d :: Distribution. mc_reg (snd (distro_enable reference_host sample_enable sample_machine)) =
     (mc_reg sample_machine)(mc_canon (distribution_key reference_host (dist_id d)) DISTRIBUTION_ENABLEMENT_VALUE \<mapsto> RegDword 1)"
  using conjunct2 [OF enable_provisions_first [OF ref_machine.cli_machine_axioms prod.collapse [symmetric]],
      THEN mp, OF disjI1, OF sample_enabled] by blast

text \<open>
  Windows spells a path also with a prefix that switches its interpretation off. Two texts name the
  same path if they differ in this prefix and in the case of letters at most.
\<close>

definition plain_path :: "string \<Rightarrow> string" where
  "plain_path p =
     (if take 8 p = [BACK, BACK, CHR ''?'', BACK] @ ''UNC'' @ [BACK] then [BACK, BACK] @ drop 8 p
      else if take 4 p = [BACK, BACK, CHR ''?'', BACK] then drop 4 p
      else p)"

definition same_path :: "string \<Rightarrow> string \<Rightarrow> bool" where
  "same_path p q \<longleftrightarrow> map to_ascii_lower (plain_path p) = map to_ascii_lower (plain_path q)"

lemma ascii_prefix_utf8: "list_all (\<lambda>c. of_char c < (128::nat)) p \<Longrightarrow> is_utf8 (p @ s) \<longleftrightarrow> is_utf8 s"
  by (induction p) (auto simp: is_utf8_def as_bytes_def u8_compare(1) unat_byte_of_char)

lemma normalize_plain:
  assumes "is_utf8 p"
  shows "to_string_lossy (normalize_windows_path p) = plain_path p"
proof -
  have cut: "is_utf8 (drop n p)" if "take n p = q" and "list_all (\<lambda>c. of_char c < (128::nat)) q" for n q
    using assms that ascii_prefix_utf8 [of q "drop n p"] append_take_drop_id [of n p] by simp
  have unc: "is_utf8 ([BACK, BACK] @ drop 8 p)" if "take 8 p = [BACK, BACK, CHR ''?'', BACK] @ ''UNC'' @ [BACK]"
    using cut [OF that] ascii_prefix_utf8 [of "[BACK, BACK]"] by (simp add: BACK_def)
  have plain: "is_utf8 (drop 4 p)" if "take 4 p = [BACK, BACK, CHR ''?'', BACK]"
    using cut [OF that] by (simp add: BACK_def)
  have "length (VERBATIM @ ''UNC'' @ [BACK]) = 8" "length VERBATIM = 4" by (simp_all add: VERBATIM_def)
  then have strip: "strip_prefix (VERBATIM @ ''UNC'' @ [BACK]) p =
      (if take 8 p = [BACK, BACK, CHR ''?'', BACK] @ ''UNC'' @ [BACK] then Some (drop 8 p) else None)"
    "strip_prefix VERBATIM p = (if take 4 p = [BACK, BACK, CHR ''?'', BACK] then Some (drop 4 p) else None)"
    unfolding strip_prefix_def by (simp_all only: VERBATIM_def)
  show ?thesis
    using assms unc plain
    by (simp only: normalize_windows_path_def Let_def plain_path_def to_string_lossy_valid [OF assms] strip)
       (simp add: to_string_lossy_valid)
qed

lemma windows_paths_equal_iff: "is_utf8 p \<Longrightarrow> is_utf8 q \<Longrightarrow> windows_paths_equal p q \<longleftrightarrow> same_path p q"
  by (simp add: windows_paths_equal_def eq_ignore_ascii_case_def same_path_def normalize_plain)

lemma to_str_Some: "to_str p = Some x \<Longrightarrow> x = p \<and> is_utf8 p"
  by (auto simp: to_str_def from_utf8_as_bytes split: if_splits)

lemma names_product_cases:
  "names_product dll v = Inr True \<longleftrightarrow> (\<forall>p. dll = Some p \<longrightarrow> is_utf8 p \<and> windows_paths_equal v p)"
  "names_product dll v = Inr False \<longleftrightarrow> (\<exists>p. dll = Some p \<and> is_utf8 p \<and> \<not> windows_paths_equal v p)"
  by (auto simp: names_product_def to_str_def from_utf8_as_bytes split: option.splits)

text \<open>
  C35. The plugin value of the registry is written only by an elevated caller, with the path of an
  existing DLL of the right name whose signature Windows accepted unless unsigned ones are allowed, and
  only if there was no value or one that names the same path. It is removed only by an elevated
  caller; when the caller says which DLL is meant, only if the value names this path, and a
  value of another path is reported as kept. Without such a path any value at this name is removed.
  No other value changes.
\<close>

theorem plugin_value_owned:
  assumes "cli_machine H canon below reg log"
    and "\<And>v. reg s (canon PLUGINS PLUGIN_VALUE_NAME) = Some (RegText v) \<Longrightarrow> is_utf8 v"
    and "plugin_install H ia s = (ir, it)" and "plugin_uninstall H ua s = (ur, ut)"
  shows "((reg it = reg s \<and> \<not> is_ok ir) \<or>
      (\<exists>dll. is_utf8 dll \<and> may_register H canon reg ia s dll \<and>
         (\<forall>old. reg s (canon PLUGINS PLUGIN_VALUE_NAME) = Some (RegText old) \<longrightarrow> same_path old dll) \<and>
         reg it = (reg s)(canon PLUGINS PLUGIN_VALUE_NAME \<mapsto> RegText dll))) \<and>
    ((reg ut = reg s \<and> (is_ok ur \<longrightarrow> reg s (canon PLUGINS PLUGIN_VALUE_NAME) = None \<or>
        (\<exists>v p. reg s (canon PLUGINS PLUGIN_VALUE_NAME) = Some (RegText v) \<and> pu_dll ua = Some p \<and> is_utf8 p \<and> \<not> same_path v p))) \<or>
      (\<exists>v. reg s (canon PLUGINS PLUGIN_VALUE_NAME) = Some (RegText v) \<and>
         (\<forall>p. pu_dll ua = Some p \<longrightarrow> is_utf8 p \<and> same_path v p) \<and>
         (\<exists>u. is_administrator H s = (Inr True, u)) \<and> reg ut = (reg s)(canon PLUGINS PLUGIN_VALUE_NAME := None)))"
proof (intro conjI, goal_cases)
  case 1
  have "same_path old dll" if "may_register H canon reg ia s dll" "is_utf8 dll"
      "reg s (canon PLUGINS PLUGIN_VALUE_NAME) = Some (RegText old)" for old dll
    using that assms(2) windows_paths_equal_iff by (auto simp: may_register_def)
  then show ?case
    using wpD [OF cli_machine.plugin_install_wp [OF assms(1)] assms(3)] to_str_Some by blast
next
  case 2
  have "windows_paths_equal v p \<longleftrightarrow> same_path v p"
    if "reg s (canon PLUGINS PLUGIN_VALUE_NAME) = Some (RegText v)" "is_utf8 p" for v p
    using that assms(2) windows_paths_equal_iff by blast
  then show ?case
    using wpD [OF cli_machine.plugin_uninstall_wp [OF assms(1)] assms(4)] unfolding names_product_cases by blast
qed

theorem plugin_value_owned_witness:
  "\<exists>dll. may_register reference_host mc_canon mc_reg sample_install sample_machine dll"
proof -
  have "rk_hive PLUGINS \<noteq> rk_hive (subkey LXSS sample_name)" by (simp add: PLUGINS_def subkey_def LXSS_def)
  then have "mc_reg sample_machine (mc_canon PLUGINS PLUGIN_VALUE_NAME) = None"
    by (simp add: mc_reg_def sample_machine_def mc_canon_def)
  then have "is_utf8 v" if "mc_reg sample_machine (mc_canon PLUGINS PLUGIN_VALUE_NAME) = Some (RegText v)" for v
    using that by simp
  note owned = plugin_value_owned [OF ref_machine.cli_machine_axioms this prod.collapse [symmetric] prod.collapse [symmetric],
      where ia = sample_install and ua = "\<lparr>pu_dll = None, pu_restart = \<lparr>ra_restart_wslservice = False\<rparr>\<rparr>"]
  have "is_ok (fst (plugin_install reference_host sample_install sample_machine))" by (simp add: sample_installed)
  with conjunct1 [OF owned] show ?thesis by blast
qed

text \<open>
  C36. A distribution is disabled only after the files of the project were removed from it: by the
  script of a verified payload, or by the helper installed in it, or the test for the helper failed
  without any output, which is how it says that there is none (a test that fails with a message stops
  the command). Only values below the enablement key of this distribution are removed, and after a
  success none is left there.
\<close>

theorem disable_after_removal:
  assumes "cli_machine H canon below reg log" and "distro_disable H args s = (r, t)"
  shows "(reg t = reg s \<and> \<not> is_ok r) \<or>
    (\<exists>w d. find_distribution H (dn_name args) s = (Inr d, w) \<and> only_match H (dn_name args) w d \<and>
       quiet reg log s w \<and> removed_at H log w (log t) d \<and>
       (\<forall>p. \<not> below (distribution_key H (dist_id d)) p \<longrightarrow> reg t p = reg s p) \<and>
       (\<forall>p. reg t p = None \<or> reg t p = reg s p) \<and>
       (is_ok r \<longrightarrow> (\<forall>p. below (distribution_key H (dist_id d)) p \<longrightarrow> reg t p = None)))"
  using wpD [OF cli_machine.distro_disable_wp [OF assms(1)] assms(2)] .

theorem disable_after_removal_witness:
  "\<exists>w d. removed_at reference_host mc_log w (mc_log (snd (distro_disable reference_host \<lparr>dn_name = ''ubuntu''\<rparr> sample_machine))) d"
  using disable_after_removal [OF ref_machine.cli_machine_axioms prod.collapse [symmetric],
      of "\<lparr>dn_name = ''ubuntu''\<rparr>" sample_machine] sample_disabled by force

text \<open>
  C34. Uninstalling starts the removal of the product only for a caller who is not elevated, and unless
  provisioning is to be kept only when no enablement of any distribution is left in the registry. The
  clean-up removes only values below the keys of distributions, and for a distribution that WSL knows
  only after the files of the project were removed from it.
\<close>

theorem uninstall_cleans_first:
  assumes "cli_machine H canon below reg log"
    and "uninstall H args s = (r, t)" and "clean_distro_provisioning H s = (cr, ct)"
  shows "(un_keep_distro_provisioning args \<longrightarrow> reg t = reg s) \<and>
    (spawned (log t) = spawned (log s) \<or>
     removal_started H (spawned (log s)) (spawned (log t)) \<and> (\<exists>u. is_administrator H s = (Inr False, u)) \<and>
     (\<not> un_keep_distro_provisioning args \<longrightarrow> (\<forall>uid v. reg t (canon (distribution_key H uid) v) = None))) \<and>
    (reg ct = reg s \<or> (\<exists>ds w. enumerate_distributions H s = (Inr ds, w) \<and> cleaned H below reg log ds s ct)) \<and>
    (is_ok cr \<longrightarrow> (\<forall>uid v. reg ct (canon (distribution_key H uid) v) = None))"
  using wpD [OF cli_machine.uninstall_wp [OF assms(1)] assms(2)] wpD [OF cli_machine.clean_wp [OF assms(1)] assms(3)] by blast

theorem uninstall_cleans_first_witness:
  "fst (uninstall reference_host \<lparr>un_keep_distro_provisioning = False\<rparr> sample_user) = Inr () \<and>
   (let t = snd (uninstall reference_host \<lparr>un_keep_distro_provisioning = False\<rparr> sample_user) in
    spawned (mc_log t) = [] \<or> (\<forall>uid v. mc_reg t (mc_canon (distribution_key reference_host uid) v) = None))"
proof -
  have "spawned (mc_log sample_user) = []" by (simp add: sample_user_def sample_machine_def spawned_def)
  with uninstall_cleans_first [OF ref_machine.cli_machine_axioms prod.collapse [symmetric] prod.collapse [symmetric],
      of "\<lparr>un_keep_distro_provisioning = False\<rparr>" sample_user] sample_uninstalled
  show ?thesis unfolding Let_def by auto
qed

text \<open>
  C38. The whole command changes no value of the registry but the one of the plugin and those below the
  enablement keys of distributions, and the commands that only report, refresh or upgrade change none.
  It exits with 0 exactly when its command succeeded.
\<close>

theorem cli_registry_scope:
  assumes "cli_machine H canon below reg log" and "cli_main H cli s = (code, t)"
  shows "(\<forall>p. reg t p \<noteq> reg s p \<longrightarrow>
       p = canon PLUGINS PLUGIN_VALUE_NAME \<or> (\<exists>uid. below (distribution_key H uid) p)) \<and>
    (\<not> changes_registry (cli_command cli) \<longrightarrow> reg t = reg s) \<and>
    (code = 0 \<longleftrightarrow> is_ok (fst (run_cli H cli s)))"
proof -
  have main: "reg t = reg (snd (run_cli H cli s))" "code = 0 \<longleftrightarrow> is_ok (fst (run_cli H cli s))"
    using cli_machine.cli_main_result [OF assms] by auto
  have "only_ours H canon below reg s (snd (run_cli H cli s))"
    by (rule only_ours_rtranclp) (use cli_machine.ours_cli [OF assms(1), of cli] in \<open>simp add: along_def\<close>)
  then show ?thesis using main cli_machine.read_only_cli [OF assms(1)] unfolding only_ours_def by auto
qed

theorem cli_registry_scope_witness:
  "fst (cli_main reference_host \<lparr>cli_command = Plugin (Install sample_install)\<rparr> sample_machine) = 0 \<and>
   mc_reg (snd (cli_main reference_host \<lparr>cli_command = Plugin (Install sample_install)\<rparr> sample_machine))
     (mc_canon LXSS ''DefaultDistribution'') = mc_reg sample_machine (mc_canon LXSS ''DefaultDistribution'')"
proof -
  have "mc_canon LXSS ''DefaultDistribution'' \<noteq> mc_canon PLUGINS PLUGIN_VALUE_NAME"
    by (simp add: mc_canon_def LXSS_def PLUGINS_def)
  moreover have "\<not> mc_below (distribution_key reference_host uid) (mc_canon LXSS ''DefaultDistribution'')" for uid
    using mc_distribution_elsewhere by blast
  moreover have "is_ok (fst (run_cli reference_host \<lparr>cli_command = Plugin (Install sample_install)\<rparr> sample_machine))"
    by (simp add: run_cli_def sample_installed)
  ultimately show ?thesis
    using cli_registry_scope [OF ref_machine.cli_machine_axioms prod.collapse [symmetric],
      of "\<lparr>cli_command = Plugin (Install sample_install)\<rparr>" sample_machine] by blast
qed


section \<open>The diagnosis\<close>

text \<open>
  C39. A diagnosis that succeeds wrote nothing to the registry, and what it vouches for holds. The first
  program it ran was \<^verbatim>\<open>wsl.exe --version\<close>, which succeeded and printed at least version 2.5.1. The
  plugin value in the registry is an absolute path of an existing file whose signature Windows accepts,
  or there is no such value and the key has others. Every distribution it was asked about, which is the
  only one of the given name or all those listed, is of version 2, is enabled in the registry, and its
  own status helper succeeded there with at least one check line, each of them reading
  \<^verbatim>\<open>CHECK name ok detail\<close>.
\<close>

theorem doctor_verdict:
  assumes "cli_machine H canon below reg log"
    and "\<And>k v u x. reg_get_u32 H k v u = Inr x \<Longrightarrow> reg u (canon k v) = Some (RegDword x)"
    and "doctor H args s = (Inr (), t)"
  shows "quiet reg log s t \<and>
    (\<exists>out post v. log t = log s @ Ran ''wsl.exe'' [''--version''] out # post \<and> out_success out \<and>
       parse_wsl_version (decode_process_output (out_stdout out)) = Inr v \<and>
       (2 < major v \<or> major v = 2 \<and> (5 < minor v \<or> minor v = 5 \<and> 1 \<le> patch v))) \<and>
    (\<exists>u. quiet reg log s u \<and>
       ((\<exists>path x. reg s (canon PLUGINS PLUGIN_VALUE_NAME) = Some (RegText path) \<and> is_absolute path \<and> is_file H path u \<and>
           WinVerifyTrustEx H \<lparr>wt_file_path = encode_utf16 path @ [0], wt_state_action = WTD_STATEACTION_VERIFY\<rparr> u = (0, x)) \<or>
        reg s (canon PLUGINS PLUGIN_VALUE_NAME) = None \<and>
          (\<exists>name. Inr name \<in> set (reg_enum_values H PLUGINS u) \<and> name \<noteq> PLUGIN_VALUE_NAME))) \<and>
    (\<exists>ds u w. quiet reg log s u \<and>
       (case da_distro args of
          Some name \<Rightarrow> \<exists>d. ds = [d] \<and> find_distribution H name u = (Inr d, w) \<and> only_match H name w d
        | None \<Rightarrow> enumerate_distributions H u = (Inr ds, w)) \<and>
       (\<forall>d \<in> set ds. dist_version d = Some 2 \<and>
          (\<exists>k. reg s (canon (distribution_key H (dist_id d)) DISTRIBUTION_ENABLEMENT_VALUE) = Some (RegDword k) \<and> k \<noteq> 0) \<and>
          (\<exists>pre out post. log t = log s @ pre @
             Ran ''wsl.exe'' (wsl_root_arguments (dist_name d) [LINUX_STATUS_HELPER, ''--doctor'']) out # post \<and>
             out_success out \<and> checks_passed (decode_process_output (out_stdout out)))))"
  using cli_machine.quiet_run [OF assms(1) cli_machine.quiet_doctor(6) [OF assms(1)] assms(3)]
    cli_machine.doctor_healthy [OF assms]
  by (intro conjI) assumption+

theorem doctor_verdict_witness:
  "\<exists>t out post v. doctor reference_host \<lparr>da_distro = None, da_include_prerelease = False\<rparr> sound_machine = (Inr (), t) \<and>
     mc_log t = Ran ''wsl.exe'' [''--version''] out # post \<and>
     parse_wsl_version (decode_process_output (out_stdout out)) = Inr v \<and>
     (2 < major v \<or> major v = 2 \<and> (5 < minor v \<or> minor v = 5 \<and> 1 \<le> patch v))"
proof -
  obtain t where t: "doctor reference_host \<lparr>da_distro = None, da_include_prerelease = False\<rparr> sound_machine = (Inr (), t)"
    using sound_diagnosed by (metis prod.collapse)
  have u32: "reg_get_u32 reference_host k v u = Inr x \<Longrightarrow> mc_reg u (mc_canon k v) = Some (RegDword x)" for k v u x
    by (auto simp: mc_get_u32_def split: option.splits reg_value.splits)
  have "mc_log sound_machine = []" by (simp add: sound_machine_def sample_machine_def)
  then show ?thesis
    using doctor_verdict [OF ref_machine.cli_machine_axioms u32 t] t by auto
qed

end
