(* ===== verification/Spec2Isabelle.thy ===== *)
theory Spec2Isabelle
  imports Broker_Properties Protocol_Properties Provider_Properties Client_Properties Process_Properties Cli_Properties
begin

text \<open>
  A verification development of wincred-libsecret-wsl-plugin: the Secret Service of a WSL
  distribution, stored in the Windows Credential Manager.

  \<^bold>\<open>The program.\<close> Applications in a distribution speak the D-Bus interface
  \<^verbatim>\<open>org.freedesktop.secrets\<close> to the provider (\<^verbatim>\<open>crates/provider\<close>). The provider keeps the
  sessions of its clients, decrypts and encrypts the secrets in transit, and turns every method
  into requests to the broker (\<^verbatim>\<open>crates/broker\<close>), a Windows process it starts and talks to over
  standard input and output in the frames of \<^verbatim>\<open>crates/protocol\<close>. The broker stores collections,
  aliases, item metadata and secrets as credentials with structured names, under one lock, and
  recovers from interrupted updates at its start. A management command (\<^verbatim>\<open>crates/cli\<close>) registers
  the plugin, provisions, refreshes and disables distributions, upgrades and uninstalls the product,
  and diagnoses all of it.

  \<^bold>\<open>Theories and sources.\<close>
  \<^item> \<open>Prelude\<close>: results, actions with state and their weakest preconditions, ordered maps, strings as
    UTF-8 bytes, the string functions of the standard library; the collections \<open>act_simps\<close> and
    \<open>wp_simps\<close>. \<open>Wide_Strings\<close>: UTF-16 and its inverse decoding.
  \<^item> \<open>Protocol_Model\<close>, \<open>Target_Name\<close>, \<open>Messages\<close>, \<open>Cbor\<close>, \<open>Frames\<close>, \<open>Vault_Plan\<close>: the files of
    \<^verbatim>\<open>crates/protocol/src\<close>. Integers are words of their width; an operation is a value of
    \<open>Operation\<close>, an answer a sum of \<open>BrokerError\<close> and \<open>ResponseBody\<close>.
  \<^item> \<open>Backend\<close> (\<^verbatim>\<open>backend.rs\<close>): the trait \<^verbatim>\<open>VaultBackend\<close> as a record, the in-memory backend, and the
    locale \<open>vault_backend\<close>, the contract of a backend. \<open>Wincred_Backend\<close> (\<^verbatim>\<open>wincred.rs\<close>): the Windows
    backend over the Win32 functions, with the laws of \<open>credential_manager\<close>. Which names the
    Credential Manager takes for the same is a parameter of these laws: the backend acts as a map on
    every name of which no other spelling is in use, and keeps the whole contract where no two target
    names clash (\<open>wincred_separated\<close>).
  \<^item> \<open>Broker_Service\<close> (\<^verbatim>\<open>service.rs\<close>): one definition per method of the broker, \<open>dispatch\<close> and \<open>execute\<close>.
    \<open>Broker_Views\<close> to \<open>Broker_Operations\<close> verify them: the abstract vault (\<open>view\<close>), its
    specification \<open>apply_op\<close>, what each method does to the store on every branch, and histories of
    requests (\<open>broker_run\<close>). \<open>Broker_Serve\<close> (\<^verbatim>\<open>main.rs\<close>): the process around them.
  \<^item> \<open>Provider_Error\<close>, \<open>Provider_Paths\<close>, \<open>Session_Crypto\<close>, \<open>Provider_Client\<close>, \<open>Memory_Broker\<close>,
    \<open>Provider_Service\<close>, \<open>Provider_Objects\<close>: the files of \<^verbatim>\<open>crates/provider/src\<close>. A handler is an action
    on the state \<open>provider\<close> (sessions and the outside world) whose failure is a panic or an error;
    the libraries it calls are the fields of \<open>platform\<close>, with the laws of \<open>dbus_platform\<close>.
    \<open>Provider_Invariants\<close>, \<open>Provider_Sessions\<close> and \<open>Provider_Vault\<close> verify them: absence of panics, the
    session table over all runs (\<open>provider_run\<close>), secrets in transit, and the provider on a verified
    broker (\<open>linked_provider\<close>). \<open>Provider_Process\<close> (\<^verbatim>\<open>main.rs\<close>): the process around it, on a bus with the
    laws of \<open>provider_bus\<close>, which say which object is served at a path under which interface.
  \<^item> \<open>Cli_Plan\<close> (\<^verbatim>\<open>crates/cli/src/lib.rs\<close>): parsing the output of \<^verbatim>\<open>wsl.exe\<close>, choosing a release,
    enabling and disabling a distribution over \<open>provisioning_system\<close>, with the laws of
    \<open>provisioning\<close>.
  \<^item> \<open>Lossy_Text\<close> and \<open>Windows_Path\<close>: what \<^verbatim>\<open>crates/cli/src/main.rs\<close> uses of the standard library, the
    lossy decoders of UTF-8 and UTF-16 and the paths of Windows with their prefixes and components.
    \<open>Cli_Host\<close>: errors as chains of messages, or a panic; the machine as the record \<open>cli_host\<close>
    (registry, processes, files, signatures, HTTP); programs and their output. \<open>Cli_Payload\<close>: validated
    paths and the verification of a payload. \<open>Cli_Distributions\<close>: the distributions of WSL and the
    enablement keys. \<open>Cli_Doctor\<close>: releases, findings and the diagnosis. \<open>Cli_Commands\<close>: one
    definition per command, \<open>run_cli\<close> and \<open>cli_main\<close>.
  \<^item> \<open>Cli_Machine\<close>: the laws of the machine as the locale \<open>cli_machine\<close>, a view of the registry as a map
    of values and of the programs that were run, and \<open>along\<close>, the actions that only make steps of a
    relation. \<open>Cli_Effects\<close>, \<open>Cli_Removal\<close>, \<open>Cli_Verdict\<close> and \<open>Cli_Scope\<close> verify the commands under these
    laws: provisioning and registration, disabling and uninstalling, the verdict of the diagnosis,
    and what the command as a whole may change.
  \<^item> \<open>Reference_Text\<close>, \<open>Reference_Cbor\<close>, \<open>Reference_Vault\<close>, \<open>Reference_Platform\<close>, \<open>Reference_Bus\<close>,
    \<open>Reference_Wincred\<close>, \<open>Reference_Machine\<close>: concrete implementations of the third-party parameters that
    keep all laws. Every locale is interpreted on the definitions of the program over them.

  \<^bold>\<open>What is shown.\<close>
  \<^item> \<open>Broker_Properties\<close> (C1 to C11): consistency of the vault over all histories with arbitrary backend
    faults; refinement of the specification by every successful request, and bounds on the effect of
    every failed one; credentials of others are never touched; requests return and free the lock;
    a created item is read back; conditional updates lose nothing; deletion, recovery, replacement
    and search are exact.
  \<^item> \<open>Protocol_Properties\<close> (C12 to C17): target names are canonical; frames are read back and bounded;
    the order of commit steps; the recovery plan.
  \<^item> \<open>Provider_Properties\<close> (C18 to C24): no handler panics; sessions are well-formed and used
    only by their owner; secrets are given only to the owner of a session, encrypted; a
    secret makes the way from client to store and back; outdated updates are refused; the
    name on the bus is taken only when the bus serves exactly the objects of the vault.
  \<^item> \<open>Client_Properties\<close> (C25 to C29): key agreement; only readings are repeated, after one restart and
    on a new process; the answer to a request is the first frame with its number; the test double
    refuses, answers and changes its vault as the specification says.
  \<^item> \<open>Process_Properties\<close> (C30 to C32): the broker process ends after its input and answers in order; the
    Windows backend acts as a map of targets as long as no two spellings of a name meet.
  \<^item> \<open>Cli_Properties\<close> (C33 to C40): a distribution is enabled only after it was provisioned from a verified
    payload, and disabled only after its files are gone; the product is removed only after no
    enablement is left; the plugin value is not written over another path, nor removed when it is
    not that of the given DLL; the verification of a payload is exact, and a diagnosis succeeds only
    on a sound installation; nothing else in the registry changes; the output of programs is read
    exactly in UTF-8, in marked UTF-16 and, if it is ASCII, in unmarked UTF-16.

  \<^bold>\<open>Bounds and loops.\<close> Loops are structural recursion over the lists they run on. The loop of the
  broker process may run for ever and is a partial function; it is shown to end on every finite
  input. Waiting for the lock is the value \<^const>\<open>None\<close> of \<open>acquire_lock\<close>. The reader task of the
  client makes, per call, as many rounds as the parameter \<open>progress\<close> says before the deadline: the
  properties hold for every number of rounds. Frames are limited to 1 MiB as in the code, and
  lengths are converted to 32 bits with the overflow written out.

  \<^bold>\<open>Not modelled.\<close> The C++ plugin, the installers and the scripts, which are not Rust; the derived
  argument parsers (the processes and commands start from parsed arguments); logging, the redacted
  debug output of secrets and the wiping of freed Rust buffers, which have no counterpart in values; and
  the test modules. Handlers of the provider run one at a time: interleaving at their
  suspension points is not modelled, nor is the time that passes between them; calls that reach the
  provider before it has its name are not interleaved with its start. The state of the
  machine that the management command sees is changed by its own calls and the programs it runs, so
  other processes act only within these. Names of credentials that the Credential Manager does not
  tell apart, which base64 text of aliases can be, are outside of the contract the broker is verified
  against (\<open>alias_names_clash\<close>); which characters the debug output of a name escapes is a parameter.
\<close>

end
